(* ===== verification/Prelude.thy ===== *)
theory Prelude
  imports Main "HOL-Library.Word" "HOL-Library.Monad_Syntax"
begin

section \<open>Prelude: C integers, fallible accesses and loops\<close>

text \<open>
  The vocabulary every component shares.

  \<^item> \<open>u32\<close> and \<open>byte\<close> are the C types \<open>uint32_t\<close> and \<open>unsigned char\<close>; their
    arithmetic wraps. A \<open>uint32_t\<close> passed where the code declares an \<open>int\<close> is read
    by \<open>sint\<close>, as the implicit conversion does on the platform of the program.
  \<^item> A C step that may have undefined behaviour (a NULL dereference, an access outside
    an array or outside a mapped file, a division by zero) has a result of type
    \<open>'a option\<close>: \<open>None\<close> is the undefined behaviour, \<open>Some\<close> the result of a defined
    execution. A nullable pointer is an \<open>option\<close> too, with \<open>None\<close> for NULL, so that
    dereferencing it is the monadic bind.
  \<^item> \<open>arr_get\<close> and \<open>arr_set\<close> are indexing of a C array; \<open>findM\<close> is a \<open>for\<close> loop
    that returns at the first match, \<open>foldM\<close> a \<open>for\<close> loop that updates a state.
\<close>

type_synonym u32 = "32 word"
type_synonym byte = "8 word"

abbreviation UINT32_MAX :: u32 where
  "UINT32_MAX \<equiv> 4294967295"

named_theorems array_simps \<open>reads and writes of arrays and tables\<close>
named_theorems loop_simps \<open>loops that cannot fail, as list functions\<close>

subsection \<open>Arrays\<close>

definition arr_get :: "'a list \<Rightarrow> nat \<Rightarrow> 'a option" where
  "arr_get xs i = (if i < length xs then Some (xs ! i) else None)"

definition arr_set :: "'a list \<Rightarrow> nat \<Rightarrow> 'a \<Rightarrow> 'a list option" where
  "arr_set xs i v = (if i < length xs then Some (xs[i := v]) else None)"

lemma arr_get_Some_iff [array_simps]:
  "arr_get xs i = Some v \<longleftrightarrow> i < length xs \<and> xs ! i = v"
  by (auto simp: arr_get_def)

lemma arr_set_Some_iff [array_simps]:
  "arr_set xs i v = Some ys \<longleftrightarrow> i < length xs \<and> ys = xs[i := v]"
  by (auto simp: arr_set_def)

lemma arr_get_in [simp]: "i < length xs \<Longrightarrow> arr_get xs i = Some (xs ! i)"
  by (simp add: arr_get_def)

lemma arr_get_out [simp]: "length xs \<le> i \<Longrightarrow> arr_get xs i = None"
  by (simp add: arr_get_def)

lemma arr_set_in [simp]: "i < length xs \<Longrightarrow> arr_set xs i v = Some (xs[i := v])"
  by (simp add: arr_set_def)

subsection \<open>Loops\<close>

primrec findM :: "('a \<Rightarrow> bool option) \<Rightarrow> 'a list \<Rightarrow> 'a option option" where
  "findM p [] = Some None"
| "findM p (x # xs) = do { b \<leftarrow> p x; if b then Some (Some x) else findM p xs }"

primrec foldM :: "('a \<Rightarrow> 's \<Rightarrow> 's option) \<Rightarrow> 'a list \<Rightarrow> 's \<Rightarrow> 's option" where
  "foldM f [] s = Some s"
| "foldM f (x # xs) s = do { s' \<leftarrow> f x s; foldM f xs s' }"

lemma findM_find [loop_simps]:
  "(\<And>x. x \<in> set xs \<Longrightarrow> p x = Some (q x)) \<Longrightarrow> findM p xs = Some (find q xs)"
  by (induction xs) auto

lemma findM_SomeD:
  "findM p xs = Some (Some x) \<Longrightarrow> x \<in> set xs \<and> p x = Some True"
  by (induction xs) (auto simp: bind_eq_Some_conv split: if_splits)

lemma findM_NoneD:
  "findM p xs = Some None \<Longrightarrow> x \<in> set xs \<Longrightarrow> p x = Some False"
  by (induction xs) (auto simp: bind_eq_Some_conv split: if_splits)

lemma foldM_append: "foldM f (xs @ ys) s = foldM f xs s \<bind> foldM f ys"
  by (induction xs arbitrary: s) auto

lemma foldM_map: "foldM f (map g xs) s = foldM (f \<circ> g) xs s"
  by (induction xs arbitrary: s) auto

text \<open>A loop over the indices of an array that only uses its elements.\<close>

lemma foldM_elements:
  "foldM (\<lambda>i s. do { x \<leftarrow> arr_get xs i; f x s }) [0..<length xs] s = foldM f xs s"
proof -
  have "foldM (\<lambda>i s. do { x \<leftarrow> arr_get xs i; f x s }) [0..<n] s = foldM f (take n xs) s"
    if "n \<le> length xs" for n
    using that by (induction n)
      (auto simp: foldM_append take_Suc_conv_app_nth intro!: Option.bind_cong)
  from this [of "length xs"] show ?thesis by simp
qed

lemma foldM_fold [loop_simps]:
  "(\<And>x s. x \<in> set xs \<Longrightarrow> f x s = Some (g x s)) \<Longrightarrow> foldM f xs s = Some (fold g xs s)"
  by (induction xs arbitrary: s) auto

lemma foldM_invariant:
  assumes "foldM f xs s = Some t" and "P s"
    and "\<And>x s t. x \<in> set xs \<Longrightarrow> P s \<Longrightarrow> f x s = Some t \<Longrightarrow> P t"
  shows "P t"
  using assms
  by (induction xs arbitrary: s) (auto simp: bind_eq_Some_conv)

lemma foldM_total:
  assumes "P s" and "\<And>x s. x \<in> set xs \<Longrightarrow> P s \<Longrightarrow> \<exists>t. f x s = Some t \<and> P t"
  shows "\<exists>t. foldM f xs s = Some t \<and> P t"
  using assms
proof (induction xs arbitrary: s)
  case Nil
  then show ?case by simp
next
  case (Cons x xs)
  then obtain s' where "f x s = Some s'" "P s'"
    by (meson list.set_intros(1))
  with Cons show ?case by simp
qed

subsection \<open>What a run may end in\<close>

text \<open>\<open>yields P x\<close>: the run \<open>x\<close> is undefined or ends in a state that satisfies \<open>P\<close>. The rules
  take a run apart along the code, keeping the results of its steps as assumptions.\<close>

definition yields :: "('a \<Rightarrow> bool) \<Rightarrow> 'a option \<Rightarrow> bool" where
  "yields P x \<longleftrightarrow> (\<forall>v. x = Some v \<longrightarrow> P v)"

named_theorems yields_rules \<open>rules that follow the structure of a run\<close>

lemma yieldsD: "yields P x \<Longrightarrow> x = Some v \<Longrightarrow> P v"
  by (simp add: yields_def)

lemma yields_Some [yields_rules]: "P v \<Longrightarrow> yields P (Some v)"
  by (simp add: yields_def)

lemma yields_None [yields_rules]: "yields P None"
  by (simp add: yields_def)

lemma yields_bind [yields_rules]:
  "(\<And>v. x = Some v \<Longrightarrow> yields P (f v)) \<Longrightarrow> yields P (x \<bind> f)"
  by (cases x) (simp_all add: yields_def)

lemma yields_if [yields_rules]:
  "(b \<Longrightarrow> yields P x) \<Longrightarrow> (\<not> b \<Longrightarrow> yields P y) \<Longrightarrow> yields P (if b then x else y)"
  by simp

lemma yields_case_option [yields_rules]:
  "(opt = None \<Longrightarrow> yields P x) \<Longrightarrow> (\<And>v. opt = Some v \<Longrightarrow> yields P (f v)) \<Longrightarrow>
    yields P (case opt of None \<Rightarrow> x | Some v \<Rightarrow> f v)"
  by (cases opt) simp_all

lemma yields_case_prod [yields_rules]:
  "(\<And>a b. p = (a, b) \<Longrightarrow> yields P (f a b)) \<Longrightarrow> yields P (case p of (a, b) \<Rightarrow> f a b)"
  by (cases p) simp_all

lemma yields_let [yields_rules]:
  "(\<And>v. v = x \<Longrightarrow> yields P (f v)) \<Longrightarrow> yields P (let v = x in f v)"
  by simp

lemma yields_foldM:
  "P s \<Longrightarrow> (\<And>x s. x \<in> set xs \<Longrightarrow> P s \<Longrightarrow> yields P (f x s)) \<Longrightarrow> yields P (foldM f xs s)"
  unfolding yields_def by (blast intro: foldM_invariant)

subsection \<open>Searching an index range\<close>

text \<open>The loop \<open>for (i = lo; i < hi; i++) if (P (i)) return i;\<close> is
  \<open>find P [lo..<hi]\<close>: it gives the least index of the range with the property.\<close>

lemma find_upt_Some:
  "find P [lo..<hi] = Some i \<longleftrightarrow> lo \<le> i \<and> i < hi \<and> P i \<and> (\<forall>k. lo \<le> k \<and> k < i \<longrightarrow> \<not> P k)"
proof
  assume "find P [lo..<hi] = Some i"
  then obtain n where n: "n < length [lo..<hi]" "P ([lo..<hi] ! n)" "i = [lo..<hi] ! n"
    and before: "\<forall>k<n. \<not> P ([lo..<hi] ! k)"
    unfolding find_Some_iff by blast
  have "\<not> P k" if "lo \<le> k" "k < i" for k
    using before [rule_format, of "k - lo"] that n by auto
  with n show "lo \<le> i \<and> i < hi \<and> P i \<and> (\<forall>k. lo \<le> k \<and> k < i \<longrightarrow> \<not> P k)"
    by auto
next
  assume r: "lo \<le> i \<and> i < hi \<and> P i \<and> (\<forall>k. lo \<le> k \<and> k < i \<longrightarrow> \<not> P k)"
  show "find P [lo..<hi] = Some i"
    unfolding find_Some_iff
    by (rule exI [of _ "i - lo"]) (use r in auto)
qed

lemma find_upt_SomeD: "find P [lo..<hi] = Some i \<Longrightarrow> lo \<le> i \<and> i < hi \<and> P i"
  by (simp add: find_upt_Some)

lemma find_upt_None:
  "find P [lo..<hi] = None \<longleftrightarrow> (\<forall>i. lo \<le> i \<and> i < hi \<longrightarrow> \<not> P i)"
  by (auto simp: find_None_iff)

lemma distinct_concat_nth:
  "distinct (concat xs) \<Longrightarrow> i < length xs \<Longrightarrow> j < length xs \<Longrightarrow> i \<noteq> j \<Longrightarrow>
    set (xs ! i) \<inter> set (xs ! j) = {}"
proof (induction xs arbitrary: i j)
  case Nil
  then show ?case by simp
next
  case (Cons x xs)
  have "set x \<inter> set (xs ! k) = {}" if "k < length xs" for k
    using Cons.prems(1) that by fastforce
  with Cons show ?case
    by (cases i; cases j) (auto simp: Int_commute)
qed

subsection \<open>Indices and words\<close>

lemma u32_of_nat_unat [simp]: "n < 2 ^ 32 \<Longrightarrow> unat (word_of_nat n :: u32) = n"
  by (simp add: unat_of_nat take_bit_nat_eq_self)

lemma unat_u32_bound: "unat (w :: u32) < 2 ^ 32"
  using unsigned_less [of w] by simp

lemma sint_u32_small:
  fixes w :: u32
  assumes "unat w < 2 ^ 31"
  shows "sint w = int (unat w)"
proof -
  have "int (unat w) < int (2 ^ 31)"
    using assms by (simp only: of_nat_less_iff)
  then have "uint w < 2 ^ 31" by simp
  moreover have "- (2 ^ 31) \<le> uint w"
    by (rule order_trans [OF _ uint_ge_0]) simp
  ultimately show ?thesis
    by (simp add: sint_uint signed_take_bit_int_eq_self)
qed

lemma sint_u32_of_nat [simp]: "n < 2 ^ 31 \<Longrightarrow> sint (word_of_nat n :: u32) = int n"
  using sint_u32_small [of "word_of_nat n"] by simp

lemma minus_1_u32: "(- 1 :: u32) = UINT32_MAX"
  by (simp add: word_unat_eq_iff unsigned_minus_1_eq_mask mask_eq_exp_minus_1)

lemma inj_u32_of_nat: "inj_on (word_of_nat :: nat \<Rightarrow> u32) {..<2 ^ 32}"
  by (rule inj_on_inverseI [of _ unat]) simp

lemma nth_list_update_if: "i < length xs \<Longrightarrow> xs[i := v] ! j = (if j = i then v else xs ! j)"
  by (simp add: nth_list_update)

end
