(* ===== verification/Safe_List.thy ===== *)
theory Safe_List
  imports Prelude
begin

section \<open>The list wrappers: \<open>smartlist.c\<close> and \<open>safe_list.c\<close>\<close>

text \<open>
  A \<open>t_list\<close> of the container library is represented by the sequence of the pointers it
  holds, each an \<open>option\<close> with \<open>None\<close> for NULL: \<open>list_add\<close> appends,
  \<open>list_get\<close> of an index outside the list is NULL. A replacement, an insertion or a
  removal outside the list has no documented result and is a failure here. A
  \<open>safe_list_t\<close> adds a mutex around each call; one call is one atomic step of the model,
  so the mutex leaves no trace in it.

  The last section states the contract the table directory of the memory module needs
  (a slot can be read back after it was stored, other slots do not move) as a locale, and
  interprets it on the operations of this file.
\<close>

type_synonym 'a safe_list = "'a option list"

definition new_safe_list :: "'a safe_list" where
  "new_safe_list = []"

definition list_smart_add :: "'a safe_list \<Rightarrow> 'a option \<Rightarrow> 'a safe_list" where
  "list_smart_add l element = (case element of None \<Rightarrow> l | Some _ \<Rightarrow> l @ [element])"

definition safe_list_add :: "'a safe_list \<Rightarrow> 'a option \<Rightarrow> 'a safe_list" where
  "safe_list_add this element = list_smart_add this element"

definition safe_list_add_all_safe :: "'a safe_list \<Rightarrow> 'a safe_list \<Rightarrow> 'a safe_list" where
  "safe_list_add_all_safe this that = this @ that"

definition safe_list_add_all :: "'a safe_list \<Rightarrow> 'a safe_list \<Rightarrow> 'a safe_list" where
  "safe_list_add_all this list = this @ list"

definition safe_list_replace :: "'a safe_list \<Rightarrow> int \<Rightarrow> 'a option \<Rightarrow> 'a safe_list option" where
  "safe_list_replace this index element =
     (if 0 \<le> index \<and> nat index < length this
      then Some (this[nat index := element]) else None)"

definition safe_list_remove :: "'a safe_list \<Rightarrow> int \<Rightarrow> 'a safe_list option" where
  "safe_list_remove this index =
     (if 0 \<le> index \<and> nat index < length this
      then Some (take (nat index) this @ drop (Suc (nat index)) this) else None)"

definition safe_list_add_in_index :: "'a safe_list \<Rightarrow> int \<Rightarrow> 'a option \<Rightarrow> 'a safe_list option" where
  "safe_list_add_in_index this index element =
     (if 0 \<le> index \<and> nat index \<le> length this
      then Some (take (nat index) this @ element # drop (nat index) this) else None)"

definition safe_list_get :: "'a safe_list \<Rightarrow> int \<Rightarrow> 'a option" where
  "safe_list_get this index =
     (if 0 \<le> index \<and> nat index < length this then this ! nat index else None)"

definition safe_list_size :: "'a safe_list \<Rightarrow> nat" where
  "safe_list_size this = length this"

subsection \<open>Reads after writes\<close>

lemma safe_list_get_int [simp]:
  "safe_list_get l (int i) = (if i < length l then l ! i else None)"
  by (simp add: safe_list_get_def)

lemma safe_list_get_Some_iff [array_simps]:
  "safe_list_get l i = Some x \<longleftrightarrow> 0 \<le> i \<and> nat i < length l \<and> l ! nat i = Some x"
  by (auto simp: safe_list_get_def)

lemma safe_list_get_replace:
  assumes "safe_list_replace l i x = Some l'"
  shows "safe_list_get l' j = (if j = i then x else safe_list_get l j)"
  using assms by (auto simp: safe_list_replace_def safe_list_get_def nth_list_update split: if_splits)

lemma safe_list_get_add_in_index_end:
  assumes "safe_list_add_in_index l (int (length l)) x = Some l'"
  shows "safe_list_get l' j = (if j = int (length l) then x else safe_list_get l j)"
  using assms
  by (auto simp: safe_list_add_in_index_def safe_list_get_def nth_append split: if_splits)

subsection \<open>The slot directory\<close>

text \<open>
  The code stores a table under an identifier with a conditional: an identifier below the
  size replaces the slot, the identifier equal to the size appends
  (\<open>create_lvl2_tables\<close> and \<open>create_table\<close> of \<open>os_memory.c\<close>).
\<close>

definition store_slot :: "'a safe_list \<Rightarrow> int \<Rightarrow> 'a option \<Rightarrow> 'a safe_list option" where
  "store_slot this index element =
     (if int (safe_list_size this) > index
      then safe_list_replace this index element
      else safe_list_add_in_index this index element)"

locale slot_directory =
  fixes size_of :: "'l \<Rightarrow> nat"
    and get :: "'l \<Rightarrow> int \<Rightarrow> 'a option"
    and store :: "'l \<Rightarrow> int \<Rightarrow> 'a option \<Rightarrow> 'l option"
  assumes get_outside: "i < 0 \<or> int (size_of l) \<le> i \<Longrightarrow> get l i = None"
    and store_defined: "0 \<le> i \<Longrightarrow> i \<le> int (size_of l) \<Longrightarrow> \<exists>l'. store l i x = Some l'"
    and store_get: "store l i x = Some l' \<Longrightarrow> get l' j = (if j = i then x else get l j)"
    and store_size: "store l i x = Some l' \<Longrightarrow> size_of l' = max (size_of l) (Suc (nat i))"
begin

lemma store_same: "store l i x = Some l' \<Longrightarrow> get l' i = x"
  by (simp add: store_get)

lemma store_other: "store l i x = Some l' \<Longrightarrow> j \<noteq> i \<Longrightarrow> get l' j = get l j"
  by (simp add: store_get)

lemma store_keeps:
  "store l i x = Some l' \<Longrightarrow> get l j = Some y \<Longrightarrow> get l i = None \<Longrightarrow> get l' j = Some y"
  by (auto simp: store_get)

lemma append_defined: "\<exists>l'. store l (int (size_of l)) x = Some l'"
  by (rule store_defined) simp_all

lemma append_keeps:
  assumes "store l (int (size_of l)) x = Some l'" and "get l j = Some y"
  shows "get l' j = Some y"
  using assms by (rule store_keeps) (simp add: get_outside)

lemma append_size: "store l (int (size_of l)) x = Some l' \<Longrightarrow> size_of l' = Suc (size_of l)"
  by (simp add: store_size)

end

interpretation slots: slot_directory safe_list_size safe_list_get store_slot
proof
  fix l :: "'a safe_list" and i j :: int and x :: "'a option" and l' :: "'a safe_list"
  show "i < 0 \<or> int (safe_list_size l) \<le> i \<Longrightarrow> safe_list_get l i = None"
    by (auto simp: safe_list_get_def safe_list_size_def)
  show "0 \<le> i \<Longrightarrow> i \<le> int (safe_list_size l) \<Longrightarrow> \<exists>l'. store_slot l i x = Some l'"
    by (auto simp: store_slot_def safe_list_size_def safe_list_replace_def
        safe_list_add_in_index_def)
  show "store_slot l i x = Some l' \<Longrightarrow>
      safe_list_get l' j = (if j = i then x else safe_list_get l j)"
    by (auto simp: store_slot_def safe_list_size_def safe_list_replace_def
        safe_list_add_in_index_def safe_list_get_def nth_list_update nth_append
        split: if_splits)
  show "store_slot l i x = Some l' \<Longrightarrow>
      safe_list_size l' = max (safe_list_size l) (Suc (nat i))"
    by (auto simp: store_slot_def safe_list_size_def safe_list_replace_def
        safe_list_add_in_index_def split: if_splits)
qed

end
