(* ===== verification/Page_Table.thy ===== *)
theory Page_Table
  imports Prelude Safe_List
begin

section \<open>Page tables and the memory module's state\<close>

text \<open>
  \<open>memory/inc/module/page_table.h\<close>, \<open>memory_module.h\<close>, \<open>swap.h\<close> and
  \<open>memory/src/module/page_table.c\<close>.

  A level I table is an array of identifiers of level II tables, a level II table an array
  of rows. The two directories of the module are lists of pointers to such arrays, NULL
  where a table was deleted. A row pointer \<open>&pt_2[j]\<close> is the pair of the directory slot
  and the row index: every table is reached through one slot only, so a write through the
  pointer is a write to the slot's table. The BIG TABLE of a process is the array of the
  row pointers of all its level II tables.

  The record \<open>memory\<close> holds \<open>memory_t\<close>, the \<open>static\<close> hands of the two clock
  algorithms, the configuration the module reads, the swap files by process id, and what
  the operating system decides (which files open and can be mapped, the size of its own
  pages, what \<open>malloc\<close> returns). The server,
  the thread manager and the mutexes have no place in it.
\<close>

abbreviation INVALID_FRAME :: u32 where
  "INVALID_FRAME \<equiv> UINT32_MAX"

record page_table_lvl_1 =
  second_page :: u32

record page_table_lvl_2 =
  frame :: u32
  present :: bool
  use :: bool
  modified :: bool

record swap_data_t =
  sd_pid :: u32
  sd_offset :: u32
  sd_size :: u32

datatype selector = Clock_selector | Improved_clock_selector

record mem_cfg =
  tam_memoria :: u32
  tam_pagina :: u32
  entradas_por_tabla :: u32
  marcos_por_proceso :: u32
  algoritmo_reemplazo :: string

record os_env =
  open_ok :: "u32 \<Rightarrow> bool"
  mmap_ok :: "u32 \<Rightarrow> bool"
  os_page :: nat
  garbage :: "nat \<Rightarrow> byte"

record memory =
  main_memory :: "byte list"
  max_frames :: u32
  max_rows :: u32
  frames :: "bool list"
  no_of_frames :: u32
  tables_lvl_1 :: "page_table_lvl_1 list safe_list"
  tables_lvl_2 :: "page_table_lvl_2 list safe_list"
  swap_data :: "swap_data_t safe_list"
  frame_selector :: selector
  clock :: u32
  clock_improved :: u32
  cfg :: mem_cfg
  swap_files :: "u32 \<Rightarrow> byte list option"
  os :: os_env

abbreviation rows_of :: "memory \<Rightarrow> nat" where
  "rows_of m \<equiv> unat (max_rows m)"

subsection \<open>New tables\<close>

definition new_page_table :: "nat \<Rightarrow> page_table_lvl_1 list" where
  "new_page_table rows = replicate rows \<lparr>second_page = UINT32_MAX\<rparr>"

definition free_row :: page_table_lvl_2 where
  "free_row = \<lparr>frame = UINT32_MAX, present = False, use = False, modified = False\<rparr>"

definition new_page_table_lvl2 :: "nat \<Rightarrow> page_table_lvl_2 list" where
  "new_page_table_lvl2 rows = replicate rows free_row"

lemma length_new_page_table [simp]: "length (new_page_table n) = n"
  by (simp add: new_page_table_def)

lemma length_new_page_table_lvl2 [simp]: "length (new_page_table_lvl2 n) = n"
  by (simp add: new_page_table_lvl2_def)

lemma nth_new_page_table_lvl2 [simp]: "i < n \<Longrightarrow> new_page_table_lvl2 n ! i = free_row"
  by (simp add: new_page_table_lvl2_def)

lemma free_row_simps [simp]:
  "frame free_row = INVALID_FRAME" "\<not> present free_row" "\<not> use free_row" "\<not> modified free_row"
  by (simp_all add: free_row_def)

subsection \<open>Row pointers\<close>

type_synonym row_ref = "int \<times> nat"

definition deref_row :: "memory \<Rightarrow> row_ref \<Rightarrow> page_table_lvl_2 option" where
  "deref_row m r = do { t \<leftarrow> safe_list_get (tables_lvl_2 m) (fst r); arr_get t (snd r) }"

definition update_row ::
    "memory \<Rightarrow> row_ref \<Rightarrow> (page_table_lvl_2 \<Rightarrow> page_table_lvl_2) \<Rightarrow> memory option" where
  "update_row m r f = do {
     t \<leftarrow> safe_list_get (tables_lvl_2 m) (fst r);
     row \<leftarrow> arr_get t (snd r);
     tables \<leftarrow> safe_list_replace (tables_lvl_2 m) (fst r) (Some (t[snd r := f row]));
     Some (m\<lparr>tables_lvl_2 := tables\<rparr>) }"

lemma update_row_defined:
  "deref_row m r = Some row \<Longrightarrow> \<exists>m'. update_row m r f = Some m'"
  by (auto simp: deref_row_def update_row_def safe_list_replace_def safe_list_get_Some_iff
      bind_eq_Some_conv)

lemma deref_update_row:
  assumes "update_row m r f = Some m'"
  shows "deref_row m' q = (if q = r then map_option f (deref_row m q) else deref_row m q)"
proof -
  obtain t row ts where t: "safe_list_get (tables_lvl_2 m) (fst r) = Some t"
    and row: "arr_get t (snd r) = Some row"
    and ts: "safe_list_replace (tables_lvl_2 m) (fst r) (Some (t[snd r := f row])) = Some ts"
    and m': "m' = m\<lparr>tables_lvl_2 := ts\<rparr>"
    using assms by (auto simp: update_row_def bind_eq_Some_conv)
  show ?thesis
  proof (cases "fst q = fst r")
    case True
    then show ?thesis
      using t row m' safe_list_get_replace [OF ts, of "fst q"]
      by (cases q; cases r)
        (auto simp: deref_row_def arr_get_def nth_list_update split: if_splits)
  next
    case False
    then show ?thesis
      using m' safe_list_get_replace [OF ts, of "fst q"] by (auto simp: deref_row_def)
  qed
qed

lemma update_row_frame:
  assumes "update_row m r f = Some m'"
  shows "m'\<lparr>tables_lvl_2 := tables_lvl_2 m\<rparr> = m"
    and "length (tables_lvl_2 m') = length (tables_lvl_2 m)"
  using assms by (auto simp: update_row_def safe_list_replace_def bind_eq_Some_conv split: if_splits)

subsection \<open>The BIG TABLE\<close>

text \<open>
  The outer loop runs while \<open>i < max_rows\<close> and \<open>k < total_rows\<close>; the product of two
  \<open>uint32_t\<close> wraps before it is widened, and the inner loop does not test \<open>k\<close>, so it
  can run past the array that was allocated: that is a failure.
\<close>

function big_table_loop ::
    "page_table_lvl_1 list \<Rightarrow> nat \<Rightarrow> nat \<Rightarrow> nat \<Rightarrow> row_ref list \<Rightarrow> row_ref list option" where
  "big_table_loop pt_1 rows total_rows i acc =
     (if i < rows \<and> length acc < total_rows
      then do {
        e \<leftarrow> arr_get pt_1 i;
        let acc' = acc @ map (\<lambda>j. (sint (second_page e), j)) [0..<rows];
        if length acc' \<le> total_rows then big_table_loop pt_1 rows total_rows (Suc i) acc' else None }
      else Some acc)"
  by pat_completeness auto
termination
  by (relation "measure (\<lambda>(pt_1, rows, total_rows, i, acc). rows - i)") auto

declare big_table_loop.simps [simp del]

definition create_big_table :: "memory \<Rightarrow> u32 \<Rightarrow> row_ref list option option" where
  "create_big_table m table_index =
     (case safe_list_get (tables_lvl_1 m) (sint table_index) of
        None \<Rightarrow> Some None
      | Some pt_1 \<Rightarrow>
          map_option Some
            (big_table_loop pt_1 (rows_of m) (unat (max_rows m * max_rows m)) 0 []))"

definition bt_read :: "row_ref list \<Rightarrow> memory \<Rightarrow> nat \<Rightarrow> page_table_lvl_2 option" where
  "bt_read bt m j = do { r \<leftarrow> arr_get bt j; deref_row m r }"

definition bt_write ::
    "row_ref list \<Rightarrow> memory \<Rightarrow> nat \<Rightarrow> (page_table_lvl_2 \<Rightarrow> page_table_lvl_2) \<Rightarrow> memory option" where
  "bt_write bt m j f = do { r \<leftarrow> arr_get bt j; update_row m r f }"

text \<open>\<open>LOG_TABLE\<close> dereferences every row it prints.\<close>

definition log_table :: "row_ref list \<Rightarrow> memory \<Rightarrow> nat \<Rightarrow> unit option" where
  "log_table bt m rows = foldM (\<lambda>j _. do { _ \<leftarrow> bt_read bt m j; Some () }) [0..<rows] ()"

definition print_table :: "memory \<Rightarrow> u32 \<Rightarrow> unit option" where
  "print_table m table_index = do {
     big_table \<leftarrow> create_big_table m table_index;
     let rows = unat (max_rows m * max_rows m);
     if rows = 0 then Some () else do { bt \<leftarrow> big_table; log_table bt m rows } }"

lemma log_table_ok:
  assumes "\<And>j. j < n \<Longrightarrow> \<exists>row. bt_read bt m j = Some row"
  shows "log_table bt m n = Some ()"
  unfolding log_table_def
  using assms by (intro foldM_fold [where g = "\<lambda>_ _. ()", THEN trans]) force+

lemma big_table_loop_total:
  assumes "length pt_1 = rows" and "length acc = i * rows" and "i \<le> rows"
    and "total_rows = rows * rows"
  shows "big_table_loop pt_1 rows total_rows i acc =
    Some (acc @ concat (map (\<lambda>k. map (\<lambda>j. (sint (second_page (pt_1 ! k)), j)) [0..<rows]) [i..<rows]))"
  using assms
proof (induction "rows - i" arbitrary: i acc)
  case 0
  then show ?case by (subst big_table_loop.simps) simp
next
  case (Suc d)
  then have i: "i < rows" by simp
  let ?row = "map (\<lambda>j. (sint (second_page (pt_1 ! i)), j)) [0..<rows]"
  have "big_table_loop pt_1 rows total_rows i acc = big_table_loop pt_1 rows total_rows (Suc i) (acc @ ?row)"
    using Suc.prems i mult_le_mono1 [of "Suc i" rows rows]
    by (subst big_table_loop.simps) (auto simp: Let_def)
  also have "\<dots> = Some ((acc @ ?row) @
      concat (map (\<lambda>k. map (\<lambda>j. (sint (second_page (pt_1 ! k)), j)) [0..<rows]) [Suc i..<rows]))"
    using Suc i by (intro Suc.hyps(1)) auto
  finally show ?case
    using i by (simp add: upt_conv_Cons)
qed

subsection \<open>Well-formed table directories\<close>

text \<open>
  \<open>tables_wf\<close> is what the module keeps of its directories: every table has
  \<open>max_rows\<close> rows, every entry of a level I table names a live level II table, no level II
  table has two owners, and every live level II table has one.
\<close>

definition table_ids :: "page_table_lvl_1 list option \<Rightarrow> u32 list" where
  "table_ids e = (case e of None \<Rightarrow> [] | Some pt_1 \<Rightarrow> map second_page pt_1)"

definition second_pages :: "memory \<Rightarrow> u32 list" where
  "second_pages m = concat (map table_ids (tables_lvl_1 m))"

definition lvl2_live :: "memory \<Rightarrow> u32 \<Rightarrow> bool" where
  "lvl2_live m s = (safe_list_get (tables_lvl_2 m) (sint s) \<noteq> None)"

definition rows_ok :: "nat \<Rightarrow> 'a list option \<Rightarrow> bool" where
  "rows_ok n e = (case e of None \<Rightarrow> True | Some t \<Rightarrow> length t = n)"

definition tables_wf :: "memory \<Rightarrow> bool" where
  "tables_wf m \<longleftrightarrow>
     length (tables_lvl_1 m) < 2 ^ 31 \<and> length (tables_lvl_2 m) < 2 ^ 31 \<and>
     rows_of m * rows_of m < 2 ^ 32 \<and>
     list_all (rows_ok (rows_of m)) (tables_lvl_1 m) \<and>
     list_all (rows_ok (rows_of m)) (tables_lvl_2 m) \<and>
     list_all (lvl2_live m) (second_pages m) \<and>
     distinct (second_pages m) \<and>
     list_all (\<lambda>i. tables_lvl_2 m ! i \<noteq> None \<longrightarrow> i \<in> set (map (\<lambda>s. nat (sint s)) (second_pages m)))
       [0..<length (tables_lvl_2 m)]"

lemma lvl1_get_mem: "safe_list_get l i = Some t \<Longrightarrow> Some t \<in> set l"
  by (auto simp: safe_list_get_Some_iff) (metis nth_mem)

lemma tables_wf_lengths:
  assumes "tables_wf m"
  shows "safe_list_get (tables_lvl_1 m) i = Some t1 \<Longrightarrow> length t1 = rows_of m"
    and "safe_list_get (tables_lvl_2 m) j = Some t2 \<Longrightarrow> length t2 = rows_of m"
  using assms lvl1_get_mem [of "tables_lvl_1 m" i t1] lvl1_get_mem [of "tables_lvl_2 m" j t2]
  by (auto simp: tables_wf_def rows_ok_def list_all_iff split: option.splits)

lemma table_ids_in_second_pages:
  "safe_list_get (tables_lvl_1 m) i = Some t \<Longrightarrow> set (map second_page t) \<subseteq> set (second_pages m)"
  using lvl1_get_mem [of "tables_lvl_1 m" i t]
  by (force simp: second_pages_def table_ids_def)

lemma table_ids_distinct:
  assumes "tables_wf m" and "safe_list_get (tables_lvl_1 m) i = Some t"
  shows "distinct (map second_page t)"
proof -
  have "distinct (concat (map table_ids (tables_lvl_1 m)))"
    using assms(1) by (simp add: tables_wf_def second_pages_def)
  moreover have "map second_page t \<in> set (map table_ids (tables_lvl_1 m))"
    using lvl1_get_mem [OF assms(2)] by (force simp: table_ids_def)
  ultimately show ?thesis
    by (metis distinct_concat_iff)
qed

definition row_refs :: "nat \<Rightarrow> u32 list \<Rightarrow> row_ref list" where
  "row_refs n ids = concat (map (\<lambda>s. map (Pair (sint s)) [0..<n]) ids)"

lemma length_row_refs [simp]: "length (row_refs n ids) = length ids * n"
  by (induction ids) (auto simp: row_refs_def)

lemma set_row_refs: "set (row_refs n ids) = (\<lambda>(s, j). (sint s, j)) ` (set ids \<times> {0..<n})"
  by (auto simp: row_refs_def image_iff)

lemma distinct_row_refs: "distinct ids \<Longrightarrow> distinct (row_refs n ids)"
proof (induction ids)
  case Nil
  then show ?case by (simp add: row_refs_def)
next
  case (Cons s ids)
  have "set (map (Pair (sint s)) [0..<n]) \<inter> set (row_refs n ids) = {}"
    using Cons.prems by (auto simp: set_row_refs dest: signed_word_eqI)
  with Cons show ?case
    by (simp add: row_refs_def distinct_map inj_on_def)
qed

lemma create_big_table_wf:
  assumes "tables_wf m" and "safe_list_get (tables_lvl_1 m) (sint ti) = Some t"
  shows "create_big_table m ti = Some (Some (row_refs (rows_of m) (map second_page t)))"
proof -
  let ?n = "rows_of m"
  have len: "length t = ?n"
    using tables_wf_lengths(1) [OF assms] .
  have "unat (max_rows m * max_rows m) = ?n * ?n"
    using assms(1) by (simp add: tables_wf_def unat_word_ariths)
  moreover have "concat (map (\<lambda>k. map (\<lambda>j. (sint (second_page (t ! k)), j)) [0..<?n]) [0..<?n])
      = row_refs ?n (map second_page t)"
    unfolding row_refs_def
    by (rule arg_cong [of _ _ concat], rule nth_equalityI) (simp_all add: len)
  ultimately show ?thesis
    using assms(2) big_table_loop_total [of t ?n "[]" 0 "?n * ?n"] len
    by (simp add: create_big_table_def)
qed

text \<open>A table of the big table: rows readable, no row twice.\<close>

definition bt_ok :: "row_ref list \<Rightarrow> memory \<Rightarrow> bool" where
  "bt_ok bt m \<longleftrightarrow> distinct bt \<and> list_all (\<lambda>r. deref_row m r \<noteq> None) bt"

definition view :: "row_ref list \<Rightarrow> memory \<Rightarrow> page_table_lvl_2 list" where
  "view bt m = map (\<lambda>r. the (deref_row m r)) bt"

lemma length_view [simp]: "length (view bt m) = length bt"
  by (simp add: view_def)

lemma bt_ok_row_refs:
  assumes "tables_wf m" and "safe_list_get (tables_lvl_1 m) i = Some t"
  shows "bt_ok (row_refs (rows_of m) (map second_page t)) m"
proof -
  have "deref_row m (sint s, j) \<noteq> None" if "s \<in> set (map second_page t)" "j < rows_of m" for s j
  proof -
    have "lvl2_live m s"
      using assms(1) that(1) table_ids_in_second_pages [OF assms(2)]
      by (auto simp: tables_wf_def list_all_iff)
    then obtain t2 where "safe_list_get (tables_lvl_2 m) (sint s) = Some t2"
      by (auto simp: lvl2_live_def)
    with tables_wf_lengths(2) [OF assms(1) this] that(2) show ?thesis
      by (simp add: deref_row_def)
  qed
  then show ?thesis
    using table_ids_distinct [OF assms]
    by (auto simp: bt_ok_def distinct_row_refs list_all_iff set_row_refs)
qed

lemma bt_read_ok:
  "bt_ok bt m \<Longrightarrow> j < length bt \<Longrightarrow> bt_read bt m j = Some (view bt m ! j)"
  by (auto simp: bt_ok_def bt_read_def view_def list_all_iff)

lemma bt_write_ok:
  assumes "bt_ok bt m" and "j < length bt"
  shows "\<exists>m'. bt_write bt m j f = Some m' \<and> bt_ok bt m' \<and>
    view bt m' = (view bt m)[j := f (view bt m ! j)]"
proof -
  have "deref_row m (bt ! j) \<noteq> None"
    using assms by (simp add: bt_ok_def list_all_length)
  then obtain m' where m': "update_row m (bt ! j) f = Some m'"
    using update_row_defined by blast
  have d: "deref_row m' (bt ! k) = (if k = j then map_option f (deref_row m (bt ! k))
      else deref_row m (bt ! k))" if "k < length bt" for k
    using deref_update_row [OF m', of "bt ! k"] assms that
    by (simp add: bt_ok_def nth_eq_iff_index_eq)
  have "bt_ok bt m'"
    using assms d by (simp add: bt_ok_def list_all_length)
  moreover have "view bt m' = (view bt m)[j := f (view bt m ! j)]"
    using assms d
    by (intro nth_equalityI)
      (auto simp: view_def nth_list_update bt_ok_def list_all_length option.map_sel)
  moreover have "bt_write bt m j f = Some m'"
    using assms(2) m' by (simp add: bt_write_def)
  ultimately show ?thesis by blast
qed

lemma bt_write_frame:
  assumes "bt_write bt m j f = Some m'"
  shows "m'\<lparr>tables_lvl_2 := tables_lvl_2 m\<rparr> = m"
    and "q \<notin> set bt \<Longrightarrow> deref_row m' q = deref_row m q"
  using assms deref_update_row [of m "bt ! j" f m' q] update_row_frame(1) [of m "bt ! j" f m']
  by (auto simp: bt_write_def bind_eq_Some_conv arr_get_Some_iff dest: nth_mem)

lemma print_table_live:
  assumes "tables_wf m" and "safe_list_get (tables_lvl_1 m) (sint ti) = Some t"
  shows "print_table m ti = Some ()"
proof -
  let ?bt = "row_refs (rows_of m) (map second_page t)"
  have n: "unat (max_rows m * max_rows m) = length ?bt"
    using assms(1) tables_wf_lengths(1) [OF assms]
    by (simp add: tables_wf_def unat_word_ariths)
  have "log_table ?bt m (length ?bt) = Some ()"
    using bt_read_ok [OF bt_ok_row_refs [OF assms]] by (intro log_table_ok) blast
  then show ?thesis
    unfolding print_table_def create_big_table_wf [OF assms] n by simp
qed

subsection \<open>Changes that keep the shape of the directories\<close>

definition shape :: "memory \<Rightarrow> nat option list" where
  "shape m = map (map_option length) (tables_lvl_2 m)"

lemma shape_length: "shape m' = shape m \<Longrightarrow> length (tables_lvl_2 m') = length (tables_lvl_2 m)"
  unfolding shape_def by (metis length_map)

lemma shape_nth:
  assumes "shape m' = shape m" and "i < length (tables_lvl_2 m)"
  shows "map_option length (tables_lvl_2 m' ! i) = map_option length (tables_lvl_2 m ! i)"
  using assms shape_length [OF assms(1)] unfolding shape_def by (metis nth_map)

lemma shape_get:
  assumes "shape m' = shape m"
  shows "map_option length (safe_list_get (tables_lvl_2 m') i) =
    map_option length (safe_list_get (tables_lvl_2 m) i)"
  using shape_nth [OF assms] shape_length [OF assms] by (simp add: safe_list_get_def)

lemma list_all_rows_ok_shape:
  "list_all (rows_ok n) (tables_lvl_2 m) = list_all (\<lambda>e. e = None \<or> e = Some n) (shape m)"
  by (simp add: shape_def list_all_iff rows_ok_def) (auto split: option.splits)

lemma tables_wf_shape:
  assumes "tables_wf m" and "shape m' = shape m" and "tables_lvl_1 m' = tables_lvl_1 m"
    and "max_rows m' = max_rows m"
  shows "tables_wf m'"
proof -
  have "lvl2_live m' = lvl2_live m"
  proof
    fix s
    show "lvl2_live m' s = lvl2_live m s"
      using shape_get [OF assms(2), of "sint s"]
      by (cases "safe_list_get (tables_lvl_2 m) (sint s)") (auto simp: lvl2_live_def)
  qed
  moreover have "second_pages m' = second_pages m"
    by (simp add: second_pages_def assms(3))
  moreover have "(tables_lvl_2 m' ! i = None) = (tables_lvl_2 m ! i = None)"
    if "i < length (tables_lvl_2 m)" for i
    using shape_nth [OF assms(2) that] by (metis map_option_is_None)
  then have "list_all (\<lambda>i. tables_lvl_2 m' ! i \<noteq> None \<longrightarrow> P i) [0..<length (tables_lvl_2 m)]
      = list_all (\<lambda>i. tables_lvl_2 m ! i \<noteq> None \<longrightarrow> P i) [0..<length (tables_lvl_2 m)]" for P
    by (intro list.pred_cong) auto
  moreover have "list_all (rows_ok n) (tables_lvl_2 m') = list_all (rows_ok n) (tables_lvl_2 m)" for n
    by (simp add: list_all_rows_ok_shape assms(2))
  ultimately show ?thesis
    using assms(1) shape_length [OF assms(2)]
    by (simp add: tables_wf_def assms(3,4) del: not_None_eq)
qed

lemma update_row_shape: "update_row m r f = Some m' \<Longrightarrow> shape m' = shape m"
  by (auto simp: update_row_def shape_def safe_list_replace_def safe_list_get_Some_iff
      bind_eq_Some_conv map_update list_update_same_conv split: if_splits)

text \<open>What a change through the row pointers of one big table leaves alone.\<close>

definition same_but :: "row_ref list \<Rightarrow> memory \<Rightarrow> memory \<Rightarrow> bool" where
  "same_but bt m m' \<longleftrightarrow> m'\<lparr>tables_lvl_2 := tables_lvl_2 m\<rparr> = m \<and> shape m' = shape m \<and>
     (\<forall>q. q \<notin> set bt \<longrightarrow> deref_row m' q = deref_row m q)"

lemma same_but_refl: "same_but bt m m"
  by (simp add: same_but_def)

lemma same_but_trans: "same_but bt m m' \<Longrightarrow> same_but bt m' m'' \<Longrightarrow> same_but bt m m''"
  by (simp add: same_but_def) (metis memory.surjective memory.update_convs(7))

lemma bt_write_same_but: "bt_write bt m j f = Some m' \<Longrightarrow> same_but bt m m'"
  using bt_write_frame [of bt m j f m'] update_row_shape [of m "bt ! j" f m']
  by (auto simp: same_but_def bt_write_def bind_eq_Some_conv arr_get_Some_iff)

lemma same_but_fields:
  assumes "same_but bt m m'"
  shows "main_memory m' = main_memory m" "max_frames m' = max_frames m"
    "max_rows m' = max_rows m" "frames m' = frames m" "no_of_frames m' = no_of_frames m"
    "tables_lvl_1 m' = tables_lvl_1 m" "swap_data m' = swap_data m"
    "frame_selector m' = frame_selector m" "clock m' = clock m"
    "clock_improved m' = clock_improved m" "cfg m' = cfg m" "swap_files m' = swap_files m"
    "os m' = os m"
  using assms by (simp_all add: same_but_def) (metis memory.select_convs memory.update_convs(7) memory.surjective)+

lemma same_but_wf: "same_but bt m m' \<Longrightarrow> tables_wf m \<Longrightarrow> tables_wf m'"
  by (rule tables_wf_shape [of m]) (simp_all add: same_but_fields, simp add: same_but_def)

end
