(* ===== verification/Clock.thy ===== *)
theory Clock
  imports Page_Table
begin

section \<open>Page replacement: \<open>algorithms.c\<close>\<close>

text \<open>
  \<open>memory/src/module/algorithms.c\<close>. The loops of both selectors walk the BIG TABLE of a
  process from an index to another, skip the rows that are not present, stop at the first
  row that matches (taking its frame, setting its use bit and moving the hand), and may
  touch the rows they pass over. \<open>scan\<close> is that loop, once, over any store of rows;
  \<open>clock_selector\<close> and \<open>improved_clock_selector\<close> run it on the row pointers.

  \<open>scan_list\<close> is the same loop on a list of rows. The locale \<open>row_window\<close> says when a
  store of rows may be read as a list, and proves that the loop on the store computes what
  the loop on the list computes; it is interpreted on the row pointers of a big table. The
  victim of each algorithm is then characterised on lists, in the cyclic order that starts
  at the hand.
\<close>

function scan ::
    "('s \<Rightarrow> nat \<Rightarrow> page_table_lvl_2 option) \<Rightarrow>
     ('s \<Rightarrow> nat \<Rightarrow> (page_table_lvl_2 \<Rightarrow> page_table_lvl_2) \<Rightarrow> 's option) \<Rightarrow>
     (page_table_lvl_2 \<Rightarrow> bool) \<Rightarrow> (nat \<Rightarrow> (page_table_lvl_2 \<Rightarrow> page_table_lvl_2) option) \<Rightarrow>
     nat \<Rightarrow> nat \<Rightarrow> 's \<Rightarrow> ('s \<times> (nat \<times> u32) option) option" where
  "scan rd wr match miss j hi s =
     (if j < hi then do {
        row \<leftarrow> rd s j;
        if present row then
          if match row then do {
            s' \<leftarrow> wr s j (\<lambda>r. r\<lparr>use := True\<rparr>);
            Some (s', Some (j, frame row)) }
          else do {
            s' \<leftarrow> (case miss j of None \<Rightarrow> Some s | Some g \<Rightarrow> wr s j g);
            scan rd wr match miss (Suc j) hi s' }
        else scan rd wr match miss (Suc j) hi s }
      else Some (s, None))"
  by pat_completeness auto
termination
  by (relation "measure (\<lambda>(rd, wr, match, miss, j, hi, s). hi - j)") auto

declare scan.simps [simp del]

abbreviation scan_table where
  "scan_table bt \<equiv> scan (bt_read bt) (bt_write bt)"

definition next_hand :: "nat \<Rightarrow> nat \<Rightarrow> u32" where
  "next_hand rows j = (if j + 1 \<ge> rows then 0 else word_of_nat (j + 1))"

definition clear_use :: "page_table_lvl_2 \<Rightarrow> page_table_lvl_2" where
  "clear_use r = r\<lparr>use := False\<rparr>"

definition or_scan ::
    "'s \<times> (nat \<times> u32) option \<Rightarrow> ('s \<Rightarrow> ('s \<times> (nat \<times> u32) option) option) \<Rightarrow>
     ('s \<times> (nat \<times> u32) option) option" where
  "or_scan r next_scan = (case snd r of Some _ \<Rightarrow> Some r | None \<Rightarrow> next_scan (fst r))"

subsection \<open>CLOCK\<close>

definition clock_selector :: "memory \<Rightarrow> u32 \<Rightarrow> (memory \<times> u32) option" where
  "clock_selector memory table_index = do {
     let rows = rows_of memory * rows_of memory;
     big_table \<leftarrow> create_big_table memory table_index;
     bt \<leftarrow> big_table;
     log_table bt memory rows;
     let hand = unat (clock memory);
     r \<leftarrow> scan_table bt (\<lambda>r. \<not> use r) (\<lambda>j. if j = hand then Some clear_use else None)
            hand rows memory;
     r \<leftarrow> or_scan r (scan_table bt (\<lambda>r. \<not> use r) (\<lambda>_. None) 0 (Suc hand));
     (case r of
        (m, Some (j, f)) \<Rightarrow> Some (m\<lparr>clock := next_hand rows j\<rparr>, f)
      | (m, None) \<Rightarrow> do {
          m \<leftarrow> foldM (\<lambda>j m. bt_write bt m j clear_use) [0..<rows] m;
          log_table bt m rows;
          row \<leftarrow> bt_read bt m hand;
          m \<leftarrow> bt_write bt m hand (\<lambda>r. r\<lparr>use := True\<rparr>);
          Some (m\<lparr>clock := (if unat (clock m + 1) \<le> rows then 0 else clock m + 1)\<rparr>,
                frame row) }) }"

subsection \<open>CLOCK improved\<close>

definition improved_clock_selector :: "memory \<Rightarrow> u32 \<Rightarrow> (memory \<times> u32) option" where
  "improved_clock_selector memory table_index = do {
     let rows = rows_of memory * rows_of memory;
     big_table \<leftarrow> create_big_table memory table_index;
     bt \<leftarrow> big_table;
     log_table bt memory rows;
     let hand = unat (clock_improved memory);
     let clean = (\<lambda>r. \<not> use r \<and> \<not> modified r);
     let dirty = (\<lambda>r. \<not> use r \<and> modified r);
     r \<leftarrow> scan_table bt clean (\<lambda>_. None) hand rows memory;
     r \<leftarrow> or_scan r (scan_table bt clean (\<lambda>_. None) 0 (Suc hand));
     r \<leftarrow> or_scan r (scan_table bt dirty (\<lambda>_. Some clear_use) hand rows);
     r \<leftarrow> or_scan r (scan_table bt dirty (\<lambda>_. Some clear_use) 0 (Suc hand));
     r \<leftarrow> or_scan r (scan_table bt clean (\<lambda>_. None) hand rows);
     r \<leftarrow> or_scan r (scan_table bt clean (\<lambda>_. None) 0 (Suc hand));
     (case r of
        (m, Some (j, f)) \<Rightarrow> Some (m\<lparr>clock_improved := next_hand rows j\<rparr>, f)
      | (m, None) \<Rightarrow> Some (m, INVALID_FRAME)) }"

subsection \<open>The loop on a list of rows\<close>

definition touch_row ::
    "(nat \<Rightarrow> (page_table_lvl_2 \<Rightarrow> page_table_lvl_2) option) \<Rightarrow> nat \<Rightarrow>
     page_table_lvl_2 \<Rightarrow> page_table_lvl_2" where
  "touch_row miss j r =
     (if present r then (case miss j of None \<Rightarrow> r | Some g \<Rightarrow> g r) else r)"

definition hit :: "(page_table_lvl_2 \<Rightarrow> bool) \<Rightarrow> page_table_lvl_2 list \<Rightarrow> nat \<Rightarrow> bool" where
  "hit match rs j = (present (rs ! j) \<and> match (rs ! j))"

function scan_list ::
    "(page_table_lvl_2 \<Rightarrow> bool) \<Rightarrow> (nat \<Rightarrow> (page_table_lvl_2 \<Rightarrow> page_table_lvl_2) option) \<Rightarrow>
     nat \<Rightarrow> nat \<Rightarrow> page_table_lvl_2 list \<Rightarrow> page_table_lvl_2 list \<times> (nat \<times> u32) option" where
  "scan_list match miss j hi rs =
     (if j < hi then
        if hit match rs j then (rs[j := (rs ! j)\<lparr>use := True\<rparr>], Some (j, frame (rs ! j)))
        else scan_list match miss (Suc j) hi (rs[j := touch_row miss j (rs ! j)])
      else (rs, None))"
  by pat_completeness auto
termination
  by (relation "measure (\<lambda>(match, miss, j, hi, rs). hi - j)") auto

declare scan_list.simps [simp del]

definition touch ::
    "(nat \<Rightarrow> (page_table_lvl_2 \<Rightarrow> page_table_lvl_2) option) \<Rightarrow> nat \<Rightarrow> nat \<Rightarrow>
     page_table_lvl_2 list \<Rightarrow> page_table_lvl_2 list" where
  "touch miss lo hi rs =
     map (\<lambda>i. if lo \<le> i \<and> i < hi then touch_row miss i (rs ! i) else rs ! i) [0..<length rs]"

lemma length_touch [simp]: "length (touch miss lo hi rs) = length rs"
  by (simp add: touch_def)

lemma nth_touch:
  "i < length rs \<Longrightarrow> touch miss lo hi rs ! i =
    (if lo \<le> i \<and> i < hi then touch_row miss i (rs ! i) else rs ! i)"
  by (simp add: touch_def)

lemma touch_row_none [simp]: "touch_row (\<lambda>_. None) j r = r"
  by (simp add: touch_row_def)

lemma touch_none [simp]: "touch (\<lambda>_. None) lo hi rs = rs"
  by (rule nth_equalityI) (simp_all add: nth_touch)

lemma touch_empty: "hi \<le> lo \<Longrightarrow> touch miss lo hi rs = rs"
  by (rule nth_equalityI) (auto simp: nth_touch)

lemma touch_step:
  assumes "lo < hi" and "hi \<le> length rs"
  shows "touch miss (Suc lo) hi (rs[lo := touch_row miss lo (rs ! lo)]) = touch miss lo hi rs"
  using assms by (intro nth_equalityI) (auto simp: nth_touch nth_list_update)

text \<open>The loop stops at the first present row that matches, and touches the rows before it.\<close>

lemma scan_list_eq:
  assumes "hi \<le> length rs"
  shows "scan_list match miss lo hi rs =
    (case find (hit match rs) [lo..<hi] of
       None \<Rightarrow> (touch miss lo hi rs, None)
     | Some j \<Rightarrow> ((touch miss lo j rs)[j := (rs ! j)\<lparr>use := True\<rparr>], Some (j, frame (rs ! j))))"
  using assms
proof (induction "hi - lo" arbitrary: lo rs)
  case 0
  then show ?case by (subst scan_list.simps) (simp add: touch_empty)
next
  case (Suc d)
  then have lo: "lo < hi" "lo < length rs" by simp_all
  show ?case
  proof (cases "hit match rs lo")
    case True
    with lo show ?thesis
      by (subst scan_list.simps) (simp add: upt_conv_Cons touch_empty)
  next
    case False
    let ?rs = "rs[lo := touch_row miss lo (rs ! lo)]"
    have step: "scan_list match miss lo hi rs = scan_list match miss (Suc lo) hi ?rs"
      using lo False by (subst scan_list.simps) simp
    have "find (hit match rs) [Suc lo..<hi] = find (hit match ?rs) [Suc lo..<hi]"
      by (rule find_cong) (auto simp: hit_def)
    then have found: "find (hit match rs) [lo..<hi] = find (hit match ?rs) [Suc lo..<hi]"
      using lo False by (simp add: upt_conv_Cons)
    have "scan_list match miss (Suc lo) hi ?rs =
      (case find (hit match ?rs) [Suc lo..<hi] of
         None \<Rightarrow> (touch miss (Suc lo) hi ?rs, None)
       | Some j \<Rightarrow> ((touch miss (Suc lo) j ?rs)[j := (?rs ! j)\<lparr>use := True\<rparr>],
                    Some (j, frame (?rs ! j))))"
      using Suc by (intro Suc.hyps(1)) auto
    note IH = this
    show ?thesis
    proof (cases "find (hit match ?rs) [Suc lo..<hi]")
      case None
      with step found IH show ?thesis
        using touch_step [OF lo(1) Suc.prems] by simp
    next
      case (Some j)
      then have "Suc lo \<le> j" "j < hi"
        by (auto simp: find_upt_Some)
      with Some step found IH show ?thesis
        using touch_step [of lo j rs miss] Suc.prems by simp
    qed
  qed
qed

text \<open>A run on a store computes a result on lists.\<close>

definition computes ::
    "('s \<Rightarrow> page_table_lvl_2 list) \<Rightarrow> ('s \<Rightarrow> bool) \<Rightarrow> ('s \<Rightarrow> 's \<Rightarrow> bool) \<Rightarrow> 's \<Rightarrow>
     ('s \<times> (nat \<times> u32) option) option \<Rightarrow> page_table_lvl_2 list \<times> (nat \<times> u32) option \<Rightarrow> bool"
where
  "computes rows ok same s0 run l \<longleftrightarrow>
     (\<exists>s. run = Some (s, snd l) \<and> ok s \<and> rows s = fst l \<and> same s0 s)"

definition or_list ::
    "page_table_lvl_2 list \<times> (nat \<times> u32) option \<Rightarrow>
     (page_table_lvl_2 list \<Rightarrow> page_table_lvl_2 list \<times> (nat \<times> u32) option) \<Rightarrow>
     page_table_lvl_2 list \<times> (nat \<times> u32) option" where
  "or_list r next_scan = (case snd r of Some _ \<Rightarrow> r | None \<Rightarrow> next_scan (fst r))"

lemma length_scan_list: "hi \<le> length rs \<Longrightarrow> length (fst (scan_list match miss lo hi rs)) = length rs"
  by (simp add: scan_list_eq split: option.split)

subsection \<open>The loop on a store of rows\<close>

locale row_window =
  fixes rd :: "'s \<Rightarrow> nat \<Rightarrow> page_table_lvl_2 option"
    and wr :: "'s \<Rightarrow> nat \<Rightarrow> (page_table_lvl_2 \<Rightarrow> page_table_lvl_2) \<Rightarrow> 's option"
    and rows :: "'s \<Rightarrow> page_table_lvl_2 list"
    and ok :: "'s \<Rightarrow> bool"
    and same :: "'s \<Rightarrow> 's \<Rightarrow> bool"
  assumes rd_ok: "ok s \<Longrightarrow> j < length (rows s) \<Longrightarrow> rd s j = Some (rows s ! j)"
    and wr_ok: "ok s \<Longrightarrow> j < length (rows s) \<Longrightarrow>
      \<exists>s'. wr s j f = Some s' \<and> ok s' \<and> rows s' = (rows s)[j := f (rows s ! j)] \<and> same s s'"
    and same_refl: "same s s"
    and same_trans: "same s s' \<Longrightarrow> same s' s'' \<Longrightarrow> same s s''"
begin

lemma scan_refines:
  assumes "ok s" and "hi \<le> length (rows s)"
  shows "computes rows ok same s (scan rd wr match miss lo hi s)
    (scan_list match miss lo hi (rows s))"
  using assms
  unfolding computes_def
proof (induction "hi - lo" arbitrary: lo s)
  case 0
  then show ?case
    by (subst scan.simps, subst (1 2) scan_list.simps) (simp add: same_refl)
next
  case (Suc d)
  then have lo: "lo < hi" "lo < length (rows s)" and r: "rd s lo = Some (rows s ! lo)"
    by (simp_all add: rd_ok)
  show ?case
  proof (cases "hit match (rows s) lo")
    case True
    then show ?thesis
      using wr_ok [OF Suc.prems(1) lo(2), of "\<lambda>r. r\<lparr>use := True\<rparr>"] lo r
      by (subst scan.simps, subst (1 2) scan_list.simps) (auto simp: hit_def)
  next
    case False
    let ?rs = "(rows s)[lo := touch_row miss lo (rows s ! lo)]"
    have "\<exists>s'. (if present (rows s ! lo)
        then (case miss lo of None \<Rightarrow> Some s | Some g \<Rightarrow> wr s lo g) else Some s) = Some s' \<and>
      ok s' \<and> rows s' = ?rs \<and> same s s'"
      using wr_ok [OF Suc.prems(1) lo(2)] Suc.prems(1) same_refl
      by (auto simp: touch_row_def split: option.split)
    then obtain s' where s': "(if present (rows s ! lo)
        then (case miss lo of None \<Rightarrow> Some s | Some g \<Rightarrow> wr s lo g) else Some s) = Some s'"
      and ok': "ok s'" and rs': "rows s' = ?rs" and same': "same s s'"
      by blast
    have step: "scan rd wr match miss lo hi s = scan rd wr match miss (Suc lo) hi s'"
      using lo r False s' by (subst scan.simps) (auto simp: hit_def split: if_splits)
    have stepl: "scan_list match miss lo hi (rows s) = scan_list match miss (Suc lo) hi ?rs"
      using lo False by (subst scan_list.simps) simp
    have "d = hi - Suc lo" "hi \<le> length (rows s')"
      using Suc.hyps(2) Suc.prems rs' by simp_all
    from Suc.hyps(1) [OF this(1) ok' this(2)] show ?thesis
      unfolding step stepl rs' using same_trans [OF same'] by blast
  qed
qed

lemma or_scan_refines:
  assumes "computes rows ok same s0 run l"
    and "\<And>s. ok s \<Longrightarrow> length (rows s) = length (fst l) \<Longrightarrow>
      computes rows ok same s (next_scan s) (next_list (rows s))"
  shows "computes rows ok same s0 (run \<bind> (\<lambda>r. or_scan r next_scan)) (or_list l next_list)"
proof -
  obtain s where s: "run = Some (s, snd l)" "ok s" "rows s = fst l" "same s0 s"
    using assms(1) by (auto simp: computes_def)
  show ?thesis
  proof (cases "snd l")
    case (Some v)
    with s show ?thesis by (auto simp: computes_def or_scan_def or_list_def)
  next
    case None
    with assms(2) [of s] s show ?thesis
      by (auto simp: computes_def or_scan_def or_list_def intro: same_trans)
  qed
qed

lemma fold_refines:
  assumes "ok s" and "n \<le> length (rows s)"
  shows "\<exists>s'. foldM (\<lambda>j s. wr s j f) [0..<n] s = Some s' \<and> ok s' \<and>
    rows s' = map f (take n (rows s)) @ drop n (rows s) \<and> same s s'"
  using assms
proof (induction n)
  case 0
  then show ?case by (simp add: same_refl)
next
  case (Suc n)
  then obtain s' where s': "foldM (\<lambda>j s. wr s j f) [0..<n] s = Some s'" "ok s'" "same s s'"
    "rows s' = map f (take n (rows s)) @ drop n (rows s)"
    by auto
  moreover have "n < length (rows s')"
    using Suc.prems s' by simp
  then obtain s'' where "wr s' n f = Some s''" "ok s''" "same s' s''"
    "rows s'' = (rows s')[n := f (rows s' ! n)]"
    using wr_ok [OF s'(2), of n f] by blast
  moreover have "(rows s')[n := f (rows s' ! n)] =
      map f (take (Suc n) (rows s)) @ drop (Suc n) (rows s)"
    using Suc.prems s'(4)
    by (simp add: list_update_append nth_append take_Suc_conv_app_nth flip: Cons_nth_drop_Suc)
  ultimately show ?case
    using same_trans by (auto simp: foldM_append)
qed

end

interpretation win: row_window "bt_read bt" "bt_write bt" "view bt" "bt_ok bt" "same_but bt"
  for bt
proof
  fix s s' s'' :: memory and j and f
  show "bt_ok bt s \<Longrightarrow> j < length (view bt s) \<Longrightarrow> bt_read bt s j = Some (view bt s ! j)"
    by (simp add: bt_read_ok)
  show "bt_ok bt s \<Longrightarrow> j < length (view bt s) \<Longrightarrow>
    \<exists>s'. bt_write bt s j f = Some s' \<and> bt_ok bt s' \<and>
      view bt s' = (view bt s)[j := f (view bt s ! j)] \<and> same_but bt s s'"
    using bt_write_ok [of bt s j f] bt_write_same_but by auto
  show "same_but bt s s" by (rule same_but_refl)
  show "same_but bt s s' \<Longrightarrow> same_but bt s' s'' \<Longrightarrow> same_but bt s s''"
    by (rule same_but_trans)
qed

subsection \<open>What the algorithms compute on the rows of a process\<close>

definition process_rows :: "memory \<Rightarrow> u32 \<Rightarrow> page_table_lvl_2 list option" where
  "process_rows m table_index = do {
     big_table \<leftarrow> create_big_table m table_index;
     bt \<leftarrow> big_table;
     if list_all (\<lambda>r. deref_row m r \<noteq> None) bt then Some (view bt m) else None }"

definition cyclic :: "nat \<Rightarrow> nat \<Rightarrow> nat list" where
  "cyclic hand n = [hand..<n] @ [0..<hand]"

text \<open>CLOCK takes the first page in the cyclic order that is present and not in use, and
  otherwise whatever page the hand points at.\<close>

definition clock_hit :: "page_table_lvl_2 list \<Rightarrow> nat \<Rightarrow> nat option" where
  "clock_hit rs hand = find (hit (\<lambda>r. \<not> use r) rs) (cyclic hand (length rs))"

definition clock_victim :: "page_table_lvl_2 list \<Rightarrow> nat \<Rightarrow> nat" where
  "clock_victim rs hand = (case clock_hit rs hand of Some j \<Rightarrow> j | None \<Rightarrow> hand)"

text \<open>CLOCK improved looks for (U=0, M=0), then for (U=0, M=1), then for a page it has just
  cleared: the page under the hand if it is modified, and otherwise the first one that is
  not modified.\<close>

definition improved_clock_victim :: "page_table_lvl_2 list \<Rightarrow> nat \<Rightarrow> nat option" where
  "improved_clock_victim rs hand =
     (let order = cyclic hand (length rs) in
      case find (hit (\<lambda>r. \<not> use r \<and> \<not> modified r) rs) order of
        Some j \<Rightarrow> Some j
      | None \<Rightarrow>
         (case find (hit (\<lambda>r. \<not> use r \<and> modified r) rs) order of
            Some j \<Rightarrow> Some j
          | None \<Rightarrow>
             if hit modified rs hand then Some hand
             else find (hit (\<lambda>r. \<not> modified r) rs) order))"

lemma set_cyclic: "hand < n \<Longrightarrow> set (cyclic hand n) = {..<n}"
  by (auto simp: cyclic_def)

text \<open>The search for a page that is modified is not repeated, so there may be no victim.\<close>

lemma improved_clock_victim_None:
  assumes "hand < length rs"
  shows "improved_clock_victim rs hand = None \<longleftrightarrow> \<not> present (rs ! hand) \<and>
    list_all (\<lambda>r. present r \<longrightarrow> use r \<and> modified r) rs"
proof -
  let ?none = "\<lambda>match. find (hit match rs) (cyclic hand (length rs)) = None"
  have none: "?none match \<longleftrightarrow> (\<forall>j < length rs. present (rs ! j) \<longrightarrow> \<not> match (rs ! j))" for match
    by (auto simp: find_None_iff set_cyclic [OF assms] hit_def)
  have "improved_clock_victim rs hand = None \<longleftrightarrow> ?none (\<lambda>r. \<not> use r \<and> \<not> modified r) \<and>
      ?none (\<lambda>r. \<not> use r \<and> modified r) \<and> \<not> hit modified rs hand \<and> ?none (\<lambda>r. \<not> modified r)"
    by (auto simp: improved_clock_victim_def Let_def split: option.split)
  then show ?thesis
    unfolding none using assms by (auto simp: hit_def list_all_length)
qed

lemma find_append_case:
  "find P (xs @ ys) = (case find P xs of Some x \<Rightarrow> Some x | None \<Rightarrow> find P ys)"
  by (induction xs) auto

lemma find_upt_Suc:
  "find P [lo..<Suc hi] = (case find P [lo..<hi] of Some x \<Rightarrow> Some x
    | None \<Rightarrow> if lo \<le> hi \<and> P hi then Some hi else None)"
  by (simp add: find_append_case split: option.split)

lemma process_rows_wf:
  assumes "tables_wf m" and "safe_list_get (tables_lvl_1 m) (sint ti) = Some t"
  shows "process_rows m ti = Some (view (row_refs (rows_of m) (map second_page t)) m)"
  using bt_ok_row_refs [OF assms]
  by (simp add: process_rows_def create_big_table_wf [OF assms] bt_ok_def)

lemma process_rows_SomeD:
  assumes "tables_wf m" and "process_rows m ti = Some rs"
  obtains t where "safe_list_get (tables_lvl_1 m) (sint ti) = Some t"
    "rs = view (row_refs (rows_of m) (map second_page t)) m"
    "length t = rows_of m"
proof (cases "safe_list_get (tables_lvl_1 m) (sint ti)")
  case None
  with assms(2) show thesis by (simp add: process_rows_def create_big_table_def)
next
  case (Some t)
  with that assms process_rows_wf [OF assms(1) Some] tables_wf_lengths(1) [OF assms(1) Some]
  show thesis by simp
qed

subsection \<open>Victims on lists\<close>

definition same_pages :: "page_table_lvl_2 list \<Rightarrow> page_table_lvl_2 list \<Rightarrow> bool" where
  "same_pages rs rs' \<longleftrightarrow> map clear_use rs' = map clear_use rs"

lemma clear_use_simps [simp]:
  "frame (clear_use r) = frame r" "present (clear_use r) = present r"
  "modified (clear_use r) = modified r" "\<not> use (clear_use r)"
  "clear_use (clear_use r) = clear_use r" "clear_use (r\<lparr>use := b\<rparr>) = clear_use r"
  by (simp_all add: clear_use_def)

lemma same_pages_nth:
  assumes "same_pages rs rs'" and "i < length rs"
  shows "frame (rs' ! i) = frame (rs ! i)" "present (rs' ! i) = present (rs ! i)"
    "modified (rs' ! i) = modified (rs ! i)"
proof -
  have "length rs' = length rs"
    using assms(1) unfolding same_pages_def by (metis length_map)
  with assms have "clear_use (rs' ! i) = clear_use (rs ! i)"
    unfolding same_pages_def by (metis nth_map)
  then show "frame (rs' ! i) = frame (rs ! i)" "present (rs' ! i) = present (rs ! i)"
    "modified (rs' ! i) = modified (rs ! i)"
    by (metis clear_use_simps)+
qed

lemma same_pages_refl [simp]: "same_pages rs rs"
  by (simp add: same_pages_def)

lemma same_pages_trans: "same_pages a b \<Longrightarrow> same_pages b c \<Longrightarrow> same_pages a c"
  by (simp add: same_pages_def)

lemma same_pages_length: "same_pages a b \<Longrightarrow> length b = length a"
  unfolding same_pages_def by (metis length_map)

lemma same_pages_clear: "same_pages rs (map clear_use rs)"
  by (simp add: same_pages_def)

lemma same_pages_update: "i < length rs \<Longrightarrow> same_pages rs (rs[i := (rs ! i)\<lparr>use := b\<rparr>])"
  unfolding same_pages_def by (intro nth_equalityI) (auto simp: nth_list_update)

lemma same_pages_touch:
  assumes "\<And>j g. miss j = Some g \<Longrightarrow> g = clear_use"
  shows "same_pages rs (touch miss lo hi rs)"
  unfolding same_pages_def
  by (intro nth_equalityI) (auto simp: nth_touch touch_row_def dest: assms split: option.splits)

lemma snd_scan_list:
  "hi \<le> length rs \<Longrightarrow> snd (scan_list match miss lo hi rs) =
    map_option (\<lambda>j. (j, frame (rs ! j))) (find (hit match rs) [lo..<hi])"
  by (simp add: scan_list_eq split: option.split)

lemma same_pages_scan:
  assumes "hi \<le> length rs" and "\<And>j g. miss j = Some g \<Longrightarrow> g = clear_use"
  shows "same_pages rs (fst (scan_list match miss lo hi rs))"
proof (cases "find (hit match rs) [lo..<hi]")
  case None
  with assms show ?thesis by (simp add: scan_list_eq same_pages_touch)
next
  case (Some j)
  then have j: "j < length rs" using assms(1) by (auto simp: find_upt_Some)
  have "same_pages rs (touch miss lo j rs)"
    using assms(2) by (rule same_pages_touch)
  moreover have "clear_use (touch miss lo j rs ! j) = clear_use (rs ! j)"
    using j by (simp add: nth_touch)
  ultimately have "same_pages rs ((touch miss lo j rs)[j := (rs ! j)\<lparr>use := True\<rparr>])"
    using j unfolding same_pages_def
    by (intro nth_equalityI) (auto simp: nth_list_update list_eq_iff_nth_eq)
  with Some assms show ?thesis by (simp add: scan_list_eq)
qed

lemma same_pages_or_list:
  assumes "same_pages rs (fst l)" and "\<And>rs'. same_pages rs rs' \<Longrightarrow> same_pages rs' (fst (k rs'))"
  shows "same_pages rs (fst (or_list l k))"
  using assms by (auto simp: or_list_def split: option.split intro: same_pages_trans)

definition clock_scans ::
    "page_table_lvl_2 list \<Rightarrow> nat \<Rightarrow> page_table_lvl_2 list \<times> (nat \<times> u32) option" where
  "clock_scans rs hand =
     or_list
       (scan_list (\<lambda>r. \<not> use r) (\<lambda>j. if j = hand then Some clear_use else None) hand (length rs) rs)
       (scan_list (\<lambda>r. \<not> use r) (\<lambda>_. None) 0 (Suc hand))"

lemma find_hit_upd:
  assumes "\<And>i. i \<in> set is \<Longrightarrow> hit P rs' i = hit Q rs i"
  shows "find (hit P rs') is = find (hit Q rs) is"
  using assms by (intro find_cong) auto

lemma clock_scans_result:
  assumes "hand < length rs"
  shows "snd (clock_scans rs hand) =
    (case clock_hit rs hand of
       Some j \<Rightarrow> Some (j, frame (rs ! j))
     | None \<Rightarrow> if present (rs ! hand) then Some (hand, frame (rs ! hand)) else None)"
proof (cases "find (hit (\<lambda>r. \<not> use r) rs) [hand..<length rs]")
  case (Some j)
  then show ?thesis
    by (simp add: clock_scans_def or_list_def scan_list_eq clock_hit_def cyclic_def
        find_append_case)
next
  case None
  let ?miss = "\<lambda>j. if j = hand then Some clear_use else None"
  let ?rs = "touch ?miss hand (length rs) rs"
  have other: "?rs ! i = rs ! i" if "i < hand" for i
    using that assms by (simp add: nth_touch)
  have at: "?rs ! hand = (if present (rs ! hand) then clear_use (rs ! hand) else rs ! hand)"
    using assms by (simp add: nth_touch touch_row_def)
  have first: "scan_list (\<lambda>r. \<not> use r) ?miss hand (length rs) rs = (?rs, None)"
    using None by (simp add: scan_list_eq)
  have before: "find (hit (\<lambda>r. \<not> use r) ?rs) [0..<hand] = find (hit (\<lambda>r. \<not> use r) rs) [0..<hand]"
    by (rule find_hit_upd) (simp add: hit_def other)
  have here: "hit (\<lambda>r. \<not> use r) ?rs hand = present (rs ! hand)"
    using None assms by (auto simp: hit_def at find_upt_None)
  have frames_at: "frame (?rs ! hand) = frame (rs ! hand)"
    by (simp add: at)
  have "snd (clock_scans rs hand) =
      map_option (\<lambda>j. (j, frame (?rs ! j))) (find (hit (\<lambda>r. \<not> use r) ?rs) [0..<Suc hand])"
    unfolding clock_scans_def first
    using assms by (simp add: or_list_def snd_scan_list del: upt_Suc)
  also have "\<dots> = (case find (hit (\<lambda>r. \<not> use r) rs) [0..<hand] of
      Some j \<Rightarrow> Some (j, frame (?rs ! j))
    | None \<Rightarrow> if present (rs ! hand) then Some (hand, frame (rs ! hand)) else None)"
    unfolding find_upt_Suc before using here frames_at by (simp split: option.split)
  also have "\<dots> = (case find (hit (\<lambda>r. \<not> use r) rs) [0..<hand] of
      Some j \<Rightarrow> Some (j, frame (rs ! j))
    | None \<Rightarrow> if present (rs ! hand) then Some (hand, frame (rs ! hand)) else None)"
    using other by (auto dest: find_upt_SomeD split: option.split)
  finally show ?thesis
    using None by (simp add: clock_hit_def cyclic_def find_append_case)
qed

lemma clock_scans_same_pages:
  "hand < length rs \<Longrightarrow> same_pages rs (fst (clock_scans rs hand))"
  unfolding clock_scans_def
  by (intro same_pages_or_list same_pages_scan)
    (auto dest: same_pages_length split: if_splits)

abbreviation clean :: "page_table_lvl_2 \<Rightarrow> bool" where
  "clean \<equiv> \<lambda>r. \<not> use r \<and> \<not> modified r"

abbreviation dirty :: "page_table_lvl_2 \<Rightarrow> bool" where
  "dirty \<equiv> \<lambda>r. \<not> use r \<and> modified r"

definition both_halves ::
    "(page_table_lvl_2 \<Rightarrow> bool) \<Rightarrow> (nat \<Rightarrow> (page_table_lvl_2 \<Rightarrow> page_table_lvl_2) option) \<Rightarrow>
     nat \<Rightarrow> nat \<Rightarrow> page_table_lvl_2 list \<times> (nat \<times> u32) option \<Rightarrow>
     page_table_lvl_2 list \<times> (nat \<times> u32) option" where
  "both_halves match miss hand n r =
     or_list (or_list r (scan_list match miss hand n)) (scan_list match miss 0 (Suc hand))"

definition improved_scans ::
    "page_table_lvl_2 list \<Rightarrow> nat \<Rightarrow> page_table_lvl_2 list \<times> (nat \<times> u32) option" where
  "improved_scans rs hand =
     both_halves clean (\<lambda>_. None) hand (length rs)
       (both_halves dirty (\<lambda>_. Some clear_use) hand (length rs)
         (both_halves clean (\<lambda>_. None) hand (length rs) (rs, None)))"

lemma both_halves_done: "snd r = Some v \<Longrightarrow> both_halves match miss hand n r = r"
  by (simp add: both_halves_def or_list_def)

lemma both_halves_none:
  assumes "hand < length rs"
  shows "snd (both_halves match (\<lambda>_. None) hand (length rs) (rs, None)) =
      map_option (\<lambda>j. (j, frame (rs ! j))) (find (hit match rs) (cyclic hand (length rs)))"
    and "find (hit match rs) (cyclic hand (length rs)) = None \<Longrightarrow>
      both_halves match (\<lambda>_. None) hand (length rs) (rs, None) = (rs, None)"
proof -
  have "\<not> hit match rs hand" if "find (hit match rs) [hand..<length rs] = None"
    using that assms by (simp add: find_upt_None)
  then show "snd (both_halves match (\<lambda>_. None) hand (length rs) (rs, None)) =
      map_option (\<lambda>j. (j, frame (rs ! j))) (find (hit match rs) (cyclic hand (length rs)))"
    using assms
    by (auto simp: both_halves_def or_list_def scan_list_eq cyclic_def find_append_case
        find_upt_Suc split: option.split simp del: upt_Suc)
  assume "find (hit match rs) (cyclic hand (length rs)) = None"
  then have "find (hit match rs) [hand..<length rs] = None"
    "find (hit match rs) [0..<Suc hand] = None"
    using assms
    by (auto simp: cyclic_def find_append_case find_upt_None less_Suc_eq
        split: option.splits simp del: upt_Suc)
  then show "both_halves match (\<lambda>_. None) hand (length rs) (rs, None) = (rs, None)"
    using assms by (simp add: both_halves_def or_list_def scan_list_eq del: upt_Suc)
qed

lemma both_halves_clear:
  assumes "hand < length rs" and used: "\<And>i. i < length rs \<Longrightarrow> present (rs ! i) \<Longrightarrow> \<not> clean (rs ! i)"
  defines "r \<equiv> both_halves dirty (\<lambda>_. Some clear_use) hand (length rs) (rs, None)"
  shows "snd r = map_option (\<lambda>j. (j, frame (rs ! j)))
      (case find (hit dirty rs) (cyclic hand (length rs)) of
         Some j \<Rightarrow> Some j | None \<Rightarrow> if hit modified rs hand then Some hand else None)"
    and "snd r = None \<Longrightarrow>
      fst r = map (\<lambda>r. if present r then clear_use r else r) rs"
proof -
  let ?miss = "\<lambda>_::nat. Some clear_use"
  let ?rs = "touch ?miss hand (length rs) rs"
  show "snd r = map_option (\<lambda>j. (j, frame (rs ! j)))
      (case find (hit dirty rs) (cyclic hand (length rs)) of
         Some j \<Rightarrow> Some j | None \<Rightarrow> if hit modified rs hand then Some hand else None)"
  proof (cases "find (hit dirty rs) [hand..<length rs]")
    case (Some j)
    then show ?thesis
      by (simp add: r_def both_halves_def or_list_def scan_list_eq cyclic_def find_append_case)
  next
    case None
    have before: "find (hit dirty ?rs) [0..<hand] = find (hit dirty rs) [0..<hand]"
      using assms(1) by (intro find_hit_upd) (auto simp: hit_def nth_touch)
    have same: "frame (?rs ! j) = frame (rs ! j)" "hit dirty ?rs hand = hit modified rs hand"
      if "j \<le> hand" for j
      using that assms(1) by (auto simp: nth_touch touch_row_def hit_def)
    have "snd r = map_option (\<lambda>j. (j, frame (?rs ! j))) (find (hit dirty ?rs) [0..<Suc hand])"
      using None assms(1)
      by (auto simp: r_def both_halves_def or_list_def scan_list_eq
          split: option.split simp del: upt_Suc)
    also have "\<dots> = map_option (\<lambda>j. (j, frame (rs ! j)))
        (case find (hit dirty rs) [0..<hand] of
           Some j \<Rightarrow> Some j | None \<Rightarrow> if hit modified rs hand then Some hand else None)"
      unfolding find_upt_Suc before using same by (auto dest: find_upt_SomeD split: option.split)
    finally show ?thesis
      using None by (simp add: cyclic_def find_append_case)
  qed
  assume "snd r = None"
  then have n1: "find (hit dirty rs) [hand..<length rs] = None"
    and n2: "find (hit dirty ?rs) [0..<Suc hand] = None"
    using assms(1)
    by (auto simp: r_def both_halves_def or_list_def scan_list_eq snd_scan_list
        split: option.splits simp del: upt_Suc)
  have "fst r = touch ?miss 0 (Suc hand) ?rs"
    using n1 n2 assms(1)
    by (simp add: r_def both_halves_def or_list_def scan_list_eq del: upt_Suc)
  also have "\<dots> = map (\<lambda>r. if present r then clear_use r else r) rs"
    using assms(1)
    by (intro nth_equalityI) (auto simp: nth_touch touch_row_def)
  finally show "fst r = map (\<lambda>r. if present r then clear_use r else r) rs" .
qed

lemma improved_scans_result:
  assumes "hand < length rs"
  shows "snd (improved_scans rs hand) =
    map_option (\<lambda>j. (j, frame (rs ! j))) (improved_clock_victim rs hand)"
proof -
  let ?n = "length rs" and ?order = "cyclic hand (length rs)"
  define r1 where "r1 = both_halves clean (\<lambda>_. None) hand ?n (rs, None)"
  define r2 where "r2 = both_halves dirty (\<lambda>_. Some clear_use) hand ?n r1"
  have r3: "improved_scans rs hand = both_halves clean (\<lambda>_. None) hand ?n r2"
    by (simp add: improved_scans_def r1_def r2_def)
  show ?thesis
  proof (cases "find (hit clean rs) ?order")
    case (Some j)
    then have "snd r1 = Some (j, frame (rs ! j))"
      using both_halves_none(1) [OF assms, of clean] by (simp add: r1_def)
    then show ?thesis
      using Some by (simp add: r3 r2_def both_halves_done improved_clock_victim_def)
  next
    case None
    have r1: "r1 = (rs, None)"
      using both_halves_none(2) [OF assms None] by (simp add: r1_def)
    have "\<not> clean (rs ! i)" if "i < ?n" "present (rs ! i)" for i
    proof -
      have "i \<in> set ?order" using that(1) assms by (auto simp: cyclic_def)
      then show ?thesis using None that(2) by (auto simp: find_None_iff hit_def)
    qed
    note clear = both_halves_clear [OF assms this, folded r1, folded r2_def]
    show ?thesis
    proof (cases "snd r2")
      case (Some v)
      with clear(1) None show ?thesis
        by (auto simp: r3 both_halves_done improved_clock_victim_def split: option.splits if_splits)
    next
      case none: None
      let ?rs = "map (\<lambda>r. if present r then clear_use r else r) rs"
      have r2: "r2 = (?rs, None)"
        using clear(2) none by (metis prod.collapse)
      have "find (hit clean ?rs) ?order = find (hit (\<lambda>r. \<not> modified r) rs) ?order"
        using assms by (intro find_hit_upd) (auto simp: hit_def cyclic_def split: if_splits)
      moreover have "frame (?rs ! j) = frame (rs ! j)" if "j < ?n" for j
        using that by simp
      moreover have "j < ?n" if "find P ?order = Some j" for P j
        using that assms by (auto simp: cyclic_def find_append_case dest: find_upt_SomeD split: option.splits)
      ultimately have "snd (improved_scans rs hand) =
          map_option (\<lambda>j. (j, frame (rs ! j))) (find (hit (\<lambda>r. \<not> modified r) rs) ?order)"
        using both_halves_none(1) [of hand ?rs clean] assms
        by (auto simp: r3 r2 intro!: option.map_cong)
      then show ?thesis
        using none clear(1) None
        by (auto simp: improved_clock_victim_def split: option.splits if_splits)
    qed
  qed
qed

lemma same_pages_both_halves:
  assumes "same_pages rs (fst r)" and "hand < length rs"
    and "\<And>j g. miss j = Some g \<Longrightarrow> g = clear_use"
  shows "same_pages rs (fst (both_halves match miss hand (length rs) r))"
  unfolding both_halves_def
  using assms by (intro same_pages_or_list same_pages_scan) (auto dest: same_pages_length)

lemma improved_scans_same_pages:
  "hand < length rs \<Longrightarrow> same_pages rs (fst (improved_scans rs hand))"
  unfolding improved_scans_def by (intro same_pages_both_halves) auto

subsection \<open>What the selectors compute\<close>

text \<open>What a run of a selector may change: the use bits of the rows of the process and the
  hands.\<close>

definition only_use_bits :: "u32 \<Rightarrow> memory \<Rightarrow> memory \<Rightarrow> bool" where
  "only_use_bits ti m m' =
     (case create_big_table m ti of
        Some (Some bt) \<Rightarrow>
          same_but bt m (m'\<lparr>clock := clock m, clock_improved := clock_improved m\<rparr>) \<and>
          same_pages (view bt m) (view bt m')
      | _ \<Rightarrow> False)"

lemma hand_updates [simp]:
  "deref_row (m\<lparr>clock := c\<rparr>) q = deref_row m q"
  "deref_row (m\<lparr>clock_improved := c\<rparr>) q = deref_row m q"
  "view bt (m\<lparr>clock := c\<rparr>) = view bt m"
  "view bt (m\<lparr>clock_improved := c\<rparr>) = view bt m"
  "shape (m\<lparr>clock := c\<rparr>) = shape m"
  "shape (m\<lparr>clock_improved := c\<rparr>) = shape m"
  by (simp_all add: deref_row_def view_def shape_def)

lemma only_use_bits_I:
  assumes "create_big_table m ti = Some (Some bt)" and "same_but bt m s"
    and "same_pages (view bt m) (view bt s)"
  shows "only_use_bits ti m (s\<lparr>clock := c\<rparr>)" "only_use_bits ti m (s\<lparr>clock_improved := c\<rparr>)"
    "only_use_bits ti m s"
proof -
  have "s\<lparr>clock := c, clock := clock m\<rparr> = s" "s\<lparr>clock_improved := clock_improved m\<rparr> = s"
    "s\<lparr>clock := clock m, clock_improved := c, clock_improved := clock_improved m\<rparr> = s"
    using same_but_fields(9,10) [OF assms(2), symmetric] by simp_all
  then show "only_use_bits ti m (s\<lparr>clock := c\<rparr>)" "only_use_bits ti m (s\<lparr>clock_improved := c\<rparr>)"
    "only_use_bits ti m s"
    using assms same_but_fields(9,10) [OF assms(2), symmetric] by (simp_all add: only_use_bits_def)
qed

lemma clock_run:
  assumes "bt_ok bt m" and "hand < length bt"
  shows "computes (view bt) (bt_ok bt) (same_but bt) m
    (scan_table bt (\<lambda>r. \<not> use r) (\<lambda>j. if j = hand then Some clear_use else None)
       hand (length bt) m \<bind>
     (\<lambda>r. or_scan r (scan_table bt (\<lambda>r. \<not> use r) (\<lambda>_. None) 0 (Suc hand))))
    (clock_scans (view bt m) hand)"
  unfolding clock_scans_def
proof (rule win.or_scan_refines)
  show "computes (view bt) (bt_ok bt) (same_but bt) m
    (scan_table bt (\<lambda>r. \<not> use r) (\<lambda>j. if j = hand then Some clear_use else None)
      hand (length bt) m)
    (scan_list (\<lambda>r. \<not> use r) (\<lambda>j. if j = hand then Some clear_use else None) hand
      (length (view bt m)) (view bt m))"
    using win.scan_refines [OF assms(1), of "length bt"] by simp
  show "computes (view bt) (bt_ok bt) (same_but bt) s
      (scan_table bt (\<lambda>r. \<not> use r) (\<lambda>_. None) 0 (Suc hand) s)
      (scan_list (\<lambda>r. \<not> use r) (\<lambda>_. None) 0 (Suc hand) (view bt s))" if "bt_ok bt s" for s
    using that assms by (intro win.scan_refines) simp_all
qed

lemma improved_run:
  assumes "bt_ok bt m" and "hand < length bt"
  shows "computes (view bt) (bt_ok bt) (same_but bt) m
    (scan_table bt clean (\<lambda>_. None) hand (length bt) m \<bind>
     (\<lambda>r. or_scan r (scan_table bt clean (\<lambda>_. None) 0 (Suc hand))) \<bind>
     (\<lambda>r. or_scan r (scan_table bt dirty (\<lambda>_. Some clear_use) hand (length bt))) \<bind>
     (\<lambda>r. or_scan r (scan_table bt dirty (\<lambda>_. Some clear_use) 0 (Suc hand))) \<bind>
     (\<lambda>r. or_scan r (scan_table bt clean (\<lambda>_. None) hand (length bt))) \<bind>
     (\<lambda>r. or_scan r (scan_table bt clean (\<lambda>_. None) 0 (Suc hand))))
    (improved_scans (view bt m) hand)"
proof -
  have start: "or_list (view bt m, None) k = k (view bt m)" for k
    by (simp add: or_list_def)
  have scan: "computes (view bt) (bt_ok bt) (same_but bt) s
      (scan_table bt match miss lo hi s) (scan_list match miss lo hi (view bt s))"
    if "bt_ok bt s" "hi \<le> length bt" for s match miss lo hi
    using that by (intro win.scan_refines) simp_all
  show ?thesis
    unfolding improved_scans_def both_halves_def start
    by (intro win.or_scan_refines) (use assms in \<open>auto intro!: scan\<close>)
qed

lemma log_table_bt_ok: "bt_ok bt m \<Longrightarrow> log_table bt m (length bt) = Some ()"
  by (rule log_table_ok) (auto dest: bt_read_ok)

lemma big_table_length:
  assumes "tables_wf m" and "safe_list_get (tables_lvl_1 m) i = Some t"
  shows "length (row_refs (rows_of m) (map second_page t)) = rows_of m * rows_of m"
  using tables_wf_lengths(1) [OF assms] by simp

definition clock_hand_after :: "page_table_lvl_2 list \<Rightarrow> nat \<Rightarrow> u32" where
  "clock_hand_after rs hand =
     (case clock_hit rs hand of
        Some j \<Rightarrow> next_hand (length rs) j
      | None \<Rightarrow> if present (rs ! hand) then next_hand (length rs) hand else 0)"

lemma clock_selector_correct:
  assumes wf: "tables_wf m" and rs: "process_rows m ti = Some rs"
    and hand: "unat (clock m) < length rs"
  shows "\<exists>m'. clock_selector m ti = Some (m', frame (rs ! clock_victim rs (unat (clock m)))) \<and>
    clock m' = clock_hand_after rs (unat (clock m)) \<and> only_use_bits ti m m'"
proof -
  obtain t where t: "safe_list_get (tables_lvl_1 m) (sint ti) = Some t"
    and rs_def: "rs = view (row_refs (rows_of m) (map second_page t)) m"
    using process_rows_SomeD [OF wf rs] by blast
  define bt where "bt = row_refs (rows_of m) (map second_page t)"
  let ?hand = "unat (clock m)"
  have bt: "create_big_table m ti = Some (Some bt)" "bt_ok bt m" "rs = view bt m"
    "rows_of m * rows_of m = length bt"
    using create_big_table_wf [OF wf t] bt_ok_row_refs [OF wf t] rs_def
      big_table_length [OF wf t, symmetric] by (simp_all only: bt_def)
  then have hand': "?hand < length bt" using hand by simp
  note bt = bt hand'
  have len: "length rs = length bt" using bt(3) by simp
  obtain s where s: "scan_table bt (\<lambda>r. \<not> use r) (\<lambda>j. if j = ?hand then Some clear_use else None)
       ?hand (length bt) m \<bind>
     (\<lambda>r. or_scan r (scan_table bt (\<lambda>r. \<not> use r) (\<lambda>_. None) 0 (Suc ?hand)))
      = Some (s, snd (clock_scans rs ?hand))"
    and s_ok: "bt_ok bt s" "view bt s = fst (clock_scans rs ?hand)" "same_but bt m s"
    using clock_run [OF bt(2,5)] by (auto simp: computes_def bt(3))
  note pages = clock_scans_same_pages [OF hand, folded s_ok(2)]
  show ?thesis
  proof (cases "snd (clock_scans rs ?hand)")
    case (Some v)
    then have v: "v = (clock_victim rs ?hand, frame (rs ! clock_victim rs ?hand))"
      "clock_hand_after rs ?hand = next_hand (length bt) (clock_victim rs ?hand)"
      using clock_scans_result [OF hand] len
      by (auto simp: clock_victim_def clock_hand_after_def split: option.splits if_splits)
    have "clock_selector m ti = Some (s\<lparr>clock := clock_hand_after rs ?hand\<rparr>,
        frame (rs ! clock_victim rs ?hand))"
      using s Some v by (simp add: clock_selector_def bt(1,4) log_table_bt_ok [OF bt(2)] Let_def
          flip: bind_assoc)
    then show ?thesis
      using only_use_bits_I(1) [OF bt(1) s_ok(3)] pages by (auto simp: bt(3))
  next
    case None
    then have none: "clock_victim rs ?hand = ?hand" "clock_hand_after rs ?hand = 0"
      using clock_scans_result [OF hand]
      by (auto simp: clock_victim_def clock_hand_after_def split: option.splits if_splits)
    obtain s1 where s1: "foldM (\<lambda>j m. bt_write bt m j clear_use) [0..<length bt] s = Some s1"
      "bt_ok bt s1" "view bt s1 = map clear_use (view bt s)" "same_but bt s s1"
      using win.fold_refines [OF s_ok(1), of "length bt" clear_use] by auto
    obtain s2 where s2: "bt_write bt s1 ?hand (\<lambda>r. r\<lparr>use := True\<rparr>) = Some s2"
      "same_but bt s1 s2" "view bt s2 = (view bt s1)[?hand := (view bt s1 ! ?hand)\<lparr>use := True\<rparr>]"
      using win.wr_ok [OF s1(2), of ?hand "\<lambda>r. r\<lparr>use := True\<rparr>"] bt(5) by auto
    have same: "same_but bt m s2"
      using s_ok(3) s1(4) s2(2) by (blast intro: same_but_trans)
    have pages1: "same_pages rs (view bt s1)"
      using pages by (simp add: s1(3) same_pages_def)
    moreover have "same_pages (view bt s1) (view bt s2)"
      using bt(5) by (simp add: s2(3) same_pages_update)
    ultimately have pages2: "same_pages rs (view bt s2)"
      by (rule same_pages_trans)
    have clk: "clock s2 = clock m" by (rule same_but_fields(9) [OF same])
    have fits: "unat (clock m + 1) \<le> length bt"
      using bt(5) mod_less_eq_dividend [of "Suc ?hand" "2 ^ 32"] by (simp add: unat_word_ariths)
    have "clock_selector m ti = Some (s2\<lparr>clock := 0\<rparr>, frame (rs ! ?hand))"
      using s None s1(1) s2(1) bt_read_ok [OF s1(2), of ?hand] bt(5) fits clk
        same_pages_nth(1) [OF pages1, of ?hand] len
      by (simp add: clock_selector_def bt(1,4) log_table_bt_ok [OF bt(2)] log_table_bt_ok [OF s1(2)]
          Let_def flip: bind_assoc)
    then show ?thesis
      using only_use_bits_I(1) [OF bt(1) same] pages2 none by (auto simp: bt(3))
  qed
qed

definition improved_clock_hand_after :: "page_table_lvl_2 list \<Rightarrow> nat \<Rightarrow> u32" where
  "improved_clock_hand_after rs hand =
     (case improved_clock_victim rs hand of
        Some j \<Rightarrow> next_hand (length rs) j
      | None \<Rightarrow> word_of_nat hand)"

lemma improved_clock_selector_correct:
  assumes wf: "tables_wf m" and rs: "process_rows m ti = Some rs"
    and hand: "unat (clock_improved m) < length rs"
  shows "\<exists>m'. improved_clock_selector m ti =
      Some (m', case improved_clock_victim rs (unat (clock_improved m)) of
                  Some j \<Rightarrow> frame (rs ! j) | None \<Rightarrow> INVALID_FRAME) \<and>
    clock_improved m' = improved_clock_hand_after rs (unat (clock_improved m)) \<and>
    only_use_bits ti m m'"
proof -
  obtain t where t: "safe_list_get (tables_lvl_1 m) (sint ti) = Some t"
    and rs_def: "rs = view (row_refs (rows_of m) (map second_page t)) m"
    using process_rows_SomeD [OF wf rs] by blast
  define bt where "bt = row_refs (rows_of m) (map second_page t)"
  let ?hand = "unat (clock_improved m)"
  have bt: "create_big_table m ti = Some (Some bt)" "bt_ok bt m" "rs = view bt m"
    "rows_of m * rows_of m = length bt"
    using create_big_table_wf [OF wf t] bt_ok_row_refs [OF wf t] rs_def
      big_table_length [OF wf t, symmetric] by (simp_all only: bt_def)
  have hand': "?hand < length bt" using hand bt(3) by simp
  obtain s where s: "scan_table bt clean (\<lambda>_. None) ?hand (length bt) m \<bind>
     (\<lambda>r. or_scan r (scan_table bt clean (\<lambda>_. None) 0 (Suc ?hand))) \<bind>
     (\<lambda>r. or_scan r (scan_table bt dirty (\<lambda>_. Some clear_use) ?hand (length bt))) \<bind>
     (\<lambda>r. or_scan r (scan_table bt dirty (\<lambda>_. Some clear_use) 0 (Suc ?hand))) \<bind>
     (\<lambda>r. or_scan r (scan_table bt clean (\<lambda>_. None) ?hand (length bt))) \<bind>
     (\<lambda>r. or_scan r (scan_table bt clean (\<lambda>_. None) 0 (Suc ?hand)))
      = Some (s, snd (improved_scans rs ?hand))"
    and s_ok: "bt_ok bt s" "view bt s = fst (improved_scans rs ?hand)" "same_but bt m s"
    using improved_run [OF bt(2) hand'] by (auto simp: computes_def bt(3))
  note pages = improved_scans_same_pages [OF hand, folded s_ok(2)]
  have run: "improved_clock_selector m ti =
     (case snd (improved_scans rs ?hand) of
        Some (j, f) \<Rightarrow> Some (s\<lparr>clock_improved := next_hand (length bt) j\<rparr>, f)
      | None \<Rightarrow> Some (s, INVALID_FRAME))"
    using s by (simp add: improved_clock_selector_def bt(1,4) log_table_bt_ok [OF bt(2)] Let_def
        flip: bind_assoc split: option.split prod.split)
  show ?thesis
    using run only_use_bits_I(2,3) [OF bt(1) s_ok(3)] pages same_but_fields(10) [OF s_ok(3)]
    by (cases "improved_clock_victim rs ?hand")
      (auto simp: improved_scans_result [OF hand, unfolded bt(3)] improved_clock_hand_after_def bt(3))
qed

lemma only_use_bits_wf:
  assumes "only_use_bits ti m m'" and "tables_wf m"
  shows "tables_wf m'"
proof -
  let ?m = "m'\<lparr>clock := clock m, clock_improved := clock_improved m\<rparr>"
  obtain bt where "same_but bt m ?m"
    using assms(1) by (auto simp: only_use_bits_def split: option.splits)
  then have "tables_wf ?m" by (rule same_but_wf) (rule assms(2))
  moreover have "second_pages ?m = second_pages m'" "lvl2_live ?m = lvl2_live m'"
    by (simp_all add: second_pages_def lvl2_live_def fun_eq_iff)
  ultimately show ?thesis by (simp add: tables_wf_def)
qed

lemma only_use_bits_fields:
  assumes "only_use_bits ti m m'"
  shows "main_memory m' = main_memory m" "max_frames m' = max_frames m"
    "max_rows m' = max_rows m" "frames m' = frames m" "no_of_frames m' = no_of_frames m"
    "tables_lvl_1 m' = tables_lvl_1 m" "swap_data m' = swap_data m"
    "frame_selector m' = frame_selector m" "cfg m' = cfg m" "swap_files m' = swap_files m"
    "os m' = os m"
proof -
  obtain bt where "same_but bt m (m'\<lparr>clock := clock m, clock_improved := clock_improved m\<rparr>)"
    using assms by (auto simp: only_use_bits_def split: option.splits)
  from same_but_fields [OF this] show "main_memory m' = main_memory m" "max_frames m' = max_frames m"
    "max_rows m' = max_rows m" "frames m' = frames m" "no_of_frames m' = no_of_frames m"
    "tables_lvl_1 m' = tables_lvl_1 m" "swap_data m' = swap_data m"
    "frame_selector m' = frame_selector m" "cfg m' = cfg m" "swap_files m' = swap_files m"
    "os m' = os m"
    by simp_all
qed

lemma only_use_bits_other:
  assumes "only_use_bits ti m m'" and "create_big_table m ti = Some (Some bt)" and "q \<notin> set bt"
  shows "deref_row m' q = deref_row m q"
  using assms by (cases q) (simp add: only_use_bits_def same_but_def)

lemma only_use_bits_row:
  assumes "only_use_bits ti m m'" and "create_big_table m ti = Some (Some bt)" and "bt_ok bt m"
  shows "map_option clear_use (deref_row m' q) = map_option clear_use (deref_row m q)"
proof (cases "q \<in> set bt")
  case False
  with only_use_bits_other [OF assms(1,2)] show ?thesis by simp
next
  case True
  then obtain j where j: "j < length bt" "q = bt ! j" by (auto simp: in_set_conv_nth)
  have "clear_use (view bt m' ! j) = clear_use (view bt m ! j)"
    using assms j unfolding only_use_bits_def same_pages_def
    by (auto dest!: arg_cong [of _ _ "\<lambda>l. l ! j"])
  moreover have "shape m' = shape m"
    using assms by (auto simp: only_use_bits_def same_but_def)
  then have "(deref_row m' q = None) = (deref_row m q = None)"
    using shape_get [of m' m "fst q"]
    by (cases "safe_list_get (tables_lvl_2 m) (fst q)";
        cases "safe_list_get (tables_lvl_2 m') (fst q)") (auto simp: deref_row_def arr_get_def)
  ultimately show ?thesis
    using j by (auto simp: view_def)
qed

end
