(* ===== verification/Bytes.thy ===== *)
theory Bytes
  imports Prelude
begin

section \<open>Byte streams: \<open>memcpy\<close>, integers in memory\<close>

text \<open>
  Every message, swap entry and memory word of the program is written with
  \<open>memcpy\<close> from a \<open>uint32_t\<close> to a byte array and read back the same way. The integers
  are little-endian, as on the program's platform. \<open>write_bytes\<close> and \<open>read_bytes\<close> are
  \<open>memcpy\<close> to and from a position of an array; an access outside it is a failure.
\<close>

unbundle bit_operations_syntax

definition le32 :: "u32 \<Rightarrow> byte list" where
  "le32 w = [ucast w, ucast (drop_bit 8 w), ucast (drop_bit 16 w), ucast (drop_bit 24 w)]"

definition of_le32 :: "byte list \<Rightarrow> u32" where
  "of_le32 bs = foldr (\<lambda>b w. ucast b OR push_bit 8 w) bs 0"

definition read_bytes :: "byte list \<Rightarrow> nat \<Rightarrow> nat \<Rightarrow> byte list option" where
  "read_bytes mem pos n = (if pos + n \<le> length mem then Some (take n (drop pos mem)) else None)"

definition write_bytes :: "byte list \<Rightarrow> nat \<Rightarrow> byte list \<Rightarrow> byte list option" where
  "write_bytes mem pos bs =
     (if pos + length bs \<le> length mem
      then Some (take pos mem @ bs @ drop (pos + length bs) mem) else None)"

definition read_u32 :: "byte list \<Rightarrow> nat \<Rightarrow> u32 option" where
  "read_u32 mem pos = map_option of_le32 (read_bytes mem pos 4)"

definition write_u32 :: "byte list \<Rightarrow> nat \<Rightarrow> u32 \<Rightarrow> byte list option" where
  "write_u32 mem pos w = write_bytes mem pos (le32 w)"

lemma length_le32 [simp]: "length (le32 w) = 4"
  by (simp add: le32_def)

lemma le32_roundtrip [simp]: "of_le32 (le32 w) = w"
proof (rule bit_word_eqI)
  fix n
  assume "n < LENGTH(32)"
  then show "bit (of_le32 (le32 w)) n = bit w n"
    by (cases "n < 16"; cases "n < 24") (auto simp: of_le32_def le32_def bit_simps not_less)
qed

lemma of_le32_inverse:
  assumes "length bs = 4"
  shows "le32 (of_le32 bs) = bs"
proof -
  obtain a b c d where bs: "bs = [a, b, c, d]"
    using assms by (auto simp: numeral_eq_Suc length_Suc_conv)
  have "ucast (of_le32 bs) = a" "ucast (drop_bit 8 (of_le32 bs)) = b"
    "ucast (drop_bit 16 (of_le32 bs)) = c" "ucast (drop_bit 24 (of_le32 bs)) = d"
    by (rule bit_word_eqI, auto simp: bs of_le32_def bit_simps dest: bit_imp_le_length)+
  then show ?thesis by (simp add: le32_def bs)
qed

lemma le32_inject [simp]: "le32 a = le32 b \<longleftrightarrow> a = b"
  by (metis le32_roundtrip)

subsection \<open>Reading what was written\<close>

lemma length_write_bytes: "write_bytes mem pos bs = Some mem' \<Longrightarrow> length mem' = length mem"
  by (auto simp: write_bytes_def split: if_splits)

lemma length_read_bytes: "read_bytes mem pos n = Some bs \<Longrightarrow> length bs = n"
  by (auto simp: read_bytes_def split: if_splits)

lemma write_bytes_defined: "pos + length bs \<le> length mem \<Longrightarrow> \<exists>mem'. write_bytes mem pos bs = Some mem'"
  by (simp add: write_bytes_def)

lemma read_write_same:
  "write_bytes mem pos bs = Some mem' \<Longrightarrow> read_bytes mem' pos (length bs) = Some bs"
  by (auto simp: write_bytes_def read_bytes_def split: if_splits)

lemma nth_write_bytes:
  assumes "write_bytes mem pos bs = Some mem'" and "i < length mem"
  shows "mem' ! i = (if pos \<le> i \<and> i < pos + length bs then bs ! (i - pos) else mem ! i)"
  using assms by (auto simp: write_bytes_def nth_append split: if_splits)

lemma read_write_disjoint:
  assumes "write_bytes mem pos bs = Some mem'" and "q + n \<le> pos \<or> pos + length bs \<le> q"
  shows "read_bytes mem' q n = read_bytes mem q n"
proof -
  have "take n (drop q mem') = take n (drop q mem)" if "q + n \<le> length mem"
    using that assms(2) length_write_bytes [OF assms(1)] nth_write_bytes [OF assms(1)]
    by (intro nth_equalityI) auto
  then show ?thesis
    using length_write_bytes [OF assms(1)] by (simp add: read_bytes_def)
qed

lemma length_write_u32: "write_u32 mem pos w = Some mem' \<Longrightarrow> length mem' = length mem"
  unfolding write_u32_def by (rule length_write_bytes)

lemma write_u32_defined: "pos + 4 \<le> length mem \<Longrightarrow> \<exists>mem'. write_u32 mem pos w = Some mem'"
  unfolding write_u32_def by (rule write_bytes_defined) simp

lemma read_write_u32: "write_u32 mem pos w = Some mem' \<Longrightarrow> read_u32 mem' pos = Some w"
  using read_write_same [of mem pos "le32 w" mem'] by (simp add: read_u32_def write_u32_def)

lemma read_write_u32_disjoint:
  "write_u32 mem pos w = Some mem' \<Longrightarrow> q + 4 \<le> pos \<or> pos + 4 \<le> q \<Longrightarrow>
    read_u32 mem' q = read_u32 mem q"
  using read_write_disjoint [of mem pos "le32 w" mem' q 4] by (simp add: read_u32_def write_u32_def)

lemma read_u32_append:
  "read_u32 (pre @ le32 w @ post) (length pre) = Some w"
  "read_u32 (le32 w @ post) 0 = Some w"
  by (simp_all add: read_u32_def read_bytes_def)

end
