(* ===== verification/Os_Memory.thy ===== *)
theory Os_Memory
  imports Page_Table Clock Bytes "HOL-Library.Multiset"
begin

section \<open>Tables, frames and words of memory: \<open>os_memory.c\<close>\<close>

text \<open>
  \<open>memory/src/module/os_memory.c\<close>: creating and deleting the tables of a process, the
  bitmap of frames, the accesses to the main memory, and the swap metadata. An identifier
  of type \<open>uint32_t\<close> indexes a directory through an \<open>int\<close>, hence the \<open>sint\<close>.
\<close>

subsection \<open>Creating a process\<close>

definition find_id :: "'a safe_list \<Rightarrow> bool \<Rightarrow> u32" where
  "find_id safe_list should_replace =
     (if safe_list = [] then 0
      else case (if should_replace
                 then find (\<lambda>i. safe_list_get safe_list (int i) = None) [0..<length safe_list]
                 else None) of
             Some i \<Rightarrow> word_of_nat i
           | None \<Rightarrow> word_of_nat (length safe_list))"

definition store_table :: "'a safe_list \<Rightarrow> u32 \<Rightarrow> 'a \<Rightarrow> 'a safe_list option" where
  "store_table tables idx table =
     (if (word_of_nat (safe_list_size tables) :: u32) > idx
      then safe_list_replace tables (sint idx) (Some table)
      else safe_list_add_in_index tables (sint idx) (Some table))"

definition create_lvl2_tables :: "memory \<Rightarrow> nat \<Rightarrow> (memory \<times> u32 list) option" where
  "create_lvl2_tables m rows =
     foldM (\<lambda>_ (m, ids). do {
        let idx = find_id (tables_lvl_2 m) False;
        tables \<leftarrow> store_table (tables_lvl_2 m) idx (new_page_table_lvl2 rows);
        Some (m\<lparr>tables_lvl_2 := tables\<rparr>, ids @ [idx]) })
      [0..<rows] (m, [])"

definition create_table :: "memory \<Rightarrow> nat \<Rightarrow> u32 list \<Rightarrow> (memory \<times> u32) option" where
  "create_table m rows ids = do {
     let idx = find_id (tables_lvl_1 m) True;
     table \<leftarrow> foldM (\<lambda>i table. do {
         s \<leftarrow> arr_get ids i;
         e \<leftarrow> arr_get table i;
         arr_set table i (e\<lparr>second_page := s\<rparr>) }) [0..<rows] (new_page_table rows);
     tables \<leftarrow> store_table (tables_lvl_1 m) idx table;
     Some (m\<lparr>tables_lvl_1 := tables\<rparr>, idx) }"

definition create_new_process :: "memory \<Rightarrow> (memory \<times> u32) option" where
  "create_new_process m = do {
     (m, ids) \<leftarrow> create_lvl2_tables m (rows_of m);
     create_table m (rows_of m) ids }"

subsection \<open>Frames\<close>

definition delete_frame :: "memory \<Rightarrow> u32 \<Rightarrow> memory option" where
  "delete_frame m idx =
     (if idx \<le> no_of_frames m
      then do { fs \<leftarrow> arr_set (frames m) (unat idx) False; Some (m\<lparr>frames := fs\<rparr>) }
      else Some m)"

definition find_free_frame :: "memory \<Rightarrow> (memory \<times> u32) option" where
  "find_free_frame m = do {
     r \<leftarrow> findM (\<lambda>i. map_option Not (arr_get (frames m) i)) [0..<unat (no_of_frames m)];
     (case r of
        Some i \<Rightarrow> do {
          fs \<leftarrow> arr_set (frames m) i True;
          Some (m\<lparr>frames := fs\<rparr>, word_of_nat i) }
      | None \<Rightarrow> Some (m, UINT32_MAX)) }"

definition create_frame_for_table :: "memory \<Rightarrow> u32 \<Rightarrow> u32 \<Rightarrow> (memory \<times> u32) option" where
  "create_frame_for_table m table_index new_frame = do {
     r \<leftarrow> findM (\<lambda>i. do {
         row \<leftarrow> deref_row m (sint table_index, i);
         Some (frame row = INVALID_FRAME) }) [0..<rows_of m];
     (case r of
        Some i \<Rightarrow> do {
          m \<leftarrow> update_row m (sint table_index, i)
                 (\<lambda>row. row\<lparr>present := True, frame := new_frame, use := True\<rparr>);
          Some (m, word_of_nat i) }
      | None \<Rightarrow> Some (m, UINT32_MAX)) }"

definition get_table_lvl2_number :: "memory \<Rightarrow> u32 \<Rightarrow> u32 option" where
  "get_table_lvl2_number m f = do {
     r \<leftarrow> findM (\<lambda>i.
         case safe_list_get (tables_lvl_2 m) (int i) of
           None \<Rightarrow> Some False
         | Some table \<Rightarrow> do {
             j \<leftarrow> findM (\<lambda>j. do { row \<leftarrow> arr_get table j; Some (frame row = f) }) [0..<rows_of m];
             Some (j \<noteq> None) })
       [0..<length (tables_lvl_2 m)];
     Some (case r of Some i \<Rightarrow> word_of_nat i | None \<Rightarrow> INVALID_FRAME) }"

definition get_frame_ref :: "memory \<Rightarrow> u32 \<Rightarrow> row_ref option option" where
  "get_frame_ref m f = do {
     idx \<leftarrow> get_table_lvl2_number m f;
     r \<leftarrow> findM (\<lambda>i. do { row \<leftarrow> deref_row m (sint idx, i); Some (frame row = f) })
           [0..<rows_of m];
     Some (map_option (Pair (sint idx)) r) }"

definition get_frames_used_size :: "memory \<Rightarrow> u32 \<Rightarrow> u32 option" where
  "get_frames_used_size m table_lvl_1 = do {
     big_table \<leftarrow> create_big_table m table_lvl_1;
     foldM (\<lambda>i size. do {
        bt \<leftarrow> big_table;
        row \<leftarrow> bt_read bt m i;
        Some (if frame row \<noteq> INVALID_FRAME then size + (tam_pagina (cfg m) + 4) else size) })
      [0..<unat (max_rows m * max_rows m)] 0 }"

text \<open>An address in the main memory is an offset in it.\<close>

definition get_frame_address :: "memory \<Rightarrow> u32 \<Rightarrow> nat" where
  "get_frame_address m f = unat (f * tam_pagina (cfg m))"

subsection \<open>Words of memory\<close>

definition write_in_memory :: "memory \<Rightarrow> u32 \<Rightarrow> u32 \<Rightarrow> memory option" where
  "write_in_memory m physical_address value = do {
     bytes \<leftarrow> write_u32 (main_memory m) (unat physical_address) value;
     Some (m\<lparr>main_memory := bytes\<rparr>) }"

definition read_from_memory :: "memory \<Rightarrow> u32 \<Rightarrow> u32 option" where
  "read_from_memory m physical_address = read_u32 (main_memory m) (unat physical_address)"

subsection \<open>Swap metadata\<close>

text \<open>A pointer to an entry of \<open>swap_data\<close> is its index in the list.\<close>

definition get_swap_data_for_pcb :: "memory \<Rightarrow> u32 \<Rightarrow> nat option option" where
  "get_swap_data_for_pcb m pid =
     findM (\<lambda>i. do { d \<leftarrow> safe_list_get (swap_data m) (int i); Some (sd_pid d = pid) })
       [0..<length (swap_data m)]"

definition deref_swap_data :: "memory \<Rightarrow> nat \<Rightarrow> swap_data_t option" where
  "deref_swap_data m i = safe_list_get (swap_data m) (int i)"

definition get_offset_for_pcb :: "memory \<Rightarrow> u32 \<Rightarrow> u32 option" where
  "get_offset_for_pcb m pid = do {
     r \<leftarrow> get_swap_data_for_pcb m pid;
     (case r of None \<Rightarrow> Some 0 | Some i \<Rightarrow> map_option sd_offset (deref_swap_data m i)) }"

definition delete_swap_data :: "memory \<Rightarrow> u32 \<Rightarrow> memory option" where
  "delete_swap_data m pid = do {
     r \<leftarrow> findM (\<lambda>i. do { d \<leftarrow> safe_list_get (swap_data m) (int i); Some (sd_pid d = pid) })
           [0..<length (swap_data m)];
     (case r of
        None \<Rightarrow> Some m
      | Some i \<Rightarrow> do {
          l \<leftarrow> safe_list_remove (swap_data m) (int i);
          Some (m\<lparr>swap_data := l\<rparr>) }) }"

subsection \<open>Deleting a process\<close>

definition delete_level_2_table :: "memory \<Rightarrow> u32 \<Rightarrow> memory option" where
  "delete_level_2_table m table_id = do {
     m \<leftarrow> foldM (\<lambda>j m. do {
         row \<leftarrow> deref_row m (sint table_id, j);
         if frame row \<noteq> INVALID_FRAME then delete_frame m (frame row) else Some m })
       [0..<min (rows_of m) (unat (max_frames m))] m;
     tables \<leftarrow> safe_list_replace (tables_lvl_2 m) (sint table_id) None;
     Some (m\<lparr>tables_lvl_2 := tables\<rparr>) }"

definition delete_related_tables :: "memory \<Rightarrow> u32 \<Rightarrow> memory option" where
  "delete_related_tables m table_id =
     (case safe_list_get (tables_lvl_1 m) (sint table_id) of
        None \<Rightarrow> Some m
      | Some table \<Rightarrow> do {
          print_table m table_id;
          m \<leftarrow> foldM (\<lambda>i m. do {
              e \<leftarrow> arr_get table i;
              delete_level_2_table m (second_page e) }) [0..<rows_of m] m;
          tables \<leftarrow> safe_list_replace (tables_lvl_1 m) (sint table_id) None;
          Some (m\<lparr>tables_lvl_1 := tables\<rparr>) })"

definition delete_process :: "memory \<Rightarrow> u32 \<Rightarrow> memory option" where
  "delete_process m table_id = delete_related_tables m table_id"

subsection \<open>A new process: fresh identifiers, empty tables\<close>

lemma find_id_False: "find_id l False = word_of_nat (length l)"
  by (simp add: find_id_def)

lemma find_id_True:
  assumes "length l < 2 ^ 31"
  shows "unat (find_id l True) \<le> length l"
    and "safe_list_get l (int (unat (find_id l True))) = None"
    and "sint (find_id l True) = int (unat (find_id l True))"
proof -
  have "\<exists>n. find_id l True = word_of_nat n \<and> n \<le> length l \<and> safe_list_get l (int n) = None"
  proof (cases "find (\<lambda>i. safe_list_get l (int i) = None) [0..<length l]")
    case None
    then show ?thesis
      by (auto simp: find_id_def intro: exI [of _ 0] exI [of _ "length l"])
  next
    case (Some i)
    then have "i < length l" "safe_list_get l (int i) = None" "find_id l True = word_of_nat i"
      by (auto simp: find_id_def dest: find_upt_SomeD simp del: safe_list_get_int)
    then show ?thesis by (intro exI [of _ i]) simp
  qed
  then obtain n where n: "find_id l True = word_of_nat n" "n \<le> length l"
    "safe_list_get l (int n) = None"
    by blast
  then have "n < 2 ^ 31" using assms by simp
  then show "unat (find_id l True) \<le> length l"
    "safe_list_get l (int (unat (find_id l True))) = None"
    "sint (find_id l True) = int (unat (find_id l True))"
    using n by simp_all
qed

lemma store_table_slot:
  assumes "length l < 2 ^ 31" and "unat i < 2 ^ 31"
  shows "store_table l i x = store_slot l (int (unat i)) (Some x)"
proof -
  have "(uint i < int (length l)) = (unat i < length l)"
    unfolding uint_nat by (rule of_nat_less_iff)
  with assms show ?thesis
    by (simp add: store_table_def store_slot_def safe_list_size_def sint_u32_small word_less_nat_alt)
qed

lemma store_slot_end: "store_slot l (int (length l)) x = Some (l @ [x])"
  by (simp add: store_slot_def safe_list_size_def safe_list_add_in_index_def)

lemma store_table_end:
  "length l < 2 ^ 31 \<Longrightarrow> store_table l (word_of_nat (length l)) x = Some (l @ [Some x])"
  by (simp add: store_table_slot store_slot_end)

lemma create_lvl2_tables_eq:
  assumes "length (tables_lvl_2 m) + rows < 2 ^ 31"
  shows "create_lvl2_tables m rows =
    Some (m\<lparr>tables_lvl_2 := tables_lvl_2 m @ replicate rows (Some (new_page_table_lvl2 rows))\<rparr>,
          map (\<lambda>i. word_of_nat (length (tables_lvl_2 m) + i)) [0..<rows])"
proof -
  let ?l = "tables_lvl_2 m" and ?new = "Some (new_page_table_lvl2 rows)"
  let ?step = "\<lambda>_ (m, ids). do {
        let idx = find_id (tables_lvl_2 m) False;
        tables \<leftarrow> store_table (tables_lvl_2 m) idx (new_page_table_lvl2 rows);
        Some (m\<lparr>tables_lvl_2 := tables\<rparr>, ids @ [idx]) }"
  have "foldM ?step [0..<n] (m, []) =
      Some (m\<lparr>tables_lvl_2 := ?l @ replicate n ?new\<rparr>,
            map (\<lambda>i. word_of_nat (length ?l + i)) [0..<n])" if "n \<le> rows" for n
    using that
  proof (induction n)
    case 0
    then show ?case by simp
  next
    case (Suc n)
    note store_table_end [of "?l @ replicate n ?new" "new_page_table_lvl2 rows"]
    with Suc assms show ?case
      by (simp add: foldM_append find_id_False replicate_append_same)
  qed
  from this [of rows] show ?thesis
    by (simp add: create_lvl2_tables_def)
qed

definition level_1_table :: "u32 list \<Rightarrow> page_table_lvl_1 list" where
  "level_1_table ids = map (\<lambda>s. \<lparr>second_page = s\<rparr>) ids"

lemma level_1_table_simps [simp]:
  "map second_page (level_1_table ids) = ids" "length (level_1_table ids) = length ids"
  by (simp_all add: level_1_table_def comp_def)

lemma fill_level_1_table:
  assumes "length ids = rows"
  shows "foldM (\<lambda>i table. do {
         s \<leftarrow> arr_get ids i;
         e \<leftarrow> arr_get table i;
         arr_set table i (e\<lparr>second_page := s\<rparr>) }) [0..<rows] (new_page_table rows)
    = Some (level_1_table ids)"
proof -
  have "foldM (\<lambda>i table. do {
         s \<leftarrow> arr_get ids i;
         e \<leftarrow> arr_get table i;
         arr_set table i (e\<lparr>second_page := s\<rparr>) }) [0..<n] (new_page_table rows)
    = Some (level_1_table (take n ids) @ drop n (new_page_table rows))" if "n \<le> rows" for n
    using that
  proof (induction n)
    case 0
    then show ?case by (simp add: level_1_table_def)
  next
    case (Suc n)
    then show ?case
      using assms
      by (simp add: foldM_append level_1_table_def new_page_table_def nth_append list_update_append
          take_Suc_conv_app_nth flip: Cons_replicate_eq)
        (cases "rows - n"; simp)
  qed
  from this [of rows] assms show ?thesis by simp
qed

text \<open>The directories have room for one more process.\<close>

definition has_room :: "memory \<Rightarrow> bool" where
  "has_room m \<longleftrightarrow> length (tables_lvl_1 m) + 1 < 2 ^ 31 \<and>
     length (tables_lvl_2 m) + rows_of m < 2 ^ 31"

definition new_ids :: "memory \<Rightarrow> u32 list" where
  "new_ids m = map (\<lambda>i. word_of_nat (length (tables_lvl_2 m) + i)) [0..<rows_of m]"

lemma create_new_process_eq:
  assumes "tables_wf m" and "has_room m"
  obtains l ti where "create_new_process m =
      Some (m\<lparr>tables_lvl_2 := tables_lvl_2 m @ replicate (rows_of m)
                 (Some (new_page_table_lvl2 (rows_of m))), tables_lvl_1 := l\<rparr>, ti)"
    and "store_slot (tables_lvl_1 m) (sint ti) (Some (level_1_table (new_ids m))) = Some l"
    and "safe_list_get (tables_lvl_1 m) (sint ti) = None"
    and "0 \<le> sint ti"
    and "sint ti \<le> int (length (tables_lvl_1 m))"
proof -
  let ?ti = "find_id (tables_lvl_1 m) True"
  have small: "length (tables_lvl_1 m) < 2 ^ 31"
    using assms(1) by (simp add: tables_wf_def)
  note ti = find_id_True [OF small]
  have le: "sint ?ti \<le> int (length (tables_lvl_1 m))"
    unfolding ti(3) using ti(1) by (simp only: of_nat_le_iff)
  have store: "store_table (tables_lvl_1 m) ?ti t = store_slot (tables_lvl_1 m) (sint ?ti) (Some t)"
    for t :: "page_table_lvl_1 list"
    using store_table_slot [OF small, of ?ti] ti small by simp
  obtain l where l: "store_slot (tables_lvl_1 m) (sint ?ti) (Some (level_1_table (new_ids m))) = Some l"
    using slots.store_defined [of "sint ?ti" "tables_lvl_1 m"] le ti(3)
    by (auto simp: safe_list_size_def)
  have "create_new_process m =
      Some (m\<lparr>tables_lvl_2 := tables_lvl_2 m @ replicate (rows_of m)
                 (Some (new_page_table_lvl2 (rows_of m))), tables_lvl_1 := l\<rparr>, ?ti)"
    using assms(2) create_lvl2_tables_eq [of m "rows_of m"] l
      fill_level_1_table [of "new_ids m" "rows_of m"]
    by (simp add: create_new_process_def create_table_def has_room_def store flip: new_ids_def)
      (simp add: new_ids_def)
  then show thesis
    using that l ti le by simp
qed

subsection \<open>Well-formedness is preserved\<close>

lemma mset_ids_store:
  assumes "store_slot l i (Some t) = Some l'" and "safe_list_get l i = None"
  shows "mset (concat (map table_ids l')) = mset (concat (map table_ids l)) + mset (map second_page t)"
proof (cases "int (length l) > i")
  case True
  then have n: "0 \<le> i" "nat i < length l" "l' = l[nat i := Some t]" "l ! nat i = None"
    using assms by (auto simp: store_slot_def safe_list_replace_def safe_list_size_def
        safe_list_get_def split: if_splits)
  then obtain a b where "l = a @ None # b" "l' = a @ Some t # b"
    using id_take_nth_drop [of "nat i" l] by (auto simp: upd_conv_take_nth_drop)
  then show ?thesis by (simp add: table_ids_def)
next
  case False
  with assms show ?thesis
    by (auto simp: store_slot_def safe_list_add_in_index_def safe_list_size_def table_ids_def
        split: if_splits)
qed

lemma set_store_slot:
  "store_slot l i x = Some l' \<Longrightarrow> set l' \<subseteq> insert x (set l)"
  by (auto simp: store_slot_def safe_list_replace_def safe_list_add_in_index_def
      dest: in_set_takeD in_set_dropD set_update_subset_insert [THEN subsetD] split: if_splits)

lemma sint_new_ids:
  assumes "has_room m"
  shows "map sint (new_ids m) = map (\<lambda>i. int (length (tables_lvl_2 m) + i)) [0..<rows_of m]"
  using assms by (auto simp: new_ids_def has_room_def simp del: of_nat_add)

lemma distinct_new_ids:
  assumes "has_room m"
  shows "distinct (new_ids m)"
proof -
  have "distinct (map sint (new_ids m))"
    unfolding sint_new_ids [OF assms] by (simp add: distinct_map inj_on_def)
  then show ?thesis by (simp add: distinct_map)
qed

lemma in_new_ids: "has_room m \<Longrightarrow> s \<in> set (new_ids m) \<Longrightarrow>
    \<exists>i < rows_of m. sint s = int (length (tables_lvl_2 m) + i)"
  using sint_new_ids [of m] by (metis (no_types, lifting) atLeastLessThan_iff imageE image_eqI
      list.set_map set_upt)

lemma live_below: "lvl2_live m s \<Longrightarrow> 0 \<le> sint s \<and> sint s < int (length (tables_lvl_2 m))"
  by (auto simp: lvl2_live_def safe_list_get_def split: if_splits)

lemma get_append: "safe_list_get (l @ l') i =
    (if i < int (length l) then safe_list_get l i else safe_list_get l' (i - int (length l)))"
  by (auto simp: safe_list_get_def nth_append nat_diff_distrib')

lemma create_new_process_wf:
  assumes wf: "tables_wf m" and room: "has_room m" and run: "create_new_process m = Some (m', ti)"
  shows "tables_wf m'"
proof -
  let ?n = "rows_of m" and ?new = "Some (new_page_table_lvl2 (rows_of m))"
  obtain l where m': "m' = m\<lparr>tables_lvl_2 := tables_lvl_2 m @ replicate ?n ?new, tables_lvl_1 := l\<rparr>"
    and l: "store_slot (tables_lvl_1 m) (sint ti) (Some (level_1_table (new_ids m))) = Some l"
    and free: "safe_list_get (tables_lvl_1 m) (sint ti) = None" "0 \<le> sint ti"
      "sint ti \<le> int (length (tables_lvl_1 m))"
    using create_new_process_eq [OF wf room] run by (metis option.inject prod.inject)
  have live: "lvl2_live m s" if "s \<in> set (second_pages m)" for s
    using wf that by (simp add: tables_wf_def list_all_iff)
  have pages: "mset (second_pages m') = mset (second_pages m) + mset (new_ids m)"
    using mset_ids_store [OF l free(1)] by (simp add: m' second_pages_def)
  then have set_pages: "set (second_pages m') = set (second_pages m) \<union> set (new_ids m)"
    by (metis set_mset_mset set_mset_union)
  have apart: "set (second_pages m) \<inter> set (new_ids m) = {}"
    using live live_below in_new_ids [OF room] by fastforce
  have "distinct (second_pages m @ new_ids m)"
    using wf distinct_new_ids [OF room] apart by (simp add: tables_wf_def)
  then have "distinct (second_pages m')"
    using pages by (metis mset_append mset_eq_imp_distinct_iff)
  moreover have "lvl2_live m' s" if "s \<in> set (second_pages m')" for s
  proof (cases "s \<in> set (second_pages m)")
    case True
    with live live_below [of m s] show ?thesis
      by (simp add: lvl2_live_def m' get_append)
  next
    case False
    with that have "s \<in> set (new_ids m)" by (simp add: set_pages)
    with in_new_ids [OF room, of s] show ?thesis
      by (auto simp: lvl2_live_def m' get_append)
  qed
  moreover have "i \<in> (\<lambda>s. nat (sint s)) ` set (second_pages m')"
    if i: "i < length (tables_lvl_2 m')" "tables_lvl_2 m' ! i \<noteq> None" for i
  proof (cases "i < length (tables_lvl_2 m)")
    case True
    with i wf have "i \<in> (\<lambda>s. nat (sint s)) ` set (second_pages m)"
      by (auto simp: tables_wf_def list_all_iff m' nth_append)
    then show ?thesis unfolding set_pages by blast
  next
    case False
    with i(1) obtain k where k: "i = length (tables_lvl_2 m) + k" "k < ?n"
      by (auto simp: m' le_iff_add not_less)
    then have "int i \<in> set (map sint (new_ids m))"
      by (simp add: sint_new_ids [OF room])
    then show ?thesis unfolding set_pages by force
  qed
  moreover have "length (tables_lvl_1 m') < 2 ^ 31"
    using slots.store_size [OF l] room nat_mono [OF free(3)]
    by (simp add: m' safe_list_size_def has_room_def)
  moreover have "list_all (rows_ok ?n) (tables_lvl_1 m')"
    using wf set_store_slot [OF l]
    by (auto simp: tables_wf_def list_all_iff rows_ok_def m' new_ids_def split: option.splits)
  moreover have "list_all (rows_ok ?n) (tables_lvl_2 m')"
    using wf by (auto simp: tables_wf_def list_all_iff rows_ok_def m' set_replicate_conv_if)
  moreover have "max_rows m' = max_rows m" "length (tables_lvl_2 m') < 2 ^ 31"
    "?n * ?n < 2 ^ 32"
    using room wf by (simp_all add: m' has_room_def tables_wf_def)
  ultimately show ?thesis
    by (simp add: tables_wf_def list_all_iff)
qed

lemma create_new_process_fresh:
  assumes wf: "tables_wf m" and room: "has_room m" and run: "create_new_process m = Some (m', ti)"
  shows "safe_list_get (tables_lvl_1 m) (sint ti) = None"
    and "process_rows m' ti = Some (replicate (rows_of m * rows_of m) free_row)"
    and "tj \<noteq> ti \<Longrightarrow> process_rows m tj = Some rs \<Longrightarrow> process_rows m' tj = Some rs"
    and "m'\<lparr>tables_lvl_1 := tables_lvl_1 m, tables_lvl_2 := tables_lvl_2 m\<rparr> = m"
proof -
  let ?n = "rows_of m" and ?new = "Some (new_page_table_lvl2 (rows_of m))"
  obtain l where m': "m' = m\<lparr>tables_lvl_2 := tables_lvl_2 m @ replicate ?n ?new, tables_lvl_1 := l\<rparr>"
    and l: "store_slot (tables_lvl_1 m) (sint ti) (Some (level_1_table (new_ids m))) = Some l"
    and free: "safe_list_get (tables_lvl_1 m) (sint ti) = None"
    using create_new_process_eq [OF wf room] run by (metis option.inject prod.inject)
  show "safe_list_get (tables_lvl_1 m) (sint ti) = None" by (rule free)
  show "m'\<lparr>tables_lvl_1 := tables_lvl_1 m, tables_lvl_2 := tables_lvl_2 m\<rparr> = m"
    by (simp add: m')
  have wf': "tables_wf m'" by (rule create_new_process_wf [OF wf room run])
  have row: "deref_row m' (sint s, j) = Some free_row" if "s \<in> set (new_ids m)" "j < ?n" for s j
    using in_new_ids [OF room that(1)] that(2)
    by (auto simp: deref_row_def m' get_append)
  have "safe_list_get (tables_lvl_1 m') (sint ti) = Some (level_1_table (new_ids m))"
    using slots.store_same [OF l] by (simp add: m')
  then have "process_rows m' ti = Some (view (row_refs ?n (new_ids m)) m')"
    using process_rows_wf [OF wf'] by (simp add: m')
  also have "view (row_refs ?n (new_ids m)) m' = replicate (?n * ?n) free_row"
    unfolding view_def
    by (rule replicate_eqI) (auto simp: set_row_refs row new_ids_def)
  finally show "process_rows m' ti = Some (replicate (?n * ?n) free_row)" .
  assume other: "tj \<noteq> ti" and rs: "process_rows m tj = Some rs"
  obtain t where t: "safe_list_get (tables_lvl_1 m) (sint tj) = Some t"
    and rs_def: "rs = view (row_refs ?n (map second_page t)) m"
    using process_rows_SomeD [OF wf rs] by blast
  have "safe_list_get (tables_lvl_1 m') (sint tj) = Some t"
    using slots.store_keeps [OF l t free] by (simp add: m')
  then have "process_rows m' tj = Some (view (row_refs ?n (map second_page t)) m')"
    using process_rows_wf [OF wf'] by (simp add: m')
  moreover have "deref_row m' (sint s, j) = deref_row m (sint s, j)"
    if "s \<in> set (map second_page t)" for s j
  proof -
    have "lvl2_live m s"
      using wf that table_ids_in_second_pages [OF t] by (auto simp: tables_wf_def list_all_iff)
    then show ?thesis
      using live_below by (auto simp: deref_row_def m' get_append)
  qed
  then have "view (row_refs ?n (map second_page t)) m' = rs"
    unfolding view_def rs_def by (auto simp: set_row_refs)
  ultimately show "process_rows m' tj = Some rs" by simp
qed

subsection \<open>Who owns a frame\<close>

text \<open>
  \<open>frames_wf\<close>: no two rows of the directory hold the same frame, and the frame of a row is
  marked as taken in the bitmap. It holds whether the row is present or swapped out.
\<close>

definition frame_at :: "memory \<Rightarrow> row_ref \<Rightarrow> u32" where
  "frame_at m q = (case deref_row m q of None \<Rightarrow> INVALID_FRAME | Some row \<Rightarrow> frame row)"

definition all_refs :: "memory \<Rightarrow> row_ref list" where
  "all_refs m = concat (map (\<lambda>i. case tables_lvl_2 m ! i of
       None \<Rightarrow> [] | Some t \<Rightarrow> map (Pair (int i)) [0..<length t]) [0..<length (tables_lvl_2 m)])"

definition owners :: "memory \<Rightarrow> row_ref list" where
  "owners m = filter (\<lambda>q. frame_at m q \<noteq> INVALID_FRAME) (all_refs m)"

definition frames_wf :: "memory \<Rightarrow> bool" where
  "frames_wf m \<longleftrightarrow> length (frames m) = unat (no_of_frames m) \<and>
     distinct (map (frame_at m) (owners m)) \<and>
     list_all (\<lambda>q. arr_get (frames m) (unat (frame_at m q)) = Some True) (owners m)"

lemma set_all_refs: "q \<in> set (all_refs m) \<longleftrightarrow> deref_row m q \<noteq> None"
proof (cases q)
  case (Pair i j)
  show ?thesis
  proof (cases "0 \<le> i \<and> nat i < length (tables_lvl_2 m)")
    case True
    then obtain n where "i = int n" "n < length (tables_lvl_2 m)" by (metis nat_0_le)
    with Pair show ?thesis
      by (cases "tables_lvl_2 m ! n")
        (auto simp: all_refs_def deref_row_def arr_get_def intro!: bexI [of _ n] split: option.splits)
  next
    case False
    with Pair show ?thesis
      by (auto simp: all_refs_def deref_row_def safe_list_get_def split: option.splits)
  qed
qed

lemma distinct_all_refs: "distinct (all_refs m)"
proof -
  have "distinct (concat (map (\<lambda>i. case l ! i of
       None \<Rightarrow> [] | Some t \<Rightarrow> map (Pair (int i)) [0..<length t]) [0..<n]))"
    for n and l :: "page_table_lvl_2 list safe_list"
  proof (induction n)
    case 0
    then show ?case by simp
  next
    case (Suc n)
    then show ?case
      by (auto simp: distinct_map inj_on_def split: option.splits)
  qed
  then show ?thesis unfolding all_refs_def .
qed

lemma frame_at_owner: "q \<in> set (owners m) \<longleftrightarrow> frame_at m q \<noteq> INVALID_FRAME"
  by (cases "deref_row m q") (auto simp: owners_def set_all_refs frame_at_def)

lemma frames_wf_iff:
  "frames_wf m \<longleftrightarrow> length (frames m) = unat (no_of_frames m) \<and>
     (\<forall>q q'. frame_at m q \<noteq> INVALID_FRAME \<and> frame_at m q' = frame_at m q \<longrightarrow> q' = q) \<and>
     (\<forall>q. frame_at m q \<noteq> INVALID_FRAME \<longrightarrow> arr_get (frames m) (unat (frame_at m q)) = Some True)"
proof -
  have "distinct (map (frame_at m) (owners m)) = inj_on (frame_at m) (set (owners m))"
    by (simp add: distinct_map owners_def distinct_all_refs)
  also have "\<dots> = (\<forall>q q'. frame_at m q \<noteq> INVALID_FRAME \<and> frame_at m q' = frame_at m q \<longrightarrow> q' = q)"
    unfolding inj_on_def Ball_def frame_at_owner by metis
  finally show ?thesis
    unfolding frames_wf_def list_all_iff Ball_def frame_at_owner by blast
qed

lemma frames_wf_length: "frames_wf m \<Longrightarrow> length (frames m) = unat (no_of_frames m)"
  by (simp add: frames_wf_def)

lemma frames_wf_unique:
  "frames_wf m \<Longrightarrow> frame_at m q \<noteq> INVALID_FRAME \<Longrightarrow> frame_at m q' = frame_at m q \<Longrightarrow> q' = q"
  unfolding frames_wf_iff by blast

lemma frames_wf_taken:
  "frames_wf m \<Longrightarrow> frame_at m q \<noteq> INVALID_FRAME \<Longrightarrow>
    unat (frame_at m q) < length (frames m) \<and> frames m ! unat (frame_at m q)"
  unfolding frames_wf_iff arr_get_Some_iff by blast

lemma frames_wfI:
  assumes "length (frames m) = unat (no_of_frames m)"
    and "\<And>q q'. frame_at m q \<noteq> INVALID_FRAME \<Longrightarrow> frame_at m q' = frame_at m q \<Longrightarrow> q' = q"
    and "\<And>q. frame_at m q \<noteq> INVALID_FRAME \<Longrightarrow>
      unat (frame_at m q) < length (frames m) \<and> frames m ! unat (frame_at m q)"
  shows "frames_wf m"
  using assms unfolding frames_wf_iff arr_get_Some_iff by blast

lemma frames_wf_cong:
  assumes "frames_wf m" and "\<And>q. frame_at m' q = frame_at m q" and "frames m' = frames m"
    and "no_of_frames m' = no_of_frames m"
  shows "frames_wf m'"
  using assms by (simp add: frames_wf_iff)

lemma frame_at_update_row:
  assumes "update_row m r f = Some m'"
  shows "frame_at m' q = (if q = r then frame (f (the (deref_row m r))) else frame_at m q)"
  using deref_update_row [OF assms, of q] assms
  by (auto simp: frame_at_def update_row_def deref_row_def bind_eq_Some_conv split: option.split)

lemma frame_at_only_use_bits:
  assumes wf: "tables_wf m" and same: "only_use_bits ti m m'"
  shows "frame_at m' q = frame_at m q"
proof -
  obtain bt where bt: "create_big_table m ti = Some (Some bt)"
    using same by (auto simp: only_use_bits_def split: option.splits)
  obtain t where t: "safe_list_get (tables_lvl_1 m) (sint ti) = Some t"
    using bt by (cases "safe_list_get (tables_lvl_1 m) (sint ti)") (auto simp: create_big_table_def)
  have "bt_ok bt m"
    using bt bt_ok_row_refs [OF wf t] by (simp add: create_big_table_wf [OF wf t])
  from only_use_bits_row [OF same bt this, of q] show ?thesis
    by (auto simp: frame_at_def split: option.splits) (metis clear_use_simps(1))
qed

lemma frames_wf_only_use_bits:
  assumes "tables_wf m" and "frames_wf m" and "only_use_bits ti m m'"
  shows "frames_wf m'"
proof (rule frames_wf_cong [OF assms(2)])
  show "frame_at m' q = frame_at m q" for q
    by (rule frame_at_only_use_bits [OF assms(1,3)])
qed (use only_use_bits_fields [OF assms(3)] in simp_all)

subsection \<open>The frame bitmap\<close>

lemma find_free_frame_eq:
  assumes "length (frames m) = unat (no_of_frames m)"
  shows "find_free_frame m =
    (case find (\<lambda>i. \<not> frames m ! i) [0..<length (frames m)] of
       Some i \<Rightarrow> Some (m\<lparr>frames := (frames m)[i := True]\<rparr>, word_of_nat i)
     | None \<Rightarrow> Some (m, UINT32_MAX))"
proof -
  have "findM (\<lambda>i. map_option Not (arr_get (frames m) i)) [0..<unat (no_of_frames m)] =
      Some (find (\<lambda>i. \<not> frames m ! i) [0..<length (frames m)])"
    using assms by (subst findM_find [where q = "\<lambda>i. \<not> frames m ! i"]) auto
  then show ?thesis
    by (auto simp: find_free_frame_def dest: find_upt_SomeD split: option.split)
qed

lemma delete_frame_eq:
  assumes "length (frames m) = unat (no_of_frames m)" and "unat f < length (frames m)"
  shows "delete_frame m f = Some (m\<lparr>frames := (frames m)[unat f := False]\<rparr>)"
  using assms by (simp add: delete_frame_def word_le_nat_alt)

subsection \<open>Finding the row of a frame\<close>

definition slot_has :: "memory \<Rightarrow> u32 \<Rightarrow> nat \<Rightarrow> bool" where
  "slot_has m f i = (case safe_list_get (tables_lvl_2 m) (int i) of
     None \<Rightarrow> False | Some t \<Rightarrow> list_ex (\<lambda>row. frame row = f) t)"

lemma get_table_lvl2_number_eq:
  assumes "tables_wf m"
  shows "get_table_lvl2_number m f =
    Some (case find (slot_has m f) [0..<length (tables_lvl_2 m)] of
            Some i \<Rightarrow> word_of_nat i | None \<Rightarrow> INVALID_FRAME)"
proof -
  let ?p = "\<lambda>i. case safe_list_get (tables_lvl_2 m) (int i) of
           None \<Rightarrow> Some False
         | Some table \<Rightarrow> do {
             j \<leftarrow> findM (\<lambda>j. do { row \<leftarrow> arr_get table j; Some (frame row = f) }) [0..<rows_of m];
             Some (j \<noteq> None) }"
  have "?p i = Some (slot_has m f i)" for i
  proof (cases "safe_list_get (tables_lvl_2 m) (int i)")
    case None
    then show ?thesis by (simp add: slot_has_def)
  next
    case (Some t)
    then have len: "length t = rows_of m"
      by (rule tables_wf_lengths(2) [OF assms])
    have "findM (\<lambda>j. do { row \<leftarrow> arr_get t j; Some (frame row = f) }) [0..<rows_of m] =
        Some (find (\<lambda>j. frame (t ! j) = f) [0..<rows_of m])"
      by (rule findM_find) (simp add: len)
    moreover have "(find (\<lambda>j. frame (t ! j) = f) [0..<rows_of m] \<noteq> None) = list_ex (\<lambda>row. frame row = f) t"
      by (auto simp: find_None_iff list_ex_length len)
    ultimately show ?thesis using Some by (simp add: slot_has_def)
  qed
  then have "findM ?p [0..<length (tables_lvl_2 m)] =
      Some (find (slot_has m f) [0..<length (tables_lvl_2 m)])"
    by (intro findM_find)
  then show ?thesis
    by (simp add: get_table_lvl2_number_def del: safe_list_get_int)
qed

lemma slot_has_iff: "slot_has m f i \<longleftrightarrow> (\<exists>j row. deref_row m (int i, j) = Some row \<and> frame row = f)"
  by (cases "safe_list_get (tables_lvl_2 m) (int i)")
    (auto simp: slot_has_def deref_row_def arr_get_Some_iff list_ex_length
      simp del: safe_list_get_int)

lemma deref_row_slot:
  "deref_row m q = Some row \<Longrightarrow> \<exists>i. fst q = int i \<and> i < length (tables_lvl_2 m)"
  by (auto simp: deref_row_def safe_list_get_def bind_eq_Some_conv split: if_splits)
    (metis nat_0_le)

lemma frame_at_deref:
  "frame_at m q = f \<Longrightarrow> f \<noteq> INVALID_FRAME \<Longrightarrow> \<exists>row. deref_row m q = Some row \<and> frame row = f"
  by (cases "deref_row m q") (auto simp: frame_at_def)

lemma get_frame_ref_owner:
  assumes wf: "tables_wf m" and fr: "frames_wf m" and own: "frame_at m q = f" "f \<noteq> INVALID_FRAME"
  shows "get_table_lvl2_number m f = Some (word_of_nat (nat (fst q)))"
    and "get_frame_ref m f = Some (Some q)"
proof -
  obtain row where row: "deref_row m q = Some row" "frame row = f"
    using frame_at_deref [OF own] by blast
  obtain i j where q: "q = (int i, j)" and i: "i < length (tables_lvl_2 m)"
    using deref_row_slot [OF row(1)] by (cases q) auto
  have small: "i < 2 ^ 31"
    using i wf by (simp add: tables_wf_def)
  have uniq: "q' = q" if "deref_row m q' = Some r" "frame r = f" for q' r
  proof -
    have "frame_at m q' = frame_at m q" using that own by (simp add: frame_at_def)
    with own show ?thesis using frames_wf_unique [OF fr] by blast
  qed
  have "find (slot_has m f) [0..<length (tables_lvl_2 m)] = Some i"
  proof -
    have "slot_has m f i"
      using row by (auto simp: slot_has_iff q)
    moreover have "\<not> slot_has m f k" if "k < i" for k
      using that uniq [of "(int k, l)" for l] by (auto simp: slot_has_iff q)
    ultimately show ?thesis using i by (simp add: find_upt_Some)
  qed
  then show num: "get_table_lvl2_number m f = Some (word_of_nat (nat (fst q)))"
    using get_table_lvl2_number_eq [OF wf] by (simp add: q)
  obtain t where t: "safe_list_get (tables_lvl_2 m) (int i) = Some t" "j < length t"
    using row(1) by (auto simp: deref_row_def q array_simps bind_eq_Some_conv simp del: safe_list_get_int)
  have len: "length t = rows_of m"
    by (rule tables_wf_lengths(2) [OF wf t(1)])
  have deref: "deref_row m (int i, k) = Some (t ! k)" if "k < rows_of m" for k
    using t(1) that len by (simp add: deref_row_def del: safe_list_get_int)
  have "findM (\<lambda>k. do { row \<leftarrow> deref_row m (int i, k); Some (frame row = f) }) [0..<rows_of m] =
      Some (find (\<lambda>k. frame (t ! k) = f) [0..<rows_of m])"
    by (rule findM_find) (simp add: deref)
  moreover have "find (\<lambda>k. frame (t ! k) = f) [0..<rows_of m] = Some j"
  proof -
    have "frame (t ! k) \<noteq> f" if "k < j" for k
      using that uniq [of "(int i, k)"] deref [of k] t(2) len by (auto simp: q)
    moreover have "frame (t ! j) = f"
      using row deref [of j] t(2) len by (simp add: q)
    ultimately show ?thesis using t(2) len by (simp add: find_upt_Some)
  qed
  ultimately show "get_frame_ref m f = Some (Some q)"
    using num small by (simp add: get_frame_ref_def q)
qed

lemma get_table_lvl2_number_none:
  assumes "tables_wf m" and "\<And>q. frame_at m q \<noteq> f" and "f \<noteq> INVALID_FRAME"
  shows "get_table_lvl2_number m f = Some INVALID_FRAME"
proof -
  have "\<not> slot_has m f i" for i
  proof
    assume "slot_has m f i"
    then obtain j row where "deref_row m (int i, j) = Some row" "frame row = f"
      unfolding slot_has_iff by blast
    with assms(2) [of "(int i, j)"] show False by (simp add: frame_at_def)
  qed
  then have "find (slot_has m f) [0..<length (tables_lvl_2 m)] = None"
    by (simp add: find_None_iff)
  then show ?thesis
    using get_table_lvl2_number_eq [OF assms(1)] by simp
qed

subsection \<open>Deleting a process frees its tables and its frames\<close>

definition clear_frames :: "u32 list \<Rightarrow> bool list \<Rightarrow> bool list" where
  "clear_frames fs bits =
     fold (\<lambda>f bits. if f \<noteq> INVALID_FRAME then bits[unat f := False] else bits) fs bits"

definition clear_slots :: "u32 list \<Rightarrow> 'a safe_list \<Rightarrow> 'a safe_list" where
  "clear_slots ids l = fold (\<lambda>s l. l[nat (sint s) := None]) ids l"

text \<open>The rows of a table that the deletion looks at: the loop stops at \<open>max_frames\<close> too.\<close>

definition freed_rows :: "memory \<Rightarrow> nat" where
  "freed_rows m = min (rows_of m) (unat (max_frames m))"

definition freed :: "memory \<Rightarrow> u32 list \<Rightarrow> u32 list" where
  "freed m ids = concat (map (\<lambda>s. case safe_list_get (tables_lvl_2 m) (sint s) of
     None \<Rightarrow> [] | Some t \<Rightarrow> map frame (take (freed_rows m) t)) ids)"

lemma length_clear_frames [simp]: "length (clear_frames fs bits) = length bits"
  by (induction fs arbitrary: bits) (auto simp: clear_frames_def)

lemma nth_clear_frames:
  "i < length bits \<Longrightarrow> clear_frames fs bits ! i =
    (bits ! i \<and> \<not> list_ex (\<lambda>f. f \<noteq> INVALID_FRAME \<and> unat f = i) fs)"
proof (induction fs arbitrary: bits)
  case Nil
  then show ?case by (simp add: clear_frames_def)
next
  case (Cons f fs)
  have "clear_frames (f # fs) bits =
      clear_frames fs (if f \<noteq> INVALID_FRAME then bits[unat f := False] else bits)"
    by (simp add: clear_frames_def)
  moreover have "(if f \<noteq> INVALID_FRAME then bits[unat f := False] else bits) ! i =
      (bits ! i \<and> \<not> (f \<noteq> INVALID_FRAME \<and> unat f = i))"
    using Cons.prems by (cases "unat f = i") simp_all
  ultimately show ?case
    using Cons by (simp del: de_Morgan_conj)
qed

lemma clear_frames_append: "clear_frames (xs @ ys) bits = clear_frames ys (clear_frames xs bits)"
  by (simp add: clear_frames_def)

lemma length_clear_slots [simp]: "length (clear_slots ids l) = length l"
  by (induction ids arbitrary: l) (auto simp: clear_slots_def)

lemma get_clear_slots:
  assumes "\<And>s. s \<in> set ids \<Longrightarrow> 0 \<le> sint s"
  shows "safe_list_get (clear_slots ids l) i =
    (if i \<in> sint ` set ids then None else safe_list_get l i)"
  using assms
proof (induction ids arbitrary: l)
  case Nil
  then show ?case by (simp add: clear_slots_def)
next
  case (Cons s ids)
  have "clear_slots (s # ids) l = clear_slots ids (l[nat (sint s) := None])"
    by (simp add: clear_slots_def)
  moreover have "safe_list_get (l[nat (sint s) := None]) i =
      (if i = sint s then None else safe_list_get l i)"
    using Cons.prems [of s] by (auto simp: safe_list_get_def nth_list_update)
  ultimately show ?case using Cons by auto
qed

text \<open>A table whose rows hold frames of the bitmap.\<close>

definition table_in_range :: "memory \<Rightarrow> u32 \<Rightarrow> bool" where
  "table_in_range m s = (case safe_list_get (tables_lvl_2 m) (sint s) of
     None \<Rightarrow> False
   | Some t \<Rightarrow> length t = rows_of m \<and>
       list_all (\<lambda>row. frame row \<noteq> INVALID_FRAME \<longrightarrow> unat (frame row) < length (frames m)) t)"

lemma delete_level_2_table_eq:
  assumes len: "length (frames m) = unat (no_of_frames m)" and range: "table_in_range m s"
  shows "delete_level_2_table m s =
    Some (m\<lparr>frames := clear_frames (freed m [s]) (frames m),
            tables_lvl_2 := (tables_lvl_2 m)[nat (sint s) := None]\<rparr>)"
proof -
  obtain t where t: "safe_list_get (tables_lvl_2 m) (sint s) = Some t" "length t = rows_of m"
    and bound: "\<And>k. k < length t \<Longrightarrow> frame (t ! k) \<noteq> INVALID_FRAME \<Longrightarrow>
      unat (frame (t ! k)) < length (frames m)"
    using range by (auto simp: table_in_range_def list_all_length split: option.splits)
  let ?step = "\<lambda>j m. do {
      row \<leftarrow> deref_row m (sint s, j);
      if frame row \<noteq> INVALID_FRAME then delete_frame m (frame row) else Some m }"
  have "foldM ?step [0..<n] m = Some (m\<lparr>frames := clear_frames (map frame (take n t)) (frames m)\<rparr>)"
    if "n \<le> length t" for n
    using that
  proof (induction n)
    case 0
    then show ?case by (simp add: clear_frames_def)
  next
    case (Suc n)
    let ?m = "m\<lparr>frames := clear_frames (map frame (take n t)) (frames m)\<rparr>"
    have row: "deref_row ?m (sint s, n) = Some (t ! n)"
      using t(1) Suc.prems by (simp add: deref_row_def)
    have "clear_frames (map frame (take (Suc n) t)) (frames m) =
        (if frame (t ! n) \<noteq> INVALID_FRAME
         then (frames ?m)[unat (frame (t ! n)) := False] else frames ?m)"
      using Suc.prems
      by (simp add: take_Suc_conv_app_nth clear_frames_append) (simp add: clear_frames_def)
    with Suc row bound [of n] len show ?case
      by (simp add: foldM_append delete_frame_eq)
  qed
  from this [of "freed_rows m"] t show ?thesis
    by (simp add: delete_level_2_table_def freed_def freed_rows_def)
      (auto simp: safe_list_replace_def safe_list_get_Some_iff)
qed

lemma delete_level_2_tables_eq:
  assumes "length (frames m) = unat (no_of_frames m)" and "distinct ids"
    and "\<And>s. s \<in> set ids \<Longrightarrow> table_in_range m s"
  shows "foldM (\<lambda>s m. delete_level_2_table m s) ids m =
    Some (m\<lparr>frames := clear_frames (freed m ids) (frames m),
            tables_lvl_2 := clear_slots ids (tables_lvl_2 m)\<rparr>)"
  using assms
proof (induction ids arbitrary: m)
  case Nil
  then show ?case by (simp add: clear_frames_def freed_def clear_slots_def)
next
  case (Cons s ids)
  let ?m = "m\<lparr>frames := clear_frames (freed m [s]) (frames m),
               tables_lvl_2 := (tables_lvl_2 m)[nat (sint s) := None]\<rparr>"
  have "0 \<le> sint s"
    using Cons.prems(3) [of s] by (auto simp: table_in_range_def safe_list_get_def split: if_splits)
  then have keep: "safe_list_get (tables_lvl_2 ?m) (sint s') = safe_list_get (tables_lvl_2 m) (sint s')"
    if "s' \<in> set ids" for s'
  proof -
    have "sint s' \<noteq> sint s"
      using that Cons.prems(2) by (auto dest: signed_word_eqI)
    then show ?thesis
      using \<open>0 \<le> sint s\<close> by (auto simp: safe_list_get_def nth_list_update)
  qed
  have range: "table_in_range ?m s'" if "s' \<in> set ids" for s'
    using that Cons.prems(3) [of s'] unfolding table_in_range_def keep [OF that]
    by (cases "safe_list_get (tables_lvl_2 m) (sint s')") auto
  have rows: "freed_rows ?m = freed_rows m"
    by (simp add: freed_rows_def)
  have "freed ?m ids = freed m ids"
    unfolding freed_def [of ?m ids] freed_def [of m ids] rows
    by (rule arg_cong [where f = concat], rule map_cong [OF refl]) (simp only: keep)
  then have "clear_frames (freed ?m ids) (frames ?m) = clear_frames (freed m (s # ids)) (frames m)"
    by (simp add: freed_def clear_frames_append)
  moreover have "foldM (\<lambda>s m. delete_level_2_table m s) ids ?m =
    Some (?m\<lparr>frames := clear_frames (freed ?m ids) (frames ?m),
            tables_lvl_2 := clear_slots ids (tables_lvl_2 ?m)\<rparr>)"
    using Cons.prems range by (intro Cons.IH) auto
  ultimately show ?case
    using delete_level_2_table_eq [OF Cons.prems(1), of s] Cons.prems(3) [of s]
    by (simp add: clear_slots_def)
qed

lemma frames_wf_bound:
  "frames_wf m \<Longrightarrow> frame_at m q \<noteq> INVALID_FRAME \<Longrightarrow> unat (frame_at m q) < length (frames m)"
  by (simp add: frames_wf_taken)

lemma table_in_range_live:
  assumes "tables_wf m" and "frames_wf m" and "lvl2_live m s"
  shows "table_in_range m s"
proof -
  obtain t where t: "safe_list_get (tables_lvl_2 m) (sint s) = Some t"
    using assms(3) by (auto simp: lvl2_live_def)
  have "unat (frame (t ! k)) < length (frames m)" if "k < length t" "frame (t ! k) \<noteq> INVALID_FRAME" for k
    using frames_wf_bound [OF assms(2), of "(sint s, k)"] that t by (simp add: frame_at_def deref_row_def)
  then show ?thesis
    using t tables_wf_lengths(2) [OF assms(1) t] by (simp add: table_in_range_def list_all_length)
qed

definition process_ids :: "memory \<Rightarrow> u32 \<Rightarrow> u32 list" where
  "process_ids m ti = table_ids (safe_list_get (tables_lvl_1 m) (sint ti))"

lemma process_ids_live:
  assumes "tables_wf m"
  shows "distinct (process_ids m ti)" and "set (process_ids m ti) \<subseteq> set (second_pages m)"
    and "s \<in> set (process_ids m ti) \<Longrightarrow> lvl2_live m s"
proof -
  show sub: "set (process_ids m ti) \<subseteq> set (second_pages m)"
    using table_ids_in_second_pages [of m "sint ti"]
    by (cases "safe_list_get (tables_lvl_1 m) (sint ti)") (auto simp: process_ids_def table_ids_def)
  show "distinct (process_ids m ti)"
    using table_ids_distinct [OF assms, of "sint ti"]
    by (cases "safe_list_get (tables_lvl_1 m) (sint ti)") (auto simp: process_ids_def table_ids_def)
  show "s \<in> set (process_ids m ti) \<Longrightarrow> lvl2_live m s"
    using sub assms by (auto simp: tables_wf_def list_all_iff)
qed

lemma delete_process_eq:
  assumes wf: "tables_wf m" and fr: "frames_wf m"
    and live: "safe_list_get (tables_lvl_1 m) (sint ti) = Some t"
  shows "delete_process m ti =
    Some (m\<lparr>frames := clear_frames (freed m (process_ids m ti)) (frames m),
            tables_lvl_2 := clear_slots (process_ids m ti) (tables_lvl_2 m),
            tables_lvl_1 := (tables_lvl_1 m)[nat (sint ti) := None]\<rparr>)"
proof -
  have ids: "process_ids m ti = map second_page t"
    by (simp add: process_ids_def table_ids_def live)
  have len: "rows_of m = length t"
    using tables_wf_lengths(1) [OF wf live] by simp
  have "foldM (\<lambda>s m. delete_level_2_table m s) (process_ids m ti) m =
    Some (m\<lparr>frames := clear_frames (freed m (process_ids m ti)) (frames m),
            tables_lvl_2 := clear_slots (process_ids m ti) (tables_lvl_2 m)\<rparr>)"
    using fr process_ids_live [OF wf] table_in_range_live [OF wf fr]
    by (intro delete_level_2_tables_eq) (auto simp: frames_wf_iff)
  moreover have "foldM (\<lambda>s m. delete_level_2_table m s) (map second_page t) m =
      foldM (\<lambda>i m. do { e \<leftarrow> arr_get t i; delete_level_2_table m (second_page e) })
        [0..<length t] m"
    by (simp add: foldM_elements foldM_map comp_def)
  ultimately show ?thesis
    using live print_table_live [OF wf live]
    by (simp add: delete_process_def delete_related_tables_def ids len)
      (auto simp: safe_list_replace_def safe_list_get_Some_iff)
qed

lemma mset_ids_remove:
  assumes "safe_list_get l i = Some t"
  shows "mset (concat (map table_ids l)) =
    mset (concat (map table_ids (l[nat i := None]))) + mset (map second_page t)"
proof -
  have n: "nat i < length l" "l ! nat i = Some t"
    using assms by (simp_all add: safe_list_get_Some_iff)
  then obtain a b where "l = a @ Some t # b" "l[nat i := None] = a @ None # b"
    using id_take_nth_drop [of "nat i" l] by (auto simp: upd_conv_take_nth_drop)
  then show ?thesis by (simp add: table_ids_def)
qed

lemma deref_clear_slots:
  assumes "\<And>s. s \<in> set ids \<Longrightarrow> lvl2_live m s"
    and "tables_lvl_2 m' = clear_slots ids (tables_lvl_2 m)"
  shows "deref_row m' q = (if fst q \<in> sint ` set ids then None else deref_row m q)"
  using get_clear_slots [of ids "tables_lvl_2 m" "fst q"] live_below [of m] assms
  by (auto simp: deref_row_def)

lemma in_freed:
  assumes "f \<in> set (freed m ids)" and "f \<noteq> INVALID_FRAME"
  shows "\<exists>s j. s \<in> set ids \<and> j < freed_rows m \<and> frame_at m (sint s, j) = f"
proof -
  obtain s t where s: "s \<in> set ids" and t: "safe_list_get (tables_lvl_2 m) (sint s) = Some t"
    and f: "f \<in> set (map frame (take (freed_rows m) t))"
    using assms(1) by (force simp: freed_def split: option.splits)
  then obtain j where "j < freed_rows m" "j < length t" "frame (t ! j) = f"
    by (auto simp: in_set_conv_nth)
  with s t show ?thesis
    by (intro exI [of _ s] exI [of _ j]) (simp add: frame_at_def deref_row_def)
qed

lemma freed_in:
  assumes "s \<in> set ids" and "j < freed_rows m" and "frame_at m (sint s, j) \<noteq> INVALID_FRAME"
  shows "frame_at m (sint s, j) \<in> set (freed m ids)"
proof -
  obtain t where t: "safe_list_get (tables_lvl_2 m) (sint s) = Some t" "j < length t"
    "frame_at m (sint s, j) = frame (t ! j)"
    using frame_at_deref [OF refl assms(3)]
    by (auto simp: deref_row_def frame_at_def bind_eq_Some_conv arr_get_Some_iff)
  then have "frame (t ! j) \<in> set (map frame (take (freed_rows m) t))"
    using assms(2) unfolding in_set_conv_nth by (intro exI [of _ j]) simp
  with t assms(1) show ?thesis by (force simp: freed_def)
qed

lemma delete_process_wf:
  assumes wf: "tables_wf m" and fr: "frames_wf m"
    and live: "safe_list_get (tables_lvl_1 m) (sint ti) = Some t"
    and run: "delete_process m ti = Some m'"
  shows "tables_wf m'" and "frames_wf m'"
proof -
  let ?ids = "process_ids m ti"
  have m': "m' = m\<lparr>frames := clear_frames (freed m ?ids) (frames m),
            tables_lvl_2 := clear_slots ?ids (tables_lvl_2 m),
            tables_lvl_1 := (tables_lvl_1 m)[nat (sint ti) := None]\<rparr>"
    using delete_process_eq [OF wf fr live] run by simp
  have ids: "?ids = map second_page t"
    by (simp add: process_ids_def table_ids_def live)
  note lives = process_ids_live [OF wf]
  have get2: "safe_list_get (tables_lvl_2 m') i =
      (if i \<in> sint ` set ?ids then None else safe_list_get (tables_lvl_2 m) i)" for i
    using get_clear_slots [of ?ids "tables_lvl_2 m" i] live_below [OF lives(3)] by (simp add: m')
  have pages: "mset (second_pages m) = mset (second_pages m') + mset ?ids"
    using mset_ids_remove [OF live] by (simp add: second_pages_def m' ids)
  then have "mset (second_pages m) = mset (second_pages m' @ ?ids)" by simp
  then have dist: "distinct (second_pages m' @ ?ids)"
    using wf unfolding tables_wf_def by (metis mset_eq_imp_distinct_iff)
  have set_pages: "set (second_pages m) = set (second_pages m') \<union> set ?ids"
    using pages by (metis set_mset_mset set_mset_union)
  have "lvl2_live m' s" if "s \<in> set (second_pages m')" for s
  proof -
    have "lvl2_live m s"
      using wf that set_pages by (auto simp: tables_wf_def list_all_iff)
    moreover have "sint s \<notin> sint ` set ?ids"
      using dist that by (auto dest: signed_word_eqI)
    ultimately show ?thesis by (simp add: lvl2_live_def get2)
  qed
  moreover have "i \<in> (\<lambda>s. nat (sint s)) ` set (second_pages m')"
    if i: "i < length (tables_lvl_2 m')" "tables_lvl_2 m' ! i \<noteq> None" for i
  proof -
    have "int i \<notin> sint ` set ?ids" "tables_lvl_2 m ! i \<noteq> None" "i < length (tables_lvl_2 m)"
      using get2 [of "int i"] i by (auto simp: m' split: if_splits)
    moreover from this have "i \<in> (\<lambda>s. nat (sint s)) ` set (second_pages m)"
      using wf by (auto simp: tables_wf_def list_all_iff)
    moreover have "int i \<in> sint ` set ?ids" if "i = nat (sint s)" "s \<in> set ?ids" for s
      using that live_below [OF lives(3)] by auto
    ultimately show ?thesis unfolding set_pages by blast
  qed
  moreover have "list_all (rows_ok (rows_of m)) (tables_lvl_1 m')"
    using wf set_update_subset_insert [of "tables_lvl_1 m" "nat (sint ti)" None]
    by (auto simp: tables_wf_def list_all_iff rows_ok_def m')
  moreover have "rows_ok (rows_of m) (tables_lvl_2 m' ! i)" if "i < length (tables_lvl_2 m')" for i
    using get2 [of "int i"] that wf
    by (auto simp: tables_wf_def list_all_length m' rows_ok_def split: if_splits)
  then have "list_all (rows_ok (rows_of m)) (tables_lvl_2 m')"
    by (simp add: list_all_length)
  moreover have "max_rows m' = max_rows m" "length (tables_lvl_1 m') = length (tables_lvl_1 m)"
    "length (tables_lvl_2 m') = length (tables_lvl_2 m)"
    by (simp_all add: m')
  ultimately show "tables_wf m'"
    using wf dist by (simp add: tables_wf_def list_all_iff)
  have at: "frame_at m' q = (if fst q \<in> sint ` set ?ids then INVALID_FRAME else frame_at m q)" for q
    using deref_clear_slots [of ?ids m m' q] lives(3) by (simp add: frame_at_def m')
  have bit: "unat (frame_at m q) < length (frames m') \<and> frames m' ! unat (frame_at m q)"
    if "fst q \<notin> sint ` set ?ids" "frame_at m q \<noteq> INVALID_FRAME" for q
  proof -
    note q = that
    have taken: "unat (frame_at m q) < length (frames m)" "frames m ! unat (frame_at m q)"
      using frames_wf_taken [OF fr q(2)] by auto
    have "frame_at m q \<notin> set (freed m ?ids)"
    proof
      assume "frame_at m q \<in> set (freed m ?ids)"
      then obtain s j where "s \<in> set ?ids" "frame_at m (sint s, j) = frame_at m q"
        using in_freed q(2) by blast
      moreover from this have "(sint s, j) = q"
        using frames_wf_unique [OF fr q(2)] by blast
      ultimately show False using q(1) by auto
    qed
    then have "\<not> list_ex (\<lambda>f. f \<noteq> INVALID_FRAME \<and> unat f = unat (frame_at m q)) (freed m ?ids)"
      by (auto simp: list_ex_iff dest: word_unat_eq_iff [THEN iffD2])
    with taken show ?thesis by (simp add: m' nth_clear_frames)
  qed
  show "frames_wf m'"
  proof (rule frames_wfI)
    show "length (frames m') = unat (no_of_frames m')"
      using frames_wf_length [OF fr] by (simp add: m')
    show "q' = q" if "frame_at m' q \<noteq> INVALID_FRAME" "frame_at m' q' = frame_at m' q" for q q'
      by (rule frames_wf_unique [OF fr]) (use that in \<open>auto simp: at split: if_splits\<close>)
    show "unat (frame_at m' q) < length (frames m') \<and> frames m' ! unat (frame_at m' q)"
      if "frame_at m' q \<noteq> INVALID_FRAME" for q
      using that bit [of q] by (auto simp: at split: if_splits)
  qed
qed

lemma deleted_slots:
  assumes wf: "tables_wf m" and fr: "frames_wf m"
    and live: "safe_list_get (tables_lvl_1 m) (sint ti) = Some t"
    and run: "delete_process m ti = Some m'"
  shows "deref_row m' q = (if fst q \<in> sint ` set (process_ids m ti) then None else deref_row m q)"
  using deref_clear_slots [of "process_ids m ti" m m' q] process_ids_live(3) [OF wf]
    delete_process_eq [OF wf fr live] run
  by auto

lemma process_ids_disjoint:
  assumes wf: "tables_wf m" and ne: "ti \<noteq> tj"
  shows "set (process_ids m ti) \<inter> set (process_ids m tj) = {}"
proof (cases "safe_list_get (tables_lvl_1 m) (sint ti) = None \<or> safe_list_get (tables_lvl_1 m) (sint tj) = None")
  case True
  then show ?thesis by (auto simp: process_ids_def table_ids_def)
next
  case False
  let ?l = "map table_ids (tables_lvl_1 m)"
  obtain a b where ab: "nat (sint ti) = a" "nat (sint tj) = b" "0 \<le> sint ti" "0 \<le> sint tj"
    "a < length ?l" "b < length ?l" "process_ids m ti = ?l ! a" "process_ids m tj = ?l ! b"
    using False by (auto simp: process_ids_def safe_list_get_def split: if_splits)
  have "a \<noteq> b"
    using ab ne by (metis eq_nat_nat_iff signed_word_eqI)
  then show ?thesis
    using wf ab distinct_concat_nth [of ?l a b] by (simp add: tables_wf_def second_pages_def)
qed

lemma delete_process_other:
  assumes wf: "tables_wf m" and fr: "frames_wf m"
    and live: "safe_list_get (tables_lvl_1 m) (sint ti) = Some t"
    and run: "delete_process m ti = Some m'"
    and other: "tj \<noteq> ti" "process_rows m tj = Some rs"
  shows "process_rows m' tj = Some rs"
proof -
  obtain t' where t': "safe_list_get (tables_lvl_1 m) (sint tj) = Some t'"
    and rs: "rs = view (row_refs (rows_of m) (map second_page t')) m"
    using process_rows_SomeD [OF wf other(2)] by blast
  have m': "m' = m\<lparr>frames := frames m', tables_lvl_2 := tables_lvl_2 m',
      tables_lvl_1 := (tables_lvl_1 m)[nat (sint ti) := None]\<rparr>"
    using delete_process_eq [OF wf fr live] run by simp
  have "sint tj \<noteq> sint ti" "0 \<le> sint ti" "0 \<le> sint tj"
    using other(1) live t' by (auto simp: safe_list_get_def dest: signed_word_eqI split: if_splits)
  then have "safe_list_get (tables_lvl_1 m') (sint tj) = Some t'"
    using t' by (subst m') (auto simp: safe_list_get_def split: if_splits)
  then have "process_rows m' tj = Some (view (row_refs (rows_of m') (map second_page t')) m')"
    by (rule process_rows_wf [OF delete_process_wf(1) [OF wf fr live run]])
  moreover have "rows_of m' = rows_of m" by (subst m') simp
  moreover have "process_ids m tj = map second_page t'"
    using t' by (simp add: process_ids_def table_ids_def)
  then have "sint s \<notin> sint ` set (process_ids m ti)" if "s \<in> set (map second_page t')" for s
    using process_ids_disjoint [OF wf other(1) [symmetric]] that by (auto dest: signed_word_eqI)
  then have "view (row_refs (rows_of m) (map second_page t')) m' = rs"
    unfolding view_def rs by (auto simp: set_row_refs deleted_slots [OF wf fr live run])
  ultimately show ?thesis by simp
qed

lemma delete_process_frees:
  assumes wf: "tables_wf m" and fr: "frames_wf m"
    and live: "safe_list_get (tables_lvl_1 m) (sint ti) = Some t"
    and run: "delete_process m ti = Some m'"
    and owned: "s \<in> set (process_ids m ti)" "frame_at m (sint s, j) = f" "f \<noteq> INVALID_FRAME"
  shows "arr_get (frames m') (unat f) = Some (freed_rows m \<le> j)"
proof -
  have f: "unat f < length (frames m)" "frames m ! unat f"
    using frames_wf_taken [OF fr, of "(sint s, j)"] owned by auto
  have "list_ex (\<lambda>g. g \<noteq> INVALID_FRAME \<and> unat g = unat f) (freed m (process_ids m ti))
      = (f \<in> set (freed m (process_ids m ti)))"
    using owned(3) by (auto simp: list_ex_iff dest: word_unat_eq_iff [THEN iffD2])
  also have "\<dots> = (j < freed_rows m)"
  proof
    assume "j < freed_rows m"
    with freed_in [OF owned(1) this] owned show "f \<in> set (freed m (process_ids m ti))" by simp
  next
    assume "f \<in> set (freed m (process_ids m ti))"
    from in_freed [OF this owned(3)] obtain s' :: u32 and j'
      where "j' < freed_rows m" "frame_at m (sint s', j') = f"
      by blast
    moreover from this have "(sint s', j') = (sint s, j)"
      using frames_wf_unique [OF fr, of "(sint s, j)" "(sint s', j')"] owned by simp
    ultimately show "j < freed_rows m" by simp
  qed
  finally show ?thesis
    using f delete_process_eq [OF wf fr live] run
    by (auto simp: arr_get_def nth_clear_frames)
qed

end
