(* ===== verification/Swap.thy ===== *)
theory Swap
  imports Os_Memory
begin

section \<open>Swap files: \<open>fs.c\<close> and \<open>swap.c\<close>\<close>

text \<open>
  \<open>memory/src/module/fs.c\<close> and \<open>swap.c\<close>. A swap file holds entries of a frame number
  and the bytes of the frame; its metadata (\<open>swap_data_t\<close>) says where the next entry goes.

  A file is mapped whole pages of the operating system at a time: the bytes of the last page
  past the end of the file can be read and written, but a write there is not kept, and an
  access past that page is a failure. \<open>mmap\<close> of no bytes fails. \<open>size_of_int\<close> is the
  conversion of an \<open>int\<close> to \<open>size_t\<close>. A \<open>memcpy\<close> between two parts of one mapping is
  taken to read all its bytes before it writes them.
\<close>

definition size_of_int :: "u32 \<Rightarrow> nat" where
  "size_of_int w = unat (scast w :: 64 word)"

lemma size_of_int_small [simp]:
  assumes "unat w < 2 ^ 31"
  shows "size_of_int w = unat w"
proof -
  have "scast w = (word_of_int (sint w) :: 64 word)"
    by simp
  also have "\<dots> = word_of_nat (unat w)"
    using sint_u32_small [OF assms] by simp
  finally have "size_of_int w = take_bit 64 (unat w)"
    by (simp only: size_of_int_def unat_of_nat) (simp add: take_bit_eq_mod)
  then show ?thesis
    using assms by (simp add: take_bit_nat_eq_self)
qed

abbreviation page_bytes :: "memory \<Rightarrow> nat" where
  "page_bytes m \<equiv> size_of_int (tam_pagina (cfg m))"

subsection \<open>Files\<close>

definition truncate_file :: "nat \<Rightarrow> byte list \<Rightarrow> byte list" where
  "truncate_file n file = take n file @ replicate (n - length file) 0"

definition round_page :: "memory \<Rightarrow> nat \<Rightarrow> nat" where
  "round_page m n = (let p = os_page (os m) in (n + p - 1) div p * p)"

definition map_file :: "memory \<Rightarrow> nat \<Rightarrow> byte list \<Rightarrow> byte list" where
  "map_file m n file =
     (let len = min (round_page m n) (round_page m (length file)) in
      take len file @ map (garbage (os m)) [length file..<len])"

definition unmap_file :: "byte list \<Rightarrow> byte list \<Rightarrow> byte list" where
  "unmap_file mapping file = take (length file) mapping @ drop (length mapping) file"

definition can_map :: "memory \<Rightarrow> u32 \<Rightarrow> nat \<Rightarrow> bool" where
  "can_map m pid n = (n \<noteq> 0 \<and> mmap_ok (os m) pid)"

definition set_file :: "memory \<Rightarrow> u32 \<Rightarrow> byte list \<Rightarrow> memory" where
  "set_file m pid file = m\<lparr>swap_files := (swap_files m)(pid \<mapsto> file)\<rparr>"

text \<open>\<open>open_file\<close> creates the file when it does not exist; \<open>None\<close> is the descriptor \<open>-1\<close>.\<close>

definition open_file :: "memory \<Rightarrow> u32 \<Rightarrow> (memory \<times> byte list) option" where
  "open_file m pid =
     (if open_ok (os m) pid
      then let file = (case swap_files m pid of None \<Rightarrow> [] | Some f \<Rightarrow> f) in
           Some (set_file m pid file, file)
      else None)"

definition delete_swap_file :: "memory \<Rightarrow> u32 \<Rightarrow> memory" where
  "delete_swap_file m pid = m\<lparr>swap_files := (swap_files m)(pid := None)\<rparr>"

definition open_create :: "memory \<Rightarrow> u32 \<Rightarrow> memory \<times> byte list option" where
  "open_create m pid =
     (let m = delete_swap_file m pid in
      if open_ok (os m) pid then (set_file m pid [], Some []) else (m, None))"

definition create_file :: "memory \<Rightarrow> u32 \<Rightarrow> u32 \<Rightarrow> memory option" where
  "create_file m pid sz =
     (case open_create m pid of
        (m, None) \<Rightarrow> Some m
      | (m, Some file) \<Rightarrow>
          let file = truncate_file (unat sz) file; m = set_file m pid file in
          if \<not> can_map m pid (unat sz) then Some m
          else do {
            mapping \<leftarrow> write_u32 (map_file m (unat sz) file) 0 pid;
            Some (set_file m pid (unmap_file mapping file)) })"

subsection \<open>Swapping a frame out and in\<close>

definition new_swap_data :: "u32 \<Rightarrow> u32 \<Rightarrow> swap_data_t" where
  "new_swap_data pid sz = \<lparr>sd_pid = pid, sd_offset = 0, sd_size = sz\<rparr>"

definition swap_frame :: "memory \<Rightarrow> u32 \<Rightarrow> byte list \<Rightarrow> u32 \<Rightarrow> (byte list \<times> u32) option" where
  "swap_frame m f mapping offset = do {
     bytes \<leftarrow> read_bytes (main_memory m) (get_frame_address m f) (page_bytes m);
     mapping \<leftarrow> write_bytes mapping (unat offset) (le32 f @ bytes);
     Some (mapping, offset + word_of_nat (4 + page_bytes m)) }"

definition set_present :: "memory \<Rightarrow> u32 \<Rightarrow> bool \<Rightarrow> memory option" where
  "set_present m f b = do {
     r \<leftarrow> get_frame_ref m f;
     ref \<leftarrow> r;
     update_row m ref (\<lambda>row. row\<lparr>present := b\<rparr>) }"

definition set_swap_offset :: "memory \<Rightarrow> nat \<Rightarrow> u32 \<Rightarrow> memory option" where
  "set_swap_offset m k offset = do {
     d \<leftarrow> deref_swap_data m k;
     l \<leftarrow> safe_list_replace (swap_data m) (int k) (Some (d\<lparr>sd_offset := offset\<rparr>));
     Some (m\<lparr>swap_data := l\<rparr>) }"

definition swap_frame_for_pcb :: "memory \<Rightarrow> u32 \<Rightarrow> u32 \<Rightarrow> memory option" where
  "swap_frame_for_pcb m pid f = do {
     r \<leftarrow> get_swap_data_for_pcb m pid;
     (case r of
        None \<Rightarrow> Some m
      | Some k \<Rightarrow> do {
          d \<leftarrow> deref_swap_data m k;
          (case open_file m pid of
             None \<Rightarrow> Some m
           | Some (m, file) \<Rightarrow>
               let sz = unat (sd_size d);
                   file = truncate_file sz file;
                   m = set_file m pid file in
               if \<not> can_map m pid sz then Some m
               else do {
                 (mapping, offset) \<leftarrow> swap_frame m f (map_file m sz file) (sd_offset d);
                 m \<leftarrow> set_swap_offset m k offset;
                 set_present (set_file m pid (unmap_file mapping file)) f False }) }) }"

text \<open>The search of \<open>unswap_frame_for_pcb\<close>: entries are one frame number and one page apart.\<close>

definition entry_bytes :: "memory \<Rightarrow> nat" where
  "entry_bytes m = page_bytes m + 4"

definition find_entry :: "memory \<Rightarrow> byte list \<Rightarrow> nat \<Rightarrow> u32 \<Rightarrow> nat option option" where
  "find_entry m mapping offset f =
     findM (\<lambda>i. map_option (\<lambda>g. g = f) (read_u32 mapping i))
       (map (\<lambda>k. k * entry_bytes m) [0..<(offset + entry_bytes m - 1) div entry_bytes m])"

text \<open>The page is brought back through a block of \<open>page_size\<close> fresh bytes into which only
  \<open>sizeof (page_size)\<close>, that is eight, bytes of the entry are copied.\<close>

definition restore_page :: "memory \<Rightarrow> byte list \<Rightarrow> nat \<Rightarrow> u32 \<Rightarrow> memory option" where
  "restore_page m mapping i f = do {
     bytes \<leftarrow> read_bytes mapping (i + 4) 8;
     frame_data \<leftarrow> write_bytes (map (garbage (os m)) [0..<page_bytes m]) 0 bytes;
     mem \<leftarrow> write_bytes (main_memory m) (page_bytes m * unat f) frame_data;
     Some (m\<lparr>main_memory := mem\<rparr>) }"

definition unswap_frame_for_pcb :: "memory \<Rightarrow> u32 \<Rightarrow> u32 \<Rightarrow> memory option" where
  "unswap_frame_for_pcb m pid f =
     (case open_file m pid of
        None \<Rightarrow> Some m
      | Some (m, file) \<Rightarrow> do {
          r \<leftarrow> get_swap_data_for_pcb m pid;
          k \<leftarrow> r;
          d \<leftarrow> deref_swap_data m k;
          if \<not> can_map m pid (unat (sd_size d)) then Some m
          else do {
            let mapping = map_file m (unat (sd_size d)) file;
            let offset = unat (sd_offset d);
            found \<leftarrow> find_entry m mapping offset f;
            m \<leftarrow> (case found of None \<Rightarrow> Some m | Some i \<Rightarrow> restore_page m mapping i f);
            let replace_index = (case found of None \<Rightarrow> 0 | Some i \<Rightarrow> i);
            (mapping, offset') \<leftarrow>
              (if offset > page_bytes m
               then do {
                 last \<leftarrow> read_bytes mapping (offset - page_bytes m) (page_bytes m);
                 mapping \<leftarrow> write_bytes mapping replace_index last;
                 Some (mapping, sd_offset d - word_of_nat (entry_bytes m)) }
               else Some (mapping, 0));
            m \<leftarrow> set_swap_offset m k offset';
            set_present (set_file m pid (unmap_file mapping file)) f True } })"

text \<open>\<open>unswap_pcb\<close> restores the pages whose row is present; at the first one that is not it
  moves the end of the file down to that entry, which also ends the loop.\<close>

function unswap_loop :: "byte list \<Rightarrow> nat \<Rightarrow> nat \<Rightarrow> memory \<Rightarrow> u32 \<Rightarrow> (memory \<times> u32) option" where
  "unswap_loop mapping entry i m offset =
     (if i < unat offset \<and> 0 < entry
      then do {
        f \<leftarrow> read_u32 mapping i;
        r \<leftarrow> get_frame_ref m f;
        ref \<leftarrow> r;
        row \<leftarrow> deref_row m ref;
        if present row
        then do {
          m \<leftarrow> restore_page m mapping i (frame row);
          unswap_loop mapping entry (i + entry) m offset }
        else unswap_loop mapping entry (i + entry) m (word_of_nat (i + entry)) }
      else Some (m, offset))"
  by pat_completeness auto
termination
proof (relation "measure (\<lambda>(mapping, entry, i, m, offset). unat offset - i)")
  fix mapping :: "byte list" and entry i :: nat and m m' :: memory and offset :: u32
  assume lt: "i < unat offset \<and> 0 < entry"
  then show "((mapping, entry, i + entry, m', offset), (mapping, entry, i, m, offset))
      \<in> measure (\<lambda>(mapping, entry, i, m, offset). unat offset - i)"
    by (auto intro: diff_less_mono2)
  have "unat (word_of_nat (i + entry) :: u32) \<le> i + entry"
    by (simp add: unat_of_nat del: of_nat_add)
  with lt show "((mapping, entry, i + entry, m, word_of_nat (i + entry)), (mapping, entry, i, m, offset))
      \<in> measure (\<lambda>(mapping, entry, i, m, offset). unat offset - i)"
    by (simp del: of_nat_add)
qed simp

declare unswap_loop.simps [simp del]

definition unswap_pcb :: "memory \<Rightarrow> u32 \<Rightarrow> memory option" where
  "unswap_pcb m pid = do {
     r \<leftarrow> get_swap_data_for_pcb m pid;
     (case open_file m pid of
        None \<Rightarrow> Some m
      | Some (m, file) \<Rightarrow> do {
          k \<leftarrow> r;
          d \<leftarrow> deref_swap_data m k;
          if \<not> can_map m pid (unat (sd_size d)) then Some m
          else do {
            let mapping = map_file m (unat (sd_size d)) file;
            (m, offset) \<leftarrow> unswap_loop mapping (entry_bytes m) 0 m (sd_offset d);
            set_swap_offset m k offset } }) }"

subsection \<open>Out and back\<close>

text \<open>A frame that is swapped out at an offset and restored from there: its first eight bytes
  return, the rest of the page is what the block of memory held.\<close>

lemma swap_roundtrip:
  assumes pb: "8 \<le> page_bytes m" and adr: "get_frame_address m f = page_bytes m * unat f"
    and mem: "page_bytes m * unat f + page_bytes m \<le> length (main_memory m)"
    and room: "unat off + 4 + page_bytes m \<le> length mapping"
    and later: "length (main_memory m') = length (main_memory m)" "cfg m' = cfg m"
  shows "\<exists>mapping' m''. swap_frame m f mapping off =
      Some (mapping', off + word_of_nat (4 + page_bytes m)) \<and>
    restore_page m' mapping' (unat off) f = Some m'' \<and>
    read_bytes (main_memory m'') (page_bytes m * unat f) (page_bytes m) =
      Some (take 8 (drop (get_frame_address m f) (main_memory m)) @
            map (garbage (os m')) [8..<page_bytes m])"
proof -
  let ?pb = "page_bytes m"
  let ?bytes = "take ?pb (drop (get_frame_address m f) (main_memory m))"
  let ?data = "take 8 ?bytes @ map (garbage (os m')) [8..<?pb]"
  have len: "length ?bytes = ?pb" using mem by (simp add: adr)
  have rd: "read_bytes (main_memory m) (get_frame_address m f) ?pb = Some ?bytes"
    using mem by (simp add: read_bytes_def adr)
  obtain mapping' where w: "write_bytes mapping (unat off) (le32 f @ ?bytes) = Some mapping'"
    using write_bytes_defined [of "unat off" "le32 f @ ?bytes" mapping] room len by auto
  have out: "swap_frame m f mapping off = Some (mapping', off + word_of_nat (4 + ?pb))"
    by (simp add: swap_frame_def rd w)
  have entry: "take (4 + ?pb) (drop (unat off) mapping') = le32 f @ ?bytes"
    using read_write_same [OF w] len by (simp add: read_bytes_def split: if_splits)
  have "take 8 (drop (unat off + 4) mapping') = take 8 (drop 4 (take (4 + ?pb) (drop (unat off) mapping')))"
    using pb by (simp add: take_drop add.commute min_def)
  also have "\<dots> = take 8 ?bytes" by (simp add: entry)
  finally have first: "read_bytes mapping' (unat off + 4) 8 = Some (take 8 ?bytes)"
    using room pb length_write_bytes [OF w] by (simp add: read_bytes_def)
  have block: "write_bytes (map (garbage (os m')) [0..<?pb]) 0 (take 8 ?bytes) = Some ?data"
    using pb len by (simp add: write_bytes_def drop_map)
  obtain mem' where stored: "write_bytes (main_memory m') (?pb * unat f) ?data = Some mem'"
    using write_bytes_defined [of "?pb * unat f" ?data "main_memory m'"] mem later(1) len pb by auto
  have "restore_page m' mapping' (unat off) f = Some (m'\<lparr>main_memory := mem'\<rparr>)"
    using first block stored later(2) by (simp add: restore_page_def)
  moreover have "read_bytes mem' (?pb * unat f) ?pb = Some ?data"
    using read_write_same [OF stored] len pb by simp
  ultimately show ?thesis
    using out pb by (auto simp: min_def)
qed

subsection \<open>Mapped files\<close>

lemma truncate_file_length: "length (truncate_file n file) = n"
  by (simp add: truncate_file_def)

lemma round_page_ge: "os_page (os m) \<noteq> 0 \<Longrightarrow> n \<le> round_page m n"
proof -
  assume p: "os_page (os m) \<noteq> 0"
  let ?p = "os_page (os m)"
  have "(n + ?p - 1) mod ?p < ?p" using p by simp
  moreover have "(n + ?p - 1) div ?p * ?p + (n + ?p - 1) mod ?p = n + ?p - 1" by simp
  ultimately show ?thesis unfolding round_page_def Let_def using p by linarith
qed

lemma map_file_take:
  assumes "os_page (os m) \<noteq> 0" and "length file = n"
  shows "take n (map_file m n file) = file" and "n \<le> length (map_file m n file)"
  using assms round_page_ge [OF assms(1), of n] by (simp_all add: map_file_def Let_def)

lemma round_page_pos: "n \<noteq> 0 \<Longrightarrow> os_page (os m) \<le> round_page m n"
proof -
  assume "n \<noteq> 0"
  then have "os_page (os m) \<le> n + os_page (os m) - 1" by simp
  then have "1 \<le> (n + os_page (os m) - 1) div os_page (os m)" if "os_page (os m) \<noteq> 0"
    using that by (simp add: Suc_le_eq div_greater_zero_iff)
  then show ?thesis unfolding round_page_def Let_def
    by (cases "os_page (os m) = 0") (simp_all add: mult_le_cancel2)
qed

text \<open>A new file gets its process's identifier, as long as a page of the system has four bytes.\<close>

lemma create_file_defined:
  assumes "4 \<le> os_page (os m)"
  shows "\<exists>m'. create_file m pid sz = Some m' \<and> m'\<lparr>swap_files := swap_files m\<rparr> = m"
proof -
  let ?n = "unat sz" and ?m = "set_file (delete_swap_file m pid) pid []"
  let ?file = "truncate_file ?n []"
  have os: "os (set_file ?m pid ?file) = os m" by (simp add: set_file_def delete_swap_file_def)
  have "write_u32 (map_file (set_file ?m pid ?file) ?n ?file) 0 pid \<noteq> None" if "?n \<noteq> 0"
    using round_page_pos [OF that, of "set_file ?m pid ?file"] assms truncate_file_length [of ?n "[]"] os
    by (simp add: write_u32_def write_bytes_def map_file_def Let_def)
  then show ?thesis
    by (auto simp: create_file_def open_create_def Let_def can_map_def set_file_def delete_swap_file_def
        split: option.split)
qed

text \<open>The metadata of a process is dropped, when no entry of the list is \<open>NULL\<close>.\<close>

lemma delete_swap_data_defined:
  assumes "list_all (\<lambda>d. d \<noteq> None) (swap_data m)"
  shows "\<exists>l. delete_swap_data m pid = Some (m\<lparr>swap_data := l\<rparr>)"
proof -
  let ?q = "\<lambda>i. sd_pid (the (swap_data m ! i)) = pid"
  have "findM (\<lambda>i. do { d \<leftarrow> safe_list_get (swap_data m) (int i); Some (sd_pid d = pid) })
      [0..<length (swap_data m)] = Some (find ?q [0..<length (swap_data m)])"
    using assms by (intro findM_find) (auto simp: safe_list_get_def list_all_length)
  then show ?thesis
    by (auto simp: delete_swap_data_def safe_list_remove_def dest: find_upt_SomeD
        intro: exI [of _ "swap_data m"] split: option.split)
qed

end
