(* ===== verification/Wire.thy ===== *)
theory Wire
  imports Bytes
begin

section \<open>Messages on the sockets: operands, actions, packages, framing\<close>

text \<open>
  \<open>lib/src/connection\<close>: \<open>operands.c\<close>, \<open>accion.c\<close>, \<open>buffer.c\<close>, \<open>package.c\<close>,
  \<open>opcode.c\<close>, and the receiving and sending functions of \<open>conexion.c\<close> and
  \<open>server.c\<close>. A connected socket is the bytes that are still to be received and the
  bytes that were sent; \<open>recv\<close> with \<open>MSG_WAITALL\<close> gives all the bytes asked for, or
  fewer when the peer closed, or \<open>-1\<close> on an error. The bytes of a fresh \<open>malloc\<close> that a
  short reception leaves as they were come from the parameter \<open>junk\<close>.
\<close>

subsection \<open>Operation codes\<close>

datatype opcode_t = DC | MSG | PKG | SYS | CMD | INOUT | OP | PCB | RD | WR | SWAP_PCB
  | RETRIEVE_SWAPPED_PCB | RETRIEVED_PCB | WT | INT_op | SZ | ENTRIES | FRAME | SND_PAGE
  | MEMORY_INIT | PROCESS_TERMINATED

definition opcodes :: "opcode_t list" where
  "opcodes = [DC, MSG, PKG, SYS, CMD, INOUT, OP, PCB, RD, WR, SWAP_PCB, RETRIEVE_SWAPPED_PCB,
     RETRIEVED_PCB, WT, INT_op, SZ, ENTRIES, FRAME, SND_PAGE, MEMORY_INIT, PROCESS_TERMINATED]"

fun opcode_num :: "opcode_t \<Rightarrow> u32" where
  "opcode_num DC = 0" | "opcode_num MSG = 1" | "opcode_num PKG = 2" | "opcode_num SYS = 3"
| "opcode_num CMD = 4" | "opcode_num INOUT = 5" | "opcode_num OP = 6" | "opcode_num PCB = 7"
| "opcode_num RD = 8" | "opcode_num WR = 9" | "opcode_num SWAP_PCB = 10"
| "opcode_num RETRIEVE_SWAPPED_PCB = 11" | "opcode_num RETRIEVED_PCB = 12"
| "opcode_num WT = 13" | "opcode_num INT_op = 14" | "opcode_num SZ = 15"
| "opcode_num ENTRIES = 16" | "opcode_num FRAME = 17" | "opcode_num SND_PAGE = 18"
| "opcode_num MEMORY_INIT = 19" | "opcode_num PROCESS_TERMINATED = 20"

text \<open>The \<open>switch\<close> on a received code: \<open>None\<close> is its \<open>default\<close> case.\<close>

definition opcode_of :: "u32 \<Rightarrow> opcode_t option" where
  "opcode_of n = find (\<lambda>c. opcode_num c = n) opcodes"

fun opcode_to_string :: "opcode_t \<Rightarrow> string" where
  "opcode_to_string DC = ''Desconectado''"
| "opcode_to_string MSG = ''Mensaje''"
| "opcode_to_string PKG = ''Paquete''"
| "opcode_to_string SYS = ''Syscall''"
| "opcode_to_string CMD = ''Instrucci'' @ [CHR 0xC3, CHR 0xB3] @ ''n''"
| "opcode_to_string PCB = ''PCB''"
| "opcode_to_string SWAP_PCB = ''Swap PCB''"
| "opcode_to_string RETRIEVE_SWAPPED_PCB = ''Retrieve Swapped PCB''"
| "opcode_to_string RETRIEVED_PCB = ''Retrieve Swapped PCB response''"
| "opcode_to_string RD = ''Memory Read''"
| "opcode_to_string INT_op = ''Interruption''"
| "opcode_to_string SZ = ''Page Size''"
| "opcode_to_string ENTRIES = ''Entries per Page''"
| "opcode_to_string FRAME = ''Frame''"
| "opcode_to_string SND_PAGE = ''Second Level Page''"
| "opcode_to_string WT = ''Memory Write''"
| "opcode_to_string MEMORY_INIT = ''Init Memory for PCB''"
| "opcode_to_string _ = ''Unrecognized''"

lemma opcode_of_num [simp]: "opcode_of (opcode_num c) = Some c"
  by (cases c) (simp_all add: opcode_of_def opcodes_def)

lemma opcode_num_inject [simp]: "opcode_num c = opcode_num d \<longleftrightarrow> c = d"
  by (metis opcode_of_num option.inject)

subsection \<open>Operands and actions\<close>

record operands_t =
  op1 :: u32
  op2 :: u32

definition operandos_to_stream :: "operands_t \<Rightarrow> byte list" where
  "operandos_to_stream operandos = le32 (op1 operandos) @ le32 (op2 operandos)"

definition operandos_from_stream :: "byte list \<Rightarrow> operands_t option" where
  "operandos_from_stream stream = do {
     a \<leftarrow> read_u32 stream 0;
     b \<leftarrow> read_u32 stream 4;
     Some \<lparr>op1 = a, op2 = b\<rparr> }"

record accion_t =
  actioncode :: u32
  param :: u32

definition accion_create :: "u32 \<Rightarrow> u32 \<Rightarrow> accion_t" where
  "accion_create code p = \<lparr>actioncode = code, param = p\<rparr>"

definition accion_serializar :: "accion_t \<Rightarrow> byte list" where
  "accion_serializar accion = le32 (actioncode accion) @ le32 (param accion)"

definition accion_from_stream :: "byte list \<Rightarrow> accion_t option" where
  "accion_from_stream stream = do {
     code \<leftarrow> read_u32 stream 0;
     p \<leftarrow> read_u32 stream 4;
     Some (accion_create code p) }"

subsection \<open>Buffers and packages\<close>

record buffer_t =
  buf_size :: nat
  buf_stream :: "byte list"

definition new_buffer :: "nat \<Rightarrow> byte list \<Rightarrow> buffer_t option" where
  "new_buffer sz stream = do {
     bytes \<leftarrow> read_bytes stream 0 sz;
     Some \<lparr>buf_size = sz, buf_stream = bytes\<rparr> }"

record package_t =
  opcode :: u32
  buffer :: buffer_t

definition new_package :: "u32 \<Rightarrow> buffer_t \<Rightarrow> package_t" where
  "new_package code b = \<lparr>opcode = code, buffer = b\<rparr>"

definition new_package_for :: "u32 \<Rightarrow> nat \<Rightarrow> byte list \<Rightarrow> package_t option" where
  "new_package_for code sz stream = do {
     b \<leftarrow> new_buffer sz stream;
     Some (new_package code b) }"

text \<open>A C string is the bytes up to the first zero byte; the package takes that byte too.\<close>

definition c_strlen :: "byte list \<Rightarrow> nat" where
  "c_strlen str = length (takeWhile (\<lambda>b. b \<noteq> 0) str)"

definition package_create :: "u32 \<Rightarrow> byte list \<Rightarrow> package_t option" where
  "package_create code str_stream =
     new_package_for code (c_strlen str_stream + 1) str_stream"

definition package_get_real_size :: "package_t \<Rightarrow> nat" where
  "package_get_real_size package = buf_size (buffer package) + 4 + 4"

definition package_serialize :: "package_t \<Rightarrow> byte list option" where
  "package_serialize package = do {
     data \<leftarrow> read_bytes (buf_stream (buffer package)) 0 (buf_size (buffer package));
     Some (le32 (opcode package) @ le32 (word_of_nat (buf_size (buffer package))) @ data) }"

subsection \<open>Sockets\<close>

record socket =
  incoming :: "byte list"
  recv_error :: bool
  outgoing :: "byte list"
  send_error :: bool

definition recv :: "socket \<Rightarrow> nat \<Rightarrow> int \<times> byte list \<times> socket" where
  "recv s n =
     (if recv_error s then (-1, [], s)
      else (int (min n (length (incoming s))), take n (incoming s),
            s\<lparr>incoming := drop n (incoming s)\<rparr>))"

definition send :: "socket \<Rightarrow> byte list \<Rightarrow> int \<times> socket" where
  "send s bytes =
     (if send_error s then (-1, s)
      else (int (length bytes), s\<lparr>outgoing := outgoing s @ bytes\<rparr>))"

definition overlay :: "byte list \<Rightarrow> byte list \<Rightarrow> byte list" where
  "overlay bytes old = bytes @ drop (length bytes) old"

definition recibir_operacion :: "(nat \<Rightarrow> byte) \<Rightarrow> socket \<Rightarrow> int \<times> socket" where
  "recibir_operacion junk s =
     (let (ret, bytes, s) = recv s 4 in
      if ret \<le> 0 then (ret, s)
      else (sint (of_le32 (overlay bytes (map junk [0..<4]))), s))"

text \<open>The first component is the buffer, \<open>None\<close> for NULL, with the number of bytes the
  caller is told; the size is read into the low bytes of a zero \<open>size_t\<close>.\<close>

definition recibir_buffer ::
    "(nat \<Rightarrow> byte) \<Rightarrow> socket \<Rightarrow> (byte list \<times> int) option \<times> socket" where
  "recibir_buffer junk s =
     (let (ret, bytes, s) = recv s 4 in
      if ret = -1 then (None, s)
      else let sz = unat (of_le32 (overlay bytes (replicate 4 0)));
               (ret, data, s) = recv s sz in
        if ret = -1 then (None, s)
        else (Some (overlay data (map junk [0..<sz]), int sz), s))"

definition servidor_recibir_operacion :: "(nat \<Rightarrow> byte) \<Rightarrow> socket \<Rightarrow> int \<times> socket" where
  "servidor_recibir_operacion junk s = recibir_operacion junk s"

definition servidor_recibir_stream ::
    "(nat \<Rightarrow> byte) \<Rightarrow> socket \<Rightarrow> (byte list \<times> int) option \<times> socket" where
  "servidor_recibir_stream junk s = recibir_buffer junk s"

definition enviar_stream :: "u32 \<Rightarrow> byte list \<Rightarrow> nat \<Rightarrow> socket \<Rightarrow> (int \<times> socket) option" where
  "enviar_stream code str sz s = do {
     package \<leftarrow> new_package_for code sz str;
     stream \<leftarrow> package_serialize package;
     Some (send s stream) }"

definition enviar_str :: "byte list \<Rightarrow> socket \<Rightarrow> (int \<times> socket) option" where
  "enviar_str str s = do {
     package \<leftarrow> package_create (opcode_num MSG) str;
     stream \<leftarrow> package_serialize package;
     Some (send s stream) }"

definition servidor_enviar_stream ::
    "opcode_t \<Rightarrow> socket \<Rightarrow> byte list \<Rightarrow> nat \<Rightarrow> (int \<times> socket) option" where
  "servidor_enviar_stream code s stream sz = enviar_stream (opcode_num code) stream sz s"

definition fd_send_value :: "socket \<Rightarrow> byte list \<Rightarrow> int \<times> socket" where
  "fd_send_value s value = send s value"

record conexion_t =
  sock :: socket
  conectado :: bool

definition conexion_enviar_stream ::
    "conexion_t \<Rightarrow> u32 \<Rightarrow> byte list \<Rightarrow> nat \<Rightarrow> (int \<times> conexion_t) option" where
  "conexion_enviar_stream this code stream sz =
     (if conectado this
      then do { (n, s) \<leftarrow> enviar_stream code stream sz (sock this); Some (n, this\<lparr>sock := s\<rparr>) }
      else Some (-1, this))"

definition conexion_enviar_mensaje :: "conexion_t \<Rightarrow> byte list \<Rightarrow> (int \<times> conexion_t) option" where
  "conexion_enviar_mensaje this msg =
     (if conectado this
      then do { (n, s) \<leftarrow> enviar_str msg (sock this); Some (n, this\<lparr>sock := s\<rparr>) }
      else Some (-1, this))"

definition conexion_recibir_stream ::
    "(nat \<Rightarrow> byte) \<Rightarrow> socket \<Rightarrow> (byte list \<times> int) option \<times> socket" where
  "conexion_recibir_stream junk s =
     (let (ret, code, s) = recv s 4 in
      if ret = -1 then (None, s)
      else let (ret, bytes, s) = recv s 4;
               sz = unat (of_le32 (overlay bytes (replicate 4 0))) in
        if sz = 0 \<or> ret \<le> 0 then (None, s)
        else let (ret, data, s) = recv s sz in
          if ret = -1 then (None, s)
          else (Some (overlay data (map junk [0..<sz]), int sz + 2 * 4), s))"

definition connection_send_value :: "conexion_t \<Rightarrow> byte list \<Rightarrow> int \<times> conexion_t" where
  "connection_send_value self value =
     (if conectado self
      then let (n, s) = fd_send_value (sock self) value in (n, self\<lparr>sock := s\<rparr>)
      else (-1, self))"

definition connection_receive_value ::
    "(nat \<Rightarrow> byte) \<Rightarrow> conexion_t \<Rightarrow> nat \<Rightarrow> byte list option \<times> conexion_t" where
  "connection_receive_value junk self size_of_value =
     (if \<not> conectado self then (None, self)
      else let (ret, data, s) = recv (sock self) size_of_value in
        if ret \<le> 0 then (None, self\<lparr>sock := s\<rparr>)
        else (Some (overlay data (map junk [0..<size_of_value])), self\<lparr>sock := s\<rparr>))"

definition accion_enviar :: "accion_t \<Rightarrow> socket \<Rightarrow> int \<times> socket" where
  "accion_enviar accion s = send s (accion_serializar accion)"

definition accion_recibir :: "(nat \<Rightarrow> byte) \<Rightarrow> socket \<Rightarrow> (accion_t \<times> socket) option" where
  "accion_recibir junk s =
     (let (r, s) = servidor_recibir_stream junk s in
      do { (stream, _) \<leftarrow> r; a \<leftarrow> accion_from_stream stream; Some (a, s) })"

subsection \<open>What is sent is what is received\<close>

lemma operandos_roundtrip: "operandos_from_stream (operandos_to_stream v) = Some v"
  using read_u32_append(1) [of "le32 (op1 v)" "op2 v" "[]"]
  by (simp add: operandos_from_stream_def operandos_to_stream_def read_u32_append)

lemma accion_roundtrip: "accion_from_stream (accion_serializar a) = Some a"
  using read_u32_append(1) [of "le32 (actioncode a)" "param a" "[]"]
  by (simp add: accion_from_stream_def accion_serializar_def accion_create_def read_u32_append)

lemma overlay_full: "length bytes = length old \<Longrightarrow> overlay bytes old = bytes"
  by (simp add: overlay_def)

text \<open>The bytes of one message.\<close>

definition message :: "opcode_t \<Rightarrow> byte list \<Rightarrow> byte list" where
  "message code data = le32 (opcode_num code) @ le32 (word_of_nat (length data)) @ data"

lemma servidor_enviar_stream_message:
  assumes "\<not> send_error s" and "sz = length data"
  shows "servidor_enviar_stream code s data sz =
    Some (int (length data) + 8, s\<lparr>outgoing := outgoing s @ message code data\<rparr>)"
  using assms
  by (simp add: servidor_enviar_stream_def enviar_stream_def new_package_for_def new_buffer_def
      new_package_def package_serialize_def read_bytes_def send_def message_def)

lemma recv_exact:
  "\<not> recv_error s \<Longrightarrow> incoming s = data @ rest \<Longrightarrow> n = length data \<Longrightarrow>
    recv s n = (int n, data, s\<lparr>incoming := rest\<rparr>)"
  by (simp add: recv_def)

lemma opcode_num_small: "0 \<le> sint (opcode_num c) \<and> sint (opcode_num c) = int (unat (opcode_num c))"
  by (cases c) simp_all

lemma recibir_operacion_message:
  assumes "\<not> recv_error s" and "incoming s = message code data @ rest"
  shows "servidor_recibir_operacion junk s =
    (sint (opcode_num code),
     s\<lparr>incoming := le32 (word_of_nat (length data)) @ data @ rest\<rparr>)"
  using assms recv_exact [of s "le32 (opcode_num code)" _ 4]
  by (simp add: servidor_recibir_operacion_def recibir_operacion_def message_def overlay_full)

lemma recibir_buffer_message:
  assumes "\<not> recv_error s" and "incoming s = le32 (word_of_nat (length data)) @ data @ rest"
    and "length data < 2 ^ 32"
  shows "servidor_recibir_stream junk s =
    (Some (data, int (length data)), s\<lparr>incoming := rest\<rparr>)"
proof -
  have "recv s 4 = (4, le32 (word_of_nat (length data)), s\<lparr>incoming := data @ rest\<rparr>)"
    using recv_exact [OF assms(1,2), of 4] by simp
  moreover have "recv (s\<lparr>incoming := data @ rest\<rparr>) (length data) =
      (int (length data), data, s\<lparr>incoming := rest\<rparr>)"
    using recv_exact [of "s\<lparr>incoming := data @ rest\<rparr>" data rest "length data"] assms(1) by simp
  ultimately show ?thesis
    using assms(3)
    by (simp add: servidor_recibir_stream_def recibir_buffer_def overlay_full)
qed

text \<open>A receiver that reads an operation code and then a stream, as every handler does, takes
  the messages apart in the order they were sent.\<close>

fun receive_messages :: "(nat \<Rightarrow> byte) \<Rightarrow> nat \<Rightarrow> socket \<Rightarrow> (int \<times> byte list) list" where
  "receive_messages junk 0 s = []"
| "receive_messages junk (Suc n) s =
     (let (code, s) = servidor_recibir_operacion junk s;
          (r, s) = servidor_recibir_stream junk s in
      case r of None \<Rightarrow> [] | Some (data, _) \<Rightarrow> (code, data) # receive_messages junk n s)"

lemma receive_messages_sent:
  assumes "\<not> recv_error s" and "list_all (\<lambda>(c, data). length data < 2 ^ 32) ms"
    and "incoming s = concat (map (\<lambda>(c, data). message c data) ms) @ rest"
  shows "receive_messages junk (length ms) s = map (\<lambda>(c, data). (sint (opcode_num c), data)) ms"
  using assms
proof (induction ms arbitrary: s)
  case Nil
  then show ?case by simp
next
  case (Cons x ms)
  obtain c data where x: "x = (c, data)" by (cases x)
  let ?rest = "concat (map (\<lambda>(c, data). message c data) ms) @ rest"
  have "servidor_recibir_operacion junk s =
    (sint (opcode_num c), s\<lparr>incoming := le32 (word_of_nat (length data)) @ data @ ?rest\<rparr>)"
    using Cons.prems by (intro recibir_operacion_message) (simp_all add: x)
  moreover have "servidor_recibir_stream junk
      (s\<lparr>incoming := le32 (word_of_nat (length data)) @ data @ ?rest\<rparr>) =
    (Some (data, int (length data)), s\<lparr>incoming := ?rest\<rparr>)"
    using recibir_buffer_message [of "s\<lparr>incoming := le32 (word_of_nat (length data)) @ data @ ?rest\<rparr>"
        data ?rest junk] Cons.prems
    by (simp add: x)
  ultimately show ?case
    using Cons.IH [of "s\<lparr>incoming := ?rest\<rparr>"] Cons.prems by (simp add: x)
qed

end
