(* ===== verification/Pcb.thy ===== *)
theory Pcb
  imports Wire
begin

section \<open>Instructions and process control blocks\<close>

text \<open>
  \<open>lib/src/instruction/instruction.c\<close>, \<open>instruction_lambdas.c\<close> and
  \<open>lib/src/modules/pcb.c\<close>. A C \<open>enum\<close> read from a stream may hold any integer, so the
  fields \<open>icode\<close> and \<open>status\<close> are \<open>uint32_t\<close>; \<open>instcode_t\<close> and \<open>pcb_status_t\<close> name
  the values of the enums. The fields that a constructor leaves as \<open>malloc\<close> returned them
  come from a parameter (\<open>pcb_junk\<close>): \<open>pcb_from_stream\<close> does not set \<open>io\<close> nor \<open>real\<close>,
  and writes only the low half of \<open>size\<close>.
\<close>

subsection \<open>Instructions\<close>

datatype instcode_t = C_REQUEST_EXIT | C_REQUEST_READ | C_REQUEST_WRITE | C_REQUEST_NO_OP
  | C_REQUEST_IO | C_REQUEST_COPY | NO_INSTRUCTION

fun instcode_num :: "instcode_t \<Rightarrow> u32" where
  "instcode_num C_REQUEST_EXIT = 0"
| "instcode_num C_REQUEST_READ = 1"
| "instcode_num C_REQUEST_WRITE = 2"
| "instcode_num C_REQUEST_NO_OP = 3"
| "instcode_num C_REQUEST_IO = 4"
| "instcode_num C_REQUEST_COPY = 5"
| "instcode_num NO_INSTRUCTION = 6"

definition instcode_of :: "u32 \<Rightarrow> instcode_t option" where
  "instcode_of n = find (\<lambda>c. instcode_num c = n)
     [C_REQUEST_EXIT, C_REQUEST_READ, C_REQUEST_WRITE, C_REQUEST_NO_OP, C_REQUEST_IO,
      C_REQUEST_COPY, NO_INSTRUCTION]"

lemma instcode_of_num [simp]: "instcode_of (instcode_num c) = Some c"
  by (cases c) (simp_all add: instcode_of_def)

record instruction_t =
  icode :: u32
  param0 :: u32
  param1 :: u32

definition instruction_create :: "u32 \<Rightarrow> u32 \<Rightarrow> u32 \<Rightarrow> instruction_t" where
  "instruction_create code p0 p1 = \<lparr>icode = code, param0 = p0, param1 = p1\<rparr>"

definition instruction_to_stream :: "instruction_t \<Rightarrow> byte list" where
  "instruction_to_stream i = le32 (icode i) @ le32 (param0 i) @ le32 (param1 i)"

definition instruction_from_stream :: "byte list \<Rightarrow> instruction_t option" where
  "instruction_from_stream stream = do {
     code \<leftarrow> read_u32 stream 0;
     p0 \<leftarrow> read_u32 stream 4;
     p1 \<leftarrow> read_u32 stream 8;
     Some (instruction_create code p0 p1) }"

fun read_instructions :: "byte list \<Rightarrow> nat \<Rightarrow> nat \<Rightarrow> instruction_t list option" where
  "read_instructions stream offset 0 = Some []"
| "read_instructions stream offset (Suc n) = do {
     i \<leftarrow> instruction_from_stream (drop offset stream);
     is \<leftarrow> read_instructions stream (offset + 12) n;
     Some (i # is) }"

definition instruction_list_from :: "byte list \<Rightarrow> instruction_t list option" where
  "instruction_list_from stream = do {
     n \<leftarrow> read_u32 stream 0;
     read_instructions stream 4 (unat n) }"

definition instructions_fold :: "instruction_t list \<Rightarrow> byte list" where
  "instructions_fold l =
     fold (\<lambda>i stream. stream @ instruction_to_stream i) l (le32 (word_of_nat (length l)))"

subsection \<open>Process control blocks\<close>

datatype pcb_status_t = NONE | PCB_NEW | PCB_READY | PCB_EXECUTING | PCB_SUSPENDED_READY
  | PCB_BLOCKED | PCB_SUSPENDED_BLOCKED | PCB_TERMINATED

fun status_num :: "pcb_status_t \<Rightarrow> u32" where
  "status_num NONE = - 1"
| "status_num PCB_NEW = 0"
| "status_num PCB_READY = 1"
| "status_num PCB_EXECUTING = 2"
| "status_num PCB_SUSPENDED_READY = 3"
| "status_num PCB_BLOCKED = 4"
| "status_num PCB_SUSPENDED_BLOCKED = 5"
| "status_num PCB_TERMINATED = 6"

type_synonym size_t = "64 word"

record pcb_t =
  pcb_id :: u32
  status :: u32
  pcb_size :: size_t
  instructions :: "instruction_t list"
  page_table :: u32
  estimation :: u32
  pc :: u32
  io :: u32
  real_time :: u32

record pcb_junk =
  size_hi :: u32
  junk_io :: u32
  junk_real :: u32

definition new_pcb :: "u32 \<Rightarrow> size_t \<Rightarrow> u32 \<Rightarrow> pcb_t" where
  "new_pcb pid sz est =
     \<lparr>pcb_id = pid, status = status_num NONE, pcb_size = sz, instructions = [],
      page_table = UINT32_MAX, estimation = est, pc = 0, io = 0, real_time = 0\<rparr>"

definition pcb_sort_by_estimation :: "pcb_t \<Rightarrow> pcb_t \<Rightarrow> bool" where
  "pcb_sort_by_estimation e1 e2 = (estimation e1 \<le> estimation e2)"

definition pcb_get_param_for :: "pcb_t \<Rightarrow> int \<Rightarrow> int \<Rightarrow> u32 option" where
  "pcb_get_param_for pcb instruction p = do {
     i \<leftarrow> (if 0 \<le> instruction then arr_get (instructions pcb) (nat instruction) else None);
     Some (if p = 0 then param0 i else param1 i) }"

definition pcb_bytes_size :: "pcb_t \<Rightarrow> nat" where
  "pcb_bytes_size pcb = 4 * 5 + 4 + 4 + 12 * length (instructions pcb)"

definition pcb_to_stream :: "pcb_t \<Rightarrow> byte list" where
  "pcb_to_stream pcb =
     le32 (pcb_id pcb) @ le32 (status pcb) @ le32 (ucast (pcb_size pcb)) @
     le32 (estimation pcb) @ le32 (pc pcb) @ le32 (page_table pcb) @
     le32 (word_of_nat (length (instructions pcb))) @
     concat (map instruction_to_stream (instructions pcb))"

definition pcb_from_stream :: "pcb_junk \<Rightarrow> byte list \<Rightarrow> pcb_t option" where
  "pcb_from_stream junk stream = do {
     pid \<leftarrow> read_u32 stream 0;
     st \<leftarrow> read_u32 stream 4;
     sz \<leftarrow> read_u32 stream 8;
     est \<leftarrow> read_u32 stream 12;
     counter \<leftarrow> read_u32 stream 16;
     table \<leftarrow> read_u32 stream 20;
     is \<leftarrow> instruction_list_from (drop 24 stream);
     Some \<lparr>pcb_id = pid, status = st,
           pcb_size = ucast sz OR push_bit 32 (ucast (size_hi junk)),
           instructions = is, page_table = table, estimation = est, pc = counter,
           io = junk_io junk, real_time = junk_real junk\<rparr> }"

subsection \<open>Queues of PCBs\<close>

text \<open>\<open>get_pcb_by_pid\<close> takes the PCB out of the list it finds it in.\<close>

definition get_pcb_by_pid :: "pcb_t list \<Rightarrow> u32 \<Rightarrow> pcb_t option \<times> pcb_t list" where
  "get_pcb_by_pid pcbs pid =
     (find (\<lambda>p. pcb_id p = pid) pcbs,
      takeWhile (\<lambda>p. pcb_id p \<noteq> pid) pcbs @ tl (dropWhile (\<lambda>p. pcb_id p \<noteq> pid) pcbs))"

definition pcb_by_id :: "pcb_t list \<Rightarrow> u32 \<Rightarrow> pcb_t option" where
  "pcb_by_id queue pid = find (\<lambda>p. pcb_id p = pid) queue"

definition pcb_exists :: "pcb_t list \<Rightarrow> u32 \<Rightarrow> bool" where
  "pcb_exists queue pid = list_ex (\<lambda>p. pcb_id p = pid) queue"

definition pcb_remove_by_id :: "pcb_t list \<Rightarrow> u32 \<Rightarrow> pcb_t option \<times> pcb_t list" where
  "pcb_remove_by_id queue pid =
     (find (\<lambda>p. pcb_id p = pid) queue,
      takeWhile (\<lambda>p. pcb_id p \<noteq> pid) queue @ tl (dropWhile (\<lambda>p. pcb_id p \<noteq> pid) queue))"

subsection \<open>Serialization round trips\<close>

lemma length_instruction_to_stream [simp]: "length (instruction_to_stream i) = 12"
  by (simp add: instruction_to_stream_def)

lemma read_u32_drop: "read_u32 (drop n s) k = (if n \<le> length s then read_u32 s (n + k) else read_u32 [] k)"
  by (auto simp: read_u32_def read_bytes_def add.commute)

lemma read_u32_skip [simp]: "length pre \<le> k \<Longrightarrow> read_u32 (pre @ s) k = read_u32 s (k - length pre)"
  by (auto simp: read_u32_def read_bytes_def)

lemma read_u32_head [simp]: "read_u32 (le32 w @ s) 0 = Some w"
  by (rule read_u32_append(2))

lemma instruction_roundtrip [simp]:
  "instruction_from_stream (instruction_to_stream i @ rest) = Some i"
  by (simp add: instruction_from_stream_def instruction_to_stream_def instruction_create_def)

lemma read_instructions_stream:
  "drop offset stream = concat (map instruction_to_stream is) @ rest \<Longrightarrow>
    read_instructions stream offset (length is) = Some is"
proof (induction "is" arbitrary: offset)
  case Nil
  then show ?case by simp
next
  case (Cons i "is")
  have "drop (offset + 12) stream = drop 12 (drop offset stream)"
    by (simp add: add.commute)
  also have "\<dots> = concat (map instruction_to_stream is) @ rest"
    using Cons.prems by simp
  finally show ?case
    using Cons by simp
qed

lemma instruction_list_roundtrip:
  assumes "length is < 2 ^ 32"
  shows "instruction_list_from
    (le32 (word_of_nat (length is)) @ concat (map instruction_to_stream is) @ rest) = Some is"
  using assms read_instructions_stream [of 4 _ "is" rest]
  by (simp add: instruction_list_from_def)

lemma instructions_fold_eq:
  "instructions_fold l = le32 (word_of_nat (length l)) @ concat (map instruction_to_stream l)"
proof -
  have "fold (\<lambda>i stream. stream @ instruction_to_stream i) l acc =
      acc @ concat (map instruction_to_stream l)" for acc
    by (induction l arbitrary: acc) simp_all
  then show ?thesis by (simp add: instructions_fold_def)
qed

lemma length_concat_instructions [simp]:
  "length (concat (map instruction_to_stream l)) = 12 * length l"
  by (induction l) simp_all

lemma length_pcb_to_stream: "length (pcb_to_stream pcb) = pcb_bytes_size pcb"
  by (simp add: pcb_to_stream_def pcb_bytes_size_def)

text \<open>What survives the trip: everything but the I/O and CPU times, and the upper half of the
  size, which are whatever the new block of memory held.\<close>

lemma pcb_roundtrip_fields:
  assumes "length (instructions pcb) < 2 ^ 32"
  shows "pcb_from_stream junk (pcb_to_stream pcb @ rest) =
    Some (pcb\<lparr>pcb_size := ucast (ucast (pcb_size pcb) :: u32) OR push_bit 32 (ucast (size_hi junk)),
              io := junk_io junk, real_time := junk_real junk\<rparr>)"
proof -
  have "instruction_list_from (drop 24 (pcb_to_stream pcb @ rest)) = Some (instructions pcb)"
    using instruction_list_roundtrip [OF assms, of rest] by (simp add: pcb_to_stream_def)
  then show ?thesis
    by (simp add: pcb_from_stream_def) (simp add: pcb_to_stream_def)
qed

text \<open>The size is put together from the four bytes sent and the four of the block.\<close>

lemma size_halves:
  fixes lo hi :: u32
  shows "ucast ((ucast lo :: size_t) OR push_bit 32 (ucast hi)) = lo"
    and "ucast (drop_bit 32 ((ucast lo :: size_t) OR push_bit 32 (ucast hi))) = hi"
  by (rule bit_word_eqI, simp add: bit_simps, auto dest: bit_imp_le_length)+

lemma size_eqI:
  fixes v w :: size_t
  assumes "(ucast v :: u32) = ucast w" and "(ucast (drop_bit 32 v) :: u32) = ucast (drop_bit 32 w)"
  shows "v = w"
proof (rule bit_word_eqI)
  fix n assume n: "n < LENGTH(64)"
  show "bit v n = bit w n"
  proof (cases "n < 32")
    case True
    moreover have "bit (ucast v :: u32) n = bit (ucast w :: u32) n" using assms(1) by simp
    ultimately show ?thesis by (simp add: bit_simps)
  next
    case False
    moreover have "bit (ucast (drop_bit 32 v) :: u32) (n - 32) = bit (ucast (drop_bit 32 w) :: u32) (n - 32)"
      using assms(2) by simp
    moreover have "n - 32 < 32" using n by simp
    ultimately show ?thesis using n by (simp add: bit_simps)
  qed
qed

lemma pcb_roundtrip:
  assumes "length (instructions pcb) < 2 ^ 32"
  shows "\<exists>sz. pcb_from_stream junk (pcb_to_stream pcb @ rest) =
      Some (pcb\<lparr>pcb_size := sz, io := junk_io junk, real_time := junk_real junk\<rparr>) \<and>
    (ucast sz :: u32) = ucast (pcb_size pcb) \<and> ucast (drop_bit 32 sz) = size_hi junk \<and>
    (sz = pcb_size pcb \<longleftrightarrow> ucast (drop_bit 32 (pcb_size pcb)) = size_hi junk)"
proof -
  let ?sz = "(ucast (ucast (pcb_size pcb) :: u32) :: size_t) OR push_bit 32 (ucast (size_hi junk))"
  have "?sz = pcb_size pcb \<longleftrightarrow> ucast (drop_bit 32 (pcb_size pcb)) = size_hi junk"
    using size_halves [of "ucast (pcb_size pcb)" "size_hi junk"] size_eqI [of ?sz "pcb_size pcb"] by metis
  then show ?thesis
    using pcb_roundtrip_fields [OF assms, of junk rest] size_halves [of "ucast (pcb_size pcb)" "size_hi junk"]
    by blast
qed

end
