(* ===== verification/Memory_Cpu.thy ===== *)
theory Memory_Cpu
  imports Swap Wire
begin

section \<open>Requests of the CPU: \<open>cpu_controller.c\<close> of the memory module\<close>

text \<open>
  \<open>memory/src/server/cpu_controller.c\<close>: the page walk (\<open>obtain_second_page\<close>,
  \<open>obtain_frame\<close> with its page fault path), reads and writes of a physical address, and the
  two configuration queries. Each handler reads its request from the client's socket and
  answers on it; it runs on the state of the module and that socket.
\<close>

subsection \<open>Page walk\<close>

definition get_frame :: "memory \<Rightarrow> u32 \<Rightarrow> u32 option" where
  "get_frame m physical_address =
     (if tam_pagina (cfg m) = 0 then None else Some (physical_address div tam_pagina (cfg m)))"

definition obtain_second_page :: "memory \<Rightarrow> u32 \<Rightarrow> u32 \<Rightarrow> u32 option" where
  "obtain_second_page m id_table_1 index =
     (let table_lvl1 = safe_list_get (tables_lvl_1 m) (sint id_table_1) in
      if index > max_rows m then Some UINT32_MAX
      else do {
        t \<leftarrow> table_lvl1;
        e \<leftarrow> arr_get t (unat index);
        Some (second_page e) })"

definition get_table_lvl1_number :: "memory \<Rightarrow> u32 \<Rightarrow> u32 option" where
  "get_table_lvl1_number m table_number_2 = do {
     r \<leftarrow> findM (\<lambda>i.
         case safe_list_get (tables_lvl_1 m) (int i) of
           None \<Rightarrow> Some False
         | Some table \<Rightarrow> do {
             j \<leftarrow> findM (\<lambda>j. do {
                 e \<leftarrow> arr_get table j;
                 Some (second_page e = table_number_2) }) [0..<rows_of m];
             Some (j \<noteq> None) })
       [0..<length (tables_lvl_1 m)];
     Some (case r of Some i \<Rightarrow> word_of_nat i | None \<Rightarrow> UINT32_MAX) }"

definition count_present :: "memory \<Rightarrow> u32 \<Rightarrow> u32 option" where
  "count_present m table_number = do {
     let table = safe_list_get (tables_lvl_1 m) (sint table_number);
     foldM (\<lambda>i count. do {
        t \<leftarrow> table;
        e \<leftarrow> arr_get t i;
        (case safe_list_get (tables_lvl_2 m) (sint (second_page e)) of
           None \<Rightarrow> Some count
         | Some table_2 \<Rightarrow>
             foldM (\<lambda>j count. do {
                row \<leftarrow> arr_get table_2 j;
                Some (if present row then count + 1 else count) }) [0..<rows_of m] count) })
      [0..<rows_of m] 0 }"

definition should_replace_frame :: "memory \<Rightarrow> u32 \<Rightarrow> bool option" where
  "should_replace_frame m table_number_2 = do {
     table_number \<leftarrow> get_table_lvl1_number m table_number_2;
     print_table m table_number;
     count \<leftarrow> count_present m table_number;
     Some (count \<ge> marcos_por_proceso (cfg m)) }"

definition replace_frame :: "memory \<Rightarrow> u32 \<Rightarrow> u32 \<Rightarrow> memory option" where
  "replace_frame m pid frame_to_replace = do {
     table_number_2 \<leftarrow> get_table_lvl2_number m frame_to_replace;
     m \<leftarrow> foldM (\<lambda>i m. do {
         row \<leftarrow> deref_row m (sint table_number_2, i);
         if frame row = frame_to_replace
         then update_row m (sint table_number_2, i) (\<lambda>r. r\<lparr>present := False, use := False\<rparr>)
         else Some m }) [0..<rows_of m] m;
     swap_frame_for_pcb m pid frame_to_replace }"

definition select_frame :: "memory \<Rightarrow> u32 \<Rightarrow> (memory \<times> u32) option" where
  "select_frame m table_index =
     (case frame_selector m of
        Clock_selector \<Rightarrow> clock_selector m table_index
      | Improved_clock_selector \<Rightarrow> improved_clock_selector m table_index)"

definition obtain_frame :: "memory \<Rightarrow> u32 \<Rightarrow> u32 \<Rightarrow> u32 \<Rightarrow> (memory \<times> u32) option" where
  "obtain_frame m id_table_2 index pid =
     (if index > max_rows m then Some (m, UINT32_MAX)
      else do {
        let ref = (sint id_table_2, unat index);
        row \<leftarrow> deref_row m ref;
        if present row then Some (m, frame row)
        else do {
          (m, new_frame) \<leftarrow> find_free_frame m;
          replace \<leftarrow> should_replace_frame m id_table_2;
          m \<leftarrow> (if replace
               then do {
                 id_table_1 \<leftarrow> get_table_lvl1_number m id_table_2;
                 (m, frame_to_replace) \<leftarrow> select_frame m id_table_1;
                 replace_frame m pid frame_to_replace }
               else Some m);
          row \<leftarrow> deref_row m ref;
          if frame row = INVALID_FRAME
          then do {
            (m, created_at) \<leftarrow> create_frame_for_table m id_table_2 new_frame;
            Some (m, new_frame) }
          else do {
            m \<leftarrow> delete_frame m new_frame;
            m \<leftarrow> unswap_frame_for_pcb m pid (frame row);
            m \<leftarrow> update_row m ref (\<lambda>r. r\<lparr>use := True\<rparr>);
            Some (m, new_frame) } } })"

subsection \<open>Handlers\<close>

definition receive_operands ::
    "(nat \<Rightarrow> byte) \<Rightarrow> socket \<Rightarrow> (u32 \<times> operands_t \<times> socket) option" where
  "receive_operands junk s =
     (let (r, s) = servidor_recibir_stream junk s in
      do {
        (stream, _) \<leftarrow> r;
        pid \<leftarrow> read_u32 stream 0;
        operands \<leftarrow> operandos_from_stream (drop 4 stream);
        Some (pid, operands, s) })"

definition set_modified :: "memory \<Rightarrow> u32 \<Rightarrow> bool \<Rightarrow> memory option" where
  "set_modified m f b = do {
     r \<leftarrow> get_frame_ref m f;
     (case r of
        None \<Rightarrow> Some m
      | Some ref \<Rightarrow> update_row m ref (\<lambda>row. row\<lparr>modified := b\<rparr>)) }"

definition cpu_controller_read ::
    "(nat \<Rightarrow> byte) \<Rightarrow> memory \<Rightarrow> socket \<Rightarrow> (memory \<times> socket) option" where
  "cpu_controller_read junk m s = do {
     (pid, operands, s) \<leftarrow> receive_operands junk s;
     f \<leftarrow> get_frame m (op1 operands);
     table_number_2 \<leftarrow> get_table_lvl2_number m f;
     (m, value) \<leftarrow>
       (if table_number_2 = UINT32_MAX then Some (m, UINT32_MAX)
        else do {
          m \<leftarrow> set_modified m f False;
          value \<leftarrow> read_from_memory m (op1 operands);
          Some (m, value) });
     (_, s) \<leftarrow> servidor_enviar_stream RD s (le32 value) 4;
     Some (m, s) }"

definition cpu_controller_write ::
    "(nat \<Rightarrow> byte) \<Rightarrow> memory \<Rightarrow> socket \<Rightarrow> (memory \<times> socket) option" where
  "cpu_controller_write junk m s = do {
     (pid, operands, s) \<leftarrow> receive_operands junk s;
     f \<leftarrow> get_frame m (op1 operands);
     table_number_2 \<leftarrow> get_table_lvl2_number m f;
     if table_number_2 = UINT32_MAX then Some (m, s)
     else do {
       m \<leftarrow> set_modified m f True;
       m \<leftarrow> write_in_memory m (op1 operands) (op2 operands);
       Some (m, s) } }"

definition cpu_controller_send_entries :: "memory \<Rightarrow> socket \<Rightarrow> memory \<times> socket" where
  "cpu_controller_send_entries m s =
     (let (_, s) = fd_send_value s (le32 (entradas_por_tabla (cfg m))) in (m, s))"

definition cpu_controller_send_size :: "memory \<Rightarrow> socket \<Rightarrow> memory \<times> socket" where
  "cpu_controller_send_size m s =
     (let (_, s) = fd_send_value s (le32 (tam_pagina (cfg m))) in (m, s))"

definition cpu_controller_send_frame ::
    "(nat \<Rightarrow> byte) \<Rightarrow> memory \<Rightarrow> socket \<Rightarrow> (memory \<times> socket) option" where
  "cpu_controller_send_frame junk m s =
     (let (r, s) = servidor_recibir_stream junk s in
      do {
        (m, f) \<leftarrow>
          (case r of
             None \<Rightarrow> Some (m, UINT32_MAX)
           | Some (stream, bytes_read) \<Rightarrow>
               if bytes_read \<le> 0 then Some (m, UINT32_MAX)
               else do {
                 pid \<leftarrow> read_u32 stream 0;
                 values \<leftarrow> operandos_from_stream (drop 4 stream);
                 obtain_frame m (op1 values) (op2 values) pid });
        let (_, s) = fd_send_value s (le32 f);
        Some (m, s) })"

definition cpu_controller_send_page_second_level ::
    "(nat \<Rightarrow> byte) \<Rightarrow> memory \<Rightarrow> socket \<Rightarrow> (memory \<times> socket) option" where
  "cpu_controller_send_page_second_level junk m s =
     (let (r, s) = servidor_recibir_stream junk s in
      do {
        entry \<leftarrow>
          (case r of
             None \<Rightarrow> Some UINT32_MAX
           | Some (stream, bytes_read) \<Rightarrow>
               if bytes_read \<le> 0 then Some UINT32_MAX
               else do {
                 values \<leftarrow> operandos_from_stream stream;
                 print_table m (op1 values);
                 let t1_sub = (if op2 values \<ge> max_rows m then max_rows m - 1 else op2 values);
                 obtain_second_page m (op1 values) t1_sub });
        let (_, s) = fd_send_value s (le32 entry);
        Some (m, s) })"

end
