(* ===== verification/Memory_Kernel.thy ===== *)
theory Memory_Kernel
  imports Memory_Cpu Pcb
begin

section \<open>Requests of the kernel and the server loop of the memory module\<close>

text \<open>
  \<open>memory/src/server/kernel_controller.c\<close>, \<open>request_handler.c\<close> and the initialization of
  \<open>memory/src/module/app.c\<close>. \<open>routine\<close> is the loop of one client's thread: its fuel bounds
  the number of requests, and more fuel than there are bytes to receive is always enough.
\<close>

subsection \<open>Handlers\<close>

definition print_tables :: "memory \<Rightarrow> unit option" where
  "print_tables m = foldM (\<lambda>i _.
     case safe_list_get (tables_lvl_1 m) (int i) of
       None \<Rightarrow> Some ()
     | Some _ \<Rightarrow> print_table m (word_of_nat i)) [0..<safe_list_size (tables_lvl_1 m)] ()"

definition swap_pcb_stream :: "pcb_junk \<Rightarrow> memory \<Rightarrow> byte list \<Rightarrow> (memory \<times> bool) option" where
  "swap_pcb_stream junk m pcb_stream = do {
     pcb \<leftarrow> pcb_from_stream junk pcb_stream;
     (case open_file m (pcb_id pcb) of
        None \<Rightarrow> Some (m, False)
      | Some (m, file) \<Rightarrow>
          let sz = pcb_bytes_size pcb;
              file = truncate_file sz file;
              m = set_file m (pcb_id pcb) file in
          if \<not> can_map m (pcb_id pcb) sz then Some (m, False)
          else do {
            bytes \<leftarrow> read_bytes pcb_stream 0 sz;
            mapping \<leftarrow> write_bytes (map_file m sz file) 0 bytes;
            Some (set_file m (pcb_id pcb) (unmap_file mapping file), True) }) }"

definition kernel_controller_swap ::
    "(nat \<Rightarrow> byte) \<Rightarrow> pcb_junk \<Rightarrow> memory \<Rightarrow> socket \<Rightarrow> (memory \<times> socket) option" where
  "kernel_controller_swap junk pj m s =
     (let (r, s) = servidor_recibir_stream junk s in
      do {
        (pcb_stream, _) \<leftarrow> r;
        (m, _) \<leftarrow> swap_pcb_stream pj m pcb_stream;
        Some (m, s) })"

definition kernel_controller_read_swap ::
    "(nat \<Rightarrow> byte) \<Rightarrow> memory \<Rightarrow> socket \<Rightarrow> (memory \<times> socket) option" where
  "kernel_controller_read_swap junk m s =
     (let (r, s) = servidor_recibir_stream junk s in
      do {
        (stream, _) \<leftarrow> r;
        pid \<leftarrow> read_u32 stream 0;
        m \<leftarrow> unswap_pcb m pid;
        Some (m, s) })"

definition delete_swapped_pcb :: "memory \<Rightarrow> u32 \<Rightarrow> memory option" where
  "delete_swapped_pcb m pid = delete_swap_data (delete_swap_file m pid) pid"

definition kernel_controller_destroy_process_file ::
    "(nat \<Rightarrow> byte) \<Rightarrow> memory \<Rightarrow> socket \<Rightarrow> (memory \<times> socket) option" where
  "kernel_controller_destroy_process_file junk m s =
     (let (r, s) = servidor_recibir_stream junk s in
      do {
        (stream, _) \<leftarrow> r;
        pid \<leftarrow> read_u32 stream 0;
        table_id \<leftarrow> read_u32 stream 4;
        m \<leftarrow> delete_process m table_id;
        m \<leftarrow> delete_swapped_pcb m pid;
        print_tables m;
        Some (m, s) })"

definition kernel_controller_memory_init ::
    "(nat \<Rightarrow> byte) \<Rightarrow> memory \<Rightarrow> socket \<Rightarrow> (memory \<times> socket) option" where
  "kernel_controller_memory_init junk m s =
     (let (r, s) = servidor_recibir_stream junk s in
      case r of
        None \<Rightarrow> Some (m, s)
      | Some (stream, bytes_received) \<Rightarrow>
          if bytes_received \<le> 0 then Some (m, s)
          else do {
            operands \<leftarrow> operandos_from_stream stream;
            let pid = op1 operands;
            let m = m\<lparr>swap_data :=
                       safe_list_add (swap_data m) (Some (new_swap_data pid (op2 operands)))\<rparr>;
            m \<leftarrow> create_file m pid (op2 operands);
            (m, new_table) \<leftarrow> create_new_process m;
            (bytes_sent, s) \<leftarrow> servidor_enviar_stream MEMORY_INIT s (le32 new_table) 4;
            (if bytes_sent \<le> 0 then Some () else print_tables m);
            Some (m, s) })"

subsection \<open>The server\<close>

text \<open>One round of the loop: \<open>None\<close> in the last component when the client is gone.\<close>

definition routine_step ::
    "(nat \<Rightarrow> byte) \<Rightarrow> pcb_junk \<Rightarrow> memory \<Rightarrow> socket \<Rightarrow> (memory \<times> socket \<times> bool) option" where
  "routine_step junk pj m s =
     (let (code, s) = servidor_recibir_operacion junk s in
      if code \<le> 0 then Some (m, s, False)
      else do {
        (m, s) \<leftarrow>
          (case opcode_of (word_of_int code) of
             Some MEMORY_INIT \<Rightarrow> kernel_controller_memory_init junk m s
           | Some MSG \<Rightarrow> Some (m, snd (servidor_recibir_stream junk s))
           | Some RD \<Rightarrow> cpu_controller_read junk m s
           | Some WT \<Rightarrow> cpu_controller_write junk m s
           | Some PROCESS_TERMINATED \<Rightarrow> kernel_controller_destroy_process_file junk m s
           | Some SWAP_PCB \<Rightarrow> kernel_controller_swap junk pj m s
           | Some RETRIEVE_SWAPPED_PCB \<Rightarrow> kernel_controller_read_swap junk m s
           | Some SZ \<Rightarrow> Some (cpu_controller_send_size m s)
           | Some ENTRIES \<Rightarrow> Some (cpu_controller_send_entries m s)
           | Some FRAME \<Rightarrow> cpu_controller_send_frame junk m s
           | Some SND_PAGE \<Rightarrow> cpu_controller_send_page_second_level junk m s
           | _ \<Rightarrow> Some (m, s));
        Some (m, s, True) })"

fun routine ::
    "nat \<Rightarrow> (nat \<Rightarrow> byte) \<Rightarrow> pcb_junk \<Rightarrow> memory \<Rightarrow> socket \<Rightarrow> (memory \<times> socket \<times> bool) option" where
  "routine 0 junk pj m s = Some (m, s, True)"
| "routine (Suc fuel) junk pj m s = do {
     (m, s, more) \<leftarrow> routine_step junk pj m s;
     if more then routine fuel junk pj m s else Some (m, s, False) }"

definition on_init_memory :: "mem_cfg \<Rightarrow> os_env \<Rightarrow> memory option" where
  "on_init_memory config env =
     (if tam_pagina config = 0 then None
      else let n = tam_memoria config div tam_pagina config in
        Some \<lparr>main_memory = map (garbage env) [0..<unat (tam_memoria config)],
              max_frames = marcos_por_proceso config,
              max_rows = entradas_por_tabla config,
              frames = replicate (unat n) False,
              no_of_frames = n,
              tables_lvl_1 = new_safe_list,
              tables_lvl_2 = new_safe_list,
              swap_data = new_safe_list,
              frame_selector = (if algoritmo_reemplazo config = ''CLOCK''
                                then Clock_selector else Improved_clock_selector),
              clock = 0, clock_improved = 0,
              cfg = config, swap_files = (\<lambda>_. None), os = env\<rparr>)"

subsection \<open>A PCB that is swapped\<close>

lemma pcb_to_stream_not_empty: "pcb_to_stream pcb \<noteq> []"
  by (simp add: pcb_to_stream_def le32_def)

text \<open>\<open>swap_pcb_\<close> makes the file exactly the bytes of the PCB: whatever pages the process had in its
  file are cut off or written over.\<close>

lemma swap_pcb_stream_eq:
  assumes "length (instructions pcb) < 2 ^ 32" and os: "os_page (os m) \<noteq> 0"
  shows "swap_pcb_stream junk m (pcb_to_stream pcb) = Some
    (if \<not> open_ok (os m) (pcb_id pcb) then (m, False)
     else if \<not> mmap_ok (os m) (pcb_id pcb)
     then (set_file m (pcb_id pcb) (truncate_file (length (pcb_to_stream pcb))
       (case swap_files m (pcb_id pcb) of None \<Rightarrow> [] | Some f \<Rightarrow> f)), False)
     else (set_file m (pcb_id pcb) (pcb_to_stream pcb), True))"
proof -
  let ?stream = "pcb_to_stream pcb" and ?pid = "pcb_id pcb"
  let ?old = "case swap_files m ?pid of None \<Rightarrow> [] | Some f \<Rightarrow> f"
  let ?file = "truncate_file (length ?stream) ?old"
  let ?m = "set_file m ?pid ?file"
  let ?map = "map_file ?m (length ?stream) ?file"
  obtain s where parse: "pcb_from_stream junk ?stream =
      Some (pcb\<lparr>pcb_size := s, io := junk_io junk, real_time := junk_real junk\<rparr>)"
    using pcb_roundtrip [OF assms(1), of junk "[]"] by auto
  have sz: "pcb_bytes_size (pcb\<lparr>pcb_size := s, io := junk_io junk, real_time := junk_real junk\<rparr>) = length ?stream"
    by (simp add: length_pcb_to_stream pcb_bytes_size_def)
  have fold: "set_file (set_file m ?pid f) ?pid g = set_file m ?pid g" for f g
    by (simp add: set_file_def)
  have "os ?m = os m" by (simp add: set_file_def)
  then have map: "length ?stream \<le> length ?map"
    using map_file_take(2) [of ?m ?file "length ?stream"] os truncate_file_length by metis
  then have w: "write_bytes ?map 0 ?stream = Some (?stream @ drop (length ?stream) ?map)"
    by (simp add: write_bytes_def)
  have unmap: "unmap_file (?stream @ drop (length ?stream) ?map) ?file = ?stream"
    using map by (simp add: unmap_file_def truncate_file_length)
  have "read_bytes ?stream 0 (length ?stream) = Some ?stream" by (simp add: read_bytes_def)
  then show ?thesis
    using parse sz w unmap pcb_to_stream_not_empty [of pcb] \<open>os ?m = os m\<close>
    by (simp add: swap_pcb_stream_def open_file_def can_map_def Let_def fold)
qed

end
