(* ===== verification/Memory_Invariant.thy ===== *)
theory Memory_Invariant
  imports Memory_Kernel
begin

section \<open>The invariant of the memory module\<close>

text \<open>
  \<open>mem_wf\<close>: the directories are well-formed (\<open>tables_wf\<close>) and no frame has two owners
  (\<open>frames_wf\<close>). \<open>keeps\<close> relates two states with the same tables and the same owner of
  every frame; swapping, the page replacement algorithms and the accesses to memory stay in
  it. Every request of the server preserves the invariant.
\<close>

definition mem_wf :: "memory \<Rightarrow> bool" where
  "mem_wf m \<longleftrightarrow> tables_wf m \<and> frames_wf m"

definition keeps :: "memory \<Rightarrow> memory \<Rightarrow> bool" where
  "keeps m m' \<longleftrightarrow> (\<forall>q. frame_at m' q = frame_at m q) \<and> shape m' = shape m \<and>
     tables_lvl_1 m' = tables_lvl_1 m \<and> max_rows m' = max_rows m \<and> frames m' = frames m \<and>
     no_of_frames m' = no_of_frames m \<and> max_frames m' = max_frames m \<and> cfg m' = cfg m \<and>
     frame_selector m' = frame_selector m \<and> os m' = os m"

declare split_paired_All [simp del]

named_theorems keeps_steps \<open>operations that keep the tables and the owners\<close>

lemma keeps_refl [simp]: "keeps m m"
  by (simp add: keeps_def)

lemma keeps_trans: "keeps a b \<Longrightarrow> keeps b c \<Longrightarrow> keeps a c"
  by (simp add: keeps_def)

lemma keeps_wf:
  assumes "keeps m m'" and "mem_wf m"
  shows "mem_wf m'"
proof -
  have "frame_at m' q = frame_at m q" for q
    using assms(1) by (cases q) (simp add: keeps_def)
  then have "frames_wf m'"
    using assms by (intro frames_wf_cong [of m m']) (simp_all only: keeps_def mem_wf_def)
  moreover have "tables_wf m'"
    using assms by (intro tables_wf_shape [of m m']) (simp_all add: keeps_def mem_wf_def)
  ultimately show ?thesis by (simp add: mem_wf_def)
qed

lemma frame_at_updates [simp]:
  "frame_at (m\<lparr>main_memory := x\<rparr>) q = frame_at m q"
  "frame_at (m\<lparr>swap_data := y\<rparr>) q = frame_at m q"
  "frame_at (m\<lparr>swap_files := z\<rparr>) q = frame_at m q"
  "frame_at (m\<lparr>clock := c\<rparr>) q = frame_at m q"
  "frame_at (m\<lparr>clock_improved := c\<rparr>) q = frame_at m q"
  "frame_at (m\<lparr>frames := b\<rparr>) q = frame_at m q"
  by (simp_all add: frame_at_def deref_row_def)

lemma keeps_fields [intro!]:
  assumes "keeps a m"
  shows "keeps a (m\<lparr>main_memory := x\<rparr>)" "keeps a (m\<lparr>swap_data := y\<rparr>)"
    "keeps a (m\<lparr>swap_files := z\<rparr>)" "keeps a (m\<lparr>clock := c\<rparr>)"
    "keeps a (m\<lparr>clock_improved := c\<rparr>)" "keeps a (set_file m pid file')"
  using assms by (simp_all add: keeps_def shape_def set_file_def)

lemma update_row_keeps:
  assumes "update_row m r f = Some m'" and "keeps a m" and "\<And>row. frame (f row) = frame row"
  shows "keeps a m'"
proof (rule keeps_trans [OF assms(2)])
  have "frame_at m' q = frame_at m q" for q
  proof -
    have "deref_row m r \<noteq> None"
      using assms(1) by (auto simp: update_row_def deref_row_def bind_eq_Some_conv)
    then have "frame (f (the (deref_row m r))) = frame_at m r"
      using assms(3) by (auto simp: frame_at_def)
    then show ?thesis
      using frame_at_update_row [OF assms(1), of q] by simp
  qed
  moreover have "tables_lvl_1 m' = tables_lvl_1 m" "max_rows m' = max_rows m"
    "frames m' = frames m" "no_of_frames m' = no_of_frames m" "max_frames m' = max_frames m"
    "cfg m' = cfg m" "frame_selector m' = frame_selector m" "os m' = os m"
    using assms(1) by (auto simp: update_row_def bind_eq_Some_conv)
  ultimately show "keeps m m'"
    using update_row_shape [OF assms(1)] by (simp add: keeps_def)
qed

lemma update_row_keeps_bits [keeps_steps]:
  "update_row m r (\<lambda>row. row\<lparr>present := b\<rparr>) = Some m' \<Longrightarrow> keeps a m \<Longrightarrow> keeps a m'"
  "update_row m r (\<lambda>row. row\<lparr>use := b\<rparr>) = Some m' \<Longrightarrow> keeps a m \<Longrightarrow> keeps a m'"
  "update_row m r (\<lambda>row. row\<lparr>modified := b\<rparr>) = Some m' \<Longrightarrow> keeps a m \<Longrightarrow> keeps a m'"
  "update_row m r (\<lambda>row. row\<lparr>present := b, use := b'\<rparr>) = Some m' \<Longrightarrow> keeps a m \<Longrightarrow> keeps a m'"
  by (erule update_row_keeps; simp)+

lemma bt_write_keeps:
  "bt_write bt m j f = Some m' \<Longrightarrow> keeps a m \<Longrightarrow> (\<And>row. frame (f row) = frame row) \<Longrightarrow> keeps a m'"
  by (auto simp: bt_write_def bind_eq_Some_conv intro: update_row_keeps)

subsection \<open>Swapping\<close>

lemma open_file_keeps [keeps_steps]:
  "open_file m pid = Some (m', file) \<Longrightarrow> keeps a m \<Longrightarrow> keeps a m'"
  by (auto simp: open_file_def Let_def elim!: keeps_steps split: if_splits)

lemma set_present_keeps [keeps_steps]:
  "set_present m f b = Some m' \<Longrightarrow> keeps a m \<Longrightarrow> keeps a m'"
  by (auto simp: set_present_def bind_eq_Some_conv elim!: keeps_steps)

lemma set_modified_keeps [keeps_steps]:
  "set_modified m f b = Some m' \<Longrightarrow> keeps a m \<Longrightarrow> keeps a m'"
  by (auto simp: set_modified_def bind_eq_Some_conv elim!: keeps_steps split: option.splits)

lemma set_swap_offset_keeps [keeps_steps]:
  "set_swap_offset m k x = Some m' \<Longrightarrow> keeps a m \<Longrightarrow> keeps a m'"
  by (auto simp: set_swap_offset_def bind_eq_Some_conv elim!: keeps_steps)

lemma restore_page_keeps [keeps_steps]:
  "restore_page m mapping i f = Some m' \<Longrightarrow> keeps a m \<Longrightarrow> keeps a m'"
  by (auto simp: restore_page_def bind_eq_Some_conv elim!: keeps_steps)

lemma write_in_memory_keeps [keeps_steps]:
  "write_in_memory m pa v = Some m' \<Longrightarrow> keeps a m \<Longrightarrow> keeps a m'"
  by (auto simp: write_in_memory_def bind_eq_Some_conv elim!: keeps_steps)

lemma swap_frame_for_pcb_keeps [keeps_steps]:
  assumes "swap_frame_for_pcb m pid f = Some m'" and "keeps a m"
  shows "keeps a m'"
proof -
  have "yields (keeps a) (swap_frame_for_pcb m pid f)"
    unfolding swap_frame_for_pcb_def
    by (intro yields_rules) (use assms(2) in \<open>auto simp: yields_def elim!: keeps_steps\<close>)
  then show ?thesis using assms(1) by (rule yieldsD)
qed

lemma unswap_frame_for_pcb_keeps [keeps_steps]:
  assumes "unswap_frame_for_pcb m pid f = Some m'" and "keeps a m"
  shows "keeps a m'"
proof -
  have "yields (keeps a) (unswap_frame_for_pcb m pid f)"
    unfolding unswap_frame_for_pcb_def
    by (intro yields_rules)
      (use assms(2) in \<open>auto simp: yields_def elim!: keeps_steps split: option.splits if_splits\<close>)
  then show ?thesis using assms(1) by (rule yieldsD)
qed

lemma unswap_loop_yields:
  "keeps a m \<Longrightarrow> yields (\<lambda>(m', offset'). keeps a m') (unswap_loop mapping entry i m offset)"
proof (induction mapping entry i m offset rule: unswap_loop.induct)
  case (1 mapping entry i m offset)
  show ?case
  proof (subst unswap_loop.simps, intro yields_rules)
    fix f r ref row m1
    assume lt: "i < unat offset \<and> 0 < entry" and f: "read_u32 mapping i = Some f"
      and r: "get_frame_ref m f = Some r" "r = Some ref" and row: "deref_row m ref = Some row"
    show "yields (\<lambda>(m', offset'). keeps a m') (unswap_loop mapping entry (i + entry) m1 offset)"
      if "present row" "restore_page m mapping i (frame row) = Some m1"
      using that "1.prems" by (intro "1.IH"(1) [OF lt f r row]) (auto elim!: keeps_steps)
    show "yields (\<lambda>(m', offset'). keeps a m')
        (unswap_loop mapping entry (i + entry) m (word_of_nat (i + entry)))"
      if "\<not> present row"
      using that "1.prems" by (intro "1.IH"(2) [OF lt f r row])
  qed (use "1.prems" in auto)
qed

lemma unswap_loop_keeps [keeps_steps]:
  "unswap_loop mapping entry i m offset = Some (m', offset') \<Longrightarrow> keeps a m \<Longrightarrow> keeps a m'"
  using unswap_loop_yields [of a m mapping entry i offset] by (simp add: yields_def)

lemma unswap_pcb_keeps [keeps_steps]:
  assumes "unswap_pcb m pid = Some m'" and "keeps a m"
  shows "keeps a m'"
proof -
  have "yields (keeps a) (unswap_pcb m pid)"
    unfolding unswap_pcb_def
    by (intro yields_rules) (use assms(2) in \<open>auto simp: yields_def elim!: keeps_steps\<close>)
  then show ?thesis using assms(1) by (rule yieldsD)
qed

subsection \<open>Page replacement\<close>

lemma scan_yields:
  assumes "\<And>j g row. miss j = Some g \<Longrightarrow> frame (g row) = frame row"
  shows "keeps a m \<Longrightarrow> yields (\<lambda>(m', r). keeps a m') (scan_table bt match miss lo hi m)"
proof (induction "hi - lo" arbitrary: lo m)
  case 0
  then show ?case by (subst scan.simps) (simp add: yields_def)
next
  case (Suc d)
  show ?case
  proof (subst scan.simps, intro yields_rules)
    fix row m1
    assume "lo < hi" "bt_read bt m lo = Some row"
    then have next_lo: "d = hi - Suc lo" using Suc.hyps(2) by simp
    show "case (m1, Some (lo, frame row)) of (m', r) \<Rightarrow> keeps a m'"
      if "bt_write bt m lo (\<lambda>r. r\<lparr>use := True\<rparr>) = Some m1"
      using bt_write_keeps [OF that Suc.prems] by simp
    show "yields (\<lambda>(m', r). keeps a m') (scan_table bt match miss (Suc lo) hi m1)"
      if "(case miss lo of None \<Rightarrow> Some m | Some g \<Rightarrow> bt_write bt m lo g) = Some m1"
      using that Suc.prems assms bt_write_keeps [of bt m lo _ m1 a]
      by (intro Suc.hyps(1) [OF next_lo]) (auto split: option.splits)
    show "yields (\<lambda>(m', r). keeps a m') (scan_table bt match miss (Suc lo) hi m)"
      using Suc.prems by (intro Suc.hyps(1) [OF next_lo])
  qed (use Suc.prems in simp)
qed

lemma scan_keeps [keeps_steps]:
  "scan_table bt match (\<lambda>_. None) lo hi m = Some (m', r) \<Longrightarrow> keeps a m \<Longrightarrow> keeps a m'"
  "scan_table bt match (\<lambda>_. Some clear_use) lo hi m = Some (m', r) \<Longrightarrow> keeps a m \<Longrightarrow> keeps a m'"
  "scan_table bt match (\<lambda>j. if j = k then Some clear_use else None) lo hi m = Some (m', r) \<Longrightarrow>
    keeps a m \<Longrightarrow> keeps a m'"
proof -
  assume "keeps a m"
  note y = scan_yields [OF _ this, of _ bt match lo hi]
  show "keeps a m'" if "scan_table bt match (\<lambda>_. None) lo hi m = Some (m', r)"
    using yieldsD [OF y that] by simp
  show "keeps a m'" if "scan_table bt match (\<lambda>_. Some clear_use) lo hi m = Some (m', r)"
    using yieldsD [OF y that] by auto
  show "keeps a m'"
    if "scan_table bt match (\<lambda>j. if j = k then Some clear_use else None) lo hi m = Some (m', r)"
  proof -
    have "yields (\<lambda>(m', r). keeps a m')
        (scan_table bt match (\<lambda>j. if j = k then Some clear_use else None) lo hi m)"
      by (rule y) (auto split: if_splits)
    from yieldsD [OF this that] show ?thesis by simp
  qed
qed

lemma or_scan_keeps:
  assumes "or_scan (m, r) k = Some (m', r')" and "keeps a m"
    and "\<And>m. keeps a m \<Longrightarrow> yields (\<lambda>(m', r). keeps a m') (k m)"
  shows "keeps a m'"
  using assms by (auto simp: or_scan_def yields_def split: option.splits)

lemma clear_all_keeps [keeps_steps]:
  "foldM (\<lambda>j m. bt_write bt m j clear_use) js m = Some m' \<Longrightarrow> keeps a m \<Longrightarrow> keeps a m'"
  by (rule yieldsD [OF yields_foldM]) (auto simp: yields_def intro: bt_write_keeps)

lemma select_frame_keeps [keeps_steps]:
  assumes "select_frame m ti = Some (m', f)" and "keeps a m"
  shows "keeps a m'"
proof -
  have scan: "yields (\<lambda>(m', r). keeps a m') (scan_table bt match (\<lambda>_. None) lo hi s)"
    "yields (\<lambda>(m', r). keeps a m') (scan_table bt match (\<lambda>_. Some clear_use) lo hi s)"
    if "keeps a s" for bt match lo hi s
    using that by (auto intro!: scan_yields)
  have "yields (\<lambda>(m', f). keeps a m') (clock_selector m ti)"
    unfolding clock_selector_def
    by (intro yields_rules)
      (use assms(2) in \<open>auto elim!: keeps_steps or_scan_keeps bt_write_keeps intro!: scan\<close>)
  moreover have "yields (\<lambda>(m', f). keeps a m') (improved_clock_selector m ti)"
    unfolding improved_clock_selector_def
    by (intro yields_rules)
      (use assms(2) in \<open>auto elim!: keeps_steps or_scan_keeps bt_write_keeps intro!: scan\<close>)
  ultimately show ?thesis
    using assms(1) by (cases "frame_selector m") (auto simp: select_frame_def yields_def)
qed

lemma replace_frame_keeps [keeps_steps]:
  assumes "replace_frame m pid f = Some m'" and "keeps a m"
  shows "keeps a m'"
proof -
  have "yields (keeps a) (foldM (\<lambda>i m. do {
         row \<leftarrow> deref_row m (sint n, i);
         if frame row = f
         then update_row m (sint n, i) (\<lambda>r. r\<lparr>present := False, use := False\<rparr>)
         else Some m }) [0..<rows_of m] m)" for n :: u32
    using assms(2)
    by (rule yields_foldM) (auto simp: yields_def bind_eq_Some_conv elim!: keeps_steps split: if_splits)
  then show ?thesis
    using assms(1) by (auto simp: replace_frame_def bind_eq_Some_conv yields_def elim!: keeps_steps)
qed

subsection \<open>Page faults\<close>

text \<open>A frame that was just taken from the bitmap and that no row holds yet.\<close>

definition fresh_frame :: "memory \<Rightarrow> u32 \<Rightarrow> bool" where
  "fresh_frame m f \<longleftrightarrow> f = INVALID_FRAME \<or>
     unat f < length (frames m) \<and> frames m ! unat f \<and> (\<forall>q. frame_at m q \<noteq> f)"

lemma keeps_fresh: "keeps m m' \<Longrightarrow> fresh_frame m f \<Longrightarrow> fresh_frame m' f"
  by (simp add: fresh_frame_def keeps_def)

lemma find_free_frame_fresh:
  assumes wf: "mem_wf m" and run: "find_free_frame m = Some (m', f)"
  shows "mem_wf m'" and "fresh_frame m' f" and "keeps m (m'\<lparr>frames := frames m\<rparr>)"
proof -
  have fr: "frames_wf m" using wf by (simp add: mem_wf_def)
  note len = frames_wf_length [OF fr]
  have "mem_wf m' \<and> fresh_frame m' f \<and> keeps m (m'\<lparr>frames := frames m\<rparr>)"
  proof (cases "find (\<lambda>i. \<not> frames m ! i) [0..<length (frames m)]")
    case None
    with run wf show ?thesis
      by (auto simp: find_free_frame_eq [OF len] fresh_frame_def)
  next
    case (Some i)
    then have i: "i < length (frames m)" "\<not> frames m ! i"
      by (auto dest: find_upt_SomeD)
    have small: "i < 2 ^ 32"
      using i(1) len unat_u32_bound [of "no_of_frames m"] by simp
    have m': "m' = m\<lparr>frames := (frames m)[i := True]\<rparr>" "f = word_of_nat i"
      using run Some by (auto simp: find_free_frame_eq [OF len])
    have free: "frame_at m q \<noteq> f" for q
    proof
      assume "frame_at m q = f"
      moreover from this have "f \<noteq> INVALID_FRAME \<Longrightarrow> False"
        using frames_wf_taken [OF fr, of q] i small by (simp add: m')
      moreover have "f \<noteq> INVALID_FRAME"
      proof
        assume "f = INVALID_FRAME"
        then have "unat f = 4294967295" by simp
        then show False
          using i(1) len unat_u32_bound [of "no_of_frames m"] small by (simp add: m'(2))
      qed
      ultimately show False by blast
    qed
    have "frames_wf m'"
    proof (rule frames_wfI)
      show "q' = q" if "frame_at m' q \<noteq> INVALID_FRAME" "frame_at m' q' = frame_at m' q" for q q'
        using that frames_wf_unique [OF fr, of q q'] by (simp add: m'(1))
      show "unat (frame_at m' q) < length (frames m') \<and> frames m' ! unat (frame_at m' q)"
        if "frame_at m' q \<noteq> INVALID_FRAME" for q
        using that frames_wf_taken [OF fr, of q] i(1)
        by (simp add: m'(1)) (simp add: nth_list_update)
    qed (simp add: m'(1) len)
    moreover have "tables_wf m'"
      using wf by (intro tables_wf_shape [of m m']) (simp_all add: mem_wf_def m'(1) shape_def)
    moreover have "fresh_frame m' f"
      using i(1) small free by (simp add: fresh_frame_def m')
    ultimately show ?thesis
      by (simp add: mem_wf_def keeps_def m'(1) shape_def)
  qed
  then show "mem_wf m'" "fresh_frame m' f" "keeps m (m'\<lparr>frames := frames m\<rparr>)" by simp_all
qed

lemma delete_frame_fresh:
  assumes "mem_wf m" and "fresh_frame m f" and "delete_frame m f = Some m'"
  shows "mem_wf m'"
proof (cases "m' = m")
  case False
  have fr: "frames_wf m" and wf: "tables_wf m" using assms(1) by (simp_all add: mem_wf_def)
  have m': "m' = m\<lparr>frames := (frames m)[unat f := False]\<rparr>" "unat f < length (frames m)"
    using assms(3) False
    by (auto simp: delete_frame_def bind_eq_Some_conv array_simps split: if_splits)
  have "f \<noteq> INVALID_FRAME"
    using m'(2) frames_wf_length [OF fr] unat_u32_bound [of "no_of_frames m"] by auto
  then have free: "frame_at m q \<noteq> f" for q
    using assms(2) by (simp add: fresh_frame_def)
  have "frames_wf m'"
  proof (rule frames_wfI)
    show "q' = q" if "frame_at m' q \<noteq> INVALID_FRAME" "frame_at m' q' = frame_at m' q" for q q'
      using that frames_wf_unique [OF fr, of q q'] by (simp add: m'(1))
    show "unat (frame_at m' q) < length (frames m') \<and> frames m' ! unat (frame_at m' q)"
      if "frame_at m' q \<noteq> INVALID_FRAME" for q
      using that frames_wf_taken [OF fr, of q] free [of q]
      by (auto simp: m'(1) nth_list_update word_unat_eq_iff)
  qed (simp add: m'(1) frames_wf_length [OF fr])
  moreover have "tables_wf m'"
    using wf by (intro tables_wf_shape [of m m']) (simp_all add: m'(1) shape_def)
  ultimately show ?thesis by (simp add: mem_wf_def)
qed (use assms in simp)

lemma create_frame_for_table_fresh:
  assumes "mem_wf m" and "fresh_frame m f" and "create_frame_for_table m ti f = Some (m', i)"
  shows "mem_wf m'"
proof (cases "m' = m")
  case False
  have fr: "frames_wf m" and wf: "tables_wf m" using assms(1) by (simp_all add: mem_wf_def)
  obtain k where k: "findM (\<lambda>i. do {
         row \<leftarrow> deref_row m (sint ti, i);
         Some (frame row = INVALID_FRAME) }) [0..<rows_of m] = Some (Some k)"
    and up: "update_row m (sint ti, k)
        (\<lambda>row. row\<lparr>present := True, frame := f, use := True\<rparr>) = Some m'"
    using assms(3) False
    by (auto simp: create_frame_for_table_def bind_eq_Some_conv split: option.splits)
  have at: "frame_at m' q = (if q = (sint ti, k) then f else frame_at m q)" for q
    using frame_at_update_row [OF up, of q] by simp
  have same: "frames m' = frames m" "no_of_frames m' = no_of_frames m"
    "tables_lvl_1 m' = tables_lvl_1 m" "max_rows m' = max_rows m"
    using up by (auto simp: update_row_def bind_eq_Some_conv)
  have "frames_wf m'"
  proof (rule frames_wfI)
    show "q' = q" if "frame_at m' q \<noteq> INVALID_FRAME" "frame_at m' q' = frame_at m' q" for q q'
      using that assms(2) frames_wf_unique [OF fr, of q q']
      by (auto simp: at fresh_frame_def simp del: split_paired_All split: if_splits)
    show "unat (frame_at m' q) < length (frames m') \<and> frames m' ! unat (frame_at m' q)"
      if "frame_at m' q \<noteq> INVALID_FRAME" for q
      using that assms(2) frames_wf_taken [OF fr, of q]
      by (auto simp: at same fresh_frame_def split: if_splits)
  qed (simp add: same frames_wf_length [OF fr])
  moreover have "tables_wf m'"
    using wf same update_row_shape [OF up] by (intro tables_wf_shape [of m m']) simp_all
  ultimately show ?thesis by (simp add: mem_wf_def)
qed (use assms in simp)

lemma replacement_keeps [keeps_steps]:
  "(if replace
    then do {
      id_table_1 \<leftarrow> get_table_lvl1_number m1 t2;
      (m, frame_to_replace) \<leftarrow> select_frame m1 id_table_1;
      replace_frame m pid frame_to_replace }
    else Some m1) = Some m2 \<Longrightarrow> keeps a m1 \<Longrightarrow> keeps a m2"
  by (auto simp: bind_eq_Some_conv elim!: keeps_steps split: if_splits)

lemma obtain_frame_wf:
  assumes wf: "mem_wf m" and run: "obtain_frame m t2 index pid = Some (m', f)"
  shows "mem_wf m'"
proof -
  have fault: "mem_wf m2 \<and> fresh_frame m2 new"
    if "find_free_frame m = Some (m1, new)" "keeps m1 m2" for m1 new m2
    using find_free_frame_fresh [OF wf that(1)] keeps_wf [OF that(2)] keeps_fresh [OF that(2)] by simp
  have unswapped: "mem_wf m5" if "delete_frame m2 new = Some m3"
    "unswap_frame_for_pcb m3 pid g = Some m4" "update_row m4 r (\<lambda>r. r\<lparr>use := True\<rparr>) = Some m5"
    "mem_wf m2" "fresh_frame m2 new" for m2 new m3 g m4 r m5
  proof -
    have "keeps m3 m5" using that(2,3) by (auto elim!: keeps_steps)
    then show ?thesis using delete_frame_fresh [OF that(4,5,1)] keeps_wf by blast
  qed
  have "yields (\<lambda>(m', f). mem_wf m') (obtain_frame m t2 index pid)"
    unfolding obtain_frame_def
    by (intro yields_rules)
      (use wf in \<open>auto elim!: keeps_steps
         intro: create_frame_for_table_fresh unswapped dest!: fault\<close>)
  with run show ?thesis by (simp add: yields_def)
qed

subsection \<open>Every request preserves the invariant\<close>

lemma create_file_keeps [keeps_steps]:
  assumes "create_file m pid sz = Some m'" and "keeps a m"
  shows "keeps a m'"
proof -
  have "yields (keeps a) (create_file m pid sz)"
    unfolding create_file_def open_create_def delete_swap_file_def
    by (intro yields_rules) (use assms(2) in \<open>auto simp: Let_def split: if_splits\<close>)
  then show ?thesis using assms(1) by (rule yieldsD)
qed

lemma delete_swapped_pcb_keeps [keeps_steps]:
  "delete_swapped_pcb m pid = Some m' \<Longrightarrow> keeps a m \<Longrightarrow> keeps a m'"
  by (auto simp: delete_swapped_pcb_def delete_swap_file_def delete_swap_data_def
      bind_eq_Some_conv split: option.splits)

lemma swap_pcb_stream_keeps [keeps_steps]:
  assumes "swap_pcb_stream junk m stream = Some (m', b)" and "keeps a m"
  shows "keeps a m'"
proof -
  have "yields (\<lambda>(m', b). keeps a m') (swap_pcb_stream junk m stream)"
    unfolding swap_pcb_stream_def
    by (intro yields_rules) (use assms(2) in \<open>auto elim!: keeps_steps\<close>)
  with assms(1) show ?thesis by (simp add: yields_def)
qed

lemma get_replicate:
  "safe_list_get (replicate n x) i = (if 0 \<le> i \<and> nat i < n then x else None)"
  by (simp add: safe_list_get_def)

lemma create_process_mem_wf:
  assumes "mem_wf m" and "has_room m" and "create_new_process m = Some (m', ti)"
  shows "mem_wf m'"
proof -
  have wf: "tables_wf m" and fr: "frames_wf m" using assms(1) by (simp_all add: mem_wf_def)
  obtain l where m': "m' = m\<lparr>tables_lvl_2 := tables_lvl_2 m @ replicate (rows_of m)
      (Some (new_page_table_lvl2 (rows_of m))), tables_lvl_1 := l\<rparr>"
    using create_new_process_eq [OF wf assms(2)] assms(3) by (metis option.inject prod.inject)
  have "frame_at m' q = frame_at m q" for q
  proof (cases "fst q < int (length (tables_lvl_2 m))")
    case True
    then show ?thesis by (simp add: frame_at_def deref_row_def m' get_append)
  next
    case False
    then have "\<not> nat (fst q) < length (tables_lvl_2 m) \<or> fst q < 0"
      by linarith
    then have "safe_list_get (tables_lvl_2 m) (fst q) = None"
      by (auto simp: safe_list_get_def)
    moreover have "frame_at m' q = INVALID_FRAME"
      using False
      by (auto simp: frame_at_def deref_row_def m' get_append arr_get_def get_replicate
          split: option.splits)
    ultimately show ?thesis by (simp add: frame_at_def deref_row_def)
  qed
  then have "frames_wf m'"
    using fr by (intro frames_wf_cong [of m m']) (simp_all add: m')
  then show ?thesis
    using create_new_process_wf [OF wf assms(2,3)] by (simp add: mem_wf_def)
qed

lemma delete_process_mem_wf:
  assumes "mem_wf m" and "delete_process m ti = Some m'"
  shows "mem_wf m'"
proof (cases "safe_list_get (tables_lvl_1 m) (sint ti)")
  case None
  with assms show ?thesis by (simp add: delete_process_def delete_related_tables_def)
next
  case (Some t)
  then show ?thesis
    using assms delete_process_wf [OF _ _ Some assms(2)] by (simp add: mem_wf_def)
qed

lemma keeps_room: "keeps m m' \<Longrightarrow> has_room m \<Longrightarrow> has_room m'"
  using shape_length [of m' m] by (simp add: keeps_def has_room_def)

lemma memory_init_wf:
  assumes wf: "mem_wf m" and room: "has_room m"
  shows "yields (\<lambda>(m', s'). mem_wf m') (kernel_controller_memory_init junk m s)"
proof -
  have created: "mem_wf m2" if "create_file (m\<lparr>swap_data := l\<rparr>) pid sz = Some m1"
    "create_new_process m1 = Some (m2, ti)" for l pid sz m1 m2 ti
  proof -
    have "keeps m m1" using that(1) by (auto elim!: keeps_steps)
    then show ?thesis
      using create_process_mem_wf [OF _ _ that(2)] keeps_wf [OF _ wf] keeps_room [OF _ room] by blast
  qed
  show ?thesis
    unfolding kernel_controller_memory_init_def
    by (intro yields_rules) (use wf in \<open>auto intro: created\<close>)
qed

lemma destroy_process_wf:
  assumes wf: "mem_wf m"
  shows "yields (\<lambda>(m', s'). mem_wf m') (kernel_controller_destroy_process_file junk m s)"
proof -
  have gone: "mem_wf m2" if "delete_process m ti = Some m1" "delete_swapped_pcb m1 pid = Some m2"
    for ti m1 pid m2
  proof -
    have "keeps m1 m2" using that(2) by (auto elim!: keeps_steps)
    then show ?thesis using delete_process_mem_wf [OF wf that(1)] by (rule keeps_wf)
  qed
  show ?thesis
    unfolding kernel_controller_destroy_process_file_def
    by (intro yields_rules) (auto intro: gone)
qed

lemma other_handlers_keep:
  "yields (\<lambda>(m', s'). keeps m m') (cpu_controller_read junk m s)"
  "yields (\<lambda>(m', s'). keeps m m') (cpu_controller_write junk m s)"
  "yields (\<lambda>(m', s'). keeps m m') (kernel_controller_swap junk pj m s)"
  "yields (\<lambda>(m', s'). keeps m m') (kernel_controller_read_swap junk m s)"
  "yields (\<lambda>(m', s'). keeps m m') (cpu_controller_send_page_second_level junk m s)"
  unfolding cpu_controller_read_def cpu_controller_write_def kernel_controller_swap_def
    kernel_controller_read_swap_def cpu_controller_send_page_second_level_def
  by (intro yields_rules; auto simp: bind_eq_Some_conv elim!: keeps_steps split: if_splits)+

lemma send_frame_wf:
  assumes wf: "mem_wf m"
  shows "yields (\<lambda>(m', s'). mem_wf m') (cpu_controller_send_frame junk m s)"
  unfolding cpu_controller_send_frame_def
  by (intro yields_rules)
    (use wf in \<open>auto simp: bind_eq_Some_conv intro: obtain_frame_wf split: option.splits if_splits\<close>)

lemma routine_step_wf:
  assumes wf: "mem_wf m" and room: "has_room m"
    and run: "routine_step junk pj m s = Some (m', s', go_on)"
  shows "mem_wf m'"
proof -
  have kept: "mem_wf a" if "yields (\<lambda>(m', s'). keeps m m') x" "x = Some (a, s')" for x a and s' :: socket
    using that keeps_wf wf by (auto simp: yields_def)
  have held: "mem_wf a" if "yields (\<lambda>(m', s'). mem_wf m') x" "x = Some (a, s')" for x a and s' :: socket
    using that by (auto simp: yields_def)
  have "yields (\<lambda>(m', s', go_on). mem_wf m') (routine_step junk pj m s)"
    unfolding routine_step_def
    by (intro yields_rules)
      (use wf in \<open>auto simp: cpu_controller_send_size_def cpu_controller_send_entries_def
         intro: other_handlers_keep [THEN kept] memory_init_wf [OF wf room, THEN held]
           destroy_process_wf [OF wf, THEN held] send_frame_wf [OF wf, THEN held]
         split: option.splits opcode_t.splits prod.splits\<close>)
  with run show ?thesis by (simp add: yields_def)
qed

end
