(* ===== verification/Memory_Reachable.thy ===== *)
theory Memory_Reachable
  imports Memory_Invariant
begin

section \<open>The server over time\<close>

text \<open>
  The states the memory module can reach from its start, one request of some client at a time,
  and the loop of one client's thread. \<open>serves\<close> counts the requests, since each may add
  tables and a table index is an \<open>int\<close>. The code has no lock around a request; taking the
  requests of different clients one after another is the assumption of this theory.
\<close>

subsection \<open>How the directories grow\<close>

definition dirs_grow :: "nat \<Rightarrow> memory \<Rightarrow> memory \<Rightarrow> bool" where
  "dirs_grow k m m' \<longleftrightarrow> max_rows m' = max_rows m \<and>
     length (tables_lvl_1 m') \<le> length (tables_lvl_1 m) + k \<and>
     length (tables_lvl_2 m') \<le> length (tables_lvl_2 m) + k * rows_of m"

lemma keeps_dirs: "keeps m m' \<Longrightarrow> dirs_grow k m m'"
  using shape_length [of m' m] by (simp add: keeps_def dirs_grow_def)

lemma dirs_grow_refl [simp]: "dirs_grow k m m"
  by (simp add: dirs_grow_def)

lemma dirs_grow_trans: "dirs_grow j a b \<Longrightarrow> dirs_grow k b c \<Longrightarrow> dirs_grow (j + k) a c"
  by (auto simp: dirs_grow_def add_mult_distrib)

lemma update_row_dirs: "update_row m r f = Some m' \<Longrightarrow> dirs_grow 0 m m'"
  using update_row_frame(2) [of m r f m'] by (auto simp: dirs_grow_def update_row_def bind_eq_Some_conv)

lemma frame_bitmap_dirs:
  "find_free_frame m = Some (m', f) \<Longrightarrow> dirs_grow 0 m m'"
  "delete_frame m f = Some m' \<Longrightarrow> dirs_grow 0 m m'"
  by (auto simp: find_free_frame_def delete_frame_def dirs_grow_def bind_eq_Some_conv
      split: option.splits if_splits)

lemma create_frame_dirs: "create_frame_for_table m s f = Some (m', i) \<Longrightarrow> dirs_grow 0 m m'"
  by (auto simp: create_frame_for_table_def bind_eq_Some_conv dest: update_row_dirs
      split: option.splits)

lemma dirs_grow_step: "dirs_grow 0 a b \<Longrightarrow> dirs_grow 0 b c \<Longrightarrow> dirs_grow 0 a c"
  using dirs_grow_trans [of 0 a b 0 c] by simp

lemma obtain_frame_dirs:
  assumes "obtain_frame m t2 index pid = Some (m', f)"
  shows "dirs_grow 0 m m'"
proof -
  have after: "dirs_grow 0 m m2" if "find_free_frame m = Some (m1, new)" "keeps m1 m2" for m1 new m2
    using frame_bitmap_dirs(1) [OF that(1)] keeps_dirs [OF that(2)] by (rule dirs_grow_step)
  have unswapped: "dirs_grow 0 m m5" if "delete_frame m2 new = Some m3"
    "unswap_frame_for_pcb m3 pid g = Some m4" "update_row m4 r (\<lambda>r. r\<lparr>use := True\<rparr>) = Some m5"
    "dirs_grow 0 m m2" for m2 new m3 g m4 r m5
  proof -
    have "keeps m3 m5" using that(2,3) by (auto elim!: keeps_steps)
    then show ?thesis
      using that(4) frame_bitmap_dirs(2) [OF that(1)] keeps_dirs dirs_grow_step by blast
  qed
  have "yields (\<lambda>(m', f). dirs_grow 0 m m') (obtain_frame m t2 index pid)"
    unfolding obtain_frame_def
    by (intro yields_rules)
      (auto elim!: keeps_steps intro: unswapped dirs_grow_step [OF _ create_frame_dirs] dest!: after)
  with assms show ?thesis by (simp add: yields_def)
qed

lemma length_store_slot: "store_slot l i x = Some l' \<Longrightarrow> length l' \<le> Suc (length l)"
  by (auto simp: store_slot_def safe_list_replace_def safe_list_add_in_index_def split: if_splits)

lemma create_process_dirs:
  assumes "tables_wf m" and "has_room m" and "create_new_process m = Some (m', ti)"
  shows "dirs_grow (Suc 0) m m'"
proof -
  obtain l where "m' = m\<lparr>tables_lvl_2 := tables_lvl_2 m @ replicate (rows_of m)
      (Some (new_page_table_lvl2 (rows_of m))), tables_lvl_1 := l\<rparr>"
    "store_slot (tables_lvl_1 m) (sint ti) (Some (level_1_table (new_ids m))) = Some l"
    using create_new_process_eq [OF assms(1,2)] assms(3) by (metis option.inject prod.inject)
  then show ?thesis
    using length_store_slot [of "tables_lvl_1 m" "sint ti" _ l] by (simp add: dirs_grow_def)
qed

lemma delete_process_dirs:
  assumes "mem_wf m" and "delete_process m ti = Some m'"
  shows "dirs_grow 0 m m'"
proof (cases "safe_list_get (tables_lvl_1 m) (sint ti)")
  case None
  with assms show ?thesis by (simp add: delete_process_def delete_related_tables_def)
next
  case (Some t)
  then show ?thesis
    using assms delete_process_eq [OF _ _ Some] by (auto simp: mem_wf_def dirs_grow_def)
qed

lemma dirs_grow_weaken: "dirs_grow j m m' \<Longrightarrow> j \<le> k \<Longrightarrow> dirs_grow k m m'"
  using dirs_grow_trans [of j m m' "k - j" m'] by simp

lemma memory_init_dirs:
  assumes wf: "mem_wf m" and room: "has_room m"
  shows "yields (\<lambda>(m', s'). dirs_grow (Suc 0) m m') (kernel_controller_memory_init junk m s)"
proof -
  have created: "dirs_grow (Suc 0) m m2" if "create_file (m\<lparr>swap_data := l\<rparr>) pid sz = Some m1"
    "create_new_process m1 = Some (m2, ti)" for l pid sz m1 m2 ti
  proof -
    have kept: "keeps m m1" using that(1) by (auto elim!: keeps_steps)
    have "dirs_grow (Suc 0) m1 m2"
      using create_process_dirs [OF _ _ that(2)] keeps_wf [OF kept wf] keeps_room [OF kept room]
      by (simp add: mem_wf_def)
    with keeps_dirs [OF kept, of 0] show ?thesis using dirs_grow_trans by fastforce
  qed
  show ?thesis
    unfolding kernel_controller_memory_init_def
    by (intro yields_rules) (auto intro: created)
qed

lemma destroy_process_dirs:
  assumes wf: "mem_wf m"
  shows "yields (\<lambda>(m', s'). dirs_grow (Suc 0) m m') (kernel_controller_destroy_process_file junk m s)"
proof -
  have gone: "dirs_grow (Suc 0) m m2" if "delete_process m ti = Some m1" "delete_swapped_pcb m1 pid = Some m2"
    for ti m1 pid m2
  proof -
    have "keeps m1 m2" using that(2) by (auto elim!: keeps_steps)
    then have "dirs_grow 0 m m2"
      using delete_process_dirs [OF wf that(1)] keeps_dirs dirs_grow_step by blast
    then show ?thesis by (rule dirs_grow_weaken) simp
  qed
  show ?thesis
    unfolding kernel_controller_destroy_process_file_def
    by (intro yields_rules) (auto intro: gone)
qed

lemma send_frame_dirs:
  "yields (\<lambda>(m', s'). dirs_grow (Suc 0) m m') (cpu_controller_send_frame junk m s)"
  unfolding cpu_controller_send_frame_def
  by (intro yields_rules)
    (auto simp: bind_eq_Some_conv dest!: obtain_frame_dirs intro: dirs_grow_weaken
      split: option.splits if_splits)

lemma routine_step_dirs:
  assumes wf: "mem_wf m" and room: "has_room m"
    and run: "routine_step junk pj m s = Some (m', s', go_on)"
  shows "dirs_grow (Suc 0) m m'"
proof -
  have kept: "dirs_grow (Suc 0) m a" if "yields (\<lambda>(m', s'). keeps m m') x" "x = Some (a, s')"
    for x a and s' :: socket
    using that keeps_dirs by (auto simp: yields_def)
  have held: "dirs_grow (Suc 0) m a" if "yields (\<lambda>(m', s'). dirs_grow (Suc 0) m m') x" "x = Some (a, s')"
    for x a and s' :: socket
    using that by (auto simp: yields_def)
  have "yields (\<lambda>(m', s', go_on). dirs_grow (Suc 0) m m') (routine_step junk pj m s)"
    unfolding routine_step_def
    by (intro yields_rules)
      (auto simp: cpu_controller_send_size_def cpu_controller_send_entries_def
         intro: other_handlers_keep [THEN kept] memory_init_dirs [OF wf room, THEN held]
           destroy_process_dirs [OF wf, THEN held] send_frame_dirs [THEN held]
         split: option.splits opcode_t.splits prod.splits)
  with run show ?thesis by (simp add: yields_def)
qed

subsection \<open>Reachable states\<close>

inductive serves :: "mem_cfg \<Rightarrow> os_env \<Rightarrow> nat \<Rightarrow> memory \<Rightarrow> bool" where
  start: "on_init_memory config env = Some m \<Longrightarrow> serves config env 0 m"
| request: "serves config env n m \<Longrightarrow> routine_step junk pj m s = Some (m', s', go_on) \<Longrightarrow>
    serves config env (Suc n) m'"

inductive_simps serves_start: "serves config env 0 m"
inductive_cases serves_requestE: "serves config env (Suc n) m"

lemma on_init_memory_wf:
  assumes "on_init_memory config env = Some m"
    and "unat (entradas_por_tabla config) * unat (entradas_por_tabla config) < 2 ^ 32"
  shows "mem_wf m" and "tables_lvl_1 m = []" and "tables_lvl_2 m = []"
    and "max_rows m = entradas_por_tabla config" and "cfg m = config"
    and "main_memory m = map (garbage env) [0..<unat (tam_memoria config)]"
    and "no_of_frames m = tam_memoria config div tam_pagina config"
    and "tam_pagina config \<noteq> 0"
proof -
  have m: "tables_lvl_1 m = []" "tables_lvl_2 m = []" "max_rows m = entradas_por_tabla config"
    "length (frames m) = unat (no_of_frames m)" "cfg m = config"
    "main_memory m = map (garbage env) [0..<unat (tam_memoria config)]"
    "no_of_frames m = tam_memoria config div tam_pagina config" "tam_pagina config \<noteq> 0"
    using assms(1) by (auto simp: on_init_memory_def new_safe_list_def Let_def split: if_splits)
  then show "tables_lvl_1 m = []" "tables_lvl_2 m = []" "max_rows m = entradas_por_tabla config"
    "cfg m = config" "main_memory m = map (garbage env) [0..<unat (tam_memoria config)]"
    "no_of_frames m = tam_memoria config div tam_pagina config" "tam_pagina config \<noteq> 0"
    by simp_all
  have "tables_wf m"
    using m assms(2) by (simp add: tables_wf_def second_pages_def)
  moreover have "frames_wf m"
    using m by (simp add: frames_wf_def owners_def all_refs_def)
  ultimately show "mem_wf m" by (simp add: mem_wf_def)
qed

text \<open>The directories of the module after \<open>n\<close> requests, as long as their indices fit.\<close>

lemma serves_wf:
  assumes "serves config env n m"
    and "unat (entradas_por_tabla config) * unat (entradas_por_tabla config) < 2 ^ 32"
    and "n + 1 < 2 ^ 31" and "(n + 1) * unat (entradas_por_tabla config) < 2 ^ 31"
  shows "mem_wf m \<and> max_rows m = entradas_por_tabla config \<and> length (tables_lvl_1 m) \<le> n \<and>
    length (tables_lvl_2 m) \<le> n * unat (entradas_por_tabla config)"
  using assms
proof (induction rule: serves.induct)
  case (start config env m)
  then show ?case using on_init_memory_wf [OF start(1)] by simp
next
  case (request config env n m junk pj s m' s' go_on)
  let ?e = "unat (entradas_por_tabla config)"
  have "(n + 1) * ?e \<le> (Suc n + 1) * ?e" by (intro mult_le_mono1) simp
  with request have ih: "mem_wf m" "max_rows m = entradas_por_tabla config"
    "length (tables_lvl_1 m) \<le> n" "length (tables_lvl_2 m) \<le> n * ?e"
    by simp_all
  have room: "has_room m"
    using ih request.prems by (simp add: has_room_def)
  have "dirs_grow (Suc 0) m m'" and "mem_wf m'"
    using routine_step_dirs routine_step_wf ih(1) room request.hyps(2) by blast+
  with ih show ?case by (simp add: dirs_grow_def)
qed

subsection \<open>The loop of a client's thread\<close>

text \<open>A handler only takes bytes from its socket; the operation code takes at least one.\<close>

abbreviation pending :: "socket \<Rightarrow> nat" where
  "pending s \<equiv> length (incoming s)"

lemma pending_recv: "recv s n = (r, bytes, s') \<Longrightarrow> pending s' \<le> pending s"
  by (auto simp: recv_def split: if_splits)

lemma pending_stream: "servidor_recibir_stream junk s = (r, s') \<Longrightarrow> pending s' \<le> pending s"
  by (auto simp: servidor_recibir_stream_def recibir_buffer_def Let_def split: prod.splits if_splits
      dest!: pending_recv)

lemma pending_stream_snd: "pending (snd (servidor_recibir_stream junk s)) \<le> pending s"
  using pending_stream [of junk s] by (cases "servidor_recibir_stream junk s") simp

lemma pending_operation:
  "servidor_recibir_operacion junk s = (code, s') \<Longrightarrow> 0 < code \<Longrightarrow> pending s' < pending s"
  by (auto simp: servidor_recibir_operacion_def recibir_operacion_def recv_def split: if_splits)

lemma pending_send:
  "send s bytes = (r, s') \<Longrightarrow> pending s' = pending s"
  "fd_send_value s bytes = (r, s') \<Longrightarrow> pending s' = pending s"
  "servidor_enviar_stream code s bytes n = Some (r, s') \<Longrightarrow> pending s' = pending s"
  by (auto simp: servidor_enviar_stream_def enviar_stream_def fd_send_value_def send_def
      bind_eq_Some_conv split: if_splits)

lemma pending_operands: "receive_operands junk s = Some (pid, v, s') \<Longrightarrow> pending s' \<le> pending s"
  by (auto simp: receive_operands_def Let_def bind_eq_Some_conv split: prod.splits
      dest!: pending_stream)

lemma handlers_pending:
  "yields (\<lambda>(m', s'). pending s' \<le> pending s) (cpu_controller_read junk m s)"
  "yields (\<lambda>(m', s'). pending s' \<le> pending s) (cpu_controller_write junk m s)"
  "yields (\<lambda>(m', s'). pending s' \<le> pending s) (cpu_controller_send_frame junk m s)"
  "yields (\<lambda>(m', s'). pending s' \<le> pending s) (cpu_controller_send_page_second_level junk m s)"
  "yields (\<lambda>(m', s'). pending s' \<le> pending s) (kernel_controller_swap junk pj m s)"
  "yields (\<lambda>(m', s'). pending s' \<le> pending s) (kernel_controller_read_swap junk m s)"
  "yields (\<lambda>(m', s'). pending s' \<le> pending s) (kernel_controller_destroy_process_file junk m s)"
  "yields (\<lambda>(m', s'). pending s' \<le> pending s) (kernel_controller_memory_init junk m s)"
  unfolding cpu_controller_read_def cpu_controller_write_def cpu_controller_send_frame_def
    cpu_controller_send_page_second_level_def kernel_controller_swap_def
    kernel_controller_read_swap_def kernel_controller_destroy_process_file_def
    kernel_controller_memory_init_def
  by (intro yields_rules;
      auto dest!: pending_stream [OF sym] pending_operands pending_send
        pending_send(2) [OF sym])+

lemma routine_step_pending:
  assumes run: "routine_step junk pj m s = Some (m', s', True)"
  shows "pending s' < pending s"
proof -
  have less: "pending b < pending s"
    if "yields (\<lambda>(m', s'). pending s' \<le> pending a) x" "x = Some (n, b)" "pending a < pending s"
    for x n a and b :: socket
    using that by (auto simp: yields_def)
  have "yields (\<lambda>(m', s', go_on). go_on \<longrightarrow> pending s' < pending s) (routine_step junk pj m s)"
    unfolding routine_step_def
    by (intro yields_rules)
      (auto simp: cpu_controller_send_size_def cpu_controller_send_entries_def
         intro: handlers_pending [THEN less] le_less_trans [OF pending_stream_snd]
         dest!: pending_operation [OF sym]
           pending_send(2)
         split: option.splits opcode_t.splits prod.splits)
  with run show ?thesis by (simp add: yields_def)
qed

lemma routine_ends:
  "pending s < fuel \<Longrightarrow> routine fuel junk pj m s = Some (m', s', b) \<Longrightarrow> \<not> b"
proof (induction fuel arbitrary: m s)
  case 0
  then show ?case by simp
next
  case (Suc fuel)
  obtain m1 s1 g where step: "routine_step junk pj m s = Some (m1, s1, g)"
    and rest: "(if g then routine fuel junk pj m1 s1 else Some (m1, s1, False)) = Some (m', s', b)"
    using Suc.prems(2) by (auto simp: bind_eq_Some_conv)
  show ?case
  proof (cases g)
    case True
    then have "pending s1 < pending s" using routine_step_pending step by simp
    with Suc.IH [of s1 m1] Suc.prems(1) rest True show ?thesis by simp
  qed (use rest in simp)
qed

end
