(* ===== verification/Page_Fault.thy ===== *)
theory Page_Fault
  imports Memory_Invariant
begin

section \<open>Page faults\<close>

text \<open>
  What \<open>obtain_frame\<close> of \<open>memory/src/server/cpu_controller.c\<close> does when the page is not in
  memory: the number of present pages of a process decides whether a victim is chosen, and a
  process below its limit takes the least free frame.
\<close>

subsection \<open>Counting the present pages of a process\<close>

definition present_pages :: "page_table_lvl_2 list \<Rightarrow> nat" where
  "present_pages rs = length (filter present rs)"

lemma count_table:
  "foldM (\<lambda>j count. do { row \<leftarrow> arr_get t j; Some (if present row then count + 1 else count) })
     [0..<length t] (c :: u32) = Some (c + word_of_nat (present_pages t))"
proof -
  have "foldM (\<lambda>j count. do { row \<leftarrow> arr_get t j; Some (if present row then count + 1 else count) })
     [0..<length t] c = foldM (\<lambda>row count. Some (if present row then count + 1 else count)) t c"
    by (rule foldM_elements)
  also have "\<dots> = Some (c + word_of_nat (present_pages t))"
    by (induction t arbitrary: c) (simp_all add: present_pages_def add_ac)
  finally show ?thesis .
qed

lemma view_table:
  assumes "safe_list_get (tables_lvl_2 m) (sint s) = Some t" and "length t = n"
  shows "view (map (Pair (sint s)) [0..<n]) m = t"
  using assms by (intro nth_equalityI) (simp_all add: view_def deref_row_def)

lemma view_row_refs:
  "view (row_refs n (s # ids)) m = view (map (Pair (sint s)) [0..<n]) m @ view (row_refs n ids) m"
  by (simp add: view_def row_refs_def)

lemma count_tables:
  assumes "\<And>s. s \<in> set ids \<Longrightarrow>
      \<exists>t. safe_list_get (tables_lvl_2 m) (sint s) = Some t \<and> length t = rows_of m"
  shows "foldM (\<lambda>s count.
      case safe_list_get (tables_lvl_2 m) (sint s) of
        None \<Rightarrow> Some count
      | Some t \<Rightarrow> foldM (\<lambda>j count. do {
            row \<leftarrow> arr_get t j;
            Some (if present row then count + 1 else count) }) [0..<rows_of m] count) ids (c :: u32) =
    Some (c + word_of_nat (present_pages (view (row_refs (rows_of m) ids) m)))"
  using assms
proof (induction ids arbitrary: c)
  case Nil
  then show ?case by (simp add: row_refs_def view_def present_pages_def)
next
  case (Cons s ids)
  obtain t where t: "safe_list_get (tables_lvl_2 m) (sint s) = Some t" "length t = rows_of m"
    using Cons.prems [of s] by auto
  have "present_pages (view (row_refs (rows_of m) (s # ids)) m) =
      present_pages t + present_pages (view (row_refs (rows_of m) ids) m)"
    using view_table [OF t] by (simp add: view_row_refs present_pages_def)
  then show ?case
    using Cons t count_table [of t c] by (simp add: add_ac)
qed

lemma live_table:
  assumes "tables_wf m" and "safe_list_get (tables_lvl_1 m) i = Some t" and "s \<in> set (map second_page t)"
  shows "\<exists>t2. safe_list_get (tables_lvl_2 m) (sint s) = Some t2 \<and> length t2 = rows_of m"
proof -
  have "lvl2_live m s"
    using assms(1,3) table_ids_in_second_pages [OF assms(2)] by (auto simp: tables_wf_def list_all_iff)
  then obtain t2 where "safe_list_get (tables_lvl_2 m) (sint s) = Some t2"
    by (auto simp: lvl2_live_def)
  with tables_wf_lengths(2) [OF assms(1) this] show ?thesis by blast
qed

lemma count_present_eq:
  assumes wf: "tables_wf m" and rows: "process_rows m ti = Some rs"
  shows "count_present m ti = Some (word_of_nat (present_pages rs))"
proof -
  obtain t where t: "safe_list_get (tables_lvl_1 m) (sint ti) = Some t"
    "rs = view (row_refs (rows_of m) (map second_page t)) m" "length t = rows_of m"
    using process_rows_SomeD [OF wf rows] .
  let ?step = "\<lambda>s count.
      case safe_list_get (tables_lvl_2 m) (sint s) of
        None \<Rightarrow> Some count
      | Some t \<Rightarrow> foldM (\<lambda>j count. do {
            row \<leftarrow> arr_get t j;
            Some (if present row then count + 1 else count) }) [0..<rows_of m] (count :: u32)"
  have "count_present m ti = foldM (\<lambda>e. ?step (second_page e)) t 0"
    using foldM_elements [of t "\<lambda>e. ?step (second_page e)" 0] t(1,3)
    by (simp add: count_present_def)
  also have "\<dots> = foldM ?step (map second_page t) 0"
    by (simp add: foldM_map comp_def)
  also have "\<dots> = Some (word_of_nat (present_pages rs))"
    using count_tables [of "map second_page t" m 0] live_table [OF wf t(1)] t(2) by simp
  finally show ?thesis .
qed

subsection \<open>The process of a level II table\<close>

lemma second_pages_owner:
  assumes wf: "tables_wf m" and t: "safe_list_get (tables_lvl_1 m) (sint ti) = Some t"
    and s: "s \<in> set (map second_page t)"
    and t': "safe_list_get (tables_lvl_1 m) (int k) = Some t'" "s \<in> set (map second_page t')"
  shows "int k = sint ti"
proof (rule ccontr)
  assume ne: "int k \<noteq> sint ti"
  have pos: "0 \<le> sint ti" "nat (sint ti) < length (tables_lvl_1 m)" "k < length (tables_lvl_1 m)"
    "tables_lvl_1 m ! nat (sint ti) = Some t" "tables_lvl_1 m ! k = Some t'"
    using t t' by (auto simp: safe_list_get_def split: if_splits)
  have "distinct (concat (map table_ids (tables_lvl_1 m)))"
    using wf by (simp add: tables_wf_def second_pages_def)
  then have "set (map table_ids (tables_lvl_1 m) ! k) \<inter>
      set (map table_ids (tables_lvl_1 m) ! nat (sint ti)) = {}"
    using distinct_concat_nth pos ne by fastforce
  with pos s t' show False by (auto simp: table_ids_def)
qed

lemma get_table_lvl1_number_eq:
  assumes wf: "tables_wf m" and t: "safe_list_get (tables_lvl_1 m) (sint ti) = Some t"
    and s: "s \<in> set (map second_page t)"
  shows "get_table_lvl1_number m s = Some ti"
proof -
  let ?p = "\<lambda>i. case safe_list_get (tables_lvl_1 m) (int i) of
           None \<Rightarrow> Some False
         | Some table \<Rightarrow> do {
             j \<leftarrow> findM (\<lambda>j. do { e \<leftarrow> arr_get table j; Some (second_page e = s) }) [0..<rows_of m];
             Some (j \<noteq> None) }"
  let ?q = "\<lambda>i. case safe_list_get (tables_lvl_1 m) (int i) of
           None \<Rightarrow> False | Some table \<Rightarrow> s \<in> set (map second_page table)"
  have p: "?p i = Some (?q i)" for i
  proof (cases "safe_list_get (tables_lvl_1 m) (int i)")
    case None
    then show ?thesis by simp
  next
    case (Some t1)
    have len: "length t1 = rows_of m" by (rule tables_wf_lengths(1) [OF wf Some])
    have "findM (\<lambda>j. do { e \<leftarrow> arr_get t1 j; Some (second_page e = s) }) [0..<rows_of m] =
        Some (find (\<lambda>j. second_page (t1 ! j) = s) [0..<rows_of m])"
      by (rule findM_find) (simp add: len)
    moreover have "(find (\<lambda>j. second_page (t1 ! j) = s) [0..<rows_of m] \<noteq> None) =
        (s \<in> set (map second_page t1))"
      by (auto simp: find_None_iff in_set_conv_nth len intro!: imageI nth_mem)
    ultimately show ?thesis using Some by simp
  qed
  have pos: "0 \<le> sint ti" "nat (sint ti) < length (tables_lvl_1 m)"
    using t by (auto simp: safe_list_get_def split: if_splits)
  have "?q (nat (sint ti))" using t s pos(1) by (simp del: safe_list_get_int)
  moreover have "\<not> ?q k" if "k < nat (sint ti)" for k
    using second_pages_owner [OF wf t s, of k] that pos(1)
    by (auto split: option.splits simp del: safe_list_get_int)
  ultimately have "find ?q [0..<length (tables_lvl_1 m)] = Some (nat (sint ti))"
    using pos(2) by (subst find_upt_Some) auto
  moreover have "findM ?p [0..<length (tables_lvl_1 m)] = Some (find ?q [0..<length (tables_lvl_1 m)])"
    by (rule findM_find) (rule p)
  moreover have "word_of_nat (nat (sint ti)) = ti"
    using pos(1) by (simp add: of_nat_nat)
  ultimately show ?thesis
    by (simp add: get_table_lvl1_number_def del: safe_list_get_int)
qed

text \<open>A page is replaced exactly when the process has all the frames it may have.\<close>

lemma should_replace_frame_eq:
  assumes wf: "tables_wf m" and t: "safe_list_get (tables_lvl_1 m) (sint ti) = Some t"
    and s: "s \<in> set (map second_page t)" and rows: "process_rows m ti = Some rs"
  shows "should_replace_frame m s = Some (unat (marcos_por_proceso (cfg m)) \<le> present_pages rs)"
proof -
  have "present_pages rs \<le> length rs" by (simp add: present_pages_def)
  also have "length rs = rows_of m * rows_of m"
    using process_rows_SomeD [OF wf rows] by (metis length_view length_row_refs length_map)
  also have "\<dots> < 2 ^ 32" using wf by (simp add: tables_wf_def)
  finally have small: "unat (word_of_nat (present_pages rs) :: u32) = present_pages rs"
    by (simp add: unat_of_nat)
  show ?thesis
    using get_table_lvl1_number_eq [OF wf t s] print_table_live [OF wf t]
      count_present_eq [OF wf rows] small
    by (simp add: should_replace_frame_def word_le_nat_alt)
qed

subsection \<open>A fault below the limit of the process\<close>

lemma deref_row_frames [simp]: "deref_row (m\<lparr>frames := b\<rparr>) q = deref_row m q"
  by (simp add: deref_row_def)

lemma create_big_table_frames [simp]:
  "create_big_table (m\<lparr>frames := b\<rparr>) ti = create_big_table m ti"
  by (simp add: create_big_table_def split: option.split)

lemma view_frames [simp]: "view bt (m\<lparr>frames := b\<rparr>) = view bt m"
  by (simp add: view_def)

lemma process_rows_frames [simp]: "process_rows (m\<lparr>frames := b\<rparr>) ti = process_rows m ti"
  by (simp add: process_rows_def cong: if_cong)

text \<open>The row that \<open>create_frame_for_table\<close> fills: the first one of the table with no frame.\<close>

definition first_empty_row :: "memory \<Rightarrow> u32 \<Rightarrow> nat option" where
  "first_empty_row m s = find (\<lambda>j. frame_at m (sint s, j) = INVALID_FRAME) [0..<rows_of m]"

lemma create_frame_for_table_eq:
  assumes live: "safe_list_get (tables_lvl_2 m) (sint s) = Some t2" "length t2 = rows_of m"
    and k: "first_empty_row m s = Some k"
  shows "\<exists>m'. create_frame_for_table m s f = Some (m', word_of_nat k) \<and>
    update_row m (sint s, k) (\<lambda>row. row\<lparr>present := True, frame := f, use := True\<rparr>) = Some m'"
proof -
  have d: "deref_row m (sint s, j) = Some (t2 ! j)" if "j < rows_of m" for j
    using live that by (simp add: deref_row_def)
  have "findM (\<lambda>j. do { row \<leftarrow> deref_row m (sint s, j); Some (frame row = INVALID_FRAME) })
      [0..<rows_of m] = Some (find (\<lambda>j. frame_at m (sint s, j) = INVALID_FRAME) [0..<rows_of m])"
    by (rule findM_find) (simp add: d frame_at_def)
  moreover have "k < rows_of m"
    using k by (auto simp: first_empty_row_def dest: find_upt_SomeD)
  then obtain m' where "update_row m (sint s, k)
      (\<lambda>row. row\<lparr>present := True, frame := f, use := True\<rparr>) = Some m'"
    using update_row_defined [OF d] by blast
  ultimately show ?thesis
    using k by (simp add: create_frame_for_table_def first_empty_row_def)
qed

lemma page_fault_free:
  assumes wf: "mem_wf m" and t: "safe_list_get (tables_lvl_1 m) (sint ti) = Some t"
    and s: "s \<in> set (map second_page t)" and rows: "process_rows m ti = Some rs"
    and below: "present_pages rs < unat (marcos_por_proceso (cfg m))"
    and idx: "unat idx < rows_of m" and empty: "frame_at m (sint s, unat idx) = INVALID_FRAME"
    and absent: "\<And>row. deref_row m (sint s, unat idx) = Some row \<Longrightarrow> \<not> present row"
    and free: "find (\<lambda>i. \<not> frames m ! i) [0..<length (frames m)] = Some k"
  shows "\<exists>m' j. obtain_frame m s idx pid = Some (m', word_of_nat k) \<and>
    first_empty_row m s = Some j \<and>
    update_row (m\<lparr>frames := (frames m)[k := True]\<rparr>) (sint s, j)
      (\<lambda>row. row\<lparr>present := True, frame := word_of_nat k, use := True\<rparr>) = Some m'"
proof -
  have twf: "tables_wf m" and len: "length (frames m) = unat (no_of_frames m)"
    using wf frames_wf_length by (simp_all add: mem_wf_def)
  obtain t2 where live: "safe_list_get (tables_lvl_2 m) (sint s) = Some t2" "length t2 = rows_of m"
    using live_table [OF twf t s] by blast
  let ?m = "m\<lparr>frames := (frames m)[k := True]\<rparr>"
  have twf': "tables_wf ?m" by (rule tables_wf_shape [OF twf]) (simp_all add: shape_def)
  have row: "deref_row m (sint s, unat idx) = Some (t2 ! unat idx)" "\<not> present (t2 ! unat idx)"
    "frame (t2 ! unat idx) = INVALID_FRAME"
    using live idx absent empty by (simp_all add: deref_row_def frame_at_def)
  have "first_empty_row m s \<noteq> None"
    using idx empty by (auto simp: first_empty_row_def find_upt_None)
  then obtain j where j: "first_empty_row m s = Some j" by blast
  then have j': "first_empty_row ?m s = Some j"
    by (simp add: first_empty_row_def frame_at_def)
  obtain m' where m': "create_frame_for_table ?m s (word_of_nat k) = Some (m', word_of_nat j)"
    "update_row ?m (sint s, j)
      (\<lambda>row. row\<lparr>present := True, frame := word_of_nat k, use := True\<rparr>) = Some m'"
    using create_frame_for_table_eq [of ?m s t2 j "word_of_nat k"] live j' by auto
  have "find_free_frame m = Some (?m, word_of_nat k)"
    using find_free_frame_eq [OF len] free by simp
  moreover have "should_replace_frame ?m s = Some False"
    using should_replace_frame_eq [OF twf' _ s, of ti rs] t rows below by simp
  moreover have "\<not> idx > max_rows m"
    using idx by (simp add: word_less_nat_alt)
  ultimately have "obtain_frame m s idx pid = Some (m', word_of_nat k)"
    using row m'(1) by (simp add: obtain_frame_def)
  with m'(2) j show ?thesis by blast
qed

text \<open>A page that has a frame but is absent was swapped out: it goes back to the frame of its row,
  and the frame that was found for it is given back before it is returned.\<close>

lemma page_fault_swapped:
  assumes wf: "mem_wf m" and t: "safe_list_get (tables_lvl_1 m) (sint ti) = Some t"
    and s: "s \<in> set (map second_page t)" and rows: "process_rows m ti = Some rs"
    and below: "present_pages rs < unat (marcos_por_proceso (cfg m))"
    and idx: "unat idx < rows_of m" and has: "frame_at m (sint s, unat idx) \<noteq> INVALID_FRAME"
    and absent: "\<And>row. deref_row m (sint s, unat idx) = Some row \<Longrightarrow> \<not> present row"
    and free: "find (\<lambda>i. \<not> frames m ! i) [0..<length (frames m)] = Some k"
  shows "obtain_frame m s idx pid = do {
      m1 \<leftarrow> unswap_frame_for_pcb m pid (frame_at m (sint s, unat idx));
      m2 \<leftarrow> update_row m1 (sint s, unat idx) (\<lambda>row. row\<lparr>use := True\<rparr>);
      Some (m2, word_of_nat k) }"
proof -
  have twf: "tables_wf m" and len: "length (frames m) = unat (no_of_frames m)"
    using wf frames_wf_length by (simp_all add: mem_wf_def)
  let ?m = "m\<lparr>frames := (frames m)[k := True]\<rparr>"
  have twf': "tables_wf ?m" by (rule tables_wf_shape [OF twf]) (simp_all add: shape_def)
  obtain row where row: "deref_row m (sint s, unat idx) = Some row" "frame row \<noteq> INVALID_FRAME"
    "frame_at m (sint s, unat idx) = frame row"
  proof -
    obtain row where "deref_row m (sint s, unat idx) = Some row" "frame row = frame_at m (sint s, unat idx)"
      using frame_at_deref [OF refl has] by blast
    then show thesis by (metis that has)
  qed
  have k: "k < length (frames m)" "\<not> frames m ! k" using find_upt_SomeD [OF free] by simp_all
  then have small: "unat (word_of_nat k :: u32) = k"
    using len unat_u32_bound [of "no_of_frames m"] by (simp add: unat_of_nat)
  have "find_free_frame m = Some (?m, word_of_nat k)"
    using find_free_frame_eq [OF len] free by simp
  moreover have "should_replace_frame ?m s = Some False"
    using should_replace_frame_eq [OF twf' _ s, of ti rs] t rows below by simp
  moreover have "\<not> idx > max_rows m"
    using idx by (simp add: word_less_nat_alt)
  moreover have "delete_frame ?m (word_of_nat k) = Some m"
    using delete_frame_eq [of ?m "word_of_nat k"] len k list_update_id [of "frames m" k] by (simp add: small)
  ultimately show ?thesis
    using row absent [OF row(1)] by (simp add: obtain_frame_def)
qed

end
