(* ===== verification/Tlb.thy ===== *)
theory Tlb
  imports Prelude
begin

section \<open>The translation lookaside buffer: \<open>tlb.c\<close>\<close>

text \<open>
  \<open>cpu/src/module/tlb.c\<close>. The buffer is an array of entries; its size and its replacement
  function are stored in the first one, and are fields of the record here. The \<open>static\<close>
  index of \<open>replace_fifo\<close> outlives \<open>tlb_reset\<close>, so it is not part of the buffer but an
  argument of the operations. An index past the array is a failure.
\<close>

abbreviation PAGINA_VACIA :: u32 where
  "PAGINA_VACIA \<equiv> UINT32_MAX"

record tlb_entry_t =
  pagina :: u32
  marco :: u32
  tiempo_ult_acceso :: u32

datatype tlb_replace = Replace_lru | Replace_fifo

record tlb_t =
  entradas :: "tlb_entry_t list"
  tlb_size :: u32
  replace :: tlb_replace

record tlb_cfg =
  entradas_tlb :: u32
  reemplazo_tlb :: string

definition empty_entry :: tlb_entry_t where
  "empty_entry = \<lparr>pagina = PAGINA_VACIA, marco = PAGINA_VACIA, tiempo_ult_acceso = 0\<rparr>"

text \<open>With no entries the first one is written outside the block.\<close>

definition tlb_init :: "tlb_cfg \<Rightarrow> tlb_t option" where
  "tlb_init c =
     (if entradas_tlb c = 0 then None
      else Some \<lparr>entradas = replicate (unat (entradas_tlb c)) empty_entry,
                 tlb_size = entradas_tlb c,
                 replace = (if reemplazo_tlb c = ''LRU'' then Replace_lru else Replace_fifo)\<rparr>)"

definition tlb_reset :: "tlb_cfg \<Rightarrow> tlb_t \<Rightarrow> tlb_t option" where
  "tlb_reset c tlb = tlb_init c"

definition set_page :: "tlb_t \<Rightarrow> nat \<Rightarrow> u32 \<Rightarrow> u32 \<Rightarrow> tlb_t option" where
  "set_page self i p f = do {
     e \<leftarrow> arr_get (entradas self) i;
     es \<leftarrow> arr_set (entradas self) i (e\<lparr>pagina := p, marco := f\<rparr>);
     Some (self\<lparr>entradas := es\<rparr>) }"

definition set_time :: "tlb_t \<Rightarrow> nat \<Rightarrow> u32 \<Rightarrow> tlb_t option" where
  "set_time self i t = do {
     e \<leftarrow> arr_get (entradas self) i;
     es \<leftarrow> arr_set (entradas self) i (e\<lparr>tiempo_ult_acceso := t\<rparr>);
     Some (self\<lparr>entradas := es\<rparr>) }"

definition replace_fifo :: "nat \<Rightarrow> tlb_t \<Rightarrow> u32 \<Rightarrow> u32 \<Rightarrow> (tlb_t \<times> nat) option" where
  "replace_fifo i self nueva_pagina nuevo_frame = do {
     self \<leftarrow> set_page self i nueva_pagina nuevo_frame;
     Some (self, if i + 1 < unat (tlb_size self) then i + 1 else 0) }"

text \<open>The first loop of \<open>replace_lru\<close> ages every entry up to the first empty one; the result
  says whether it stopped there.\<close>

function lru_age :: "tlb_t \<Rightarrow> nat \<Rightarrow> u32 \<Rightarrow> u32 \<Rightarrow> (tlb_t \<times> bool) option" where
  "lru_age self i nueva_pagina nuevo_frame =
     (if i < unat (tlb_size self)
      then do {
        e \<leftarrow> arr_get (entradas self) i;
        self' \<leftarrow> set_time self i (tiempo_ult_acceso e + 1);
        if pagina e = PAGINA_VACIA
        then do {
          self' \<leftarrow> set_page self' i nueva_pagina nuevo_frame;
          self' \<leftarrow> set_time self' i 0;
          Some (self', True) }
        else lru_age self' (Suc i) nueva_pagina nuevo_frame }
      else Some (self, False))"
  by pat_completeness auto
termination
  by (relation "measure (\<lambda>(self, i, p, f). unat (tlb_size self) - i)")
    (auto simp: set_time_def bind_eq_Some_conv)

declare lru_age.simps [simp del]

text \<open>The second loop; \<open>None\<close> in the result is the index that was never set.\<close>

definition lru_oldest :: "tlb_t \<Rightarrow> nat option option" where
  "lru_oldest self =
     map_option fst
       (foldM (\<lambda>i (index, oldest). do {
          e \<leftarrow> arr_get (entradas self) i;
          Some (if tiempo_ult_acceso e > oldest then (Some i, tiempo_ult_acceso e)
                else (index, oldest)) })
        [0..<unat (tlb_size self)] (None, 0))"

definition replace_lru :: "tlb_t \<Rightarrow> u32 \<Rightarrow> u32 \<Rightarrow> tlb_t option" where
  "replace_lru self nueva_pagina nuevo_frame = do {
     (self, added) \<leftarrow> lru_age self 0 nueva_pagina nuevo_frame;
     if added then Some self
     else do {
       index \<leftarrow> lru_oldest self;
       i \<leftarrow> index;
       self \<leftarrow> set_page self i nueva_pagina nuevo_frame;
       set_time self i 0 } }"

text \<open>\<open>tlb->replace\<close>: the call through the function pointer.\<close>

definition tlb_replace_call :: "nat \<Rightarrow> tlb_t \<Rightarrow> u32 \<Rightarrow> u32 \<Rightarrow> (tlb_t \<times> nat) option" where
  "tlb_replace_call i self p f =
     (case replace self of
        Replace_fifo \<Rightarrow> replace_fifo i self p f
      | Replace_lru \<Rightarrow> map_option (\<lambda>self. (self, i)) (replace_lru self p f))"

text \<open>The frame is \<open>Some\<close> on a hit. The entries before the one that is found age, the ones
  after it do not.\<close>

function tlb_scan :: "tlb_t \<Rightarrow> nat \<Rightarrow> u32 \<Rightarrow> (tlb_t \<times> u32 option) option" where
  "tlb_scan self i numero_pagina =
     (if i < unat (tlb_size self)
      then do {
        e \<leftarrow> arr_get (entradas self) i;
        if pagina e = numero_pagina
        then do {
          self' \<leftarrow> set_time self i 0;
          Some (self', Some (marco e)) }
        else do {
          self' \<leftarrow> set_time self i (tiempo_ult_acceso e + 1);
          tlb_scan self' (Suc i) numero_pagina } }
      else Some (self, None))"
  by pat_completeness auto
termination
  by (relation "measure (\<lambda>(self, i, p). unat (tlb_size self) - i)")
    (auto simp: set_time_def bind_eq_Some_conv)

declare tlb_scan.simps [simp del]

definition page_in_TLB :: "tlb_t \<Rightarrow> u32 \<Rightarrow> (tlb_t \<times> u32 option) option" where
  "page_in_TLB self numero_pagina = tlb_scan self 0 numero_pagina"

subsection \<open>The buffer as a list of pairs\<close>

definition tlb_pairs :: "tlb_t \<Rightarrow> (u32 \<times> u32) list" where
  "tlb_pairs self = map (\<lambda>e. (pagina e, marco e)) (entradas self)"

definition tlb_wf :: "tlb_t \<Rightarrow> bool" where
  "tlb_wf self \<longleftrightarrow> entradas self \<noteq> [] \<and> length (entradas self) = unat (tlb_size self)"

lemma length_tlb_pairs [simp]: "length (tlb_pairs self) = length (entradas self)"
  by (simp add: tlb_pairs_def)

lemma tlb_init_wf:
  assumes "tlb_init c = Some tlb"
  shows "tlb_wf tlb" and "set (tlb_pairs tlb) = {(PAGINA_VACIA, PAGINA_VACIA)}"
  using assms
  by (auto simp: tlb_init_def tlb_wf_def tlb_pairs_def empty_entry_def unat_eq_0 split: if_splits)

lemma set_time_eq:
  "i < length (entradas self) \<Longrightarrow> set_time self i t =
    Some (self\<lparr>entradas := (entradas self)[i := (entradas self ! i)\<lparr>tiempo_ult_acceso := t\<rparr>]\<rparr>)"
  by (simp add: set_time_def)

lemma set_page_eq:
  "i < length (entradas self) \<Longrightarrow> set_page self i p f =
    Some (self\<lparr>entradas := (entradas self)[i := (entradas self ! i)\<lparr>pagina := p, marco := f\<rparr>]\<rparr>)"
  by (simp add: set_page_def)

lemma tlb_pairs_set_time:
  "set_time self i t = Some self' \<Longrightarrow> tlb_pairs self' = tlb_pairs self \<and>
    length (entradas self') = length (entradas self) \<and> tlb_size self' = tlb_size self \<and>
    replace self' = replace self"
  by (auto simp: set_time_def tlb_pairs_def bind_eq_Some_conv array_simps map_update
      list_update_same_conv)

lemma tlb_pairs_set_page:
  "set_page self i p f = Some self' \<Longrightarrow> tlb_pairs self' = (tlb_pairs self)[i := (p, f)] \<and>
    length (entradas self') = length (entradas self) \<and> tlb_size self' = tlb_size self \<and>
    replace self' = replace self"
  by (auto simp: set_page_def tlb_pairs_def bind_eq_Some_conv array_simps map_update)

lemma tlb_scan_eq:
  "length (entradas self) = unat (tlb_size self) \<Longrightarrow>
    \<exists>self'. tlb_scan self i p = Some (self', map_of (drop i (tlb_pairs self)) p) \<and>
      tlb_pairs self' = tlb_pairs self \<and> tlb_size self' = tlb_size self \<and>
      replace self' = replace self"
proof (induction self i p rule: tlb_scan.induct)
  case (1 self i p)
  show ?case
  proof (cases "i < unat (tlb_size self)")
    case False
    with 1 show ?thesis by (subst tlb_scan.simps) simp
  next
    case True
    let ?e = "entradas self ! i"
    have i: "i < length (entradas self)" using True 1 by simp
    have drop: "drop i (tlb_pairs self) = (pagina ?e, marco ?e) # drop (Suc i) (tlb_pairs self)"
      using i by (simp add: tlb_pairs_def flip: Cons_nth_drop_Suc)
    obtain s where s: "set_time self i (if pagina ?e = p then 0 else tiempo_ult_acceso ?e + 1) = Some s"
      using set_time_eq [OF i] by blast
    note pairs = tlb_pairs_set_time [OF s]
    show ?thesis
    proof (cases "pagina ?e = p")
      case hit: True
      with s pairs True i drop show ?thesis by (subst tlb_scan.simps) simp
    next
      case miss: False
      have "tlb_scan self i p = tlb_scan s (Suc i) p"
        using s True i miss by (subst tlb_scan.simps) simp
      moreover have "\<exists>self'. tlb_scan s (Suc i) p = Some (self', map_of (drop (Suc i) (tlb_pairs s)) p) \<and>
          tlb_pairs self' = tlb_pairs s \<and> tlb_size self' = tlb_size s \<and> replace self' = replace s"
        using 1(2) True i miss s pairs by (intro 1(1)) simp_all
      ultimately show ?thesis
        using pairs drop miss by simp
    qed
  qed
qed

lemma page_in_TLB_eq:
  assumes "tlb_wf self"
  shows "\<exists>self'. page_in_TLB self p = Some (self', map_of (tlb_pairs self) p) \<and>
    tlb_pairs self' = tlb_pairs self \<and> tlb_wf self' \<and> replace self' = replace self"
proof -
  obtain self' where s: "tlb_scan self 0 p = Some (self', map_of (tlb_pairs self) p)"
    "tlb_pairs self' = tlb_pairs self" "tlb_size self' = tlb_size self" "replace self' = replace self"
    using assms tlb_scan_eq [of self 0 p] by (auto simp: tlb_wf_def)
  from s(2) have "length (entradas self') = length (entradas self)"
    by (metis length_tlb_pairs)
  moreover from this assms have "entradas self' \<noteq> []"
    by (auto simp: tlb_wf_def)
  ultimately show ?thesis
    using s assms by (auto simp: page_in_TLB_def tlb_wf_def)
qed

subsection \<open>FIFO is a queue of the last insertions\<close>

text \<open>The buffer read from the index on is the queue of its entries, oldest first.\<close>

definition fifo_queue :: "tlb_t \<Rightarrow> nat \<Rightarrow> (u32 \<times> u32) list" where
  "fifo_queue self i = drop i (tlb_pairs self) @ take i (tlb_pairs self)"

lemma replace_fifo_queue:
  assumes "tlb_wf self" and "i < length (entradas self)"
  shows "\<exists>self' i'. replace_fifo i self p f = Some (self', i') \<and> tlb_wf self' \<and>
    i' < length (entradas self') \<and> tlb_pairs self' = (tlb_pairs self)[i := (p, f)] \<and>
    replace self' = replace self \<and>
    fifo_queue self' i' = tl (fifo_queue self i) @ [(p, f)]"
proof -
  obtain s where s: "set_page self i p f = Some s"
    using set_page_eq [OF assms(2)] by blast
  note pairs = tlb_pairs_set_page [OF s]
  let ?i = "if i + 1 < unat (tlb_size self) then i + 1 else 0"
  have drop: "drop i (tlb_pairs self) = tlb_pairs self ! i # drop (Suc i) (tlb_pairs self)"
    using assms(2) by (simp add: Cons_nth_drop_Suc)
  have "fifo_queue s ?i = tl (fifo_queue self i) @ [(p, f)]"
  proof (cases "i + 1 < unat (tlb_size self)")
    case True
    then show ?thesis
      using assms(2) pairs drop by (simp add: fifo_queue_def take_Suc_conv_app_nth drop_update_cancel)
  next
    case False
    with assms have "Suc i = length (tlb_pairs self)" by (simp add: tlb_wf_def)
    then show ?thesis
      using assms(2) False pairs drop
      by (simp add: fifo_queue_def upd_conv_take_nth_drop)
  qed
  moreover have "tlb_wf s"
    using pairs assms(1) by (auto simp: tlb_wf_def)
  ultimately show ?thesis
    using s pairs assms by (auto simp: replace_fifo_def tlb_wf_def)
qed

subsection \<open>LRU\<close>

text \<open>An entry that ages, and what the first loop does to the entries it has before it: it writes
  the new pair into the first empty one, and those behind that do not age.\<close>

definition aged :: "tlb_entry_t \<Rightarrow> tlb_entry_t" where
  "aged e = e\<lparr>tiempo_ult_acceso := tiempo_ult_acceso e + 1\<rparr>"

lemma entry_filled:
  "e\<lparr>pagina := p, marco := f, tiempo_ult_acceso := t\<rparr> = \<lparr>pagina = p, marco = f, tiempo_ult_acceso = t\<rparr>"
  for e :: tlb_entry_t
  by (cases e) simp

primrec lru_place :: "u32 \<Rightarrow> u32 \<Rightarrow> tlb_entry_t list \<Rightarrow> tlb_entry_t list" where
  "lru_place p f [] = []"
| "lru_place p f (e # es) =
     (if pagina e = PAGINA_VACIA then \<lparr>pagina = p, marco = f, tiempo_ult_acceso = 0\<rparr> # es
      else aged e # lru_place p f es)"

lemma lru_place_find:
  "lru_place p f es =
    (case find (\<lambda>j. pagina (es ! j) = PAGINA_VACIA) [0..<length es] of
       Some j \<Rightarrow> map aged (take j es) @ \<lparr>pagina = p, marco = f, tiempo_ult_acceso = 0\<rparr> # drop (Suc j) es
     | None \<Rightarrow> map aged es)"
proof (induction es)
  case Nil
  then show ?case by simp
next
  case (Cons e es)
  have upt: "[0..<length (e # es)] = 0 # map Suc [0..<length es]"
    by (simp add: map_Suc_upt upt_conv_Cons del: upt_Suc)
  have find_Suc: "find P (map Suc xs) = map_option Suc (find (\<lambda>j. P (Suc j)) xs)" for P and xs :: "nat list"
    by (induction xs) auto
  show ?case
    unfolding upt using Cons by (auto simp: find_Suc split: option.split)
qed

lemma lru_empty_find:
  "list_ex (\<lambda>e. pagina e = PAGINA_VACIA) es \<longleftrightarrow>
    find (\<lambda>j. pagina (es ! j) = PAGINA_VACIA) [0..<length es] \<noteq> None"
  by (auto simp: find_None_iff list_ex_length)

lemma lru_age_eq:
  "length (entradas self) = unat (tlb_size self) \<Longrightarrow> i \<le> length (entradas self) \<Longrightarrow>
    lru_age self i p f =
      Some (self\<lparr>entradas := take i (entradas self) @ lru_place p f (drop i (entradas self))\<rparr>,
        list_ex (\<lambda>e. pagina e = PAGINA_VACIA) (drop i (entradas self)))"
proof (induction self i p f rule: lru_age.induct)
  case (1 self i p f)
  let ?es = "entradas self"
  show ?case
  proof (cases "i < unat (tlb_size self)")
    case False
    with 1 show ?thesis by (subst lru_age.simps) simp
  next
    case True
    let ?e = "?es ! i"
    have i: "i < length ?es" using True 1(2) by simp
    have drop: "drop i ?es = ?e # drop (Suc i) ?es" using i by (simp add: Cons_nth_drop_Suc)
    have upd: "?es[i := x] = take i ?es @ x # drop (Suc i) ?es" for x
      using i by (simp add: upd_conv_take_nth_drop)
    have s: "set_time self i (tiempo_ult_acceso ?e + 1) = Some (self\<lparr>entradas := ?es[i := aged ?e]\<rparr>)"
      using set_time_eq [OF i] by (simp add: aged_def)
    show ?thesis
    proof (cases "pagina ?e = PAGINA_VACIA")
      case empty: True
      let ?new = "\<lparr>pagina = p, marco = f, tiempo_ult_acceso = 0\<rparr>"
      have "set_page (self\<lparr>entradas := ?es[i := aged ?e]\<rparr>) i p f =
          Some (self\<lparr>entradas := ?es[i := (aged ?e)\<lparr>pagina := p, marco := f\<rparr>]\<rparr>)"
        using i by (simp add: set_page_eq)
      moreover have "set_time (self\<lparr>entradas := ?es[i := (aged ?e)\<lparr>pagina := p, marco := f\<rparr>]\<rparr>) i 0 =
          Some (self\<lparr>entradas := ?es[i := ?new]\<rparr>)"
        using i by (simp add: set_time_eq entry_filled)
      ultimately have "lru_age self i p f = Some (self\<lparr>entradas := ?es[i := ?new]\<rparr>, True)"
        using True i s empty by (subst lru_age.simps) simp
      then show ?thesis using empty by (simp add: drop upd)
    next
      case used: False
      let ?s = "self\<lparr>entradas := ?es[i := aged ?e]\<rparr>"
      have step: "lru_age self i p f = lru_age ?s (Suc i) p f"
        using True i s used by (subst lru_age.simps) simp
      have "lru_age ?s (Suc i) p f =
          Some (?s\<lparr>entradas := take (Suc i) (entradas ?s) @ lru_place p f (drop (Suc i) (entradas ?s))\<rparr>,
            list_ex (\<lambda>e. pagina e = PAGINA_VACIA) (drop (Suc i) (entradas ?s)))"
        by (rule 1(1) [OF True _ s used]) (use i 1(2) in simp_all)
      then show ?thesis
        unfolding step using i used by (simp add: drop take_Suc_conv_app_nth)
    qed
  qed
qed

definition oldest_entry :: "tlb_t \<Rightarrow> nat \<Rightarrow> bool" where
  "oldest_entry self k \<longleftrightarrow> k < length (entradas self) \<and>
     (\<forall>j < length (entradas self). tiempo_ult_acceso (entradas self ! j) \<le> tiempo_ult_acceso (entradas self ! k)) \<and>
     (\<forall>j < k. tiempo_ult_acceso (entradas self ! j) < tiempo_ult_acceso (entradas self ! k))"

lemma lru_oldest_eq:
  assumes "length (entradas self) = unat (tlb_size self)"
  shows "if list_all (\<lambda>e. tiempo_ult_acceso e = 0) (entradas self) then lru_oldest self = Some None
    else \<exists>k. lru_oldest self = Some (Some k) \<and> oldest_entry self k"
proof -
  let ?t = "\<lambda>j. tiempo_ult_acceso (entradas self ! j)"
  let ?step = "\<lambda>i (index, oldest). do {
          e \<leftarrow> arr_get (entradas self) i;
          Some (if tiempo_ult_acceso e > oldest then (Some i, tiempo_ult_acceso e)
                else (index, oldest)) }"
  have "\<exists>index oldest. foldM ?step [0..<n] (None, 0) = Some (index, oldest) \<and>
      (\<forall>j < n. ?t j \<le> oldest) \<and>
      (case index of None \<Rightarrow> oldest = 0
       | Some k \<Rightarrow> k < n \<and> ?t k = oldest \<and> oldest \<noteq> 0 \<and> (\<forall>j < k. ?t j < oldest))"
    if "n \<le> length (entradas self)" for n
    using that
  proof (induction n)
    case 0
    then show ?case by simp
  next
    case (Suc n)
    then obtain index oldest where IH: "foldM ?step [0..<n] (None, 0) = Some (index, oldest)"
      "\<forall>j < n. ?t j \<le> oldest"
      "case index of None \<Rightarrow> oldest = 0
       | Some k \<Rightarrow> k < n \<and> ?t k = oldest \<and> oldest \<noteq> 0 \<and> (\<forall>j < k. ?t j < oldest)"
      by auto
    have run: "foldM ?step [0..<Suc n] (None, 0) =
        Some (if ?t n > oldest then (Some n, ?t n) else (index, oldest))"
      using IH(1) Suc.prems by (simp add: foldM_append)
    show ?case
    proof (cases "?t n > oldest")
      case True
      then have "?t n \<noteq> 0" by auto
      with True IH(2) run show ?thesis by (auto simp: less_Suc_eq)
    next
      case False
      with IH run show ?thesis
        by (auto simp: less_Suc_eq not_less split: option.splits)
    qed
  qed
  from this [of "length (entradas self)"] obtain index oldest where
    run: "foldM ?step [0..<length (entradas self)] (None, 0) = Some (index, oldest)"
    and max: "\<forall>j < length (entradas self). ?t j \<le> oldest"
    and idx: "case index of None \<Rightarrow> oldest = 0
       | Some k \<Rightarrow> k < length (entradas self) \<and> ?t k = oldest \<and> oldest \<noteq> 0 \<and> (\<forall>j < k. ?t j < oldest)"
    by auto
  show ?thesis
  proof (cases index)
    case None
    with idx max have "list_all (\<lambda>e. tiempo_ult_acceso e = 0) (entradas self)"
      by (simp add: list_all_length)
    then show ?thesis using None run assms by (simp add: lru_oldest_def)
  next
    case (Some k)
    with idx max have k: "oldest_entry self k" by (simp add: oldest_entry_def)
    moreover have "\<not> list_all (\<lambda>e. tiempo_ult_acceso e = 0) (entradas self)"
      using idx Some by (auto simp: list_all_length)
    ultimately show ?thesis using Some run assms by (simp add: lru_oldest_def)
  qed
qed

text \<open>Where the new pair goes: the first empty entry, or else the first one with the greatest counter
  after this call has aged them all; when all the counters wrap around to zero the index is not
  set.\<close>

lemma replace_lru_eq:
  assumes "tlb_wf self"
  shows "case find (\<lambda>j. pagina (entradas self ! j) = PAGINA_VACIA) [0..<length (entradas self)] of
      Some j \<Rightarrow> replace_lru self p f = Some (self\<lparr>entradas := map aged (take j (entradas self)) @
        \<lparr>pagina = p, marco = f, tiempo_ult_acceso = 0\<rparr> # drop (Suc j) (entradas self)\<rparr>)
    | None \<Rightarrow>
        if list_all (\<lambda>e. tiempo_ult_acceso e = UINT32_MAX) (entradas self) then replace_lru self p f = None
        else \<exists>k. oldest_entry (self\<lparr>entradas := map aged (entradas self)\<rparr>) k \<and>
          replace_lru self p f = Some (self\<lparr>entradas := (map aged (entradas self))
            [k := \<lparr>pagina = p, marco = f, tiempo_ult_acceso = 0\<rparr>]\<rparr>)"
proof -
  let ?es = "entradas self" and ?s = "self\<lparr>entradas := map aged (entradas self)\<rparr>"
  have len: "length ?es = unat (tlb_size self)" using assms by (simp add: tlb_wf_def)
  have age: "lru_age self 0 p f =
      Some (self\<lparr>entradas := lru_place p f ?es\<rparr>, list_ex (\<lambda>e. pagina e = PAGINA_VACIA) ?es)"
    using lru_age_eq [OF len, of 0 p f] by simp
  show ?thesis
  proof (cases "find (\<lambda>j. pagina (?es ! j) = PAGINA_VACIA) [0..<length ?es]")
    case (Some j)
    then show ?thesis using age by (simp add: replace_lru_def lru_place_find lru_empty_find)
  next
    case None
    then have run: "replace_lru self p f = do {
        index \<leftarrow> lru_oldest ?s; i \<leftarrow> index; self \<leftarrow> set_page ?s i p f; set_time self i 0 }"
      using age by (simp add: replace_lru_def lru_place_find lru_empty_find)
    have zero: "list_all (\<lambda>e. tiempo_ult_acceso e = 0) (entradas ?s) \<longleftrightarrow>
        list_all (\<lambda>e. tiempo_ult_acceso e = UINT32_MAX) ?es"
      by (simp add: list.pred_map comp_def aged_def add_eq_0_iff2 minus_1_u32)
    note oldest = lru_oldest_eq [of ?s, unfolded zero]
    show ?thesis
    proof (cases "list_all (\<lambda>e. tiempo_ult_acceso e = UINT32_MAX) ?es")
      case True
      then show ?thesis using None run oldest len by simp
    next
      case False
      then obtain k where k: "lru_oldest ?s = Some (Some k)" "oldest_entry ?s k"
        using oldest len by auto
      then have kl: "k < length ?es" by (simp add: oldest_entry_def)
      have "replace_lru self p f = Some (self\<lparr>entradas := (map aged ?es)
          [k := \<lparr>pagina = p, marco = f, tiempo_ult_acceso = 0\<rparr>]\<rparr>)"
        using run k(1) kl by (simp add: set_page_eq set_time_eq entry_filled)
      with None False k(2) show ?thesis by auto
    qed
  qed
qed

text \<open>The pairs after a replacement that is defined.\<close>

lemma replace_lru_pairs:
  assumes "tlb_wf self" and "\<not> list_all (\<lambda>e. tiempo_ult_acceso e = UINT32_MAX) (entradas self)"
  obtains self' k where "replace_lru self p f = Some self'" and "tlb_wf self'"
    and "tlb_pairs self' = (tlb_pairs self)[k := (p, f)]" and "k < length (entradas self)"
proof -
  have aged: "(\<lambda>e. (pagina e, marco e)) \<circ> aged = (\<lambda>e. (pagina e, marco e))"
    by (simp add: fun_eq_iff aged_def)
  show thesis
  proof (cases "find (\<lambda>j. pagina (entradas self ! j) = PAGINA_VACIA) [0..<length (entradas self)]")
    case (Some j)
    then have j: "j < length (entradas self)" by (auto dest: find_upt_SomeD)
    show thesis
    proof (rule that [OF _ _ _ j])
      show "replace_lru self p f = Some (self\<lparr>entradas := map aged (take j (entradas self)) @
        \<lparr>pagina = p, marco = f, tiempo_ult_acceso = 0\<rparr> # drop (Suc j) (entradas self)\<rparr>)"
        using replace_lru_eq [OF assms(1), of p f] Some by simp
    qed (use j assms(1) in \<open>auto simp: tlb_wf_def tlb_pairs_def aged upd_conv_take_nth_drop take_map drop_map\<close>)
  next
    case None
    then obtain k where k: "k < length (entradas self)"
      "replace_lru self p f = Some (self\<lparr>entradas := (map aged (entradas self))
        [k := \<lparr>pagina = p, marco = f, tiempo_ult_acceso = 0\<rparr>]\<rparr>)"
      using replace_lru_eq [OF assms(1), of p f] assms(2) by (auto simp: oldest_entry_def)
    show thesis
      by (rule that [OF k(2) _ _ k(1)]) (use k assms(1) in \<open>auto simp: tlb_wf_def tlb_pairs_def aged map_update\<close>)
  qed
qed

subsection \<open>A miss, then the insertion\<close>

lemma tlb_scan_miss_ages:
  "length (entradas self) = unat (tlb_size self) \<Longrightarrow> i \<le> length (entradas self) \<Longrightarrow>
    map_of (drop i (tlb_pairs self)) p = None \<Longrightarrow>
    \<exists>self'. tlb_scan self i p = Some (self', None) \<and>
      entradas self' = take i (entradas self) @
        map (\<lambda>e. e\<lparr>tiempo_ult_acceso := tiempo_ult_acceso e + 1\<rparr>) (drop i (entradas self))"
proof (induction self i p rule: tlb_scan.induct)
  case (1 self i p)
  show ?case
  proof (cases "i < unat (tlb_size self)")
    case False
    with 1 show ?thesis by (subst tlb_scan.simps) simp
  next
    case True
    let ?e = "entradas self ! i" and ?es = "entradas self"
    have i: "i < length ?es" using True 1 by simp
    have drop: "drop i (tlb_pairs self) = (pagina ?e, marco ?e) # drop (Suc i) (tlb_pairs self)"
      using i by (simp add: tlb_pairs_def flip: Cons_nth_drop_Suc)
    then have miss: "pagina ?e \<noteq> p" "map_of (drop (Suc i) (tlb_pairs self)) p = None"
      using 1(4) by (auto split: if_splits)
    let ?s = "self\<lparr>entradas := ?es[i := ?e\<lparr>tiempo_ult_acceso := tiempo_ult_acceso ?e + 1\<rparr>]\<rparr>"
    have s: "set_time self i (tiempo_ult_acceso ?e + 1) = Some ?s"
      by (rule set_time_eq [OF i])
    have "tlb_scan self i p = tlb_scan ?s (Suc i) p"
      using s True i miss(1) by (subst tlb_scan.simps) simp
    moreover have "\<exists>self'. tlb_scan ?s (Suc i) p = Some (self', None) \<and>
        entradas self' = take (Suc i) (entradas ?s) @
          map (\<lambda>e. e\<lparr>tiempo_ult_acceso := tiempo_ult_acceso e + 1\<rparr>) (drop (Suc i) (entradas ?s))"
      using 1(2) i miss tlb_pairs_set_time [OF s] s
      by (intro 1(1) [OF True _ miss(1)]) simp_all
    moreover have "?es = take i ?es @ ?e # drop (Suc i) ?es"
      using i by (simp add: id_take_nth_drop)
    then have "map g (drop i ?es) = g ?e # map g (drop (Suc i) ?es)" for g :: "tlb_entry_t \<Rightarrow> tlb_entry_t"
      using i by (simp flip: Cons_nth_drop_Suc)
    ultimately show ?thesis
      using i by (auto simp: take_Suc_conv_app_nth)
  qed
qed

lemma map_of_update_new:
  "map_of xs p = None \<Longrightarrow> k < length xs \<Longrightarrow> map_of (xs[k := (p, f)]) p = Some f"
proof (induction xs arbitrary: k)
  case Nil
  then show ?case by simp
next
  case (Cons x xs)
  then show ?case by (cases k; cases x) (auto split: if_splits)
qed

text \<open>The replacement cannot fail after a miss: some entry keeps an age above zero.\<close>

definition tlb_ready :: "tlb_t \<Rightarrow> nat \<Rightarrow> bool" where
  "tlb_ready self i \<longleftrightarrow> tlb_wf self \<and> i < length (entradas self) \<and>
     (replace self = Replace_lru \<longrightarrow>
       list_ex (\<lambda>e. tiempo_ult_acceso e \<noteq> UINT32_MAX - 1) (entradas self))"

lemma tlb_miss_insert:
  assumes ready: "tlb_ready self i" and miss: "map_of (tlb_pairs self) p = None"
  shows "\<exists>t t' i'. page_in_TLB self p = Some (t, None) \<and>
    tlb_replace_call i t p f = Some (t', i') \<and> tlb_wf t' \<and> map_of (tlb_pairs t') p = Some f"
proof -
  have wf: "tlb_wf self" and i: "i < length (entradas self)" using ready by (simp_all add: tlb_ready_def)
  obtain t where t: "page_in_TLB self p = Some (t, None)" "tlb_pairs t = tlb_pairs self" "tlb_wf t"
    "replace t = replace self"
    using page_in_TLB_eq [OF wf, of p] miss by auto
  have len: "length (entradas t) = length (entradas self)"
    using t(2) by (metis length_tlb_pairs)
  have new: "map_of ((tlb_pairs t)[k := (p, f)]) p = Some f" if "k < length (entradas t)" for k
    using map_of_update_new [of "tlb_pairs t" p k f] miss that by (simp add: t(2) len)
  show ?thesis
  proof (cases "replace self")
    case Replace_fifo
    then show ?thesis
      using replace_fifo_queue [OF t(3), of i p f] i t new [of i]
      by (auto simp: tlb_replace_call_def len)
  next
    case Replace_lru
    obtain t2 where "tlb_scan self 0 p = Some (t2, None)"
      "entradas t2 = map (\<lambda>e. e\<lparr>tiempo_ult_acceso := tiempo_ult_acceso e + 1\<rparr>) (entradas self)"
      using tlb_scan_miss_ages [of self 0 p] wf miss by (auto simp: tlb_wf_def)
    then have es: "entradas t = map (\<lambda>e. e\<lparr>tiempo_ult_acceso := tiempo_ult_acceso e + 1\<rparr>) (entradas self)"
      using t(1) by (simp add: page_in_TLB_def)
    obtain j where "j < length (entradas self)" "tiempo_ult_acceso (entradas self ! j) \<noteq> UINT32_MAX - 1"
      using ready Replace_lru by (auto simp: tlb_ready_def list_ex_length)
    then have "\<not> list_all (\<lambda>e. tiempo_ult_acceso e = UINT32_MAX) (entradas t)"
      by (auto simp: es eq_diff_eq list_all_length)
    from replace_lru_pairs [OF t(3) this, of p f] obtain t' k where
      "replace_lru t p f = Some t'" "tlb_wf t'" "tlb_pairs t' = (tlb_pairs t)[k := (p, f)]"
      "k < length (entradas t)" .
    then show ?thesis
      using t Replace_lru new [of k] by (auto simp: tlb_replace_call_def)
  qed
qed

end
