(* ===== verification/Mmu.thy ===== *)
theory Mmu
  imports Tlb Pcb
begin

section \<open>The CPU's state and its memory management unit\<close>

text \<open>
  \<open>cpu/include/module/cpu.h\<close>, the MMU section of \<open>cpu/src/module/cpu.c\<close> and the requests
  of \<open>cpu/src/client/conexion_memoria.c\<close>. The CPU runs against a memory server: the
  parameter \<open>serve\<close> takes the state of the server and the bytes it is sent to its next state
  and the bytes it answers. \<open>deliver\<close> hands the bytes the CPU has written on its connection
  to the server. The module's own server is put in the place of \<open>serve\<close> in the theory
  \<open>Cpu_Memory\<close>.
\<close>

type_synonym 'm server = "'m \<Rightarrow> byte list \<Rightarrow> ('m \<times> byte list) option"

record cpu_t =
  cpu_pcb :: "pcb_t option"
  has_interruption :: bool
  page_size :: u32
  page_amount_entries :: u32
  tlb :: tlb_t
  fifo_index :: nat
  conexion :: conexion_t
  dispatch_client :: "socket option"
  cpu_in_use :: nat
  pcb_received :: nat
  tlb_config :: tlb_cfg

abbreviation VALOR_INVALIDO :: u32 where
  "VALOR_INVALIDO \<equiv> UINT32_MAX"

subsection \<open>Decomposition of a logical address\<close>

definition div_u32 :: "u32 \<Rightarrow> u32 \<Rightarrow> u32 option" where
  "div_u32 a b = (if b = 0 then None else Some (a div b))"

definition get_page_number :: "u32 \<Rightarrow> u32 \<Rightarrow> u32 option" where
  "get_page_number logic_address page_sz = div_u32 logic_address page_sz"

definition get_offset :: "u32 \<Rightarrow> u32 \<Rightarrow> u32 option" where
  "get_offset direccion_logica page_sz = do {
     n \<leftarrow> get_page_number direccion_logica page_sz;
     Some (direccion_logica - page_sz * n) }"

definition get_entry_lvl_1 :: "u32 \<Rightarrow> u32 \<Rightarrow> u32 option" where
  "get_entry_lvl_1 page_number entries_per_table = div_u32 page_number entries_per_table"

definition get_entry_lvl_2 :: "u32 \<Rightarrow> u32 \<Rightarrow> u32 \<Rightarrow> u32 option" where
  "get_entry_lvl_2 direccion_logica page_sz entries_per_table = do {
     n \<leftarrow> get_page_number direccion_logica page_sz;
     if entries_per_table = 0 then None else Some (n mod entries_per_table) }"

subsection \<open>Requests to the memory\<close>

definition deliver :: "'m server \<Rightarrow> conexion_t \<Rightarrow> 'm \<Rightarrow> (conexion_t \<times> 'm) option" where
  "deliver serve c m =
     (if outgoing (sock c) = [] then Some (c, m)
      else do {
        (m, reply) \<leftarrow> serve m (outgoing (sock c));
        Some (c\<lparr>sock := (sock c)\<lparr>outgoing := [], incoming := incoming (sock c) @ reply\<rparr>\<rparr>, m) })"

definition receive_u32 ::
    "(nat \<Rightarrow> byte) \<Rightarrow> conexion_t \<Rightarrow> (u32 \<times> conexion_t) option" where
  "receive_u32 junk c =
     (case connection_receive_value junk c 4 of
        (None, c) \<Rightarrow> Some (VALOR_INVALIDO, c)
      | (Some bytes, c) \<Rightarrow> do { v \<leftarrow> read_u32 bytes 0; Some (v, c) })"

definition request_table_2_entry ::
    "'m server \<Rightarrow> (nat \<Rightarrow> byte) \<Rightarrow> cpu_t \<Rightarrow> 'm \<Rightarrow> u32 \<Rightarrow> u32 \<Rightarrow> (u32 \<times> cpu_t \<times> 'm) option" where
  "request_table_2_entry serve junk cpu m id_lvl_1_table row_index = do {
     let send_stream = operandos_to_stream \<lparr>op1 = id_lvl_1_table, op2 = row_index\<rparr>;
     (_, c) \<leftarrow> conexion_enviar_stream (conexion cpu) (opcode_num SND_PAGE) send_stream 8;
     (c, m) \<leftarrow> deliver serve c m;
     (v, c) \<leftarrow> receive_u32 junk c;
     Some (v, cpu\<lparr>conexion := c\<rparr>, m) }"

definition request_frame ::
    "'m server \<Rightarrow> (nat \<Rightarrow> byte) \<Rightarrow> cpu_t \<Rightarrow> 'm \<Rightarrow> u32 \<Rightarrow> u32 \<Rightarrow> (u32 \<times> cpu_t \<times> 'm) option" where
  "request_frame serve junk cpu m tabla_segundo_nivel offset = do {
     pcb \<leftarrow> cpu_pcb cpu;
     let send_stream = operandos_to_stream \<lparr>op1 = tabla_segundo_nivel, op2 = offset\<rparr>;
     let big_stream = le32 (pcb_id pcb) @ send_stream;
     (_, c) \<leftarrow> conexion_enviar_stream (conexion cpu) (opcode_num FRAME) big_stream 12;
     (c, m) \<leftarrow> deliver serve c m;
     (v, c) \<leftarrow> receive_u32 junk c;
     Some (v, cpu\<lparr>conexion := c\<rparr>, m) }"

definition handshake ::
    "'m server \<Rightarrow> (nat \<Rightarrow> byte) \<Rightarrow> cpu_t \<Rightarrow> 'm \<Rightarrow> (cpu_t \<times> 'm) option" where
  "handshake serve junk cpu m =
     (let (bytes_sent, c) = connection_send_value (conexion cpu) (le32 (opcode_num SZ)) in
      if bytes_sent \<le> 0 then Some (cpu\<lparr>conexion := c\<rparr>, m)
      else do {
        (c, m) \<leftarrow> deliver serve c m;
        (case connection_receive_value junk c 4 of
           (None, c) \<Rightarrow> Some (cpu\<lparr>conexion := c\<rparr>, m)
         | (Some bytes, c) \<Rightarrow> do {
             pg_size \<leftarrow> read_u32 bytes 0;
             let cpu = cpu\<lparr>page_size := pg_size\<rparr>;
             let (bytes_sent, c) = connection_send_value c (le32 (opcode_num ENTRIES));
             if bytes_sent \<le> 0 then Some (cpu\<lparr>conexion := c\<rparr>, m)
             else do {
               (c, m) \<leftarrow> deliver serve c m;
               let (value, c) = connection_receive_value junk c 4;
               bytes \<leftarrow> value;
               am_entry \<leftarrow> read_u32 bytes 0;
               Some (cpu\<lparr>conexion := c, page_amount_entries := am_entry\<rparr>, m) } }) })"

subsection \<open>Translation\<close>

definition req_physical_address ::
    "'m server \<Rightarrow> (nat \<Rightarrow> byte) \<Rightarrow> cpu_t \<Rightarrow> 'm \<Rightarrow> u32 \<Rightarrow> (u32 \<times> cpu_t \<times> 'm) option" where
  "req_physical_address serve junk cpu m logical_address = do {
     page_number \<leftarrow> get_page_number logical_address (page_size cpu);
     (t, found) \<leftarrow> page_in_TLB (tlb cpu) page_number;
     let cpu = cpu\<lparr>tlb := t\<rparr>;
     (f, cpu, m) \<leftarrow>
       (case found of
          Some f \<Rightarrow> Some (f, cpu, m)
        | None \<Rightarrow> do {
            pcb \<leftarrow> cpu_pcb cpu;
            row \<leftarrow> get_entry_lvl_1 page_number (page_amount_entries cpu);
            (second_page, cpu, m) \<leftarrow>
              request_table_2_entry serve junk cpu m (page_table pcb) row;
            entry \<leftarrow> get_entry_lvl_2 logical_address (page_size cpu) (page_amount_entries cpu);
            (f, cpu, m) \<leftarrow> request_frame serve junk cpu m second_page entry;
            (t, i) \<leftarrow> tlb_replace_call (fifo_index cpu) (tlb cpu) page_number f;
            Some (f, cpu\<lparr>tlb := t, fifo_index := i\<rparr>, m) });
     offset \<leftarrow> get_offset logical_address (page_size cpu);
     Some (f * page_size cpu + offset, cpu, m) }"

subsection \<open>Properties of the decomposition\<close>

lemma unat_page_parts:
  assumes "p \<noteq> 0"
  shows "get_page_number a p = Some (a div p)" and "unat (a div p) = unat a div unat p"
    and "get_offset a p = Some (a mod p)" and "unat (a mod p) = unat a mod unat p"
proof -
  show "get_page_number a p = Some (a div p)"
    using assms by (simp add: get_page_number_def div_u32_def)
  then show "get_offset a p = Some (a mod p)"
    by (simp add: get_offset_def minus_mult_div_eq_mod)
  show "unat (a div p) = unat a div unat p" by (rule unat_div)
  show "unat (a mod p) = unat a mod unat p" by (rule unat_mod)
qed

text \<open>The three indices of a logical address name it and no other.\<close>

lemma address_decomposition:
  assumes "p \<noteq> 0" and "e \<noteq> 0"
  shows "\<exists>n off l1 l2. get_page_number a p = Some n \<and> get_offset a p = Some off \<and>
    get_entry_lvl_1 n e = Some l1 \<and> get_entry_lvl_2 a p e = Some l2 \<and>
    unat off < unat p \<and> unat l2 < unat e \<and>
    unat a = (unat l1 * unat e + unat l2) * unat p + unat off"
proof -
  have pos: "0 < unat p" "0 < unat e" using assms by (simp_all add: unat_gt_0)
  have "unat (a div p div e) * unat e + unat (a div p mod e) = unat (a div p)"
    by (simp add: unat_div unat_mod)
  then have "unat a = (unat (a div p div e) * unat e + unat (a div p mod e)) * unat p + unat (a mod p)"
    by (simp add: unat_div unat_mod)
  then show ?thesis
    using assms pos unat_page_parts [OF assms(1), of a]
    by (simp add: get_entry_lvl_1_def get_entry_lvl_2_def div_u32_def unat_mod)
qed

end
