(* ===== verification/Cpu.thy ===== *)
theory Cpu
  imports Mmu
begin

section \<open>The CPU module: instruction cycle and servers\<close>

text \<open>
  \<open>cpu/src/module/cpu.c\<close> (the cycle and the instructions), \<open>cpu/src/server\<close>
  (\<open>pcb_controller.c\<close>, \<open>request_handler.c\<close>) and the semaphores of \<open>sync.c\<close>.
  The handlers of the two servers and the cycle run on the state of the CPU and of the memory
  server. A \<open>WAIT\<close> is a guard: the step is not enabled while the semaphore is zero.
\<close>

subsection \<open>Returning and receiving a PCB\<close>

definition cpu_tlb_reset :: "cpu_t \<Rightarrow> cpu_t option" where
  "cpu_tlb_reset cpu = do {
     t \<leftarrow> tlb_reset (tlb_config cpu) (tlb cpu);
     Some (cpu\<lparr>tlb := t\<rparr>) }"

definition return_pcb :: "cpu_t \<Rightarrow> u32 \<Rightarrow> (int \<times> cpu_t) option" where
  "return_pcb cpu time =
     (case dispatch_client cpu of
        None \<Rightarrow> Some (-1, cpu)
      | Some fd \<Rightarrow>
          (case cpu_pcb cpu of
             None \<Rightarrow> Some (-1, cpu)
           | Some pcb \<Rightarrow> do {
               let stream = pcb_to_stream pcb @ le32 time;
               (bytes_sent, fd) \<leftarrow>
                 servidor_enviar_stream INOUT fd stream (pcb_bytes_size pcb + 4);
               cpu \<leftarrow> cpu_tlb_reset (cpu\<lparr>dispatch_client := Some fd\<rparr>);
               Some (bytes_sent,
                     cpu\<lparr>cpu_pcb := None, cpu_in_use := cpu_in_use cpu + 1\<rparr>) }))"

text \<open>The outer \<open>None\<close> of \<open>receive_pcb\<close> is undefined behaviour; the caller checks the guard.\<close>

definition can_receive_pcb :: "cpu_t \<Rightarrow> bool" where
  "can_receive_pcb cpu = (0 < cpu_in_use cpu)"

definition receive_pcb ::
    "(nat \<Rightarrow> byte) \<Rightarrow> pcb_junk \<Rightarrow> cpu_t \<Rightarrow> socket \<Rightarrow> (cpu_t \<times> socket) option" where
  "receive_pcb junk pj cpu fd =
     (let cpu = cpu\<lparr>cpu_in_use := cpu_in_use cpu - 1\<rparr>;
          (r, fd) = servidor_recibir_stream junk fd in
      do {
        (stream, _) \<leftarrow> r;
        pcb \<leftarrow> pcb_from_stream pj stream;
        Some (cpu\<lparr>cpu_pcb := Some pcb, pcb_received := pcb_received cpu + 1\<rparr>, fd) })"

definition request_handler_int :: "cpu_t \<Rightarrow> cpu_t" where
  "request_handler_int cpu =
     (if cpu_pcb cpu \<noteq> None then cpu\<lparr>has_interruption := True\<rparr> else cpu)"

text \<open>One round of \<open>request_handler\<close>; the last component is \<open>False\<close> when the client left.
  \<open>None\<close> stands also for a thread that waits for the CPU.\<close>

definition request_handler ::
    "(nat \<Rightarrow> byte) \<Rightarrow> pcb_junk \<Rightarrow> cpu_t \<Rightarrow> socket \<Rightarrow> (cpu_t \<times> socket \<times> bool) option" where
  "request_handler junk pj cpu fd =
     (let (code, fd) = servidor_recibir_operacion junk fd in
      if code \<le> 0 then Some (cpu, fd, False)
      else (case opcode_of (word_of_int code) of
          Some INT_op \<Rightarrow> Some (request_handler_int cpu, fd, True)
        | Some PCB \<Rightarrow>
            if can_receive_pcb cpu
            then do { (cpu, fd) \<leftarrow> receive_pcb junk pj cpu fd; Some (cpu, fd, True) }
            else None
        | _ \<Rightarrow> Some (cpu, fd, True)))"

subsection \<open>Instructions\<close>

definition execute_IO :: "instruction_t \<Rightarrow> cpu_t \<Rightarrow> cpu_t option" where
  "execute_IO instruction cpu = do {
     pcb \<leftarrow> cpu_pcb cpu;
     let cpu = cpu\<lparr>cpu_pcb := Some (pcb\<lparr>status := status_num PCB_BLOCKED\<rparr>)\<rparr>;
     (_, cpu) \<leftarrow> return_pcb cpu (param0 instruction);
     Some cpu }"

definition execute_EXIT :: "instruction_t \<Rightarrow> cpu_t \<Rightarrow> cpu_t option" where
  "execute_EXIT instruction cpu =
     (case cpu_pcb cpu of
        None \<Rightarrow> Some cpu
      | Some pcb \<Rightarrow> do {
          let cpu = cpu\<lparr>cpu_pcb := Some (pcb\<lparr>status := status_num PCB_TERMINATED\<rparr>)\<rparr>;
          cpu \<leftarrow> cpu_tlb_reset cpu;
          (_, cpu) \<leftarrow> return_pcb cpu (param0 instruction);
          Some cpu })"

definition receive_read_value :: "(nat \<Rightarrow> byte) \<Rightarrow> conexion_t \<Rightarrow> (u32 \<times> conexion_t) option" where
  "receive_read_value junk c =
     (let (r, s) = conexion_recibir_stream junk (sock c) in
      do { (stream, _) \<leftarrow> r; v \<leftarrow> read_u32 stream 0; Some (v, c\<lparr>sock := s\<rparr>) })"

definition execute_READ ::
    "'m server \<Rightarrow> (nat \<Rightarrow> byte) \<Rightarrow> cpu_t \<Rightarrow> 'm \<Rightarrow> u32 \<Rightarrow> (u32 \<times> cpu_t \<times> 'm) option" where
  "execute_READ serve junk cpu m logical_address = do {
     (physical_address, cpu, m) \<leftarrow> req_physical_address serve junk cpu m logical_address;
     pcb \<leftarrow> cpu_pcb cpu;
     let send_stream = operandos_to_stream \<lparr>op1 = physical_address, op2 = pcb_id pcb\<rparr>;
     (_, c) \<leftarrow> conexion_enviar_stream (conexion cpu) (opcode_num RD)
       (le32 (pcb_id pcb) @ send_stream) 12;
     (c, m) \<leftarrow> deliver serve c m;
     (v, c) \<leftarrow> receive_read_value junk c;
     Some (v, cpu\<lparr>conexion := c\<rparr>, m) }"

definition execute_WRITE ::
    "'m server \<Rightarrow> (nat \<Rightarrow> byte) \<Rightarrow> cpu_t \<Rightarrow> 'm \<Rightarrow> u32 \<Rightarrow> u32 \<Rightarrow> (cpu_t \<times> 'm) option" where
  "execute_WRITE serve junk cpu m logical_address value = do {
     (physical_address, cpu, m) \<leftarrow> req_physical_address serve junk cpu m logical_address;
     pcb \<leftarrow> cpu_pcb cpu;
     let send_stream = operandos_to_stream \<lparr>op1 = physical_address, op2 = value\<rparr>;
     (_, c) \<leftarrow> conexion_enviar_stream (conexion cpu) (opcode_num WT)
       (le32 (pcb_id pcb) @ send_stream) 12;
     (c, m) \<leftarrow> deliver serve c m;
     Some (cpu\<lparr>conexion := c\<rparr>, m) }"

definition execute_COPY ::
    "'m server \<Rightarrow> (nat \<Rightarrow> byte) \<Rightarrow> cpu_t \<Rightarrow> 'm \<Rightarrow> u32 \<Rightarrow> u32 \<Rightarrow> (u32 \<times> cpu_t \<times> 'm) option" where
  "execute_COPY serve junk cpu m p1 p2 = do {
     (cpu, m) \<leftarrow> execute_WRITE serve junk cpu m p1 p2;
     Some (p2, cpu, m) }"

definition instruction_execute ::
    "'m server \<Rightarrow> (nat \<Rightarrow> byte) \<Rightarrow> instruction_t \<Rightarrow> cpu_t \<Rightarrow> 'm \<Rightarrow> (u32 \<times> cpu_t \<times> 'm) option" where
  "instruction_execute serve junk instruction cpu m = do {
     _ \<leftarrow> cpu_pcb cpu;
     (case instcode_of (icode instruction) of
        Some C_REQUEST_NO_OP \<Rightarrow> Some (0, cpu, m)
      | Some C_REQUEST_IO \<Rightarrow> do { cpu \<leftarrow> execute_IO instruction cpu; Some (0, cpu, m) }
      | Some C_REQUEST_EXIT \<Rightarrow> do { cpu \<leftarrow> execute_EXIT instruction cpu; Some (0, cpu, m) }
      | Some C_REQUEST_READ \<Rightarrow> execute_READ serve junk cpu m (param0 instruction)
      | Some C_REQUEST_WRITE \<Rightarrow> do {
          (cpu, m) \<leftarrow> execute_WRITE serve junk cpu m (param0 instruction) (param1 instruction);
          Some (0, cpu, m) }
      | Some C_REQUEST_COPY \<Rightarrow>
          execute_COPY serve junk cpu m (param0 instruction) (param1 instruction)
      | _ \<Rightarrow> Some (0, cpu, m)) }"

subsection \<open>The cycle\<close>

definition decode :: "instruction_t \<Rightarrow> bool" where
  "decode instruction = (icode instruction = instcode_num C_REQUEST_COPY)"

text \<open>The fetched instruction is a pointer into the PCB's list: its index, \<open>None\<close> for NULL.\<close>

definition instruction_fetch :: "cpu_t \<Rightarrow> (nat option \<times> cpu_t) option" where
  "instruction_fetch cpu = do {
     pcb \<leftarrow> cpu_pcb cpu;
     let k = sint (pc pcb);
     Some (if 0 \<le> k \<and> nat k < length (instructions pcb) then Some (nat k) else None,
           cpu\<lparr>cpu_pcb := Some (pcb\<lparr>pc := pc pcb + 1\<rparr>)\<rparr>) }"

definition set_instruction :: "cpu_t \<Rightarrow> nat \<Rightarrow> instruction_t \<Rightarrow> cpu_t option" where
  "set_instruction cpu k i = do {
     pcb \<leftarrow> cpu_pcb cpu;
     is \<leftarrow> arr_set (instructions pcb) k i;
     Some (cpu\<lparr>cpu_pcb := Some (pcb\<lparr>instructions := is\<rparr>)\<rparr>) }"

definition fetch_operands ::
    "'m server \<Rightarrow> (nat \<Rightarrow> byte) \<Rightarrow> cpu_t \<Rightarrow> 'm \<Rightarrow> u32 \<Rightarrow> (u32 \<times> cpu_t \<times> 'm) option" where
  "fetch_operands serve junk cpu m logical_address =
     execute_READ serve junk cpu m logical_address"

definition cycle ::
    "'m server \<Rightarrow> (nat \<Rightarrow> byte) \<Rightarrow> cpu_t \<Rightarrow> 'm \<Rightarrow> (cpu_t \<times> 'm) option" where
  "cycle serve junk cpu m =
     (if \<not> has_interruption cpu
      then do {
        (fetched, cpu) \<leftarrow> instruction_fetch cpu;
        (case fetched of
           None \<Rightarrow> Some (cpu, m)
         | Some k \<Rightarrow> do {
             pcb \<leftarrow> cpu_pcb cpu;
             instruction \<leftarrow> arr_get (instructions pcb) k;
             (instruction, cpu, m) \<leftarrow>
               (if decode instruction
                then do {
                  (value, cpu, m) \<leftarrow> fetch_operands serve junk cpu m (param1 instruction);
                  let operandos = \<lparr>op1 = 0, op2 = 0\<rparr>;
                  let instruction = instruction\<lparr>param0 := op1 operandos, param1 := value\<rparr>;
                  cpu \<leftarrow> set_instruction cpu k instruction;
                  Some (instruction, cpu, m) }
                else Some (instruction, cpu, m));
             (_, cpu, m) \<leftarrow> instruction_execute serve junk instruction cpu m;
             Some (cpu, m) }) }
      else do {
        pcb \<leftarrow> cpu_pcb cpu;
        let cpu = cpu\<lparr>cpu_pcb := Some (pcb\<lparr>status := status_num PCB_READY\<rparr>)\<rparr>;
        cpu \<leftarrow> cpu_tlb_reset cpu;
        (_, cpu) \<leftarrow> return_pcb cpu 0;
        Some (cpu\<lparr>has_interruption := False\<rparr>, m) })"

text \<open>The inner loop of \<open>on_run\<close>: it ends when the PCB was given back. It may not end, so it
  has fuel; the last component says whether it ended.\<close>

fun run_pcb ::
    "nat \<Rightarrow> 'm server \<Rightarrow> (nat \<Rightarrow> byte) \<Rightarrow> cpu_t \<Rightarrow> 'm \<Rightarrow> (cpu_t \<times> 'm \<times> bool) option" where
  "run_pcb 0 serve junk cpu m = Some (cpu, m, cpu_pcb cpu = None)"
| "run_pcb (Suc n) serve junk cpu m =
     (if cpu_pcb cpu = None then Some (cpu, m, True)
      else do { (cpu, m) \<leftarrow> cycle serve junk cpu m; run_pcb n serve junk cpu m })"

definition init_sync :: "cpu_t \<Rightarrow> cpu_t" where
  "init_sync cpu = cpu\<lparr>pcb_received := 0, cpu_in_use := 1\<rparr>"

definition on_cpu_init :: "cpu_t \<Rightarrow> cpu_t" where
  "on_cpu_init cpu =
     init_sync (cpu\<lparr>cpu_pcb := None, has_interruption := False\<rparr>)"

end
