(* ===== verification/Memory_Service.thy ===== *)
theory Memory_Service
  imports Cpu
begin

section \<open>The contract between the CPU and the memory\<close>

text \<open>
  The locale \<open>memory_service\<close> states what the CPU relies on: the server answers the four
  requests of the MMU and of the memory instructions with the results of four operations.
  Inside it the CPU's functions are computed without the sockets: a translation is the walk
  of \<open>translate\<close>, and a memory instruction is the translation followed by one access.
\<close>

definition conn_ok :: "conexion_t \<Rightarrow> bool" where
  "conn_ok c \<longleftrightarrow> conectado c \<and> \<not> recv_error (sock c) \<and> \<not> send_error (sock c) \<and>
     incoming (sock c) = [] \<and> outgoing (sock c) = []"

text \<open>A request over a good connection: the answer is what the server gives to the message.\<close>

lemma conexion_enviar_message:
  assumes "conn_ok c" and "n = length data"
  shows "conexion_enviar_stream c (opcode_num code) data n =
    Some (int (length data) + 8, c\<lparr>sock := (sock c)\<lparr>outgoing := message code data\<rparr>\<rparr>)"
  using servidor_enviar_stream_message [of "sock c" n data code] assms
  by (simp add: conexion_enviar_stream_def servidor_enviar_stream_def conn_ok_def)

lemma message_not_empty [simp]: "message code data \<noteq> []"
  by (simp add: message_def le32_def)

lemma deliver_message:
  assumes "conn_ok c"
  shows "deliver serve (c\<lparr>sock := (sock c)\<lparr>outgoing := message code data\<rparr>\<rparr>) m =
    map_option (\<lambda>(m, reply). (c\<lparr>sock := (sock c)\<lparr>incoming := reply\<rparr>\<rparr>, m))
      (serve m (message code data))"
  using assms by (cases "serve m (message code data)") (auto simp: deliver_def conn_ok_def)

lemma receive_u32_reply:
  assumes "conn_ok c"
  shows "receive_u32 junk (c\<lparr>sock := (sock c)\<lparr>incoming := le32 v\<rparr>\<rparr>) = Some (v, c)"
  using assms read_u32_append(2) [of v "[]"]
  by (simp add: receive_u32_def connection_receive_value_def recv_def conn_ok_def overlay_full
      read_u32_def read_bytes_def)

lemma receive_read_reply:
  assumes "conn_ok c"
  shows "receive_read_value junk (c\<lparr>sock := (sock c)\<lparr>incoming := message RD (le32 v)\<rparr>\<rparr>) = Some (v, c)"
  using assms
  by (simp add: receive_read_value_def conexion_recibir_stream_def recv_def conn_ok_def
      overlay_full message_def read_u32_def read_bytes_def)

lemma receive_nothing: "conn_ok c \<Longrightarrow> c\<lparr>sock := (sock c)\<lparr>incoming := []\<rparr>\<rparr> = c"
  by (simp add: conn_ok_def)

text \<open>The walk of a translation, over the two operations of the service.\<close>

definition translate ::
    "('m \<Rightarrow> u32 \<Rightarrow> u32 \<Rightarrow> u32 option) \<Rightarrow> ('m \<Rightarrow> u32 \<Rightarrow> u32 \<Rightarrow> u32 \<Rightarrow> ('m \<times> u32) option) \<Rightarrow>
     cpu_t \<Rightarrow> 'm \<Rightarrow> u32 \<Rightarrow> (u32 \<times> cpu_t \<times> 'm) option" where
  "translate second_page_of frame_for cpu m la =
     (let p = page_size cpu; e = page_amount_entries cpu in
      if p = 0 then None
      else do {
        (t, found) \<leftarrow> page_in_TLB (tlb cpu) (la div p);
        (case found of
           Some f \<Rightarrow> Some (f * p + la mod p, cpu\<lparr>tlb := t\<rparr>, m)
         | None \<Rightarrow> do {
             pcb \<leftarrow> cpu_pcb cpu;
             if e = 0 then None
             else do {
               table \<leftarrow> second_page_of m (page_table pcb) (la div p div e);
               (m, f) \<leftarrow> frame_for m table (la div p mod e) (pcb_id pcb);
               (t, i) \<leftarrow> tlb_replace_call (fifo_index cpu) t (la div p) f;
               Some (f * p + la mod p, cpu\<lparr>tlb := t, fifo_index := i\<rparr>, m) } }) })"

locale memory_service =
  fixes serve :: "'m server"
    and second_page_of :: "'m \<Rightarrow> u32 \<Rightarrow> u32 \<Rightarrow> u32 option"
    and frame_for :: "'m \<Rightarrow> u32 \<Rightarrow> u32 \<Rightarrow> u32 \<Rightarrow> ('m \<times> u32) option"
    and load :: "'m \<Rightarrow> u32 \<Rightarrow> ('m \<times> u32) option"
    and store :: "'m \<Rightarrow> u32 \<Rightarrow> u32 \<Rightarrow> 'm option"
  assumes serve_page: "serve m (message SND_PAGE (operandos_to_stream \<lparr>op1 = t, op2 = i\<rparr>)) =
      map_option (\<lambda>v. (m, le32 v)) (second_page_of m t i)"
    and serve_frame:
      "serve m (message FRAME (le32 pid @ operandos_to_stream \<lparr>op1 = t, op2 = i\<rparr>)) =
        map_option (\<lambda>(m, f). (m, le32 f)) (frame_for m t i pid)"
    and serve_load: "serve m (message RD (le32 pid @ operandos_to_stream \<lparr>op1 = pa, op2 = x\<rparr>)) =
        map_option (\<lambda>(m, v). (m, message RD (le32 v))) (load m pa)"
    and serve_store: "serve m (message WT (le32 pid @ operandos_to_stream \<lparr>op1 = pa, op2 = v\<rparr>)) =
        map_option (\<lambda>m. (m, [])) (store m pa v)"
begin

lemma length_operands [simp]: "length (operandos_to_stream v) = 8"
  by (simp add: operandos_to_stream_def)

lemma request_table_2_entry_eq:
  assumes "conn_ok (conexion cpu)"
  shows "request_table_2_entry serve junk cpu m t i =
    map_option (\<lambda>v. (v, cpu, m)) (second_page_of m t i)"
  using assms
  by (cases "second_page_of m t i")
    (simp_all add: request_table_2_entry_def conexion_enviar_message deliver_message serve_page
      receive_u32_reply
      del: opcode_num.simps)

lemma request_frame_eq:
  assumes "conn_ok (conexion cpu)" and "cpu_pcb cpu = Some pcb"
  shows "request_frame serve junk cpu m t i =
    map_option (\<lambda>(m, f). (f, cpu, m)) (frame_for m t i (pcb_id pcb))"
  using assms
  by (cases "frame_for m t i (pcb_id pcb)")
    (auto simp: request_frame_def conexion_enviar_message deliver_message serve_frame
      receive_u32_reply
      simp del: opcode_num.simps)

lemma req_physical_address_eq:
  assumes "conn_ok (conexion cpu)"
  shows "req_physical_address serve junk cpu m la = translate second_page_of frame_for cpu m la"
proof (cases "page_size cpu = 0")
  case True
  then show ?thesis
    by (simp add: req_physical_address_def translate_def get_page_number_def div_u32_def)
next
  case p: False
  show ?thesis
  proof (cases "page_in_TLB (tlb cpu) (la div page_size cpu)")
    case None
    with p show ?thesis
      by (simp add: req_physical_address_def translate_def unat_page_parts)
  next
    case (Some r)
    obtain t found where r: "r = (t, found)" by (cases r)
    show ?thesis
    proof (cases "\<exists>f. found = Some f")
      case True
      with Some r p show ?thesis
        by (auto simp: req_physical_address_def translate_def unat_page_parts Let_def)
    next
      case False
      have ok: "conn_ok (conexion (cpu\<lparr>tlb := t\<rparr>))" using assms by simp
      show ?thesis
      proof (cases "cpu_pcb cpu")
        case None
        with Some r p False show ?thesis
          by (simp add: req_physical_address_def translate_def unat_page_parts)
      next
        case pcb: (Some pcb)
        note second = request_table_2_entry_eq [OF ok, of junk m]
        note fr = request_frame_eq [OF ok, of pcb junk m]
        show ?thesis
          using Some r p False pcb
          by (cases "page_amount_entries cpu = 0")
            (auto simp: req_physical_address_def translate_def unat_page_parts
              get_entry_lvl_1_def get_entry_lvl_2_def div_u32_def second fr Let_def
              split: option.split Option.bind_split)
      qed
    qed
  qed
qed

lemma translate_keeps_connection:
  "translate second_page_of frame_for cpu m la = Some (pa, cpu', m') \<Longrightarrow>
    conexion cpu' = conexion cpu \<and> cpu_pcb cpu' = cpu_pcb cpu \<and>
    page_size cpu' = page_size cpu \<and> page_amount_entries cpu' = page_amount_entries cpu"
  by (auto simp: translate_def Let_def bind_eq_Some_conv split: if_splits option.splits prod.splits)

lemma execute_WRITE_eq:
  assumes "conn_ok (conexion cpu)"
  shows "execute_WRITE serve junk cpu m la v = do {
    (pa, cpu, m) \<leftarrow> translate second_page_of frame_for cpu m la;
    _ \<leftarrow> cpu_pcb cpu;
    m \<leftarrow> store m pa v;
    Some (cpu, m) }"
proof (cases "translate second_page_of frame_for cpu m la")
  case None
  with assms show ?thesis by (simp add: execute_WRITE_def req_physical_address_eq)
next
  case (Some r)
  obtain pa cpu' m' where r: "r = (pa, cpu', m')" by (cases r)
  have ok: "conn_ok (conexion cpu')"
    using translate_keeps_connection Some r assms by simp
  show ?thesis
    using Some r ok assms
    by (cases "cpu_pcb cpu'"; cases "store m' pa v")
      (auto simp: execute_WRITE_def req_physical_address_eq conexion_enviar_message
        deliver_message serve_store receive_nothing
        simp del: opcode_num.simps)
qed

lemma execute_READ_eq:
  assumes "conn_ok (conexion cpu)"
  shows "execute_READ serve junk cpu m la = do {
    (pa, cpu, m) \<leftarrow> translate second_page_of frame_for cpu m la;
    _ \<leftarrow> cpu_pcb cpu;
    (m, v) \<leftarrow> load m pa;
    Some (v, cpu, m) }"
proof (cases "translate second_page_of frame_for cpu m la")
  case None
  with assms show ?thesis by (simp add: execute_READ_def req_physical_address_eq)
next
  case (Some r)
  obtain pa cpu' m' where r: "r = (pa, cpu', m')" by (cases r)
  have ok: "conn_ok (conexion cpu')"
    using translate_keeps_connection Some r assms by simp
  show ?thesis
    using Some r ok assms
    by (cases "cpu_pcb cpu'"; cases "load m' pa")
      (auto simp: execute_READ_def req_physical_address_eq conexion_enviar_message
        deliver_message serve_load receive_read_reply
      simp del: opcode_num.simps)
qed

end

end
