(* ===== verification/Cpu_Memory.thy ===== *)
theory Cpu_Memory
  imports Memory_Service Memory_Invariant
begin

section \<open>The CPU on the memory module's own server\<close>

text \<open>
  \<open>serve_memory\<close> runs one round of the server on the bytes the CPU has sent and returns the
  bytes it answers. It is an interpretation of the contract \<open>memory_service\<close>, so that a
  translation, a read and a write of the CPU are computed on the state of the memory module:
  first what the server does to each request, then what the CPU sees.
\<close>

definition serve_memory :: "(nat \<Rightarrow> byte) \<Rightarrow> pcb_junk \<Rightarrow> memory server" where
  "serve_memory junk pj m bytes =
     map_option (\<lambda>(m, s, go_on). (m, outgoing s))
       (routine_step junk pj m
         \<lparr>incoming = bytes, recv_error = False, outgoing = [], send_error = False\<rparr>)"

text \<open>What the four requests compute, without the sockets.\<close>

definition second_page_number :: "memory \<Rightarrow> u32 \<Rightarrow> u32 \<Rightarrow> u32 option" where
  "second_page_number m t i = do {
     print_table m t;
     obtain_second_page m t (if i \<ge> max_rows m then max_rows m - 1 else i) }"

definition load_value :: "memory \<Rightarrow> u32 \<Rightarrow> (memory \<times> u32) option" where
  "load_value m pa = do {
     f \<leftarrow> get_frame m pa;
     n \<leftarrow> get_table_lvl2_number m f;
     if n = UINT32_MAX then Some (m, UINT32_MAX)
     else do {
       m \<leftarrow> set_modified m f False;
       v \<leftarrow> read_from_memory m pa;
       Some (m, v) } }"

definition store_value :: "memory \<Rightarrow> u32 \<Rightarrow> u32 \<Rightarrow> memory option" where
  "store_value m pa v = do {
     f \<leftarrow> get_frame m pa;
     n \<leftarrow> get_table_lvl2_number m f;
     if n = UINT32_MAX then Some m
     else do {
       m \<leftarrow> set_modified m f True;
       write_in_memory m pa v } }"

abbreviation served :: "byte list \<Rightarrow> socket" where
  "served bytes \<equiv> \<lparr>incoming = bytes, recv_error = False, outgoing = [], send_error = False\<rparr>"

lemma served_operation:
  "servidor_recibir_operacion junk (served (message code data)) =
    (sint (opcode_num code), served (le32 (word_of_nat (length data)) @ data))"
  using recibir_operacion_message [of "served (message code data)" code data "[]" junk] by simp

lemma served_stream:
  "length data < 2 ^ 32 \<Longrightarrow>
    servidor_recibir_stream junk (served (le32 (word_of_nat (length data)) @ data)) =
      (Some (data, int (length data)), served [])"
  using recibir_buffer_message [of "served (le32 (word_of_nat (length data)) @ data)" data "[]" junk]
  by simp

lemma opcode_num_positive: "0 < sint (opcode_num c)" if "c \<noteq> DC"
  using that by (cases c) simp_all

lemma word_of_int_opcode: "(word_of_int (sint (opcode_num c)) :: u32) = opcode_num c"
  by simp

lemma served_operands:
  "receive_operands junk (served (le32 12 @ le32 pid @ operandos_to_stream v)) =
    Some (pid, v, served [])"
  using served_stream [of "le32 pid @ operandos_to_stream v" junk] operandos_roundtrip [of v]
    read_u32_append(2) [of pid "operandos_to_stream v"]
  by (simp add: receive_operands_def operandos_to_stream_def)

lemma routine_step_message:
  assumes "c \<noteq> DC"
  shows "routine_step junk pj m (served (message c data)) =
    (let s = served (le32 (word_of_nat (length data)) @ data) in
     map_option (\<lambda>(m, s). (m, s, True))
       (case c of
          MEMORY_INIT \<Rightarrow> kernel_controller_memory_init junk m s
        | MSG \<Rightarrow> Some (m, snd (servidor_recibir_stream junk s))
        | RD \<Rightarrow> cpu_controller_read junk m s
        | WT \<Rightarrow> cpu_controller_write junk m s
        | PROCESS_TERMINATED \<Rightarrow> kernel_controller_destroy_process_file junk m s
        | SWAP_PCB \<Rightarrow> kernel_controller_swap junk pj m s
        | RETRIEVE_SWAPPED_PCB \<Rightarrow> kernel_controller_read_swap junk m s
        | SZ \<Rightarrow> Some (cpu_controller_send_size m s)
        | ENTRIES \<Rightarrow> Some (cpu_controller_send_entries m s)
        | FRAME \<Rightarrow> cpu_controller_send_frame junk m s
        | SND_PAGE \<Rightarrow> cpu_controller_send_page_second_level junk m s
        | _ \<Rightarrow> Some (m, s)))"
  using opcode_num_positive [OF assms]
  by (cases c)
    (simp_all add: routine_step_def served_operation map_conv_bind_option comp_def Let_def case_prod_unfold
      del: opcode_num.simps)

lemma cpu_controller_read_served:
  "cpu_controller_read junk m (served (le32 12 @ le32 pid @ operandos_to_stream v)) =
    map_option (\<lambda>(m, x). (m, (served [])\<lparr>outgoing := message RD (le32 x)\<rparr>)) (load_value m (op1 v))"
  unfolding cpu_controller_read_def load_value_def served_operands
  by (cases "get_frame m (op1 v)"; cases "get_table_lvl2_number m (the (get_frame m (op1 v)))")
    (auto simp: servidor_enviar_stream_message map_option_bind comp_def map_conv_bind_option
      intro!: Option.bind_cong)

lemma cpu_controller_write_served:
  "cpu_controller_write junk m (served (le32 12 @ le32 pid @ operandos_to_stream v)) =
    map_option (\<lambda>m. (m, served [])) (store_value m (op1 v) (op2 v))"
  unfolding cpu_controller_write_def store_value_def served_operands
  by (cases "get_frame m (op1 v)"; cases "get_table_lvl2_number m (the (get_frame m (op1 v)))")
    (auto simp: map_option_bind comp_def map_conv_bind_option intro!: Option.bind_cong)

interpretation mem_srv: memory_service "serve_memory junk pj" second_page_number obtain_frame
  load_value store_value
proof
  fix m t i pid pa x v
  show "serve_memory junk pj m (message SND_PAGE (operandos_to_stream \<lparr>op1 = t, op2 = i\<rparr>)) =
      map_option (\<lambda>v. (m, le32 v)) (second_page_number m t i)"
    using served_stream [of "operandos_to_stream \<lparr>op1 = t, op2 = i\<rparr>" junk]
      operandos_roundtrip [of "\<lparr>op1 = t, op2 = i\<rparr>"]
    by (simp add: serve_memory_def routine_step_message cpu_controller_send_page_second_level_def
        second_page_number_def operandos_to_stream_def fd_send_value_def send_def Let_def
        map_option_bind comp_def map_conv_bind_option)
  show "serve_memory junk pj m
        (message FRAME (le32 pid @ operandos_to_stream \<lparr>op1 = t, op2 = i\<rparr>)) =
      map_option (\<lambda>(m, f). (m, le32 f)) (obtain_frame m t i pid)"
    using served_stream [of "le32 pid @ operandos_to_stream \<lparr>op1 = t, op2 = i\<rparr>" junk]
      operandos_roundtrip [of "\<lparr>op1 = t, op2 = i\<rparr>"]
      read_u32_append(2) [of pid "operandos_to_stream \<lparr>op1 = t, op2 = i\<rparr>"]
    by (simp add: serve_memory_def routine_step_message cpu_controller_send_frame_def
        operandos_to_stream_def fd_send_value_def send_def Let_def
        map_option_bind comp_def case_prod_unfold map_conv_bind_option)
  show "serve_memory junk pj m
        (message RD (le32 pid @ operandos_to_stream \<lparr>op1 = pa, op2 = x\<rparr>)) =
      map_option (\<lambda>(m, v). (m, message RD (le32 v))) (load_value m pa)"
    using cpu_controller_read_served [of junk m pid "\<lparr>op1 = pa, op2 = x\<rparr>"]
    by (simp add: serve_memory_def routine_step_message operandos_to_stream_def comp_def
        option.map_comp case_prod_unfold)
  show "serve_memory junk pj m
        (message WT (le32 pid @ operandos_to_stream \<lparr>op1 = pa, op2 = v\<rparr>)) =
      map_option (\<lambda>m. (m, [])) (store_value m pa v)"
    using cpu_controller_write_served [of junk m pid "\<lparr>op1 = pa, op2 = v\<rparr>"]
    by (simp add: serve_memory_def routine_step_message operandos_to_stream_def comp_def
        option.map_comp case_prod_unfold)
qed

subsection \<open>Accesses to an owned frame\<close>

text \<open>The main memory holds all the frames of the bitmap.\<close>

definition mem_sized :: "memory \<Rightarrow> bool" where
  "mem_sized m \<longleftrightarrow> tam_pagina (cfg m) \<noteq> 0 \<and> length (main_memory m) < 2 ^ 32 \<and>
     unat (no_of_frames m) * unat (tam_pagina (cfg m)) \<le> length (main_memory m)"

text \<open>A word of \<open>la\<close>'s page at the offset \<open>off\<close>, in the frame \<open>f\<close>.\<close>

lemma frame_address:
  assumes "mem_sized m" and "unat f < unat (no_of_frames m)"
    and "unat off + 4 \<le> unat (tam_pagina (cfg m))"
  shows "unat (f * tam_pagina (cfg m) + off) = unat f * unat (tam_pagina (cfg m)) + unat off"
    and "unat (f * tam_pagina (cfg m) + off) + 4 \<le> length (main_memory m)"
    and "get_frame m (f * tam_pagina (cfg m) + off) = Some f"
proof -
  let ?p = "unat (tam_pagina (cfg m))"
  have "Suc (unat f) * ?p \<le> unat (no_of_frames m) * ?p"
    using assms(2) by (intro mult_le_mono1) simp
  then have "unat f * ?p + ?p \<le> length (main_memory m)"
    using assms(1) by (simp add: mem_sized_def)
  with assms(3) have le: "unat f * ?p + unat off + 4 \<le> length (main_memory m)" by linarith
  with assms(1) have lt: "unat f * ?p + unat off < 2 ^ 32" by (simp add: mem_sized_def)
  then show eq: "unat (f * tam_pagina (cfg m) + off) = unat f * ?p + unat off"
    by (simp add: unat_word_ariths)
  with le show "unat (f * tam_pagina (cfg m) + off) + 4 \<le> length (main_memory m)" by simp
  have "unat ((f * tam_pagina (cfg m) + off) div tam_pagina (cfg m)) = unat f"
    using assms(3) by (simp add: unat_div eq)
  then show "get_frame m (f * tam_pagina (cfg m) + off) = Some f"
    using assms(1) unsigned_word_eqI [of "(f * tam_pagina (cfg m) + off) div tam_pagina (cfg m)" f]
    by (simp add: get_frame_def mem_sized_def)
qed

lemma set_modified_owned:
  assumes wf: "mem_wf m" and own: "frame_at m q = f" "f \<noteq> INVALID_FRAME"
  shows "\<exists>m'. set_modified m f b = Some m' \<and> keeps m m' \<and> main_memory m' = main_memory m \<and>
    (\<forall>r. deref_row m' r =
      (if r = q then map_option (\<lambda>row. row\<lparr>modified := b\<rparr>) (deref_row m r) else deref_row m r))"
proof -
  have ref: "get_frame_ref m f = Some (Some q)"
    using get_frame_ref_owner(2) wf own by (auto simp: mem_wf_def)
  obtain row where "deref_row m q = Some row" using frame_at_deref [OF own] by blast
  then obtain m' where m': "update_row m q (\<lambda>row. row\<lparr>modified := b\<rparr>) = Some m'"
    using update_row_defined by blast
  then have "set_modified m f b = Some m'" using ref by (simp add: set_modified_def)
  moreover have "main_memory m' = main_memory m"
    using m' by (auto simp: update_row_def bind_eq_Some_conv)
  moreover have "keeps m m'"
    using m' by (auto elim!: keeps_steps)
  ultimately show ?thesis
    using deref_update_row [OF m'] by blast
qed

lemma owned_not_max:
  assumes "mem_wf m" and "frame_at m q = f" "f \<noteq> INVALID_FRAME"
  shows "get_table_lvl2_number m f = Some (word_of_nat (nat (fst q)))"
    and "(word_of_nat (nat (fst q)) :: u32) \<noteq> UINT32_MAX"
proof -
  show "get_table_lvl2_number m f = Some (word_of_nat (nat (fst q)))"
    using get_frame_ref_owner(1) assms by (auto simp: mem_wf_def)
  obtain row where "deref_row m q = Some row" using frame_at_deref [OF assms(2,3)] by blast
  then have "nat (fst q) < 2 ^ 31"
    using deref_row_slot [of m q row] assms(1) by (auto simp: mem_wf_def tables_wf_def)
  then have "unat (word_of_nat (nat (fst q)) :: u32) < 2 ^ 31"
    by (simp add: unat_of_nat)
  then show "(word_of_nat (nat (fst q)) :: u32) \<noteq> UINT32_MAX" by auto
qed

lemma store_value_owned:
  assumes wf: "mem_wf m" and own: "frame_at m q = f" "f \<noteq> INVALID_FRAME"
    and pa: "get_frame m pa = Some f" "unat pa + 4 \<le> length (main_memory m)"
  shows "\<exists>m'. store_value m pa v = Some m' \<and> keeps m m' \<and>
    write_u32 (main_memory m) (unat pa) v = Some (main_memory m') \<and>
    (\<forall>r. deref_row m' r =
      (if r = q then map_option (\<lambda>row. row\<lparr>modified := True\<rparr>) (deref_row m r)
       else deref_row m r))"
proof -
  obtain m1 where m1: "set_modified m f True = Some m1" "keeps m m1"
    "main_memory m1 = main_memory m"
    "\<forall>r. deref_row m1 r = (if r = q then map_option (\<lambda>row. row\<lparr>modified := True\<rparr>) (deref_row m r)
       else deref_row m r)"
    using set_modified_owned [OF wf own] by blast
  obtain mem where mem: "write_u32 (main_memory m) (unat pa) v = Some mem"
    using write_u32_defined [OF pa(2)] by blast
  have "store_value m pa v = Some (m1\<lparr>main_memory := mem\<rparr>)"
    using m1(1,3) mem owned_not_max [OF wf own] pa(1)
    by (simp add: store_value_def write_in_memory_def)
  moreover have "keeps m (m1\<lparr>main_memory := mem\<rparr>)"
    using m1(2) by blast
  moreover have "deref_row (m1\<lparr>main_memory := mem\<rparr>) r = deref_row m1 r" for r
    by (simp add: deref_row_def)
  ultimately show ?thesis
    using mem m1(4) by simp
qed

lemma load_value_owned:
  assumes wf: "mem_wf m" and own: "frame_at m q = f" "f \<noteq> INVALID_FRAME"
    and pa: "get_frame m pa = Some f" "read_u32 (main_memory m) (unat pa) = Some v"
  shows "\<exists>m'. load_value m pa = Some (m', v) \<and> keeps m m' \<and> main_memory m' = main_memory m"
proof -
  obtain m1 where "set_modified m f False = Some m1" "keeps m m1" "main_memory m1 = main_memory m"
    using set_modified_owned [OF wf own] by blast
  then show ?thesis
    using owned_not_max [OF wf own] pa by (simp add: load_value_def read_from_memory_def)
qed

text \<open>A frame nobody owns is neither read nor written.\<close>

lemma access_unowned:
  assumes "mem_wf m" and "get_frame m pa = Some f" and "\<And>q. frame_at m q \<noteq> f"
    and "f \<noteq> INVALID_FRAME"
  shows "store_value m pa v = Some m" and "load_value m pa = Some (m, UINT32_MAX)"
  using get_table_lvl2_number_none [of m f] assms
  by (simp_all add: store_value_def load_value_def mem_wf_def)

lemma keeps_same:
  assumes "keeps m m'"
  shows "frame_at m' q = frame_at m q" and "get_frame m' pa = get_frame m pa"
  using assms by (cases q; simp add: keeps_def get_frame_def)+

text \<open>A load after a store: the value at the same address, and at another one what it was.\<close>

lemma store_then_load:
  assumes wf: "mem_wf m" and sz: "mem_sized m" and own: "frame_at m q = f" "f \<noteq> INVALID_FRAME"
    and off: "unat off + 4 \<le> unat (tam_pagina (cfg m))"
    and pa: "pa = f * tam_pagina (cfg m) + off"
  shows "\<exists>m1 m2. store_value m pa v = Some m1 \<and> load_value m1 pa = Some (m2, v) \<and>
    keeps m m1 \<and> keeps m m2 \<and>
    (\<forall>k. k + 4 \<le> unat pa \<or> unat pa + 4 \<le> k \<longrightarrow>
      read_u32 (main_memory m2) k = read_u32 (main_memory m) k)"
proof -
  have "unat f < unat (no_of_frames m)"
    using frames_wf_taken [of m q] frames_wf_length [of m] wf own by (simp add: mem_wf_def)
  note adr = frame_address [OF sz this off, folded pa]
  obtain m1 where m1: "store_value m pa v = Some m1" "keeps m m1"
    "write_u32 (main_memory m) (unat pa) v = Some (main_memory m1)"
    using store_value_owned [OF wf own adr(3,2), of v] by blast
  have same: "get_frame m1 pa = Some f" "frame_at m1 q = f"
    using adr(3) own(1) keeps_same [OF m1(2)] by simp_all
  obtain m2 where m2: "load_value m1 pa = Some (m2, v)" "keeps m1 m2"
    "main_memory m2 = main_memory m1"
    using load_value_owned [OF keeps_wf [OF m1(2) wf] same(2) own(2) same(1)]
      read_write_u32 [OF m1(3)] by blast
  show ?thesis
    using m1 m2 keeps_trans [OF m1(2) m2(2)] read_write_u32_disjoint [OF m1(3)] by auto
qed

subsection \<open>Resident pages\<close>

text \<open>The row that describes the page of a logical address, as the page walk finds it.\<close>

definition page_row :: "cpu_t \<Rightarrow> memory \<Rightarrow> u32 \<Rightarrow> row_ref option" where
  "page_row cpu m la =
     (let p = page_size cpu; e = page_amount_entries cpu in
      if p = 0 \<or> e = 0 then None
      else do {
        pcb \<leftarrow> cpu_pcb cpu;
        t \<leftarrow> second_page_number m (page_table pcb) (la div p div e);
        Some (sint t, unat (la div p mod e)) })"

definition resident :: "cpu_t \<Rightarrow> memory \<Rightarrow> u32 \<Rightarrow> u32 \<Rightarrow> bool" where
  "resident cpu m la f =
     (case page_row cpu m la \<bind> deref_row m of
        None \<Rightarrow> False
      | Some row \<Rightarrow> present row \<and> frame row = f \<and> f \<noteq> INVALID_FRAME)"

definition cpu_matches :: "cpu_t \<Rightarrow> memory \<Rightarrow> bool" where
  "cpu_matches cpu m \<longleftrightarrow> page_size cpu = tam_pagina (cfg m) \<and>
     page_amount_entries cpu = entradas_por_tabla (cfg m) \<and> max_rows m = entradas_por_tabla (cfg m)"

text \<open>The frame that a translation of \<open>la\<close> ends in, when it is the frame of some page: the one of
  the pair in the buffer, whatever the tables say, and without a pair the one of the page itself.\<close>

definition owned_frame :: "memory \<Rightarrow> u32 \<Rightarrow> bool" where
  "owned_frame m f \<longleftrightarrow> f \<noteq> INVALID_FRAME \<and> list_ex (\<lambda>q. frame_at m q = f) (all_refs m)"

definition leads_to :: "cpu_t \<Rightarrow> memory \<Rightarrow> u32 \<Rightarrow> u32 \<Rightarrow> bool" where
  "leads_to cpu m la f \<longleftrightarrow> cpu_pcb cpu \<noteq> None \<and>
     (case map_of (tlb_pairs (tlb cpu)) (la div page_size cpu) of
        Some g \<Rightarrow> g = f \<and> owned_frame m f
      | None \<Rightarrow> resident cpu m la f)"

text \<open>The frame of a present page is handed out without changing anything.\<close>

lemma obtain_frame_present:
  assumes "deref_row m (sint t, unat i) = Some row" and "present row" and "\<not> i > max_rows m"
  shows "obtain_frame m t i pid = Some (m, frame row)"
  using assms by (simp add: obtain_frame_def)

lemma page_in_TLB_hit:
  assumes "tlb_wf self" and "map_of (tlb_pairs self) p = Some f"
  shows "\<exists>self'. page_in_TLB self p = Some (self', Some f) \<and> tlb_wf self' \<and>
    tlb_pairs self' = tlb_pairs self"
  using page_in_TLB_eq [OF assms(1), of p] assms(2) by auto

lemma translate_hit:
  assumes "tlb_wf (tlb cpu)" and "map_of (tlb_pairs (tlb cpu)) (la div page_size cpu) = Some f"
    and "page_size cpu \<noteq> 0"
  shows "\<exists>t. translate s g cpu m la =
      Some (f * page_size cpu + la mod page_size cpu, cpu\<lparr>tlb := t\<rparr>, m) \<and>
    tlb_wf t \<and> tlb_pairs t = tlb_pairs (tlb cpu)"
  using page_in_TLB_hit [OF assms(1,2)] assms(3) by (auto simp: translate_def Let_def)

lemma translate_resident:
  assumes match: "cpu_matches cpu m" and ready: "tlb_ready (tlb cpu) (fifo_index cpu)"
    and miss: "map_of (tlb_pairs (tlb cpu)) (la div page_size cpu) = None" and res: "resident cpu m la f"
  shows "\<exists>cpu'. translate second_page_number obtain_frame cpu m la =
      Some (f * page_size cpu + la mod page_size cpu, cpu', m) \<and>
    tlb_wf (tlb cpu') \<and> map_of (tlb_pairs (tlb cpu')) (la div page_size cpu) = Some f"
proof -
  let ?p = "page_size cpu" and ?e = "page_amount_entries cpu"
  have wf: "tlb_wf (tlb cpu)" using ready by (simp add: tlb_ready_def)
  obtain q row where q: "page_row cpu m la = Some q" and row: "deref_row m q = Some row"
    "present row" "frame row = f"
    using res by (auto simp: resident_def bind_eq_Some_conv split: option.splits)
  obtain pcb t where pcb: "cpu_pcb cpu = Some pcb" and pos: "?p \<noteq> 0" "?e \<noteq> 0"
    and t: "second_page_number m (page_table pcb) (la div ?p div ?e) = Some t"
    and qt: "q = (sint t, unat (la div ?p mod ?e))"
    using q by (auto simp: page_row_def Let_def bind_eq_Some_conv split: if_splits)
  have small: "\<not> la div ?p mod ?e > max_rows m"
    using match pos(2) by (simp add: cpu_matches_def word_less_nat_alt unat_mod)
      (metis less_imp_le_nat mod_less_divisor not_le unat_gt_0)
  have fr: "obtain_frame m t (la div ?p mod ?e) pid = Some (m, f)" for pid
    using obtain_frame_present [of m t "la div ?p mod ?e"] row small by (simp add: qt)
  obtain t1 t2 i where "page_in_TLB (tlb cpu) (la div ?p) = Some (t1, None)"
    "tlb_replace_call (fifo_index cpu) t1 (la div ?p) f = Some (t2, i)"
    "tlb_wf t2" "map_of (tlb_pairs t2) (la div ?p) = Some f"
    using tlb_miss_insert [OF ready miss, of f] by blast
  then show ?thesis
    using pcb pos t fr by (simp add: translate_def Let_def)
qed

lemma translate_leads_to:
  assumes match: "cpu_matches cpu m" and ready: "tlb_ready (tlb cpu) (fifo_index cpu)"
    and to: "leads_to cpu m la f" and pos: "page_size cpu \<noteq> 0"
  shows "\<exists>cpu'. translate second_page_number obtain_frame cpu m la =
      Some (f * page_size cpu + la mod page_size cpu, cpu', m) \<and>
    tlb_wf (tlb cpu') \<and> map_of (tlb_pairs (tlb cpu')) (la div page_size cpu) = Some f"
proof (cases "map_of (tlb_pairs (tlb cpu)) (la div page_size cpu)")
  case None
  with to show ?thesis by (intro translate_resident [OF match ready]) (simp_all add: leads_to_def)
next
  case (Some g)
  have wf: "tlb_wf (tlb cpu)" using ready by (simp add: tlb_ready_def)
  have hit: "map_of (tlb_pairs (tlb cpu)) (la div page_size cpu) = Some f"
    using to Some by (simp add: leads_to_def)
  from translate_hit [OF wf hit pos, of second_page_number obtain_frame m] hit show ?thesis by force
qed

lemma leads_to_owned:
  assumes "leads_to cpu m la f"
  obtains q where "frame_at m q = f" and "f \<noteq> INVALID_FRAME"
proof (cases "map_of (tlb_pairs (tlb cpu)) (la div page_size cpu)")
  case None
  then obtain q row where "deref_row m q = Some row" "frame row = f" "f \<noteq> INVALID_FRAME"
    using assms by (auto simp: leads_to_def resident_def bind_eq_Some_conv split: option.splits)
  then show thesis by (intro that [of q]) (simp_all add: frame_at_def)
next
  case (Some g)
  with assms that show thesis by (auto simp: leads_to_def owned_frame_def list_ex_iff)
qed

text \<open>A CPU that writes to an address and then reads it gets its value back.\<close>

lemma write_then_read:
  assumes conn: "conn_ok (conexion cpu)" and wf: "mem_wf m" and sz: "mem_sized m"
    and match: "cpu_matches cpu m" and ready: "tlb_ready (tlb cpu) (fifo_index cpu)"
    and to: "leads_to cpu m la f"
    and off: "unat (la mod page_size cpu) + 4 \<le> unat (page_size cpu)"
  shows "\<exists>cpu1 m1 cpu2 m2.
    execute_WRITE (serve_memory junk pj) junk' cpu m la v = Some (cpu1, m1) \<and>
    execute_READ (serve_memory junk pj) junk' cpu1 m1 la = Some (v, cpu2, m2) \<and> keeps m m2"
proof -
  let ?p = "page_size cpu"
  let ?pa = "f * ?p + la mod ?p"
  obtain q where own: "frame_at m q = f" and f: "f \<noteq> INVALID_FRAME" using leads_to_owned [OF to] .
  obtain pcb where pcb: "cpu_pcb cpu = Some pcb" using to by (auto simp: leads_to_def)
  have p: "?p \<noteq> 0" using off by auto
  have ps: "?p = tam_pagina (cfg m)" using match by (simp add: cpu_matches_def)
  obtain cpu1 where tr1: "translate second_page_number obtain_frame cpu m la = Some (?pa, cpu1, m)"
    "tlb_wf (tlb cpu1)" "map_of (tlb_pairs (tlb cpu1)) (la div ?p) = Some f"
    using translate_leads_to [OF match ready to p] by blast
  note kept = mem_srv.translate_keeps_connection [OF tr1(1)]
  obtain m1 m2 where acc: "store_value m ?pa v = Some m1" "load_value m1 ?pa = Some (m2, v)"
    "keeps m m2"
    using store_then_load [OF wf sz own f, of "la mod ?p" ?pa v] off ps by auto
  obtain t where tr2: "translate second_page_number obtain_frame cpu1 m1 la =
      Some (?pa, cpu1\<lparr>tlb := t\<rparr>, m1)"
    using translate_hit [OF tr1(2), of la f second_page_number obtain_frame m1] tr1(3) kept p
    by auto
  have "execute_WRITE (serve_memory junk pj) junk' cpu m la v = Some (cpu1, m1)"
    using tr1(1) kept acc(1) pcb by (simp add: mem_srv.execute_WRITE_eq [OF conn])
  moreover have "execute_READ (serve_memory junk pj) junk' cpu1 m1 la =
      Some (v, cpu1\<lparr>tlb := t\<rparr>, m2)"
    using conn kept tr2 acc(2) pcb by (simp add: mem_srv.execute_READ_eq)
  ultimately show ?thesis
    using acc(3) by blast
qed

subsection \<open>The handshake\<close>

lemma served_code:
  "servidor_recibir_operacion junk (served (le32 (opcode_num code))) =
    (sint (opcode_num code), served [])"
  by (simp add: servidor_recibir_operacion_def recibir_operacion_def recv_def overlay_full
      del: opcode_num.simps)

lemma serve_queries:
  "serve_memory junk pj m (le32 (opcode_num SZ)) = Some (m, le32 (tam_pagina (cfg m)))"
  "serve_memory junk pj m (le32 (opcode_num ENTRIES)) = Some (m, le32 (entradas_por_tabla (cfg m)))"
  using opcode_num_positive [of SZ] opcode_num_positive [of ENTRIES]
  by (simp_all add: serve_memory_def routine_step_def served_code cpu_controller_send_size_def
      cpu_controller_send_entries_def fd_send_value_def send_def del: opcode_num.simps)

lemma receive_value_reply:
  assumes "conn_ok c"
  shows "connection_receive_value junk (c\<lparr>sock := (sock c)\<lparr>incoming := le32 v\<rparr>\<rparr>) 4 =
    (Some (le32 v), c)"
  using assms by (simp add: connection_receive_value_def recv_def conn_ok_def overlay_full)

lemma send_value_ok:
  assumes "conn_ok c"
  shows "connection_send_value c bytes = (int (length bytes), c\<lparr>sock := (sock c)\<lparr>outgoing := bytes\<rparr>\<rparr>)"
  using assms by (simp add: connection_send_value_def fd_send_value_def send_def conn_ok_def)

lemma deliver_reply:
  assumes "conn_ok c" and "bytes \<noteq> []" and "serve m bytes = Some (m', reply)"
  shows "deliver serve (c\<lparr>sock := (sock c)\<lparr>outgoing := bytes\<rparr>\<rparr>) m =
    Some (c\<lparr>sock := (sock c)\<lparr>incoming := reply\<rparr>\<rparr>, m')"
  using assms by (simp add: deliver_def conn_ok_def)

lemma le32_not_empty [simp]: "le32 w \<noteq> []"
  by (simp add: le32_def)

text \<open>The CPU learns the size of a page and the number of entries of a table.\<close>

lemma handshake_eq:
  assumes conn: "conn_ok (conexion cpu)"
  shows "handshake (serve_memory junk pj) junk' cpu m =
    Some (cpu\<lparr>page_size := tam_pagina (cfg m),
              page_amount_entries := entradas_por_tabla (cfg m)\<rparr>, m)"
proof -
  note size_reply = deliver_reply [where serve = "serve_memory junk pj", OF conn le32_not_empty
      serve_queries(1) [of junk pj m]]
  note entries_reply = deliver_reply [where serve = "serve_memory junk pj", OF conn le32_not_empty
      serve_queries(2) [of junk pj m]]
  show ?thesis
    using conn
    by (simp add: handshake_def send_value_ok size_reply entries_reply receive_value_reply
        read_u32_append(2) [of _ "[]", simplified] Let_def del: opcode_num.simps)
qed

end
