(* ===== verification/Samples.thy ===== *)
theory Samples
  imports Memory_Reachable Page_Fault Cpu_Memory "HOL-Library.Code_Target_Numeral"
begin

section \<open>Concrete states\<close>

text \<open>
  Small configurations of the modules, reached by running their own operations. The closed
  instances of the properties are evaluated on them.
\<close>

definition sample_env :: os_env where
  "sample_env = \<lparr>open_ok = (\<lambda>_. True), mmap_ok = (\<lambda>_. True), os_page = 16,
     garbage = (\<lambda>_. 0)\<rparr>"

definition sample_cfg :: mem_cfg where
  "sample_cfg = \<lparr>tam_memoria = 64, tam_pagina = 16, entradas_por_tabla = 2,
     marcos_por_proceso = 2, algoritmo_reemplazo = ''CLOCK''\<rparr>"

definition sample_start :: memory where
  "sample_start = the (on_init_memory sample_cfg sample_env)"

text \<open>Two processes of four pages, none in memory; then the first two pages of the second one
  in the first two frames.\<close>

definition sample_row :: "u32 \<Rightarrow> page_table_lvl_2" where
  "sample_row f = \<lparr>frame = f, present = True, use = True, modified = False\<rparr>"

definition empty_table :: "page_table_lvl_2 list" where
  "empty_table = [free_row, free_row]"

definition sample_with :: "page_table_lvl_2 list \<Rightarrow> bool list \<Rightarrow> memory" where
  "sample_with t bits =
     \<lparr>main_memory = replicate 64 0, max_frames = 2, max_rows = 2, frames = bits,
      no_of_frames = 4,
      tables_lvl_1 = [Some [\<lparr>second_page = 0\<rparr>, \<lparr>second_page = 1\<rparr>],
                      Some [\<lparr>second_page = 2\<rparr>, \<lparr>second_page = 3\<rparr>]],
      tables_lvl_2 = [Some empty_table, Some empty_table, Some t, Some empty_table],
      swap_data = [], frame_selector = Clock_selector, clock = 0, clock_improved = 0,
      cfg = sample_cfg, swap_files = (\<lambda>_. None), os = sample_env\<rparr>"

definition sample_two :: memory where
  "sample_two = sample_with empty_table [False, False, False, False]"

definition sample_memory :: memory where
  "sample_memory = sample_with [sample_row 0, sample_row 1] [True, True, False, False]"

text \<open>The same directories with one frame a process: the deletion does not see the second row.\<close>

definition sample_narrow :: memory where
  "sample_narrow = sample_memory\<lparr>max_frames := 1\<rparr>"

text \<open>A CPU that runs the second process, with an empty buffer of two entries.\<close>

definition sample_pcb :: pcb_t where
  "sample_pcb = (new_pcb 9 256 4)\<lparr>page_table := 1,
     instructions := [instruction_create (instcode_num C_REQUEST_WRITE) 20 77,
                      instruction_create (instcode_num C_REQUEST_EXIT) 0 0]\<rparr>"

definition idle_socket :: socket where
  "idle_socket = \<lparr>incoming = [], recv_error = False, outgoing = [], send_error = False\<rparr>"

definition sample_tlb_cfg :: tlb_cfg where
  "sample_tlb_cfg = \<lparr>entradas_tlb = 2, reemplazo_tlb = ''FIFO''\<rparr>"

definition sample_cpu :: cpu_t where
  "sample_cpu = \<lparr>cpu_pcb = Some sample_pcb, has_interruption = False, page_size = 16,
     page_amount_entries = 2, tlb = the (tlb_init sample_tlb_cfg), fifo_index = 0,
     conexion = \<lparr>sock = idle_socket, conectado = True\<rparr>, dispatch_client = Some idle_socket,
     cpu_in_use = 0, pcb_received = 0, tlb_config = sample_tlb_cfg\<rparr>"

definition sample_junk :: pcb_junk where
  "sample_junk = \<lparr>size_hi = 0, junk_io = 0, junk_real = 0\<rparr>"

subsection \<open>Their values\<close>

definition sample_rows :: "page_table_lvl_2 list" where
  "sample_rows = [sample_row 0, sample_row 1, free_row, free_row]"

lemma sample_memory_values:
  "mem_wf sample_memory" "has_room sample_memory"
  "tables_lvl_1 sample_memory =
    [Some [\<lparr>second_page = 0\<rparr>, \<lparr>second_page = 1\<rparr>], Some [\<lparr>second_page = 2\<rparr>, \<lparr>second_page = 3\<rparr>]]"
  "process_rows sample_memory 1 = Some sample_rows"
  "clock sample_memory = 0" "clock_improved sample_memory = 0"
  "max_rows sample_memory = 2" "max_frames sample_memory = 2"
  "frames sample_memory = [True, True, False, False]"
  "cfg sample_memory = sample_cfg"
  by code_simp+

lemma sample_two_values:
  "mem_wf sample_two"
  "tables_lvl_1 sample_two =
    [Some [\<lparr>second_page = 0\<rparr>, \<lparr>second_page = 1\<rparr>], Some [\<lparr>second_page = 2\<rparr>, \<lparr>second_page = 3\<rparr>]]"
  "process_rows sample_two 1 = Some [free_row, free_row, free_row, free_row]"
  "max_rows sample_two = 2" "frames sample_two = [False, False, False, False]"
  "cfg sample_two = sample_cfg"
  by code_simp+

end
