(* ===== verification/Safe_Queue.thy ===== *)
theory Safe_Queue
  imports Prelude "HOL-Library.Multiset"
begin

section \<open>Queues of the library\<close>

text \<open>
  \<open>lib/src/util/queue/safe_queue.c\<close> and the part of \<open>smartqueues.c\<close> it calls. A queue is
  the list of its elements, the next one to leave first; a NULL element is \<open>None\<close>. The
  mutex of a queue makes each operation one step, so it has no state here. \<open>list_sort\<close> is a
  function of the commons library and a parameter of \<open>safe_queue_sort\<close>; what the program
  relies on is that it permutes the list and orders it by its comparator
  (\<open>sorts_lists\<close>).

  \<open>queue_service\<close> is the interface of a queue; \<open>drain\<close>, which pops until the queue is
  empty, returns what was pushed in order.
\<close>

type_synonym 'a safe_queue = "'a list"

definition new_safe_queue :: "'a safe_queue" where
  "new_safe_queue = []"

definition queue_smart_push :: "'a safe_queue \<Rightarrow> 'a option \<Rightarrow> 'a safe_queue" where
  "queue_smart_push queue element = (case element of None \<Rightarrow> queue | Some e \<Rightarrow> queue @ [e])"

definition safe_queue_push :: "'a safe_queue \<Rightarrow> 'a option \<Rightarrow> 'a safe_queue" where
  "safe_queue_push this element = queue_smart_push this element"

definition safe_queue_pop :: "'a safe_queue \<Rightarrow> 'a option \<times> 'a safe_queue" where
  "safe_queue_pop this = (case this of [] \<Rightarrow> (None, []) | e # rest \<Rightarrow> (Some e, rest))"

definition safe_queue_is_empty :: "'a safe_queue \<Rightarrow> bool" where
  "safe_queue_is_empty this = (this = [])"

text \<open>The queue of the four functions that test their argument may be NULL.\<close>

definition safe_queue_peek :: "'a safe_queue option \<Rightarrow> 'a option" where
  "safe_queue_peek this =
     (case this of None \<Rightarrow> None | Some q \<Rightarrow> (case q of [] \<Rightarrow> None | e # rest \<Rightarrow> Some e))"

definition safe_queue_sort ::
    "(('a \<Rightarrow> 'a \<Rightarrow> bool) \<Rightarrow> 'a list \<Rightarrow> 'a list) \<Rightarrow> 'a safe_queue \<Rightarrow> ('a \<Rightarrow> 'a \<Rightarrow> bool) \<Rightarrow> 'a safe_queue" where
  "safe_queue_sort list_sort this comparator = list_sort comparator this"

definition safe_queue_find_by :: "'a safe_queue option \<Rightarrow> ('a \<Rightarrow> bool) \<Rightarrow> 'a option" where
  "safe_queue_find_by self criteria = (case self of None \<Rightarrow> None | Some q \<Rightarrow> find criteria q)"

definition safe_queue_any :: "'a safe_queue option \<Rightarrow> ('a \<Rightarrow> bool) \<Rightarrow> bool" where
  "safe_queue_any self matcher = (case self of None \<Rightarrow> False | Some q \<Rightarrow> list_ex matcher q)"

fun remove_first :: "('a \<Rightarrow> bool) \<Rightarrow> 'a list \<Rightarrow> 'a option \<times> 'a list" where
  "remove_first p [] = (None, [])"
| "remove_first p (x # xs) =
     (if p x then (Some x, xs) else let (r, ys) = remove_first p xs in (r, x # ys))"

definition safe_queue_remove_by ::
    "'a safe_queue option \<Rightarrow> ('a \<Rightarrow> bool) \<Rightarrow> 'a option \<times> 'a safe_queue option" where
  "safe_queue_remove_by self matcher =
     (case self of None \<Rightarrow> (None, None)
      | Some q \<Rightarrow> (let (r, q') = remove_first matcher q in (r, Some q')))"

subsection \<open>What the library's sort promises\<close>

definition sorts_lists :: "(('a \<Rightarrow> 'a \<Rightarrow> bool) \<Rightarrow> 'a list \<Rightarrow> 'a list) \<Rightarrow> bool" where
  "sorts_lists list_sort \<longleftrightarrow>
     (\<forall>cmp xs. mset (list_sort cmp xs) = mset xs \<and>
       ((\<forall>x y. cmp x y \<or> cmp y x) \<longrightarrow> (\<forall>x y z. cmp x y \<longrightarrow> cmp y z \<longrightarrow> cmp x z) \<longrightarrow>
         sorted_wrt cmp (list_sort cmp xs)))"

text \<open>Insertion sort keeps the promise.\<close>

fun insert_by :: "('a \<Rightarrow> 'a \<Rightarrow> bool) \<Rightarrow> 'a \<Rightarrow> 'a list \<Rightarrow> 'a list" where
  "insert_by cmp x [] = [x]"
| "insert_by cmp x (y # ys) = (if cmp x y then x # y # ys else y # insert_by cmp x ys)"

definition sort_by :: "('a \<Rightarrow> 'a \<Rightarrow> bool) \<Rightarrow> 'a list \<Rightarrow> 'a list" where
  "sort_by cmp xs = foldr (insert_by cmp) xs []"

lemma mset_insert_by [simp]: "mset (insert_by cmp x ys) = add_mset x (mset ys)"
  by (induction ys) auto

lemma set_insert_by [simp]: "set (insert_by cmp x ys) = insert x (set ys)"
  by (induction ys) auto

lemma sorted_insert_by:
  assumes "\<And>x y. cmp x y \<or> cmp y x" and "\<And>x y z. cmp x y \<Longrightarrow> cmp y z \<Longrightarrow> cmp x z"
  shows "sorted_wrt cmp ys \<Longrightarrow> sorted_wrt cmp (insert_by cmp x ys)"
proof (induction ys)
  case Nil
  then show ?case by simp
next
  case (Cons y ys)
  then show ?case using assms(1) [of x y] assms(2) [of x y] by auto
qed

lemma sort_by_sorts: "sorts_lists sort_by"
proof -
  have "mset (sort_by cmp xs) = mset xs" for cmp :: "'a \<Rightarrow> 'a \<Rightarrow> bool" and xs
    by (induction xs) (simp_all add: sort_by_def)
  moreover have "sorted_wrt cmp (sort_by cmp xs)"
    if "\<forall>x y. cmp x y \<or> cmp y x" "\<forall>x y z. cmp x y \<longrightarrow> cmp y z \<longrightarrow> cmp x z"
    for cmp :: "'a \<Rightarrow> 'a \<Rightarrow> bool" and xs
    unfolding sort_by_def
    by (induction xs) (use that in \<open>auto intro!: sorted_insert_by\<close>)
  ultimately show ?thesis by (auto simp: sorts_lists_def)
qed

subsection \<open>Facts about the operations\<close>

lemma safe_queue_push_Some [simp]: "safe_queue_push q (Some e) = q @ [e]"
  by (simp add: safe_queue_push_def queue_smart_push_def)

lemma safe_queue_pop_simps [simp]:
  "safe_queue_pop [] = (None, [])" "safe_queue_pop (e # q) = (Some e, q)"
  by (simp_all add: safe_queue_pop_def)

lemma safe_queue_pop_None [simp]: "safe_queue_pop q = (None, q') \<longleftrightarrow> q = [] \<and> q' = []"
  by (cases q) auto

lemma safe_queue_pop_Some [simp]: "safe_queue_pop q = (Some e, q') \<longleftrightarrow> q = e # q'"
  by (cases q) auto

lemma remove_first_find: "fst (remove_first p xs) = find p xs"
  by (induction xs) (auto split: prod.splits)

lemma remove_first_none: "\<forall>x \<in> set xs. \<not> p x \<Longrightarrow> remove_first p xs = (None, xs)"
  by (induction xs) auto

lemma remove_first_None: "remove_first p xs = (None, ys) \<longleftrightarrow> (\<forall>x \<in> set xs. \<not> p x) \<and> ys = xs"
proof
  assume r: "remove_first p xs = (None, ys)"
  then have "\<forall>x \<in> set xs. \<not> p x"
    using remove_first_find [of p xs] by (simp add: find_None_iff eq_commute [of None])
  with r show "(\<forall>x \<in> set xs. \<not> p x) \<and> ys = xs" by (simp add: remove_first_none)
qed (simp add: remove_first_none)

lemma remove_first_Some:
  "remove_first p xs = (Some x, ys) \<Longrightarrow>
    p x \<and> x \<in> set xs \<and> mset xs = add_mset x (mset ys) \<and> find p xs = Some x"
  by (induction xs arbitrary: ys) (auto split: prod.splits if_splits)

lemma remove_first_split:
  "remove_first p xs = (Some x, ys) \<Longrightarrow>
    \<exists>us vs. xs = us @ x # vs \<and> ys = us @ vs \<and> (\<forall>u \<in> set us. \<not> p u)"
proof (induction xs arbitrary: ys)
  case Nil
  then show ?case by simp
next
  case (Cons z zs)
  show ?case
  proof (cases "p z")
    case True
    with Cons.prems show ?thesis by (intro exI [of _ "[]"] exI [of _ zs]) auto
  next
    case False
    obtain ws where ws: "remove_first p zs = (Some x, ws)" "ys = z # ws"
      using Cons.prems False by (auto split: prod.splits)
    from Cons.IH [OF ws(1)] obtain us vs where
      "zs = us @ x # vs" "ws = us @ vs" "\<forall>u \<in> set us. \<not> p u" by blast
    with ws(2) False show ?thesis by (intro exI [of _ "z # us"] exI [of _ vs]) auto
  qed
qed

subsection \<open>First in, first out\<close>

locale queue_service =
  fixes empty :: 'q
    and push :: "'q \<Rightarrow> 'a option \<Rightarrow> 'q"
    and pop :: "'q \<Rightarrow> 'a option \<times> 'q"
    and items :: "'q \<Rightarrow> 'a list"
  assumes items_empty: "items empty = []"
    and items_push: "items (push q e) = items q @ (case e of None \<Rightarrow> [] | Some x \<Rightarrow> [x])"
    and pop_none: "items q = [] \<Longrightarrow> fst (pop q) = None \<and> items (snd (pop q)) = []"
    and pop_some: "items q = x # xs \<Longrightarrow> fst (pop q) = Some x \<and> items (snd (pop q)) = xs"
begin

text \<open>Any sequence of insertions and removals: the elements that left followed by the ones still
  inside are the ones that were there followed by the ones put in.\<close>

fun run_ops :: "'a option option list \<Rightarrow> 'q \<Rightarrow> 'a list \<times> 'q" where
  "run_ops [] q = ([], q)"
| "run_ops (Some e # ops) q = run_ops ops (push q e)"
| "run_ops (None # ops) q =
     (let (r, q') = pop q; (out, q'') = run_ops ops q' in
      ((case r of None \<Rightarrow> [] | Some x \<Rightarrow> [x]) @ out, q''))"

fun pushed :: "'a option option list \<Rightarrow> 'a list" where
  "pushed [] = []"
| "pushed (Some (Some x) # ops) = x # pushed ops"
| "pushed (_ # ops) = pushed ops"

lemma fifo_order:
  "run_ops ops q = (out, q') \<Longrightarrow> out @ items q' = items q @ pushed ops"
proof (induction ops arbitrary: q out)
  case Nil
  then show ?case by simp
next
  case (Cons op ops)
  show ?case
  proof (cases op)
    case None
    obtain r q1 where pop: "pop q = (r, q1)" by (cases "pop q")
    obtain out1 where rest: "run_ops ops q1 = (out1, q')"
      and out: "out = (case r of None \<Rightarrow> [] | Some x \<Rightarrow> [x]) @ out1"
      using Cons.prems None pop by (auto split: prod.splits)
    show ?thesis
      using Cons.IH [OF rest] out None pop pop_none [of q] pop_some [of q]
      by (cases "items q") auto
  next
    case (Some e)
    then have "run_ops ops (push q e) = (out, q')" using Cons.prems by simp
    from Cons.IH [OF this] Some show ?thesis
      by (cases e) (simp_all add: items_push)
  qed
qed

end

interpretation fifo: queue_service new_safe_queue safe_queue_push safe_queue_pop "\<lambda>q. q"
  by unfold_locales
    (auto simp: new_safe_queue_def safe_queue_push_def queue_smart_push_def safe_queue_pop_def
      split: option.split list.split)

end
