(* ===== verification/Pids.thy ===== *)
theory Pids
  imports Prelude
begin

section \<open>Process identifiers: \<open>pids.c\<close>\<close>

text \<open>
  \<open>kernel/src/module/pids.c\<close>: the pool of \<open>PIDS\<close> identifiers. An identifier that is taken
  is never taken again before it is freed, and the least free one is taken.
\<close>

abbreviation PIDS :: nat where
  "PIDS \<equiv> 1024"

abbreviation UNDEFINED :: u32 where
  "UNDEFINED \<equiv> 1025"

type_synonym pids_t = "bool list"

definition new_pids :: pids_t where
  "new_pids = replicate PIDS False"

definition get_pid_libre :: "pids_t \<Rightarrow> u32 \<times> pids_t" where
  "get_pid_libre pids =
     (case find (\<lambda>i. \<not> pids ! i) [0..<PIDS] of
        Some i \<Rightarrow> (word_of_nat i, pids[i := True])
      | None \<Rightarrow> (UNDEFINED, pids))"

definition pids_free :: "pids_t \<Rightarrow> u32 \<Rightarrow> pids_t" where
  "pids_free pids pid = (if unat pid < PIDS then pids[unat pid := False] else pids)"

text \<open>The identifiers in use.\<close>

definition taken :: "pids_t \<Rightarrow> u32 set" where
  "taken pids = {w. unat w < PIDS \<and> pids ! unat w}"

lemma length_get_pid [simp]: "length (snd (get_pid_libre pids)) = length pids"
  by (simp add: get_pid_libre_def split: option.split)

lemma get_pid_libre_some:
  assumes "length pids = PIDS" and "get_pid_libre pids = (w, pids')" and "w \<noteq> UNDEFINED"
  shows "w \<notin> taken pids" and "taken pids' = insert w (taken pids)" and "unat w < PIDS"
    and "\<And>v. v < w \<Longrightarrow> v \<in> taken pids"
proof -
  obtain i where i: "find (\<lambda>i. \<not> pids ! i) [0..<PIDS] = Some i"
    using assms(2,3) by (auto simp: get_pid_libre_def split: option.splits)
  then have w: "w = word_of_nat i" "pids' = pids[i := True]" and lt: "i < PIDS" "\<not> pids ! i"
    and least: "\<And>k. k < i \<Longrightarrow> pids ! k"
    using assms(2) i [unfolded find_upt_Some] by (auto simp: get_pid_libre_def i)
  have un: "unat w = i" using lt by (simp add: w unat_of_nat)
  show "unat w < PIDS" using un lt by simp
  show "w \<notin> taken pids" using un lt by (simp add: taken_def)
  show "taken pids' = insert w (taken pids)"
  proof (rule set_eqI)
    fix v
    show "v \<in> taken pids' \<longleftrightarrow> v \<in> insert w (taken pids)"
      using un lt assms(1) w(2)
      by (cases "v = w") (auto simp: taken_def nth_list_update word_unat_eq_iff)
  qed
  show "v \<in> taken pids" if "v < w" for v
    using that un lt least by (simp add: taken_def word_less_nat_alt)
qed

lemma get_pid_libre_none:
  assumes "length pids = PIDS" and "get_pid_libre pids = (UNDEFINED, pids')"
  shows "pids' = pids" and "\<And>w. unat w < PIDS \<Longrightarrow> w \<in> taken pids"
proof -
  have none: "find (\<lambda>i. \<not> pids ! i) [0..<PIDS] = None"
  proof (cases "find (\<lambda>i. \<not> pids ! i) [0..<PIDS]")
    case (Some i)
    then have "i < PIDS" "(word_of_nat i :: u32) = UNDEFINED"
      using assms(2) by (auto simp: get_pid_libre_def dest: find_upt_SomeD)
    then have "unat (word_of_nat i :: u32) = 1025" by simp
    with \<open>i < PIDS\<close> show ?thesis by (simp add: unat_of_nat)
  qed
  then show "pids' = pids" using assms(2) by (simp add: get_pid_libre_def)
  show "w \<in> taken pids" if "unat w < PIDS" for w
    using none that by (auto simp: find_upt_None taken_def)
qed

lemma pids_free_taken:
  "length pids = PIDS \<Longrightarrow> taken (pids_free pids w) = taken pids - {w}"
  by (auto simp: pids_free_def taken_def nth_list_update word_unat_eq_iff)

end
