(* ===== verification/Scheduler.thy ===== *)
theory Scheduler
  imports Safe_Queue Pids Mmu
begin

section \<open>The kernel's state and the operations of its schedulers\<close>

text \<open>
  \<open>kernel/inc/module/kernel.h\<close>, \<open>kernel/inc/scheduling/scheduler.h\<close> and the operations of
  \<open>kernel/src/scheduling\<close> and \<open>kernel/src/client\<close>.

  The threads of the kernel share PCBs by pointer, and what one of them does to a PCB the
  others see: a pointer is an address, \<open>pcb_heap\<close> holds the PCBs that are alive, and an access
  to an address that was freed is undefined (\<open>None\<close>). \<open>malloc\<close> takes an address that was not
  used before. A semaphore is its counter; the four loops of the threads are in the theory
  \<open>Kernel\<close>, here are the operations they run.

  The memory module is a server the kernel is connected to, as it is for the CPU: its state is
  the field \<open>memory_side\<close>, and \<open>mem_server\<close> of the environment answers. The environment also holds
  the library's \<open>list_sort\<close> and the two products of \<open>re_schedule\<close> with the \<open>double\<close> \<open>alfa\<close>,
  truncated to \<open>uint32_t\<close>. A console has a thread of the server with its socket and its
  \<open>sender_pid\<close> (\<open>clients\<close>); a waiting tracker of \<open>mts.c\<close> has the PCB's pointer and the
  identifier it read at its start (\<open>trackers\<close>).
\<close>

type_synonym addr = nat

datatype get_next_t = Get_next_fifo | Get_next_srt

datatype lts_state = Lts_waiting | Lts_request

datatype sts_state = Sts_waiting | Sts_running

datatype io_state = Io_waiting | Io_busy addr

record 'm kernel =
  pcb_heap :: "addr \<Rightarrow> pcb_t option"
  brk :: addr
  q_new :: "addr safe_queue"
  q_ready :: "addr safe_queue"
  q_ready_sus :: "addr safe_queue"
  q_blocked :: "addr safe_queue"
  q_blocked_sus :: "addr safe_queue"
  dom_sem :: nat
  req_admit :: nat
  io_request :: nat
  execute_sem :: nat
  interrupt :: bool
  get_next_fn :: get_next_t
  current_estimation :: u32
  current_io :: u32
  pids :: pids_t
  pcbs :: "addr list"
  clients :: "(socket \<times> u32) list"
  conexion_memory :: conexion_t
  conexion_dispatch :: conexion_t
  conexion_interrupt :: conexion_t
  memory_side :: 'm
  lts :: lts_state
  sts :: sts_state
  io_unit :: io_state
  trackers :: "(addr \<times> u32) list"

record 'm kernel_env =
  mem_server :: "'m server"
  list_sort :: "(addr \<Rightarrow> addr \<Rightarrow> bool) \<Rightarrow> addr list \<Rightarrow> addr list"
  alfa_part :: "u32 \<Rightarrow> u32"
  rest_part :: "u32 \<Rightarrow> u32"
  estimacion_inicial :: u32
  stack_junk :: "nat \<Rightarrow> byte"
  heap_junk :: pcb_junk

subsection \<open>PCBs in the heap\<close>

definition update_pcb :: "'m kernel \<Rightarrow> addr \<Rightarrow> (pcb_t \<Rightarrow> pcb_t) \<Rightarrow> 'm kernel option" where
  "update_pcb k a f = do {
     pcb \<leftarrow> pcb_heap k a;
     Some (k\<lparr>pcb_heap := (pcb_heap k)(a \<mapsto> f pcb)\<rparr>) }"

definition alloc_pcb :: "'m kernel \<Rightarrow> pcb_t \<Rightarrow> 'm kernel \<times> addr" where
  "alloc_pcb k pcb =
     (k\<lparr>pcb_heap := (pcb_heap k)(brk k \<mapsto> pcb), brk := Suc (brk k)\<rparr>, brk k)"

definition pcb_destroy :: "'m kernel \<Rightarrow> addr \<Rightarrow> 'm kernel option" where
  "pcb_destroy k a = do {
     _ \<leftarrow> pcb_heap k a;
     Some (k\<lparr>pcb_heap := (pcb_heap k)(a := None)\<rparr>) }"

text \<open>\<open>list_find\<close> and its relatives stop at the first PCB with the identifier.\<close>

definition find_pid :: "'m kernel \<Rightarrow> addr list \<Rightarrow> u32 \<Rightarrow> addr option option" where
  "find_pid k queue pid = findM (\<lambda>a. map_option (\<lambda>pcb. pcb_id pcb = pid) (pcb_heap k a)) queue"

definition exists_pid :: "'m kernel \<Rightarrow> addr list \<Rightarrow> u32 \<Rightarrow> bool option" where
  "exists_pid k queue pid = map_option (\<lambda>r. r \<noteq> None) (find_pid k queue pid)"

definition remove_pid :: "'m kernel \<Rightarrow> addr list \<Rightarrow> u32 \<Rightarrow> (addr option \<times> addr list) option" where
  "remove_pid k queue pid =
     map_option (\<lambda>r. (r, case r of None \<Rightarrow> queue | Some a \<Rightarrow> remove1 a queue)) (find_pid k queue pid)"

subsection \<open>Messages: \<open>cpu_controller.c\<close> and \<open>swap_controller.c\<close>\<close>

definition send_memory ::
    "'m kernel_env \<Rightarrow> 'm kernel \<Rightarrow> opcode_t \<Rightarrow> byte list \<Rightarrow> (int \<times> 'm kernel) option" where
  "send_memory env k code data = do {
     (n, c) \<leftarrow> conexion_enviar_stream (conexion_memory k) (opcode_num code) data (length data);
     (c, m) \<leftarrow> deliver (mem_server env) c (memory_side k);
     Some (n, k\<lparr>conexion_memory := c, memory_side := m\<rparr>) }"

definition swap_controller_send_pcb ::
    "'m kernel_env \<Rightarrow> opcode_t \<Rightarrow> 'm kernel \<Rightarrow> addr \<Rightarrow> (int \<times> 'm kernel) option" where
  "swap_controller_send_pcb env code k a = do {
     pcb \<leftarrow> pcb_heap k a;
     send_memory env k code (pcb_to_stream pcb) }"

definition swap_controller_exit ::
    "'m kernel_env \<Rightarrow> 'm kernel \<Rightarrow> addr \<Rightarrow> (int \<times> 'm kernel) option" where
  "swap_controller_exit env k a = do {
     pcb \<leftarrow> pcb_heap k a;
     send_memory env k PROCESS_TERMINATED (le32 (pcb_id pcb) @ le32 (page_table pcb)) }"

definition cpu_controller_send_pcb ::
    "'m kernel \<Rightarrow> opcode_t \<Rightarrow> addr \<Rightarrow> (int \<times> 'm kernel) option" where
  "cpu_controller_send_pcb k code a = do {
     pcb \<leftarrow> pcb_heap k a;
     (n, c) \<leftarrow> conexion_enviar_stream (conexion_dispatch k) (opcode_num code)
       (pcb_to_stream pcb) (pcb_bytes_size pcb);
     Some (n, k\<lparr>conexion_dispatch := c\<rparr>) }"

definition cpu_controller_send_interrupt :: "'m kernel \<Rightarrow> int \<times> 'm kernel" where
  "cpu_controller_send_interrupt k =
     (let (n, c) = connection_send_value (conexion_interrupt k) (le32 (opcode_num INT_op)) in
      (n, k\<lparr>conexion_interrupt := c\<rparr>))"

text \<open>The PCB is a new block, and so is the I/O time a word read behind it.\<close>

definition cpu_controller_receive_pcb ::
    "'m kernel_env \<Rightarrow> 'm kernel \<Rightarrow> (addr \<times> u32 \<times> 'm kernel) option" where
  "cpu_controller_receive_pcb env k =
     (let (r, s) = conexion_recibir_stream (stack_junk env) (sock (conexion_dispatch k)) in
      do {
        (stream, _) \<leftarrow> r;
        pcb \<leftarrow> pcb_from_stream (heap_junk env) stream;
        io_time \<leftarrow> read_u32 stream (pcb_bytes_size pcb);
        let (k, a) = alloc_pcb (k\<lparr>conexion_dispatch := (conexion_dispatch k)\<lparr>sock := s\<rparr>\<rparr>) pcb;
        Some (a, io_time, k) })"

subsection \<open>Interruptions: \<open>scheduler.c\<close>\<close>

definition should_interrupt :: "'m kernel \<Rightarrow> addr \<Rightarrow> bool option" where
  "should_interrupt k a = do {
     pcb \<leftarrow> pcb_heap k a;
     Some (current_estimation k > estimation pcb) }"

definition check_interruption :: "'m kernel \<Rightarrow> addr \<Rightarrow> 'm kernel option" where
  "check_interruption k a =
     (if interrupt k
      then do {
        b \<leftarrow> should_interrupt k a;
        if b then Some (snd (cpu_controller_send_interrupt k)) else Some k }
      else Some k)"

subsection \<open>The next process: \<open>scheduler_algorithms.c\<close>\<close>

definition get_next_fifo :: "'m kernel \<Rightarrow> addr option \<times> 'm kernel" where
  "get_next_fifo k = (let (r, q) = safe_queue_pop (q_ready k) in (r, k\<lparr>q_ready := q\<rparr>))"

text \<open>The order that \<open>pcb_sort_by_estimation\<close> gives the addresses of live PCBs.\<close>

definition by_estimation :: "'m kernel \<Rightarrow> addr \<Rightarrow> addr \<Rightarrow> bool" where
  "by_estimation k a b = pcb_sort_by_estimation (the (pcb_heap k a)) (the (pcb_heap k b))"

definition get_next_srt :: "'m kernel_env \<Rightarrow> 'm kernel \<Rightarrow> (addr option \<times> 'm kernel) option" where
  "get_next_srt env k =
     (if list_all (\<lambda>a. pcb_heap k a \<noteq> None) (q_ready k)
      then Some (get_next_fifo
             (k\<lparr>q_ready := safe_queue_sort (list_sort env) (q_ready k) (by_estimation k)\<rparr>))
      else None)"

definition get_next :: "'m kernel_env \<Rightarrow> 'm kernel \<Rightarrow> (addr option \<times> 'm kernel) option" where
  "get_next env k =
     (case get_next_fn k of
        Get_next_fifo \<Rightarrow> Some (get_next_fifo k)
      | Get_next_srt \<Rightarrow> get_next_srt env k)"

subsection \<open>Short term: \<open>sts.c\<close>\<close>

definition terminate :: "'m kernel_env \<Rightarrow> 'm kernel \<Rightarrow> addr \<Rightarrow> 'm kernel option" where
  "terminate env k a = do {
     (_, k) \<leftarrow> swap_controller_exit env k a;
     k \<leftarrow> pcb_destroy k a;
     Some (k\<lparr>dom_sem := Suc (dom_sem k)\<rparr>) }"

definition re_schedule :: "'m kernel_env \<Rightarrow> 'm kernel \<Rightarrow> addr \<Rightarrow> 'm kernel option" where
  "re_schedule env k a =
     update_pcb k a (\<lambda>pcb. pcb\<lparr>estimation :=
       alfa_part env (real_time pcb) + rest_part env (estimation pcb)\<rparr>)"

definition pre_empt :: "'m kernel \<Rightarrow> addr \<Rightarrow> 'm kernel option" where
  "pre_empt k a = do {
     k \<leftarrow> update_pcb k a (\<lambda>pcb. pcb\<lparr>estimation :=
       (if real_time pcb < estimation pcb then estimation pcb - real_time pcb
        else real_time pcb - estimation pcb)\<rparr>);
     Some (k\<lparr>q_ready := safe_queue_push (q_ready k) (Some a)\<rparr>) }"

text \<open>\<open>notify_mts\<close> starts a thread with the PCB's pointer; the thread first reads its identifier.\<close>

definition notify_mts :: "'m kernel \<Rightarrow> addr \<Rightarrow> 'm kernel option" where
  "notify_mts k a = do {
     pcb \<leftarrow> pcb_heap k a;
     Some (k\<lparr>trackers := trackers k @ [(a, pcb_id pcb)]\<rparr>) }"

definition block :: "'m kernel_env \<Rightarrow> 'm kernel \<Rightarrow> addr \<Rightarrow> u32 \<Rightarrow> 'm kernel option" where
  "block env k a io_time = do {
     k \<leftarrow> update_pcb k a (\<lambda>pcb. pcb\<lparr>io := io_time\<rparr>);
     k \<leftarrow> re_schedule env k a;
     let k = k\<lparr>q_blocked := safe_queue_push (q_blocked k) (Some a)\<rparr>;
     k \<leftarrow> notify_mts k a;
     Some (k\<lparr>io_request := Suc (io_request k)\<rparr>) }"

definition event :: "'m kernel \<Rightarrow> addr \<Rightarrow> 'm kernel option" where
  "event k a = do {
     k \<leftarrow> update_pcb k a (\<lambda>pcb. pcb\<lparr>status := status_num PCB_READY\<rparr>);
     let k = k\<lparr>q_ready := safe_queue_push (q_ready k) (Some a)\<rparr>;
     k \<leftarrow> check_interruption k a;
     Some (k\<lparr>execute_sem := Suc (execute_sem k)\<rparr>) }"

text \<open>\<open>execute\<close> up to the point where it waits for the CPU, and from there on.\<close>

definition execute :: "'m kernel_env \<Rightarrow> 'm kernel \<Rightarrow> addr \<Rightarrow> 'm kernel option" where
  "execute env k a = do {
     k \<leftarrow> update_pcb k a (\<lambda>pcb. pcb\<lparr>status := status_num PCB_EXECUTING\<rparr>);
     pcb \<leftarrow> pcb_heap k a;
     let k = k\<lparr>current_estimation := estimation pcb\<rparr>;
     (bytes_sent, k) \<leftarrow> cpu_controller_send_pcb k PCB a;
     if bytes_sent > 0
     then do { k \<leftarrow> pcb_destroy k a; Some (k\<lparr>sts := Sts_running\<rparr>) }
     else terminate env k a }"

definition execute_return :: "'m kernel_env \<Rightarrow> 'm kernel \<Rightarrow> u32 \<Rightarrow> 'm kernel option" where
  "execute_return env k real_usage = do {
     (a, io_time, k) \<leftarrow> cpu_controller_receive_pcb env k;
     k \<leftarrow> update_pcb k a (\<lambda>pcb. pcb\<lparr>real_time := real_usage\<rparr>);
     let k = k\<lparr>current_estimation := 0\<rparr>;
     pcb \<leftarrow> pcb_heap k a;
     k \<leftarrow> (if status pcb = status_num PCB_BLOCKED then block env k a io_time
           else if status pcb = status_num PCB_TERMINATED then terminate env k a
           else if status pcb = status_num PCB_READY then pre_empt k a
           else terminate env k a);
     Some (k\<lparr>execute_sem := Suc (execute_sem k), sts := Sts_waiting\<rparr>) }"

subsection \<open>Medium term: \<open>mts.c\<close>\<close>

definition suspend :: "'m kernel_env \<Rightarrow> 'm kernel \<Rightarrow> addr \<Rightarrow> 'm kernel option" where
  "suspend env k a = do {
     let k = k\<lparr>dom_sem := Suc (dom_sem k)\<rparr>;
     k \<leftarrow> update_pcb k a (\<lambda>pcb. pcb\<lparr>status := status_num PCB_SUSPENDED_BLOCKED\<rparr>);
     let k = k\<lparr>q_blocked_sus := safe_queue_push (q_blocked_sus k) (Some a)\<rparr>;
     (_, k) \<leftarrow> swap_controller_send_pcb env SWAP_PCB k a;
     Some k }"

text \<open>The end of the wait of one tracker.\<close>

definition track_time :: "'m kernel_env \<Rightarrow> 'm kernel \<Rightarrow> addr \<times> u32 \<Rightarrow> 'm kernel option" where
  "track_time env k dto =
     (let (a, pid) = dto in
      do {
        there \<leftarrow> exists_pid k (q_blocked k) pid;
        if there \<or> current_io k = pid
        then do {
          (removed, q) \<leftarrow> remove_pid k (q_blocked k) pid;
          suspend env (k\<lparr>q_blocked := q\<rparr>) (case removed of None \<Rightarrow> a | Some b \<Rightarrow> b) }
        else Some k })"

definition resume :: "'m kernel \<Rightarrow> addr option \<times> 'm kernel" where
  "resume k = (let (r, q) = safe_queue_pop (q_ready_sus k) in (r, k\<lparr>q_ready_sus := q\<rparr>))"

definition suspended_event :: "'m kernel \<Rightarrow> addr \<Rightarrow> 'm kernel option" where
  "suspended_event k a = do {
     pcb \<leftarrow> pcb_heap k a;
     there \<leftarrow> exists_pid k (q_blocked_sus k) (pcb_id pcb);
     (a, k) \<leftarrow>
       (if there
        then do {
          (removed, q) \<leftarrow> remove_pid k (q_blocked_sus k) (pcb_id pcb);
          a \<leftarrow> removed;
          Some (a, k\<lparr>q_blocked_sus := q\<rparr>) }
        else Some (a, k));
     k \<leftarrow> update_pcb k a (\<lambda>pcb. pcb\<lparr>status := status_num PCB_SUSPENDED_READY\<rparr>);
     Some (k\<lparr>q_ready_sus := safe_queue_push (q_ready_sus k) (Some a),
             req_admit := Suc (req_admit k)\<rparr>) }"

subsection \<open>Input and output: \<open>io_scheduler.c\<close>\<close>

definition retrieve_pcb :: "'m kernel \<Rightarrow> addr option \<times> 'm kernel" where
  "retrieve_pcb k =
     (case safe_queue_pop (q_blocked_sus k) of
        (Some a, q) \<Rightarrow> (Some a, k\<lparr>q_blocked_sus := q\<rparr>)
      | (None, _) \<Rightarrow>
          (case safe_queue_pop (q_blocked k) of
             (Some a, q) \<Rightarrow> (Some a, k\<lparr>q_blocked := q\<rparr>)
           | (None, _) \<Rightarrow> (None, k)))"

definition io_begin :: "'m kernel \<Rightarrow> 'm kernel option" where
  "io_begin k =
     (let k = k\<lparr>io_request := io_request k - 1\<rparr>; (r, k) = retrieve_pcb k in
      case r of
        None \<Rightarrow> Some (k\<lparr>current_io := UINT32_MAX\<rparr>)
      | Some a \<Rightarrow> do {
          pcb \<leftarrow> pcb_heap k a;
          Some (k\<lparr>current_io := pcb_id pcb, io_unit := Io_busy a\<rparr>) })"

definition io_end :: "'m kernel \<Rightarrow> addr \<Rightarrow> 'm kernel option" where
  "io_end k a = do {
     pcb \<leftarrow> pcb_heap k a;
     k \<leftarrow> (if status pcb = status_num PCB_SUSPENDED_BLOCKED then suspended_event k a
           else event k a);
     Some (k\<lparr>current_io := UINT32_MAX, io_unit := Io_waiting\<rparr>) }"

subsection \<open>Long term: \<open>lts.c\<close>\<close>

definition request_page_table :: "'m kernel_env \<Rightarrow> 'm kernel \<Rightarrow> addr \<Rightarrow> 'm kernel option" where
  "request_page_table env k a = do {
     pcb \<leftarrow> pcb_heap k a;
     (_, k) \<leftarrow> send_memory env k MEMORY_INIT
       (operandos_to_stream \<lparr>op1 = pcb_id pcb, op2 = ucast (pcb_size pcb)\<rparr>);
     let (r, s) = conexion_recibir_stream (stack_junk env) (sock (conexion_memory k));
     let k = k\<lparr>conexion_memory := (conexion_memory k)\<lparr>sock := s\<rparr>\<rparr>;
     (case r of
        None \<Rightarrow> Some k
      | Some (stream, _) \<Rightarrow> do {
          v \<leftarrow> read_u32 stream 0;
          update_pcb k a (\<lambda>pcb. pcb\<lparr>page_table := v\<rparr>) }) }"

definition admit :: "'m kernel_env \<Rightarrow> 'm kernel \<Rightarrow> 'm kernel option" where
  "admit env k =
     (let (resumed, k) = resume k in
      do {
        (r, k) \<leftarrow>
          (case resumed of
             Some a \<Rightarrow> Some (Some a, k)
           | None \<Rightarrow>
               (let (r, q) = safe_queue_pop (q_new k); k = k\<lparr>q_new := q\<rparr> in
                if conectado (conexion_memory k)
                then do { a \<leftarrow> r; k \<leftarrow> request_page_table env k a; Some (Some a, k) }
                else Some (r, k)));
        k \<leftarrow>
          (case r of
             None \<Rightarrow> Some k
           | Some a \<Rightarrow> do {
               k \<leftarrow> update_pcb k a (\<lambda>pcb. pcb\<lparr>status := status_num PCB_READY\<rparr>);
               k \<leftarrow> check_interruption k a;
               Some (k\<lparr>q_ready := safe_queue_push (q_ready k) (Some a)\<rparr>) });
        Some (k\<lparr>execute_sem := Suc (execute_sem k)\<rparr>) })"

subsection \<open>The start of the kernel\<close>

text \<open>\<open>new_scheduler\<close> and \<open>on_init_kernel\<close>: \<open>grado\<close> is the degree of multiprogramming.\<close>

definition new_scheduler :: "nat \<Rightarrow> string \<Rightarrow> 'm kernel \<Rightarrow> 'm kernel" where
  "new_scheduler grado algorithm k =
     k\<lparr>current_io := UINT32_MAX,
       q_new := new_safe_queue, q_ready := new_safe_queue, q_ready_sus := new_safe_queue,
       q_blocked := new_safe_queue, q_blocked_sus := new_safe_queue,
       interrupt := (algorithm \<noteq> ''FIFO''),
       get_next_fn := (if algorithm \<noteq> ''FIFO'' then Get_next_fifo else Get_next_srt),
       current_estimation := 0,
       dom_sem := grado, io_request := 0, req_admit := 0, execute_sem := 0\<rparr>"

definition on_init_kernel ::
    "nat \<Rightarrow> string \<Rightarrow> conexion_t \<Rightarrow> conexion_t \<Rightarrow> conexion_t \<Rightarrow> 'm \<Rightarrow> 'm kernel" where
  "on_init_kernel grado algorithm memory dispatch interrupts m =
     new_scheduler grado algorithm
       \<lparr>pcb_heap = (\<lambda>_. None), brk = 0, q_new = [], q_ready = [], q_ready_sus = [], q_blocked = [],
        q_blocked_sus = [], dom_sem = 0, req_admit = 0, io_request = 0, execute_sem = 0,
        interrupt = False, get_next_fn = Get_next_fifo, current_estimation = 0, current_io = 0,
        pids = new_pids, pcbs = [], clients = [], conexion_memory = memory, conexion_dispatch = dispatch,
        conexion_interrupt = interrupts, memory_side = m, lts = Lts_waiting, sts = Sts_waiting,
        io_unit = Io_waiting, trackers = []\<rparr>"

end
