(* ===== verification/Kernel.thy ===== *)
theory Kernel
  imports Scheduler
begin

section \<open>The kernel: its server and its threads\<close>

text \<open>
  \<open>kernel/src/server/routines.c\<close> and \<open>dispatcher.c\<close>, which create the processes, and the loops of the
  threads: \<open>long_term_schedule\<close> (\<open>lts.c\<close>), \<open>short_term_schedule\<close> (\<open>sts.c\<close>),
  \<open>io_scheduler\<close> and the trackers of \<open>mts.c\<close>. \<open>kernel_step\<close> is one step of one
  thread, from one \<open>WAIT\<close> to the next; a \<open>WAIT\<close> is a guard of its rule. The step of a
  thread is taken as atomic. The CPU is outside the kernel: it takes the PCB from the
  dispatch connection and later answers with the same process (\<open>cpu_answers\<close>).
\<close>

subsection \<open>Requests of the consoles\<close>

text \<open>\<open>NEW_PROCESS\<close> is the first code of the enum. The identifier is the \<open>sender_pid\<close>
  of the console's thread.\<close>

definition dispatch_handle_syscall ::
    "'m kernel_env \<Rightarrow> 'm kernel \<Rightarrow> accion_t \<Rightarrow> u32 \<Rightarrow> 'm kernel \<times> u32" where
  "dispatch_handle_syscall env k accion pid =
     (if actioncode accion = 0
      then let (pid, ps) = get_pid_libre (pids k); k = k\<lparr>pids := ps\<rparr> in
        if pid \<noteq> UNDEFINED
        then let (k, a) = alloc_pcb k (new_pcb pid (ucast (param accion)) (estimacion_inicial env)) in
          (k\<lparr>pcbs := pcbs k @ [a]\<rparr>, pid)
        else (k, pid)
      else (k, pid))"

definition dispatch_handle_instruction ::
    "'m kernel \<Rightarrow> instruction_t list \<Rightarrow> u32 \<Rightarrow> 'm kernel option" where
  "dispatch_handle_instruction k is pid = do {
     (found, l) \<leftarrow> remove_pid k (pcbs k) pid;
     (case found of
        None \<Rightarrow> Some k
      | Some a \<Rightarrow> do {
          k \<leftarrow> update_pcb (k\<lparr>pcbs := l\<rparr>) a (\<lambda>pcb. pcb\<lparr>instructions := is\<rparr>);
          Some (k\<lparr>q_new := safe_queue_push (q_new k) (Some a), req_admit := Suc (req_admit k)\<rparr>) }) }"

definition recibir_instructions ::
    "(nat \<Rightarrow> byte) \<Rightarrow> socket \<Rightarrow> (instruction_t list \<times> socket) option" where
  "recibir_instructions junk s =
     (let (r, s) = servidor_recibir_stream junk s in
      do { (stream, _) \<leftarrow> r; is \<leftarrow> instruction_list_from stream; Some (is, s) })"

text \<open>One round of the loop of \<open>routine\<close>; the last component is \<open>False\<close> when the console left.\<close>

definition kernel_routine ::
    "'m kernel_env \<Rightarrow> 'm kernel \<Rightarrow> socket \<Rightarrow> u32 \<Rightarrow> ('m kernel \<times> socket \<times> u32 \<times> bool) option" where
  "kernel_routine env k s pid =
     (let (code, s) = servidor_recibir_operacion (stack_junk env) s in
      if code \<le> 0 then Some (k, s, pid, False)
      else (case opcode_of (word_of_int code) of
          Some MSG \<Rightarrow> Some (k, snd (servidor_recibir_stream (stack_junk env) s), pid, True)
        | Some SYS \<Rightarrow> do {
            (accion, s) \<leftarrow> accion_recibir (stack_junk env) s;
            let (k, pid) = dispatch_handle_syscall env k accion pid;
            Some (k, s, pid, True) }
        | Some CMD \<Rightarrow> do {
            (is, s) \<leftarrow> recibir_instructions (stack_junk env) s;
            k \<leftarrow> dispatch_handle_instruction k is pid;
            Some (k, s, pid, True) }
        | _ \<Rightarrow> Some (k, s, pid, True)))"

subsection \<open>The CPU's answer\<close>

text \<open>The CPU may change the status, the program counter and the operands of an instruction.\<close>

definition same_process :: "pcb_t \<Rightarrow> pcb_t \<Rightarrow> bool" where
  "same_process p q \<longleftrightarrow> pcb_id p = pcb_id q \<and> pcb_size p = pcb_size q \<and>
     page_table p = page_table q \<and> estimation p = estimation q \<and>
     length (instructions p) = length (instructions q)"

definition cpu_answers :: "pcb_junk \<Rightarrow> conexion_t \<Rightarrow> pcb_t \<Rightarrow> u32 \<Rightarrow> conexion_t \<Rightarrow> bool" where
  "cpu_answers junk c p t c' \<longleftrightarrow>
     (\<exists>stream q. outgoing (sock c) = message PCB stream \<and> pcb_from_stream junk stream = Some q \<and>
        same_process p q \<and> pcb_bytes_size p + 4 < 2 ^ 32 \<and>
        c' = c\<lparr>sock := (sock c)\<lparr>outgoing := [], incoming := message INOUT (pcb_to_stream p @ le32 t)\<rparr>\<rparr>)"

subsection \<open>Steps\<close>

datatype kernel_event = Console_connects | Console_requests nat | Lts_wakes | Lts_admits
  | Sts_dispatches | Cpu_returns | Io_begins | Io_ends | Tracker_fires nat

definition drop_nth :: "nat \<Rightarrow> 'a list \<Rightarrow> 'a list" where
  "drop_nth i xs = take i xs @ drop (Suc i) xs"

inductive kernel_step :: "'m kernel_env \<Rightarrow> 'm kernel \<Rightarrow> kernel_event \<Rightarrow> 'm kernel \<Rightarrow> bool" for env where
  connects: "kernel_step env k Console_connects (k\<lparr>clients := clients k @ [(s, 0)]\<rparr>)"
| requests: "kernel_step env k (Console_requests i)
     (k'\<lparr>clients := if stays then (clients k)[i := (s', pid')] else drop_nth i (clients k)\<rparr>)"
  if "i < length (clients k)" "clients k ! i = (s, pid)"
    "kernel_routine env k s pid = Some (k', s', pid', stays)"
| wakes: "kernel_step env k Lts_wakes (k\<lparr>req_admit := req_admit k - 1, lts := Lts_request\<rparr>)"
  if "lts k = Lts_waiting" "0 < req_admit k"
| admits: "kernel_step env k Lts_admits (k'\<lparr>lts := Lts_waiting\<rparr>)"
  if "lts k = Lts_request" "0 < dom_sem k" "admit env (k\<lparr>dom_sem := dom_sem k - 1\<rparr>) = Some k'"
| idles: "kernel_step env k Sts_dispatches k'"
  if "sts k = Sts_waiting" "0 < execute_sem k"
    "get_next env (k\<lparr>execute_sem := execute_sem k - 1\<rparr>) = Some (None, k')"
| dispatches: "kernel_step env k Sts_dispatches k''"
  if "sts k = Sts_waiting" "0 < execute_sem k"
    "get_next env (k\<lparr>execute_sem := execute_sem k - 1\<rparr>) = Some (Some a, k')"
    "execute env k' a = Some k''"
| returns: "kernel_step env k Cpu_returns k'"
  if "sts k = Sts_running" "cpu_answers (heap_junk env) (conexion_dispatch k) p t c"
    "execute_return env (k\<lparr>conexion_dispatch := c\<rparr>) real_usage = Some k'"
| io_begins: "kernel_step env k Io_begins k'"
  if "io_unit k = Io_waiting" "0 < io_request k" "io_begin k = Some k'"
| io_ends: "kernel_step env k Io_ends k'"
  if "io_unit k = Io_busy a" "io_end k a = Some k'"
| fires: "kernel_step env k (Tracker_fires i) k'"
  if "i < length (trackers k)"
    "track_time env (k\<lparr>trackers := drop_nth i (trackers k)\<rparr>) (trackers k ! i) = Some k'"

inductive_cases kernel_stepE: "kernel_step env k e k'"

subsection \<open>Runs\<close>

text \<open>A step computed from what the rules leave open: the bytes of a console that connects, the
  PCB and the times the CPU gives back. A sequence of them is a run (\<open>kernel_run\<close>).\<close>

datatype choice = Connect socket | Request nat | Wake | Admit | Dispatch | Return pcb_t u32 u32
  | Begin_io | End_io | Fire nat

fun event_of :: "choice \<Rightarrow> kernel_event" where
  "event_of (Connect s) = Console_connects"
| "event_of (Request i) = Console_requests i"
| "event_of Wake = Lts_wakes"
| "event_of Admit = Lts_admits"
| "event_of Dispatch = Sts_dispatches"
| "event_of (Return p t u) = Cpu_returns"
| "event_of Begin_io = Io_begins"
| "event_of End_io = Io_ends"
| "event_of (Fire i) = Tracker_fires i"

definition cpu_answer :: "pcb_junk \<Rightarrow> conexion_t \<Rightarrow> pcb_t \<Rightarrow> u32 \<Rightarrow> conexion_t option" where
  "cpu_answer junk c p t =
     (let stream = drop 8 (outgoing (sock c)) in
      case pcb_from_stream junk stream of
        None \<Rightarrow> None
      | Some q \<Rightarrow>
          if outgoing (sock c) = message PCB stream \<and> same_process p q \<and> pcb_bytes_size p + 4 < 2 ^ 32
          then Some (c\<lparr>sock := (sock c)\<lparr>outgoing := [],
            incoming := message INOUT (pcb_to_stream p @ le32 t)\<rparr>\<rparr>)
          else None)"

fun kernel_do :: "'m kernel_env \<Rightarrow> 'm kernel \<Rightarrow> choice \<Rightarrow> 'm kernel option" where
  "kernel_do env k (Connect s) = Some (k\<lparr>clients := clients k @ [(s, 0)]\<rparr>)"
| "kernel_do env k (Request i) =
     (if i < length (clients k)
      then do {
        (k', s', pid', stays) \<leftarrow> kernel_routine env k (fst (clients k ! i)) (snd (clients k ! i));
        Some (k'\<lparr>clients := if stays then (clients k)[i := (s', pid')] else drop_nth i (clients k)\<rparr>) }
      else None)"
| "kernel_do env k Wake =
     (if lts k = Lts_waiting \<and> 0 < req_admit k
      then Some (k\<lparr>req_admit := req_admit k - 1, lts := Lts_request\<rparr>) else None)"
| "kernel_do env k Admit =
     (if lts k = Lts_request \<and> 0 < dom_sem k
      then map_option (\<lambda>k. k\<lparr>lts := Lts_waiting\<rparr>) (admit env (k\<lparr>dom_sem := dom_sem k - 1\<rparr>))
      else None)"
| "kernel_do env k Dispatch =
     (if sts k = Sts_waiting \<and> 0 < execute_sem k
      then do {
        (r, k) \<leftarrow> get_next env (k\<lparr>execute_sem := execute_sem k - 1\<rparr>);
        (case r of None \<Rightarrow> Some k | Some a \<Rightarrow> execute env k a) }
      else None)"
| "kernel_do env k (Return p t u) =
     (if sts k = Sts_running
      then do {
        c \<leftarrow> cpu_answer (heap_junk env) (conexion_dispatch k) p t;
        execute_return env (k\<lparr>conexion_dispatch := c\<rparr>) u }
      else None)"
| "kernel_do env k Begin_io =
     (if io_unit k = Io_waiting \<and> 0 < io_request k then io_begin k else None)"
| "kernel_do env k End_io =
     (case io_unit k of Io_waiting \<Rightarrow> None | Io_busy a \<Rightarrow> io_end k a)"
| "kernel_do env k (Fire i) =
     (if i < length (trackers k)
      then track_time env (k\<lparr>trackers := drop_nth i (trackers k)\<rparr>) (trackers k ! i) else None)"

lemma cpu_answer_answers: "cpu_answer junk c p t = Some c' \<Longrightarrow> cpu_answers junk c p t c'"
  by (auto simp: cpu_answer_def cpu_answers_def Let_def split: option.splits if_splits)

lemma kernel_do_step: "kernel_do env k ch = Some k' \<Longrightarrow> kernel_step env k (event_of ch) k'"
proof (induction env k ch rule: kernel_do.induct)
  case (2 env k i)
  obtain s pid where c: "clients k ! i = (s, pid)" by fastforce
  then obtain k1 s' pid' stays where i: "i < length (clients k)"
    and r: "kernel_routine env k s pid = Some (k1, s', pid', stays)"
    and k': "k' = k1\<lparr>clients := if stays then (clients k)[i := (s', pid')] else drop_nth i (clients k)\<rparr>"
    using 2 by (fastforce simp: bind_eq_Some_conv split: if_splits)
  show ?case unfolding k' event_of.simps by (rule requests [OF i c r])
next
  case (6 env k p t u)
  then show ?case
    by (auto simp: bind_eq_Some_conv split: if_splits intro: returns cpu_answer_answers)
next
  case (5 env k)
  then obtain r k1 where k: "sts k = Sts_waiting" "0 < execute_sem k"
    and r: "get_next env (k\<lparr>execute_sem := execute_sem k - 1\<rparr>) = Some (r, k1)"
    and x: "(case r of None \<Rightarrow> Some k1 | Some a \<Rightarrow> execute env k1 a) = Some k'"
    by (auto simp: bind_eq_Some_conv split: if_splits)
  show ?case
    using idles [of k env k'] dispatches [of k env _ k1 k'] k r x by (cases r) simp_all
qed (auto simp: bind_eq_Some_conv simp del: One_nat_def split: if_splits option.splits io_state.splits
    intro: kernel_step.intros)

fun kernel_run :: "'m kernel_env \<Rightarrow> 'm kernel \<Rightarrow> choice list \<Rightarrow> 'm kernel option" where
  "kernel_run env k [] = Some k"
| "kernel_run env k (ch # chs) = do { k \<leftarrow> kernel_do env k ch; kernel_run env k chs }"

end
