(* ===== verification/Kernel_Invariant.thy ===== *)
theory Kernel_Invariant
  imports Kernel
begin

section \<open>What the threads of the kernel keep\<close>

text \<open>
  The invariant of the kernel's state over the steps of its threads, for runs in which no
  process has two trackers waiting (\<open>timely\<close>): every PCB that is alive is in exactly one
  place, no two have one identifier, each semaphore counts what it was made to count, and
  the slots of the degree of multiprogramming are the free ones and the ones in use.
\<close>

subsection \<open>Effects of the operations\<close>

lemma send_memory_effect:
  assumes "send_memory env k code data = Some (n, k')"
  shows "\<exists>c m. k' = k\<lparr>conexion_memory := c, memory_side := m\<rparr>"
  using assms by (auto simp: send_memory_def bind_eq_Some_conv)

lemma check_interruption_effect:
  assumes "check_interruption k a = Some k'"
  shows "\<exists>c. k' = k\<lparr>conexion_interrupt := c\<rparr>"
  using assms
  by (auto simp: check_interruption_def cpu_controller_send_interrupt_def bind_eq_Some_conv
      intro: exI [of _ "conexion_interrupt k"] split: if_splits prod.splits)

lemma check_interruption_defined: "pcb_heap k a \<noteq> None \<Longrightarrow> check_interruption k a \<noteq> None"
  by (auto simp: check_interruption_def should_interrupt_def)

lemma terminate_effect:
  assumes "terminate env k a = Some k'"
  shows "\<exists>c m. k' = k\<lparr>conexion_memory := c, memory_side := m,
    pcb_heap := (pcb_heap k)(a := None), dom_sem := Suc (dom_sem k)\<rparr>"
proof -
  have "k' = k\<lparr>conexion_memory := conexion_memory k', memory_side := memory_side k',
      pcb_heap := (pcb_heap k)(a := None), dom_sem := Suc (dom_sem k)\<rparr>"
    using assms
    by (auto simp: terminate_def swap_controller_exit_def pcb_destroy_def bind_eq_Some_conv
        dest!: send_memory_effect)
  then show ?thesis by blast
qed

lemma block_effect:
  assumes "pcb_heap k a = Some p"
  shows "block env k a t = Some (k\<lparr>pcb_heap := (pcb_heap k)(a \<mapsto> p\<lparr>io := t,
      estimation := alfa_part env (real_time p) + rest_part env (estimation p)\<rparr>),
    q_blocked := q_blocked k @ [a], trackers := trackers k @ [(a, pcb_id p)],
    io_request := Suc (io_request k)\<rparr>)"
  using assms
  by (simp add: block_def update_pcb_def re_schedule_def notify_mts_def safe_queue_push_def
      queue_smart_push_def)

lemma pre_empt_effect:
  assumes "pcb_heap k a = Some p"
  shows "pre_empt k a = Some (k\<lparr>pcb_heap := (pcb_heap k)(a \<mapsto> p\<lparr>estimation :=
      (if real_time p < estimation p then estimation p - real_time p
       else real_time p - estimation p)\<rparr>), q_ready := q_ready k @ [a]\<rparr>)"
  using assms
  by (simp add: pre_empt_def update_pcb_def safe_queue_push_def queue_smart_push_def)

lemma event_effect:
  assumes "pcb_heap k a = Some p" and "event k a = Some k'"
  shows "\<exists>c. k' = k\<lparr>pcb_heap := (pcb_heap k)(a \<mapsto> p\<lparr>status := status_num PCB_READY\<rparr>),
    q_ready := q_ready k @ [a], conexion_interrupt := c, execute_sem := Suc (execute_sem k)\<rparr>"
  using assms
  by (auto simp: event_def update_pcb_def safe_queue_push_def queue_smart_push_def bind_eq_Some_conv
      dest!: check_interruption_effect)

lemma suspend_effect:
  assumes "pcb_heap k a = Some p" and "suspend env k a = Some k'"
  shows "\<exists>c m. k' = k\<lparr>pcb_heap := (pcb_heap k)(a \<mapsto> p\<lparr>status := status_num PCB_SUSPENDED_BLOCKED\<rparr>),
    q_blocked_sus := q_blocked_sus k @ [a], conexion_memory := c, memory_side := m,
    dom_sem := Suc (dom_sem k)\<rparr>"
proof -
  have "k' = k\<lparr>pcb_heap := (pcb_heap k)(a \<mapsto> p\<lparr>status := status_num PCB_SUSPENDED_BLOCKED\<rparr>),
      q_blocked_sus := q_blocked_sus k @ [a], conexion_memory := conexion_memory k',
      memory_side := memory_side k', dom_sem := Suc (dom_sem k)\<rparr>"
    using assms
    by (auto simp: suspend_def update_pcb_def safe_queue_push_def queue_smart_push_def
        swap_controller_send_pcb_def bind_eq_Some_conv dest!: send_memory_effect)
  then show ?thesis by blast
qed

lemma request_page_table_effect:
  assumes "pcb_heap k a = Some p" and "request_page_table env k a = Some k'"
  shows "\<exists>c m t. k' = k\<lparr>pcb_heap := (pcb_heap k)(a \<mapsto> p\<lparr>page_table := t\<rparr>),
    conexion_memory := c, memory_side := m\<rparr>"
proof -
  have "k' = k\<lparr>pcb_heap := (pcb_heap k)(a \<mapsto> p\<lparr>page_table := page_table (the (pcb_heap k' a))\<rparr>),
      conexion_memory := conexion_memory k', memory_side := memory_side k'\<rparr>"
    using assms
    by (auto simp: request_page_table_def update_pcb_def bind_eq_Some_conv fun_upd_idem
        Let_def case_prod_unfold dest!: send_memory_effect split: option.splits)
  then show ?thesis by blast
qed

text \<open>Looking for an identifier among live PCBs.\<close>

lemma find_pid_alive:
  assumes "\<forall>a \<in> set l. pcb_heap k a \<noteq> None"
  shows "find_pid k l pid = Some (find (\<lambda>a. pcb_id (the (pcb_heap k a)) = pid) l)"
  using assms unfolding find_pid_def by (induction l) (auto split: option.splits)

lemma remove_pid_alive:
  assumes "\<forall>a \<in> set l. pcb_heap k a \<noteq> None" and "remove_pid k l pid = Some (r, l')"
  shows "(case r of None \<Rightarrow> l' = l \<and> (\<forall>a \<in> set l. pcb_id (the (pcb_heap k a)) \<noteq> pid)
    | Some a \<Rightarrow> a \<in> set l \<and> pcb_id (the (pcb_heap k a)) = pid \<and> l' = remove1 a l)"
proof -
  have "find (\<lambda>a. pcb_id (the (pcb_heap k a)) = pid) l = r"
    "l' = (case r of None \<Rightarrow> l | Some a \<Rightarrow> remove1 a l)"
    using assms(2) by (auto simp: remove_pid_def find_pid_alive [OF assms(1)])
  then show ?thesis
    by (cases r) (auto simp: find_None_iff find_Some_iff)
qed

subsection \<open>The invariant\<close>

text \<open>The I/O unit holds its PCB, unless a tracker has suspended it meanwhile: it is in the
  queue of suspended PCBs then.\<close>

definition in_io :: "'m kernel \<Rightarrow> addr list" where
  "in_io k = (case io_unit k of Io_waiting \<Rightarrow> []
     | Io_busy a \<Rightarrow> if a \<in> set (q_blocked_sus k) then [] else [a])"

definition places :: "'m kernel \<Rightarrow> addr list" where
  "places k = pcbs k @ q_new k @ q_ready k @ q_ready_sus k @ q_blocked k @ q_blocked_sus k @ in_io k"

definition owned :: "'m kernel \<Rightarrow> bool" where
  "owned k \<longleftrightarrow> distinct (places k) \<and> set (places k) = dom (pcb_heap k) \<and>
     (\<forall>a \<in> set (places k). a < brk k)"

definition status_at :: "'m kernel \<Rightarrow> addr \<Rightarrow> u32" where
  "status_at k = (\<lambda>a. status (the (pcb_heap k a)))"

definition pid_at :: "'m kernel \<Rightarrow> addr \<Rightarrow> u32" where
  "pid_at k = (\<lambda>a. pcb_id (the (pcb_heap k a)))"

text \<open>The identifier of the process the CPU has.\<close>

definition on_cpu :: "'m kernel \<Rightarrow> u32 \<Rightarrow> bool" where
  "on_cpu k pid \<longleftrightarrow> sts k = Sts_running \<and>
     (\<exists>p. outgoing (sock (conexion_dispatch k)) = message PCB (pcb_to_stream p) \<and> pcb_id p = pid)"

definition identified :: "'m kernel \<Rightarrow> bool" where
  "identified k \<longleftrightarrow> length (pids k) = PIDS \<and> inj_on (pid_at k) (set (places k)) \<and>
     pid_at k ` set (places k) \<subseteq> taken (pids k) \<and>
     (\<forall>pid. on_cpu k pid \<longrightarrow> pid \<in> taken (pids k) - pid_at k ` set (places k))"

definition cpu_line :: "'m kernel \<Rightarrow> bool" where
  "cpu_line k \<longleftrightarrow> incoming (sock (conexion_dispatch k)) = [] \<and>
     (case sts k of
        Sts_waiting \<Rightarrow> outgoing (sock (conexion_dispatch k)) = []
      | Sts_running \<Rightarrow> \<exists>pid. on_cpu k pid)"

definition io_ok :: "'m kernel \<Rightarrow> bool" where
  "io_ok k \<longleftrightarrow> (\<forall>a \<in> set (q_blocked_sus k). status_at k a = status_num PCB_SUSPENDED_BLOCKED) \<and>
     (\<forall>a \<in> set (q_blocked k). status_at k a = status_num PCB_BLOCKED) \<and>
     (io_unit k = Io_waiting \<longrightarrow> current_io k = UINT32_MAX) \<and>
     (\<forall>a. io_unit k = Io_busy a \<longrightarrow> a \<notin> set (q_blocked k) \<and>
        a \<in> set (q_blocked_sus k @ in_io k) \<and> current_io k = pid_at k a)"

text \<open>Processes that use a slot of the degree of multiprogramming.\<close>

definition using_slot :: "'m kernel \<Rightarrow> nat" where
  "using_slot k = length (q_ready k) + (if sts k = Sts_running then 1 else 0) + length (q_blocked k) +
     length (filter (\<lambda>a. status_at k a \<noteq> status_num PCB_SUSPENDED_BLOCKED) (in_io k))"

definition io_waiters :: "'m kernel \<Rightarrow> nat" where
  "io_waiters k = length (q_blocked k) +
     length (filter (\<lambda>a. io_unit k \<noteq> Io_busy a) (q_blocked_sus k))"

definition counted :: "nat \<Rightarrow> 'm kernel \<Rightarrow> bool" where
  "counted grado k \<longleftrightarrow> dom_sem k + using_slot k = grado \<and> io_request k = io_waiters k \<and>
     req_admit k + (if lts k = Lts_request then 1 else 0) =
       length (q_new k) + length (q_ready_sus k) \<and>
     length (q_ready k) \<le> execute_sem k"

text \<open>A waiting tracker of a process that is still blocked has its PCB's pointer.\<close>

definition trackers_wf :: "'m kernel \<Rightarrow> bool" where
  "trackers_wf k \<longleftrightarrow> (\<forall>(a, pid) \<in> set (trackers k). pid \<in> taken (pids k) \<and>
     (\<forall>b \<in> set (q_blocked k @ q_blocked_sus k @ in_io k). pid_at k b = pid \<longrightarrow>
        b = a \<and> status_at k b \<noteq> status_num PCB_SUSPENDED_BLOCKED))"

definition timely :: "'m kernel \<Rightarrow> bool" where
  "timely k \<longleftrightarrow> distinct (map snd (trackers k))"

definition kernel_wf :: "nat \<Rightarrow> 'm kernel \<Rightarrow> bool" where
  "kernel_wf grado k \<longleftrightarrow>
     owned k \<and> identified k \<and> cpu_line k \<and> io_ok k \<and> counted grado k \<and> trackers_wf k"

lemmas kernel_wf_defs = kernel_wf_def owned_def identified_def cpu_line_def io_ok_def counted_def
  trackers_wf_def on_cpu_def using_slot_def io_waiters_def places_def in_io_def status_at_def pid_at_def

lemma kernel_wf_cong:
  assumes "pcb_heap k' = pcb_heap k" "brk k' = brk k" "q_new k' = q_new k" "q_ready k' = q_ready k"
    "q_ready_sus k' = q_ready_sus k" "q_blocked k' = q_blocked k" "q_blocked_sus k' = q_blocked_sus k"
    "dom_sem k' = dom_sem k" "req_admit k' = req_admit k" "io_request k' = io_request k"
    "execute_sem k' = execute_sem k" "current_io k' = current_io k" "pids k' = pids k"
    "pcbs k' = pcbs k" "conexion_dispatch k' = conexion_dispatch k" "lts k' = lts k" "sts k' = sts k"
    "io_unit k' = io_unit k" "trackers k' = trackers k"
  shows "kernel_wf grado k' = kernel_wf grado k"
  by (simp only: kernel_wf_defs assms)

lemma kernel_wf_connections [simp]:
  "kernel_wf grado (k\<lparr>conexion_memory := c, memory_side := m\<rparr>) = kernel_wf grado k"
  "kernel_wf grado (k\<lparr>conexion_interrupt := d\<rparr>) = kernel_wf grado k"
  "kernel_wf grado (k\<lparr>clients := l\<rparr>) = kernel_wf grado k"
  "kernel_wf grado (k\<lparr>current_estimation := e\<rparr>) = kernel_wf grado k"
  by (rule kernel_wf_cong; simp)+

lemma alive:
  assumes "kernel_wf grado k" and "a \<in> set (places k)"
  obtains p where "pcb_heap k a = Some p"
  using assms by (auto simp: kernel_wf_def owned_def)

text \<open>The three kinds of change the first two parts of the invariant see: a PCB moves, a PCB is
  made, a PCB is freed.\<close>

lemma owned_moved:
  assumes "owned k" and "mset (places k') = mset (places k)"
    and "dom (pcb_heap k') = dom (pcb_heap k)" and "brk k' = brk k"
  shows "owned k'"
  using assms(1,3,4) mset_eq_setD [OF assms(2)] mset_eq_imp_distinct_iff [OF assms(2)]
  by (simp add: owned_def)

lemma owned_made:
  assumes "owned k" and "mset (places k') = add_mset (brk k) (mset (places k))"
    and "dom (pcb_heap k') = insert (brk k) (dom (pcb_heap k))" and "brk k' = Suc (brk k)"
  shows "owned k'"
proof -
  have m: "mset (places k') = mset (brk k # places k)" using assms(2) by simp
  have "set (places k') = insert (brk k) (set (places k))"
    "distinct (places k') = distinct (brk k # places k)"
    using mset_eq_setD [OF m] mset_eq_imp_distinct_iff [OF m] by simp_all
  then show ?thesis using assms(1,3,4) by (auto simp: owned_def less_Suc_eq)
qed

lemma owned_freed:
  assumes "owned k" and "mset (places k) = add_mset a (mset (places k'))"
    and "pcb_heap k' = (pcb_heap k)(a := None)" and "brk k' = brk k"
  shows "owned k'" and "a \<notin> set (places k')" and "set (places k) = insert a (set (places k'))"
proof -
  have m: "mset (places k) = mset (a # places k')" using assms(2) by simp
  have *: "set (places k) = insert a (set (places k'))" "distinct (a # places k')"
    using mset_eq_setD [OF m] mset_eq_imp_distinct_iff [OF m] assms(1) by (simp_all add: owned_def)
  then show "a \<notin> set (places k')" "set (places k) = insert a (set (places k'))" by auto
  have "set (places k') = dom (pcb_heap k)  - {a}" using * assms(1) by (auto simp: owned_def)
  then show "owned k'" using * assms(1,3,4) by (auto simp: owned_def)
qed

lemma identified_moved:
  assumes "identified k" and "set (places k') = set (places k)"
    and "\<And>a. a \<in> set (places k) \<Longrightarrow> pid_at k' a = pid_at k a"
    and "pids k' = pids k" and "\<And>pid. on_cpu k' pid \<Longrightarrow> on_cpu k pid"
  shows "identified k'"
proof -
  have "pid_at k' ` set (places k) = pid_at k ` set (places k)"
    using assms(3) by (rule image_cong [OF refl])
  moreover have "inj_on (pid_at k') (set (places k)) = inj_on (pid_at k) (set (places k))"
    using assms(3) by (rule inj_on_cong)
  ultimately show ?thesis using assms(1,2,4,5) by (auto simp: identified_def)
qed

text \<open>Another PCB, with an identifier no PCB in a place has.\<close>

lemma identified_made:
  assumes "identified k" and "set (places k') = insert a (set (places k))" and "a \<notin> set (places k)"
    and "\<And>b. b \<in> set (places k) \<Longrightarrow> pid_at k' b = pid_at k b" and "length (pids k') = PIDS"
    and "pid_at k' a \<in> taken (pids k')" and "taken (pids k) \<subseteq> taken (pids k')"
    and "pid_at k' a \<notin> pid_at k ` set (places k)"
    and "\<And>pid. on_cpu k' pid \<Longrightarrow> on_cpu k pid \<and> pid_at k' a \<noteq> pid"
  shows "identified k'"
proof -
  have img: "pid_at k' ` set (places k) = pid_at k ` set (places k)"
    using assms(4) by (rule image_cong [OF refl])
  moreover have "inj_on (pid_at k') (set (places k)) = inj_on (pid_at k) (set (places k))"
    using assms(4) by (rule inj_on_cong)
  moreover have "pid_at k' ` set (places k') = insert (pid_at k' a) (pid_at k ` set (places k))"
    using img assms(2) by simp
  moreover have "\<forall>pid. on_cpu k' pid \<longrightarrow> pid \<in> taken (pids k') - pid_at k' ` set (places k')"
    using assms(1,7) assms(9) unfolding calculation(3) identified_def by blast
  ultimately show ?thesis
    using assms(1,2,3,5,6,7,8) by (auto simp: identified_def)
qed

text \<open>A PCB leaves the memory, and its process may go to the CPU.\<close>

lemma identified_freed:
  assumes "identified k" and "set (places k) = insert a (set (places k'))" and "a \<notin> set (places k')"
    and "\<And>b. b \<in> set (places k') \<Longrightarrow> pid_at k' b = pid_at k b" and "pids k' = pids k"
    and "\<And>pid. on_cpu k' pid \<Longrightarrow> on_cpu k pid \<or> pid = pid_at k a"
  shows "identified k'"
proof -
  have img: "pid_at k' ` set (places k') = pid_at k ` set (places k')"
    using assms(4) by (rule image_cong [OF refl])
  moreover have "inj_on (pid_at k') (set (places k')) = inj_on (pid_at k) (set (places k'))"
    using assms(4) by (rule inj_on_cong)
  moreover have "inj_on (pid_at k) (insert a (set (places k')))"
    using assms(1,2) by (simp add: identified_def)
  moreover have "\<forall>pid. on_cpu k' pid \<longrightarrow> pid \<in> taken (pids k') - pid_at k' ` set (places k')"
  proof (intro allI impI)
    fix pid assume "on_cpu k' pid"
    then consider "on_cpu k pid" | "pid = pid_at k a" using assms(6) by blast
    then show "pid \<in> taken (pids k') - pid_at k' ` set (places k')"
      using assms(1,2,3,5) img by cases (auto simp: identified_def)
  qed
  ultimately show ?thesis
    using assms(1,2,3,5) by (auto simp: identified_def)
qed

lemma kernel_wfI:
  assumes "owned k" "identified k" "cpu_line k" "io_ok k" "counted grado k" "trackers_wf k"
  shows "kernel_wf grado k"
  using assms by (simp add: kernel_wf_def)

lemma fresh_address: "owned k \<Longrightarrow> brk k \<notin> set (places k)"
  by (auto simp: owned_def)

lemma taken_small: "pid \<in> taken ps \<Longrightarrow> pid \<noteq> UINT32_MAX"
  by (auto simp: taken_def)

text \<open>Most operations leave the blocked processes alone.\<close>

definition blocked_places :: "'m kernel \<Rightarrow> addr list" where
  "blocked_places k = q_blocked k @ q_blocked_sus k @ in_io k"

lemma blocked_side_same:
  assumes "io_ok k" "trackers_wf k"
    and eq: "q_blocked k' = q_blocked k" "q_blocked_sus k' = q_blocked_sus k" "io_unit k' = io_unit k"
      "current_io k' = current_io k" "trackers k' = trackers k"
    and heap: "\<And>a. a \<in> set (blocked_places k) \<Longrightarrow> pcb_heap k' a = pcb_heap k a"
    and more: "taken (pids k) \<subseteq> taken (pids k')"
  shows "in_io k' = in_io k" "io_ok k'" "trackers_wf k'" "io_waiters k' = io_waiters k"
    "filter (\<lambda>a. status_at k' a \<noteq> s) (in_io k') = filter (\<lambda>a. status_at k a \<noteq> s) (in_io k)"
proof -
  show io: "in_io k' = in_io k" by (simp only: in_io_def eq)
  have same: "status_at k' a = status_at k a" "pid_at k' a = pid_at k a"
    if "a \<in> set (blocked_places k)" for a
    using heap [OF that] by (simp_all add: status_at_def pid_at_def)
  show "io_ok k'"
    using assms(1) same unfolding io_ok_def blocked_places_def eq io by auto
  show "trackers_wf k'"
    unfolding trackers_wf_def eq io
  proof (intro ballI, clarify)
    fix a pid assume "(a, pid) \<in> set (trackers k)"
    with assms(2) have *: "pid \<in> taken (pids k)" "\<And>b. b \<in> set (q_blocked k @ q_blocked_sus k @ in_io k) \<Longrightarrow>
        pid_at k b = pid \<Longrightarrow> b = a \<and> status_at k b \<noteq> status_num PCB_SUSPENDED_BLOCKED"
      unfolding trackers_wf_def by blast+
    show "pid \<in> taken (pids k') \<and> (\<forall>b \<in> set (q_blocked k @ q_blocked_sus k @ in_io k).
        pid_at k' b = pid \<longrightarrow> b = a \<and> status_at k' b \<noteq> status_num PCB_SUSPENDED_BLOCKED)"
      using *(1) more *(2) same by (auto simp only: blocked_places_def)
  qed
  show "io_waiters k' = io_waiters k" using eq by (simp add: io_waiters_def)
  show "filter (\<lambda>a. status_at k' a \<noteq> s) (in_io k') = filter (\<lambda>a. status_at k a \<noteq> s) (in_io k)"
    unfolding io using same(1) by (intro filter_cong) (auto simp: blocked_places_def)
qed

lemma blocked_in_places: "set (blocked_places k) \<subseteq> set (places k)"
  by (auto simp: blocked_places_def places_def)

lemma in_io_same:
  "q_blocked_sus k' = q_blocked_sus k \<Longrightarrow> io_unit k' = io_unit k \<Longrightarrow> in_io k' = in_io k"
  by (simp only: in_io_def)

lemma on_cpu_same:
  "conexion_dispatch k' = conexion_dispatch k \<Longrightarrow> sts k' = sts k \<Longrightarrow> on_cpu k' = on_cpu k"
  by (simp only: on_cpu_def fun_eq_iff simp_thms)

lemma cpu_line_same:
  "conexion_dispatch k' = conexion_dispatch k \<Longrightarrow> sts k' = sts k \<Longrightarrow> cpu_line k' = cpu_line k"
  using on_cpu_same [of k' k] by (simp only: cpu_line_def)

subsection \<open>Consoles\<close>

lemma process_made_keeps:
  assumes wf: "kernel_wf grado k" and w: "get_pid_libre (pids k) = (pcb_id p, ps)" "pcb_id p \<noteq> UNDEFINED"
  shows "kernel_wf grado (k\<lparr>pids := ps, pcb_heap := (pcb_heap k)(brk k \<mapsto> p), brk := Suc (brk k),
    pcbs := pcbs k @ [brk k]\<rparr>)" (is "kernel_wf grado ?k")
proof -
  have parts: "owned k" "identified k" "cpu_line k" "io_ok k" "counted grado k" "trackers_wf k"
    using wf by (simp_all add: kernel_wf_def)
  have len: "length (pids k) = PIDS" using parts by (simp add: identified_def)
  note got = get_pid_libre_some [OF len w]
  have fresh: "brk k \<notin> set (places k)" using parts(1) by (rule fresh_address)
  have more: "taken (pids k) \<subseteq> taken (pids ?k)" using got by auto
  have same: "pcb_heap ?k a = pcb_heap k a" if "a \<in> set (places k)" for a
    using fresh that by auto
  have blocked: "io_ok ?k" "trackers_wf ?k" "in_io ?k = in_io k" "io_waiters ?k = io_waiters k"
    "\<And>s. filter (\<lambda>a. status_at ?k a \<noteq> s) (in_io ?k) = filter (\<lambda>a. status_at k a \<noteq> s) (in_io k)"
    using blocked_side_same [of k ?k, OF parts(4,6) _ _ _ _ _ same more] blocked_in_places [of k]
    by (simp_all add: subset_iff)
  have m: "mset (places ?k) = add_mset (brk k) (mset (places k))"
    by (simp add: places_def blocked(3))
  have cpu: "on_cpu ?k = on_cpu k" by (rule on_cpu_same) simp_all
  have "owned ?k" by (rule owned_made [OF parts(1) m]) auto
  moreover have "identified ?k"
  proof (rule identified_made [OF parts(2) _ fresh])
    show "set (places ?k) = insert (brk k) (set (places k))" using mset_eq_setD [of "places ?k" "brk k # places k"] m by simp
    show "pid_at ?k b = pid_at k b" if "b \<in> set (places k)" for b
      using same [OF that] by (simp only: pid_at_def)
    show "length (pids ?k) = PIDS" using length_get_pid [of "pids k"] w(1) len by simp
    show "pid_at ?k (brk k) \<in> taken (pids ?k)" using got by (simp add: pid_at_def)
    show "taken (pids k) \<subseteq> taken (pids ?k)" by (rule more)
    show "pid_at ?k (brk k) \<notin> pid_at k ` set (places k)"
      using got(1) parts(2) by (auto simp: identified_def pid_at_def)
    show "on_cpu k pid \<and> pid_at ?k (brk k) \<noteq> pid" if "on_cpu ?k pid" for pid
      using that got(1) parts(2) unfolding cpu by (auto simp: identified_def pid_at_def)
  qed
  moreover have "cpu_line ?k" using parts(3) cpu_line_same [of ?k k] by simp
  moreover have "counted grado ?k"
    using parts(5) blocked(4,5) by (simp add: counted_def using_slot_def)
  ultimately show ?thesis using blocked by (intro kernel_wfI)
qed

lemma syscall_keeps:
  assumes "kernel_wf grado k" and "dispatch_handle_syscall env k accion pid = (k', pid')"
  shows "kernel_wf grado k'"
proof -
  obtain w ps where w: "get_pid_libre (pids k) = (w, ps)" by fastforce
  have len: "length (pids k) = PIDS" using assms(1) by (simp add: kernel_wf_def identified_def)
  show ?thesis
  proof (cases "actioncode accion = 0 \<and> w \<noteq> UNDEFINED")
    case True
    then have "k' = k\<lparr>pids := ps, pcb_heap := (pcb_heap k)(brk k \<mapsto>
          new_pcb w (ucast (param accion)) (estimacion_inicial env)), brk := Suc (brk k),
          pcbs := pcbs k @ [brk k]\<rparr>"
      using assms(2) w by (auto simp: dispatch_handle_syscall_def alloc_pcb_def)
    then show ?thesis
      using process_made_keeps [OF assms(1), of "new_pcb w _ _" ps] w True
      by (simp add: new_pcb_def)
  next
    case False
    then have "k' = k"
      using assms(2) w get_pid_libre_none(1) [OF len, of ps]
      by (auto simp: dispatch_handle_syscall_def split: if_splits)
    with assms(1) show ?thesis by simp
  qed
qed

text \<open>A PCB that is not blocked goes from one queue to another.\<close>

definition front_places :: "'m kernel \<Rightarrow> addr list" where
  "front_places k = pcbs k @ q_new k @ q_ready k @ q_ready_sus k"

lemma places_split: "places k = front_places k @ blocked_places k"
  by (simp add: places_def front_places_def blocked_places_def)

lemma moved_keeps:
  assumes wf: "kernel_wf grado k"
    and eq: "q_blocked k' = q_blocked k" "q_blocked_sus k' = q_blocked_sus k" "io_unit k' = io_unit k"
      "current_io k' = current_io k" "trackers k' = trackers k" "pids k' = pids k" "brk k' = brk k"
      "conexion_dispatch k' = conexion_dispatch k" "sts k' = sts k" "io_request k' = io_request k"
    and heap: "\<And>b. b \<noteq> a \<Longrightarrow> pcb_heap k' b = pcb_heap k b"
      "pcb_heap k' a = Some p'" "pcb_heap k a = Some p" "pcb_id p' = pcb_id p" "a \<notin> set (blocked_places k)"
    and mset: "mset (front_places k') = mset (front_places k)"
    and count: "dom_sem k' + length (q_ready k') = dom_sem k + length (q_ready k)"
      "req_admit k' + (if lts k' = Lts_request then 1 else 0) = length (q_new k') + length (q_ready_sus k')"
      "length (q_ready k') \<le> execute_sem k'"
  shows "kernel_wf grado k'"
proof -
  have parts: "owned k" "identified k" "cpu_line k" "io_ok k" "counted grado k" "trackers_wf k"
    using wf by (simp_all add: kernel_wf_def)
  have same: "pcb_heap k' b = pcb_heap k b" if "b \<in> set (blocked_places k)" for b
    using heap(1) [of b] heap(5) that by auto
  have more: "taken (pids k) \<subseteq> taken (pids k')" using eq by simp
  note blocked = blocked_side_same [OF parts(4,6) eq(1-5) same more]
  have m: "mset (places k') = mset (places k)"
    using mset in_io_same [OF eq(2,3)] eq(1,2) by (simp add: places_split blocked_places_def)
  have pid: "pid_at k' b = pid_at k b" for b
    using heap by (cases "b = a") (simp_all add: pid_at_def)
  have "dom (pcb_heap k') = dom (pcb_heap k)"
    using heap(1-3) by (auto simp: dom_def) (metis option.distinct(1))+
  then have "owned k'" using owned_moved [OF parts(1) m] eq by simp
  moreover have "identified k'"
    using identified_moved [OF parts(2) mset_eq_setD [OF m]] pid eq on_cpu_same [of k' k] by simp
  moreover have "cpu_line k'" using parts(3) cpu_line_same [of k' k] eq by simp
  moreover have "counted grado k'"
    using parts(5) blocked(4,5) count eq by (simp add: counted_def using_slot_def)
  ultimately show ?thesis using blocked by (intro kernel_wfI)
qed

lemma in_front:
  assumes "kernel_wf grado k" and "a \<in> set (front_places k)"
  shows "a \<notin> set (blocked_places k)" and "\<exists>p. pcb_heap k a = Some p"
proof -
  show "a \<notin> set (blocked_places k)"
    using assms unfolding kernel_wf_def owned_def places_split distinct_append by blast
  show "\<exists>p. pcb_heap k a = Some p"
    using assms by (metis alive places_split UnCI set_append)
qed

lemma instruction_keeps:
  assumes wf: "kernel_wf grado k" and "dispatch_handle_instruction k is pid = Some k'"
  shows "kernel_wf grado k'"
proof -
  obtain r l where r: "remove_pid k (pcbs k) pid = Some (r, l)"
    using assms(2) by (auto simp: dispatch_handle_instruction_def bind_eq_Some_conv)
  have "\<forall>a \<in> set (pcbs k). pcb_heap k a \<noteq> None"
    using in_front(2) [OF wf] by (fastforce simp: front_places_def)
  note removed = remove_pid_alive [OF this r]
  show ?thesis
  proof (cases r)
    case None
    with assms r show ?thesis by (simp add: dispatch_handle_instruction_def)
  next
    case (Some a)
    then have a: "a \<in> set (pcbs k)" "l = remove1 a (pcbs k)" using removed by auto
    have front: "a \<in> set (front_places k)" using a by (simp add: front_places_def)
    then obtain p where p: "pcb_heap k a = Some p" using in_front(2) [OF wf] by blast
    have k': "k' = k\<lparr>pcbs := l, pcb_heap := (pcb_heap k)(a \<mapsto> p\<lparr>instructions := is\<rparr>),
        q_new := q_new k @ [a], req_admit := Suc (req_admit k)\<rparr>"
      using assms(2) r Some p
      by (simp add: dispatch_handle_instruction_def update_pcb_def safe_queue_push_def queue_smart_push_def)
    show ?thesis
      by (rule moved_keeps [OF wf, of k' a "p\<lparr>instructions := is\<rparr>" p])
        (use wf a p in_front(1) [OF wf front] in
          \<open>auto simp: k' front_places_def kernel_wf_def counted_def\<close>)
  qed
qed

lemma kernel_routine_keeps:
  assumes "kernel_wf grado k" and "kernel_routine env k s pid = Some (k', s', pid', stays)"
  shows "kernel_wf grado k'"
  using assms
  by (auto simp: kernel_routine_def Let_def case_prod_unfold bind_eq_Some_conv
      split: if_splits option.splits opcode_t.splits
      intro: instruction_keeps syscall_keeps [OF _ prod.collapse [symmetric]])

subsection \<open>To the CPU\<close>

lemma message_pid:
  assumes "message PCB (pcb_to_stream p) = message PCB (pcb_to_stream q)"
  shows "pcb_id p = pcb_id q"
  using assms by (simp add: message_def pcb_to_stream_def)

lemma cpu_send_effect:
  assumes "pcb_heap k a = Some p" and "cpu_controller_send_pcb k code a = Some (n, k')"
  obtains "0 < n" and "k' = k\<lparr>conexion_dispatch := (conexion_dispatch k)\<lparr>sock :=
      (sock (conexion_dispatch k))\<lparr>outgoing := outgoing (sock (conexion_dispatch k)) @
        message code (pcb_to_stream p)\<rparr>\<rparr>\<rparr>"
  | "n \<le> 0" and "k' = k"
proof -
  let ?c = "conexion_dispatch k"
  have len: "pcb_bytes_size p = length (pcb_to_stream p)" by (simp add: length_pcb_to_stream)
  consider "\<not> conectado ?c" | "conectado ?c" "send_error (sock ?c)"
    | "conectado ?c" "\<not> send_error (sock ?c)" by blast
  then show ?thesis
  proof cases
    case 3
    then show ?thesis
      using assms that(1) servidor_enviar_stream_message [OF 3(2) len, of code]
      by (auto simp: cpu_controller_send_pcb_def conexion_enviar_stream_def servidor_enviar_stream_def)
  qed (use assms that(2) in \<open>auto simp: cpu_controller_send_pcb_def conexion_enviar_stream_def
      enviar_stream_def send_def bind_eq_Some_conv\<close>)
qed

text \<open>A PCB that was ready is freed: its process is on the CPU or was ended.\<close>

lemma left_keeps:
  assumes wf: "kernel_wf grado k"
    and eq: "q_blocked k' = q_blocked k" "q_blocked_sus k' = q_blocked_sus k" "io_unit k' = io_unit k"
      "current_io k' = current_io k" "trackers k' = trackers k" "pids k' = pids k" "brk k' = brk k"
      "io_request k' = io_request k"
    and heap: "pcb_heap k' = (pcb_heap k)(a := None)"
    and front: "mset (front_places k) = add_mset a (mset (front_places k'))"
    and cpu: "cpu_line k'" "\<And>pid. on_cpu k' pid \<Longrightarrow> on_cpu k pid \<or> pid = pid_at k a"
    and count: "dom_sem k' + length (q_ready k') + (if sts k' = Sts_running then 1 else 0) =
        dom_sem k + length (q_ready k) + (if sts k = Sts_running then 1 else 0)"
      "req_admit k' + (if lts k' = Lts_request then 1 else 0) = length (q_new k') + length (q_ready_sus k')"
      "length (q_ready k') \<le> execute_sem k'"
  shows "kernel_wf grado k'"
proof -
  have parts: "owned k" "identified k" "cpu_line k" "io_ok k" "counted grado k" "trackers_wf k"
    using wf by (simp_all add: kernel_wf_def)
  have "a \<in> set (front_places k)" using front by (metis set_mset_mset union_single_eq_member)
  then have "a \<notin> set (blocked_places k)" by (rule in_front(1) [OF wf])
  then have same: "pcb_heap k' b = pcb_heap k b" if "b \<in> set (blocked_places k)" for b
    using heap that by auto
  have more: "taken (pids k) \<subseteq> taken (pids k')" using eq by simp
  note blocked = blocked_side_same [OF parts(4,6) eq(1-5) same more]
  have m: "mset (places k) = add_mset a (mset (places k'))"
    using front in_io_same [OF eq(2,3)] eq(1,2) by (simp add: places_split blocked_places_def)
  note owned = owned_freed [OF parts(1) m heap eq(7)]
  have pid: "pid_at k' b = pid_at k b" if "b \<in> set (places k')" for b
    using heap that owned(2) by (auto simp: pid_at_def)
  have "identified k'"
    by (rule identified_freed [OF parts(2) owned(3,2) pid eq(6) cpu(2)])
  moreover have "counted grado k'"
    using parts(5) blocked(4,5) count eq by (simp add: counted_def using_slot_def)
  ultimately show ?thesis using blocked owned(1) cpu(1) by (intro kernel_wfI)
qed

lemma get_next_effect:
  assumes "sorts_lists (list_sort env)" and "get_next env k = Some (r, k')"
  obtains q where "k' = k\<lparr>q_ready := q\<rparr>"
    and "case r of None \<Rightarrow> q_ready k = [] \<and> q = [] | Some a \<Rightarrow> mset (q_ready k) = add_mset a (mset q)"
proof -
  define l where "l = (case get_next_fn k of Get_next_fifo \<Rightarrow> q_ready k
    | Get_next_srt \<Rightarrow> list_sort env (by_estimation k) (q_ready k))"
  have l: "mset l = mset (q_ready k)"
    using assms(1) by (simp add: l_def sorts_lists_def split: get_next_t.split)
  have "(r, k') = (let (r, q) = safe_queue_pop l in (r, k\<lparr>q_ready := q\<rparr>))"
    using assms(2)
    by (auto simp: get_next_def get_next_srt_def get_next_fifo_def safe_queue_sort_def l_def
        Let_def split: get_next_t.splits if_splits)
  then show ?thesis
    using l that by (cases l) (auto simp: safe_queue_pop_def)
qed

lemma execute_effect:
  assumes "pcb_heap k a = Some p" and "execute env k a = Some k'"
  obtains e where "k' = k\<lparr>pcb_heap := (pcb_heap k)(a := None), current_estimation := e,
      conexion_dispatch := (conexion_dispatch k)\<lparr>sock := (sock (conexion_dispatch k))\<lparr>outgoing :=
        outgoing (sock (conexion_dispatch k)) @
        message PCB (pcb_to_stream (p\<lparr>status := status_num PCB_EXECUTING\<rparr>))\<rparr>\<rparr>, sts := Sts_running\<rparr>"
  | e c m where "k' = k\<lparr>pcb_heap := (pcb_heap k)(a := None), current_estimation := e,
      conexion_memory := c, memory_side := m, dom_sem := Suc (dom_sem k)\<rparr>"
proof -
  let ?p = "p\<lparr>status := status_num PCB_EXECUTING\<rparr>"
  let ?k = "k\<lparr>pcb_heap := (pcb_heap k)(a \<mapsto> ?p), current_estimation := estimation p\<rparr>"
  obtain n k1 where sent: "cpu_controller_send_pcb ?k PCB a = Some (n, k1)"
    and rest: "(if n > 0 then do { k \<leftarrow> pcb_destroy k1 a; Some (k\<lparr>sts := Sts_running\<rparr>) }
      else terminate env k1 a) = Some k'"
    using assms by (auto simp: execute_def update_pcb_def bind_eq_Some_conv)
  have p: "pcb_heap ?k a = Some ?p" by simp
  from p sent show ?thesis
  proof (rule cpu_send_effect)
    assume "0 < n" and k1: "k1 = ?k\<lparr>conexion_dispatch := (conexion_dispatch ?k)\<lparr>sock :=
      (sock (conexion_dispatch ?k))\<lparr>outgoing := outgoing (sock (conexion_dispatch ?k)) @
        message PCB (pcb_to_stream ?p)\<rparr>\<rparr>\<rparr>"
    then show ?thesis using rest by (intro that(1) [where e = "estimation p"]) (auto simp: pcb_destroy_def)
  next
    assume "n \<le> 0" and k1: "k1 = ?k"
    then obtain c m where "k' = ?k\<lparr>conexion_memory := c, memory_side := m,
        pcb_heap := (pcb_heap ?k)(a := None), dom_sem := Suc (dom_sem ?k)\<rparr>"
      using rest terminate_effect [of env ?k a k'] by auto
    then show ?thesis by (intro that(2) [where e = "estimation p" and c = c and m = m]) simp
  qed
qed

lemma kernel_wf_counts:
  assumes "kernel_wf grado k" and "counted grado k'"
    and "pcb_heap k' = pcb_heap k" "brk k' = brk k" "q_new k' = q_new k" "q_ready k' = q_ready k"
    "q_ready_sus k' = q_ready_sus k" "q_blocked k' = q_blocked k" "q_blocked_sus k' = q_blocked_sus k"
    "current_io k' = current_io k" "pids k' = pids k" "pcbs k' = pcbs k"
    "conexion_dispatch k' = conexion_dispatch k" "sts k' = sts k" "io_unit k' = io_unit k"
    "trackers k' = trackers k"
  shows "kernel_wf grado k'"
proof -
  have "owned k' = owned k" "identified k' = identified k" "cpu_line k' = cpu_line k"
    "io_ok k' = io_ok k" "trackers_wf k' = trackers_wf k"
    by (simp_all only: kernel_wf_defs assms(3-))
  then show ?thesis using assms(1,2) by (simp add: kernel_wf_def)
qed

lemma slots_same:
  assumes "pcb_heap k' = pcb_heap k" "q_ready k' = q_ready k" "q_blocked k' = q_blocked k"
    "q_blocked_sus k' = q_blocked_sus k" "sts k' = sts k" "io_unit k' = io_unit k"
  shows "using_slot k' = using_slot k" and "io_waiters k' = io_waiters k"
  by (simp_all only: using_slot_def io_waiters_def in_io_def status_at_def assms)

end
