(* ===== verification/Kernel_Steps.thy ===== *)
theory Kernel_Steps
  imports Kernel_Invariant
begin

section \<open>Each step of the kernel keeps the invariant\<close>

lemma idles_keeps:
  assumes wf: "kernel_wf grado k" and "0 < execute_sem k" and "sorts_lists (list_sort env)"
    and "get_next env (k\<lparr>execute_sem := execute_sem k - 1\<rparr>) = Some (None, k')"
  shows "kernel_wf grado k'"
proof -
  from assms(3,4) obtain q where "k' = k\<lparr>execute_sem := execute_sem k - 1, q_ready := q\<rparr>"
    and empty: "q_ready k = [] \<and> q = []"
    by (rule get_next_effect) simp
  then have k': "k' = k\<lparr>execute_sem := execute_sem k - 1\<rparr>" by simp
  moreover have "counted grado k" using wf by (simp add: kernel_wf_def)
  ultimately have "counted grado k'"
    using slots_same [of k' k] empty by (simp add: counted_def)
  with wf show ?thesis by (rule kernel_wf_counts) (simp_all add: k')
qed

lemma on_cpu_sent:
  assumes "outgoing (sock (conexion_dispatch k)) =
      message PCB (pcb_to_stream (p\<lparr>status := s\<rparr>))" and "sts k = Sts_running"
  shows "on_cpu k pid \<longleftrightarrow> pid = pcb_id p"
proof -
  have "pcb_id q = pcb_id p" if "message PCB (pcb_to_stream (p\<lparr>status := s\<rparr>)) = message PCB (pcb_to_stream q)" for q
    using message_pid [OF that] by simp
  then show ?thesis
    using assms unfolding on_cpu_def by metis
qed

lemma dispatches_keeps:
  assumes wf: "kernel_wf grado k" and waiting: "sts k = Sts_waiting" "0 < execute_sem k"
    and sorts: "sorts_lists (list_sort env)"
    and chosen: "get_next env (k\<lparr>execute_sem := execute_sem k - 1\<rparr>) = Some (Some a, k1)"
    and run: "execute env k1 a = Some k'"
  shows "kernel_wf grado k'"
proof -
  obtain q where k1: "k1 = k\<lparr>execute_sem := execute_sem k - 1, q_ready := q\<rparr>"
    and q: "mset (q_ready k) = add_mset a (mset q)"
    using sorts chosen by (rule get_next_effect) simp
  have len: "length (q_ready k) = Suc (length q)" using q by (metis size_add_mset size_mset)
  have "a \<in> set (q_ready k)" using q by (metis set_mset_mset union_single_eq_member)
  then have "a \<in> set (front_places k)" by (simp add: front_places_def)
  then obtain p where p: "pcb_heap k a = Some p" using in_front(2) [OF wf] by blast
  have front: "mset (front_places k) = add_mset a (mset (front_places (k\<lparr>q_ready := q\<rparr>)))"
    using q by (simp add: front_places_def)
  have count: "counted grado k" and line: "cpu_line k" using wf by (simp_all add: kernel_wf_def)
  have "Suc (length q) \<le> execute_sem k" using count len by (simp add: counted_def)
  then have bound: "length q \<le> execute_sem k - 1" by simp
  have "pcb_heap k1 a = Some p" using p k1 by simp
  from this run show ?thesis
  proof (rule execute_effect)
    fix e assume k': "k' = k1\<lparr>pcb_heap := (pcb_heap k1)(a := None), current_estimation := e,
      conexion_dispatch := (conexion_dispatch k1)\<lparr>sock := (sock (conexion_dispatch k1))\<lparr>outgoing :=
        outgoing (sock (conexion_dispatch k1)) @
        message PCB (pcb_to_stream (p\<lparr>status := status_num PCB_EXECUTING\<rparr>))\<rparr>\<rparr>, sts := Sts_running\<rparr>"
    have "outgoing (sock (conexion_dispatch k')) =
        message PCB (pcb_to_stream (p\<lparr>status := status_num PCB_EXECUTING\<rparr>))"
      and "sts k' = Sts_running"
      using line waiting by (simp_all add: k' k1 cpu_line_def)
    then have cpu: "on_cpu k' pid \<longleftrightarrow> pid = pcb_id p" for pid
      by (rule on_cpu_sent)
    show ?thesis
    proof (rule left_keeps [OF wf])
      show "mset (front_places k) = add_mset a (mset (front_places k'))"
        using front by (simp add: k' k1 front_places_def)
      have "incoming (sock (conexion_dispatch k')) = []" using line by (simp add: cpu_line_def k' k1)
      then show "cpu_line k'" using \<open>sts k' = Sts_running\<close> cpu [of "pcb_id p"] by (auto simp: cpu_line_def)
      show "on_cpu k pid \<or> pid = pid_at k a" if "on_cpu k' pid" for pid
        using that p cpu by (simp add: pid_at_def)
    qed (use count waiting len bound in \<open>simp_all add: k' k1 counted_def\<close>)
  next
    fix e c m assume k': "k' = k1\<lparr>pcb_heap := (pcb_heap k1)(a := None), current_estimation := e,
      conexion_memory := c, memory_side := m, dom_sem := Suc (dom_sem k1)\<rparr>"
    show ?thesis
    proof (rule left_keeps [OF wf])
      show "mset (front_places k) = add_mset a (mset (front_places k'))"
        using front by (simp add: k' k1 front_places_def)
      show "cpu_line k'" using line cpu_line_same [of k' k] by (simp add: k' k1)
      show "on_cpu k pid \<or> pid = pid_at k a" if "on_cpu k' pid" for pid
        using that on_cpu_same [of k' k] by (simp add: k' k1)
    qed (use count waiting len bound in \<open>simp_all add: k' k1 counted_def\<close>)
  qed
qed

subsection \<open>Back from the CPU\<close>

lemma conexion_recibir_message:
  assumes "\<not> recv_error s" and "incoming s = message code data" and "0 < length data"
    and "length data < 2 ^ 32"
  shows "conexion_recibir_stream junk s = (Some (data, int (length data) + 8), s\<lparr>incoming := []\<rparr>)"
proof -
  have "recv s 4 = (4, le32 (opcode_num code),
      s\<lparr>incoming := le32 (word_of_nat (length data)) @ data\<rparr>)"
    using recv_exact [of s "le32 (opcode_num code)" _ 4] assms by (simp add: message_def)
  moreover have "recv (s\<lparr>incoming := le32 (word_of_nat (length data)) @ data\<rparr>) 4 =
      (4, le32 (word_of_nat (length data)), s\<lparr>incoming := data\<rparr>)"
    using recv_exact [of "s\<lparr>incoming := le32 (word_of_nat (length data)) @ data\<rparr>"
        "le32 (word_of_nat (length data))" data 4] assms(1) by simp
  moreover have "recv (s\<lparr>incoming := data\<rparr>) (length data) = (int (length data), data, s\<lparr>incoming := []\<rparr>)"
    using recv_exact [of "s\<lparr>incoming := data\<rparr>" data "[]" "length data"] assms(1) by simp
  ultimately show ?thesis
    using assms(3,4) by (simp add: conexion_recibir_stream_def overlay_full)
qed

text \<open>What the kernel takes from the answer of the CPU.\<close>

definition received :: "pcb_junk \<Rightarrow> pcb_t \<Rightarrow> pcb_t" where
  "received junk p = p\<lparr>pcb_size := ucast (ucast (pcb_size p) :: u32) OR push_bit 32 (ucast (size_hi junk)),
     io := junk_io junk, real_time := junk_real junk\<rparr>"

lemma received_fields [simp]:
  "pcb_id (received junk p) = pcb_id p" "status (received junk p) = status p"
  "estimation (received junk p) = estimation p" "page_table (received junk p) = page_table p"
  "instructions (received junk p) = instructions p" "pc (received junk p) = pc p"
  by (simp_all add: received_def)

lemma receive_answer:
  assumes c: "incoming (sock (conexion_dispatch k)) = message INOUT (pcb_to_stream p @ le32 t)"
    and ok: "\<not> recv_error (sock (conexion_dispatch k))" and small: "pcb_bytes_size p + 4 < 2 ^ 32"
  shows "cpu_controller_receive_pcb env k = Some (brk k, t, k\<lparr>conexion_dispatch := (conexion_dispatch k)
      \<lparr>sock := (sock (conexion_dispatch k))\<lparr>incoming := []\<rparr>\<rparr>,
    pcb_heap := (pcb_heap k)(brk k \<mapsto> received (heap_junk env) p), brk := Suc (brk k)\<rparr>)"
proof -
  let ?data = "pcb_to_stream p @ le32 t"
  have data: "conexion_recibir_stream (stack_junk env) (sock (conexion_dispatch k)) =
      (Some (?data, int (length ?data) + 8), (sock (conexion_dispatch k))\<lparr>incoming := []\<rparr>)"
    by (rule conexion_recibir_message [OF ok c]) (use small in \<open>simp_all add: length_pcb_to_stream\<close>)
  have few: "length (instructions p) < 2 ^ 32" using small by (simp add: pcb_bytes_size_def)
  have pcb: "pcb_from_stream (heap_junk env) ?data = Some (received (heap_junk env) p)"
    using pcb_roundtrip_fields [OF few] by (simp add: received_def)
  have bytes: "pcb_bytes_size (received (heap_junk env) p) = pcb_bytes_size p"
    by (simp add: pcb_bytes_size_def)
  have "read_u32 ?data (pcb_bytes_size p) = Some t"
    using read_u32_skip [of "pcb_to_stream p" "pcb_bytes_size p" "le32 t"] read_u32_head [of t "[]"]
    by (simp add: length_pcb_to_stream)
  then show ?thesis
    using pcb data bytes by (simp add: cpu_controller_receive_pcb_def alloc_pcb_def)
qed

lemma receive_effect:
  assumes "cpu_answers junk c p t c'" and "conexion_dispatch k = c'"
    and "cpu_controller_receive_pcb env k = Some (a, io_time, k')"
  shows "a = brk k" and "io_time = t"
    and "k' = k\<lparr>conexion_dispatch := c'\<lparr>sock := (sock c')\<lparr>incoming := []\<rparr>\<rparr>,
      pcb_heap := (pcb_heap k)(brk k \<mapsto> received (heap_junk env) p), brk := Suc (brk k)\<rparr>"
proof -
  have c': "incoming (sock (conexion_dispatch k)) = message INOUT (pcb_to_stream p @ le32 t)"
    and small: "pcb_bytes_size p + 4 < 2 ^ 32"
    using assms(1,2) by (auto simp: cpu_answers_def)
  have "\<not> recv_error (sock (conexion_dispatch k))"
  proof
    assume "recv_error (sock (conexion_dispatch k))"
    with assms(3) show False
      by (simp add: cpu_controller_receive_pcb_def conexion_recibir_stream_def recv_def)
  qed
  from receive_answer [OF c' this small] assms(2,3)
  show "a = brk k" "io_time = t"
    "k' = k\<lparr>conexion_dispatch := c'\<lparr>sock := (sock c')\<lparr>incoming := []\<rparr>\<rparr>,
      pcb_heap := (pcb_heap k)(brk k \<mapsto> received (heap_junk env) p), brk := Suc (brk k)\<rparr>"
    by auto
qed

lemma came_back:
  assumes wf: "kernel_wf grado k" and pid: "on_cpu k (pcb_id q)"
    and heap: "pcb_heap k' = (pcb_heap k)(brk k \<mapsto> q)" and eq: "brk k' = Suc (brk k)" "pids k' = pids k"
    and m: "mset (places k') = add_mset (brk k) (mset (places k))"
    and cpu: "sts k' = Sts_waiting" "incoming (sock (conexion_dispatch k')) = []"
      "outgoing (sock (conexion_dispatch k')) = []"
  shows "owned k'" and "identified k'" and "cpu_line k'"
proof -
  have parts: "owned k" "identified k"
    using wf by (simp_all add: kernel_wf_def)
  have fresh: "brk k \<notin> set (places k)" using parts(1) by (rule fresh_address)
  show "owned k'" by (rule owned_made [OF parts(1) m]) (auto simp: heap eq)
  show "identified k'"
  proof (rule identified_made [OF parts(2) _ fresh])
    show "set (places k') = insert (brk k) (set (places k))"
      using mset_eq_setD [of "places k'" "brk k # places k"] m by simp
    show "pid_at k' b = pid_at k b" if "b \<in> set (places k)" for b
      using that fresh by (auto simp: pid_at_def heap)
    show "on_cpu k pid \<and> pid_at k' (brk k) \<noteq> pid" if "on_cpu k' pid" for pid
      using that cpu by (simp add: on_cpu_def)
  qed (use parts(2) pid in \<open>auto simp: identified_def pid_at_def heap eq\<close>)
  show "cpu_line k'" using cpu by (simp add: cpu_line_def)
qed

lemma blocked_return_keeps:
  assumes wf: "kernel_wf grado k" and pid: "on_cpu k (pcb_id q)"
    and blocked: "status q = status_num PCB_BLOCKED"
    and cpu: "incoming (sock d) = []" "outgoing (sock d) = []"
    and k': "k' = k\<lparr>conexion_dispatch := d, pcb_heap := (pcb_heap k)(brk k \<mapsto> q), brk := Suc (brk k),
      current_estimation := e, q_blocked := q_blocked k @ [brk k],
      trackers := trackers k @ [(brk k, pcb_id q)], io_request := Suc (io_request k),
      execute_sem := Suc (execute_sem k), sts := Sts_waiting\<rparr>"
    and timely: "timely k'"
  shows "kernel_wf grado k'"
proof -
  have parts: "owned k" "identified k" "cpu_line k" "io_ok k" "counted grado k" "trackers_wf k"
    using wf by (simp_all add: kernel_wf_def)
  have fresh: "brk k \<notin> set (blocked_places k)"
    using fresh_address [OF parts(1)] blocked_in_places by blast
  have io: "in_io k' = in_io k" by (rule in_io_same) (simp_all add: k')
  have m: "mset (places k') = add_mset (brk k) (mset (places k))"
    using io by (simp add: places_def k')
  note ret = came_back [OF wf pid, of k', OF _ _ _ m]
  have same: "status_at k' b = status_at k b" "pid_at k' b = pid_at k b" if "b \<in> set (blocked_places k)" for b
    using that fresh by (auto simp: status_at_def pid_at_def k')
  have new: "status_at k' (brk k) = status_num PCB_BLOCKED" "pid_at k' (brk k) = pcb_id q"
    using blocked by (simp_all add: status_at_def pid_at_def k')
  have sel: "q_blocked k' = q_blocked k @ [brk k]" "q_blocked_sus k' = q_blocked_sus k"
    "io_unit k' = io_unit k" "current_io k' = current_io k" "pids k' = pids k"
    "trackers k' = trackers k @ [(brk k, pcb_id q)]"
    by (simp_all add: k')
  have "io_ok k'"
    using parts(4) same new fresh unfolding io_ok_def sel io blocked_places_def by auto
  moreover have "trackers_wf k'"
    unfolding trackers_wf_def sel io
  proof (intro ballI, clarify)
    fix a pid assume t: "(a, pid) \<in> set (trackers k @ [(brk k, pcb_id q)])"
    have ids: "pcb_id q \<in> taken (pids k)" "pcb_id q \<notin> pid_at k ` set (places k)"
      using parts(2) pid by (auto simp: identified_def)
    show "pid \<in> taken (pids k) \<and> (\<forall>b \<in> set ((q_blocked k @ [brk k]) @ q_blocked_sus k @ in_io k).
        pid_at k' b = pid \<longrightarrow> b = a \<and> status_at k' b \<noteq> status_num PCB_SUSPENDED_BLOCKED)"
    proof (cases "(a, pid) \<in> set (trackers k)")
      case True
      then have "pid \<noteq> pcb_id q" using timely by (force simp: timely_def sel)
      moreover have "pid \<in> taken (pids k)" "\<forall>b \<in> set (blocked_places k).
          pid_at k b = pid \<longrightarrow> b = a \<and> status_at k b \<noteq> status_num PCB_SUSPENDED_BLOCKED"
        using parts(6) True by (auto simp: trackers_wf_def blocked_places_def)
      ultimately show ?thesis using same new by (auto simp: blocked_places_def)
    next
      case False
      then have "a = brk k" "pid = pcb_id q" using t by auto
      moreover have "pid_at k' b \<noteq> pcb_id q" if "b \<in> set (blocked_places k)" for b
        using ids(2) that same(2) [OF that] blocked_in_places by (metis image_eqI subsetD)
      ultimately show ?thesis using ids(1) new by (auto simp: blocked_places_def)
    qed
  qed
  moreover have "counted grado k'"
  proof -
    have "filter (\<lambda>a. status_at k' a \<noteq> s) (in_io k) = filter (\<lambda>a. status_at k a \<noteq> s) (in_io k)" for s
      by (rule filter_cong) (simp_all add: same blocked_places_def)
    moreover have "sts k = Sts_running" using pid by (simp add: on_cpu_def)
    ultimately show ?thesis
      using parts(5) unfolding counted_def using_slot_def io_waiters_def sel io by (simp add: k')
  qed
  ultimately show ?thesis
    using ret cpu by (intro kernel_wfI) (simp_all add: k')
qed

lemma ready_return_keeps:
  assumes wf: "kernel_wf grado k" and pid: "on_cpu k (pcb_id q)"
    and cpu: "incoming (sock d) = []" "outgoing (sock d) = []"
    and k': "k' = k\<lparr>conexion_dispatch := d, pcb_heap := (pcb_heap k)(brk k \<mapsto> q), brk := Suc (brk k),
      current_estimation := e, q_ready := q_ready k @ [brk k],
      execute_sem := Suc (execute_sem k), sts := Sts_waiting\<rparr>"
  shows "kernel_wf grado k'"
proof -
  have parts: "owned k" "identified k" "cpu_line k" "io_ok k" "counted grado k" "trackers_wf k"
    using wf by (simp_all add: kernel_wf_def)
  have sel: "q_blocked k' = q_blocked k" "q_blocked_sus k' = q_blocked_sus k"
    "io_unit k' = io_unit k" "current_io k' = current_io k" "trackers k' = trackers k"
    and more: "taken (pids k) \<subseteq> taken (pids k')"
    by (simp_all add: k')
  have same: "pcb_heap k' b = pcb_heap k b" if "b \<in> set (blocked_places k)" for b
    using that fresh_address [OF parts(1)] blocked_in_places by (auto simp: k')
  note blocked = blocked_side_same [OF parts(4,6) sel same more]
  have m: "mset (places k') = add_mset (brk k) (mset (places k))"
    using in_io_same [OF sel(2,3)] by (simp add: places_def k')
  note ret = came_back [OF wf pid, of k', OF _ _ _ m]
  have "sts k = Sts_running" using pid by (simp add: on_cpu_def)
  then have "counted grado k'"
    using parts(5) blocked(4,5) by (simp add: counted_def using_slot_def k')
  then show ?thesis
    using ret cpu blocked by (intro kernel_wfI) (simp_all add: k')
qed

lemma ended_return_keeps:
  assumes wf: "kernel_wf grado k" and pid: "on_cpu k pid"
    and cpu: "incoming (sock d) = []" "outgoing (sock d) = []"
    and k': "k' = k\<lparr>conexion_dispatch := d, brk := Suc (brk k), current_estimation := e,
      conexion_memory := c, memory_side := m, dom_sem := Suc (dom_sem k),
      execute_sem := Suc (execute_sem k), sts := Sts_waiting\<rparr>"
  shows "kernel_wf grado k'"
proof -
  have parts: "owned k" "identified k" "cpu_line k" "io_ok k" "counted grado k" "trackers_wf k"
    using wf by (simp_all add: kernel_wf_def)
  have sel: "q_blocked k' = q_blocked k" "q_blocked_sus k' = q_blocked_sus k"
    "io_unit k' = io_unit k" "current_io k' = current_io k" "trackers k' = trackers k"
    and more: "taken (pids k) \<subseteq> taken (pids k')"
    and same: "\<And>b. pcb_heap k' b = pcb_heap k b"
    by (simp_all add: k')
  note blocked = blocked_side_same [OF parts(4,6) sel same more]
  have p: "places k' = places k"
    using in_io_same [OF sel(2,3)] by (simp add: places_def k')
  have "sts k = Sts_running" using pid by (simp add: on_cpu_def)
  then have "counted grado k'"
    using parts(5) blocked(4,5) by (simp add: counted_def using_slot_def k')
  moreover have "owned k'"
    using parts(1) p unfolding owned_def by (simp add: k' less_SucI)
  moreover have "identified k'"
  proof (rule identified_moved [OF parts(2)])
    show "set (places k') = set (places k)" by (simp only: p)
  qed (simp_all add: k' pid_at_def on_cpu_def)
  moreover have "cpu_line k'" using cpu by (simp add: cpu_line_def k')
  ultimately show ?thesis using blocked by (intro kernel_wfI)
qed

lemma returns_keeps:
  assumes wf: "kernel_wf grado k" and running: "sts k = Sts_running"
    and answer: "cpu_answers (heap_junk env) (conexion_dispatch k) p t c"
    and run: "execute_return env (k\<lparr>conexion_dispatch := c\<rparr>) real_usage = Some k'"
    and timely: "timely k'"
  shows "kernel_wf grado k'"
proof -
  let ?k = "k\<lparr>conexion_dispatch := c\<rparr>"
  let ?d = "c\<lparr>sock := (sock c)\<lparr>incoming := []\<rparr>\<rparr>"
  let ?q = "(received (heap_junk env) p)\<lparr>real_time := real_usage\<rparr>"
  let ?k1 = "?k\<lparr>conexion_dispatch := ?d, brk := Suc (brk k), pcb_heap := (pcb_heap k)(brk k \<mapsto> ?q),
    current_estimation := 0\<rparr>"
  have "cpu_line k" using wf by (simp add: kernel_wf_def)
  obtain stream q where out: "outgoing (sock (conexion_dispatch k)) = message PCB stream"
    and q: "pcb_from_stream (heap_junk env) stream = Some q" "pcb_id p = pcb_id q"
    and clean: "outgoing (sock ?d) = []"
    using answer by (auto simp: cpu_answers_def same_process_def)
  have pid: "on_cpu k (pcb_id p)"
  proof -
    obtain p0 where p0: "outgoing (sock (conexion_dispatch k)) = message PCB (pcb_to_stream p0)"
      using \<open>cpu_line k\<close> running by (auto simp: cpu_line_def on_cpu_def)
    then have "stream = pcb_to_stream p0" using out by (simp add: message_def)
    then have "pcb_id q = pcb_id p0"
      using q(1) by (auto simp: pcb_from_stream_def pcb_to_stream_def bind_eq_Some_conv)
    with p0 running q(2) show ?thesis by (auto simp: on_cpu_def)
  qed
  obtain a io_time k2 where rcv: "cpu_controller_receive_pcb env ?k = Some (a, io_time, k2)"
    using run by (auto simp: execute_return_def bind_eq_Some_conv)
  note got = receive_effect [OF answer _ rcv]
  have eff: "a = brk k" "io_time = t"
    "k2 = ?k\<lparr>conexion_dispatch := ?d, pcb_heap := (pcb_heap k)(brk k \<mapsto> received (heap_junk env) p),
      brk := Suc (brk k)\<rparr>"
    using got by simp_all
  have run': "(if status p = status_num PCB_BLOCKED then block env ?k1 (brk k) t
      else if status p = status_num PCB_TERMINATED then terminate env ?k1 (brk k)
      else if status p = status_num PCB_READY then pre_empt ?k1 (brk k)
      else terminate env ?k1 (brk k)) \<bind> (\<lambda>k. Some (k\<lparr>execute_sem := Suc (execute_sem k), sts := Sts_waiting\<rparr>))
      = Some k'"
    using run unfolding execute_return_def rcv by (simp add: eff update_pcb_def Let_def cong: if_cong split: if_splits)
  have here: "pcb_heap ?k1 (brk k) = Some ?q" by simp
  have clear: "incoming (sock ?d) = []" by simp
  have fresh: "pcb_heap k (brk k) = None"
    using wf fresh_address [of k] by (auto simp: kernel_wf_def owned_def)
  consider (block) "status p = status_num PCB_BLOCKED"
    | (ready) "status p = status_num PCB_READY"
    | (ends) "status p \<noteq> status_num PCB_BLOCKED" "status p \<noteq> status_num PCB_READY" by blast
  then show ?thesis
  proof cases
    case block
    let ?b = "?q\<lparr>io := t, estimation := alfa_part env (real_time ?q) + rest_part env (estimation ?q)\<rparr>"
    have "on_cpu k (pcb_id ?b)" and "status ?b = status_num PCB_BLOCKED"
      using pid block by simp_all
    then show ?thesis
      by (rule blocked_return_keeps [OF wf _ _ clear clean _ timely, where e = 0])
        (use run' block_effect [OF here, of env t] block in auto)
  next
    case ready
    let ?b = "?q\<lparr>estimation := (if real_time ?q < estimation ?q then estimation ?q - real_time ?q
      else real_time ?q - estimation ?q)\<rparr>"
    have "on_cpu k (pcb_id ?b)" using pid by simp
    then show ?thesis
      by (rule ready_return_keeps [OF wf _ clear clean, where e = 0])
        (use run' pre_empt_effect [OF here] ready in auto)
  next
    case ends
    then obtain k3 where "terminate env ?k1 (brk k) = Some k3"
      and k': "k' = k3\<lparr>execute_sem := Suc (execute_sem k3), sts := Sts_waiting\<rparr>"
      using run' by (auto simp: bind_eq_Some_conv split: if_splits)
    then obtain c' m where k3: "k3 = ?k1\<lparr>conexion_memory := c', memory_side := m,
        pcb_heap := (pcb_heap ?k1)(brk k := None), dom_sem := Suc (dom_sem ?k1)\<rparr>"
      using terminate_effect by blast
    show ?thesis
      by (rule ended_return_keeps [OF wf pid clear clean, where e = 0 and c = c' and m = m])
        (use fresh in \<open>simp add: k' k3 fun_upd_idem\<close>)
  qed
qed

subsection \<open>Admission\<close>

lemma safe_queue_pop_Cons [simp]: "safe_queue_pop (a # q) = (Some a, q)"
  by (simp add: safe_queue_pop_def)

lemma safe_queue_pop_Nil [simp]: "safe_queue_pop [] = (None, [])"
  by (simp add: safe_queue_pop_def)

text \<open>The last part of \<open>admit\<close>.\<close>

lemma make_ready_effect:
  assumes "pcb_heap k a = Some p"
    and "(do {
      k \<leftarrow> update_pcb k a (\<lambda>pcb. pcb\<lparr>status := status_num PCB_READY\<rparr>);
      k \<leftarrow> check_interruption k a;
      Some (k\<lparr>q_ready := safe_queue_push (q_ready k) (Some a)\<rparr>) }) = Some k'"
  obtains c where "k' = k\<lparr>pcb_heap := (pcb_heap k)(a \<mapsto> p\<lparr>status := status_num PCB_READY\<rparr>),
    conexion_interrupt := c, q_ready := q_ready k @ [a]\<rparr>"
  using assms
  by (auto simp: update_pcb_def bind_eq_Some_conv safe_queue_push_def queue_smart_push_def
      dest!: check_interruption_effect)

lemma admit_resumes:
  assumes "q_ready_sus k = a # qs" and "pcb_heap k a = Some p" and "admit env k = Some k'"
  obtains c where "k' = k\<lparr>q_ready_sus := qs,
    pcb_heap := (pcb_heap k)(a \<mapsto> p\<lparr>status := status_num PCB_READY\<rparr>), conexion_interrupt := c,
    q_ready := q_ready k @ [a], execute_sem := Suc (execute_sem k)\<rparr>"
proof -
  let ?k = "k\<lparr>q_ready_sus := qs\<rparr>"
  obtain k1 where k1: "(do {
      k \<leftarrow> update_pcb ?k a (\<lambda>pcb. pcb\<lparr>status := status_num PCB_READY\<rparr>);
      k \<leftarrow> check_interruption k a;
      Some (k\<lparr>q_ready := safe_queue_push (q_ready k) (Some a)\<rparr>) }) = Some k1"
    and k': "k' = k1\<lparr>execute_sem := Suc (execute_sem k1)\<rparr>"
    using assms(1,3) by (auto simp: admit_def resume_def bind_eq_Some_conv)
  have "pcb_heap ?k a = Some p" using assms(2) by simp
  from this k1 obtain c where "k1 = ?k\<lparr>pcb_heap := (pcb_heap ?k)(a \<mapsto> p\<lparr>status := status_num PCB_READY\<rparr>),
      conexion_interrupt := c, q_ready := q_ready ?k @ [a]\<rparr>"
    by (rule make_ready_effect)
  with that [where c = c] k' show ?thesis by simp
qed

lemma admit_new:
  assumes "q_ready_sus k = []" and "q_new k = a # qs" and "pcb_heap k a = Some p"
    and "admit env k = Some k'"
  obtains c d m t where "k' = k\<lparr>q_new := qs, conexion_memory := c, memory_side := m,
    pcb_heap := (pcb_heap k)(a \<mapsto> p\<lparr>page_table := t, status := status_num PCB_READY\<rparr>),
    conexion_interrupt := d, q_ready := q_ready k @ [a], execute_sem := Suc (execute_sem k)\<rparr>"
proof -
  let ?k = "k\<lparr>q_new := qs\<rparr>"
  have sus: "resume k = (None, k)"
    using assms(1) by (simp add: resume_def)
  obtain k1 k2 where k1: "k1 = ?k \<or> request_page_table env ?k a = Some k1"
    and k2: "(do {
      k \<leftarrow> update_pcb k1 a (\<lambda>pcb. pcb\<lparr>status := status_num PCB_READY\<rparr>);
      k \<leftarrow> check_interruption k a;
      Some (k\<lparr>q_ready := safe_queue_push (q_ready k) (Some a)\<rparr>) }) = Some k2"
    and k': "k' = k2\<lparr>execute_sem := Suc (execute_sem k2)\<rparr>"
    using assms(2,4) sus by (auto simp: admit_def bind_eq_Some_conv Let_def split: if_splits)
  have here: "pcb_heap ?k a = Some p" using assms(3) by simp
  have "\<exists>c m t. k1 = ?k\<lparr>pcb_heap := (pcb_heap ?k)(a \<mapsto> p\<lparr>page_table := t\<rparr>),
      conexion_memory := c, memory_side := m\<rparr>"
  proof (cases "k1 = ?k")
    case True
    have "k1 = ?k\<lparr>pcb_heap := (pcb_heap ?k)(a \<mapsto> p\<lparr>page_table := page_table p\<rparr>),
        conexion_memory := conexion_memory k, memory_side := memory_side k\<rparr>"
      using True assms(3) by (simp add: fun_upd_idem)
    then show ?thesis by blast
  next
    case False
    with k1 have "request_page_table env ?k a = Some k1" by blast
    then show ?thesis by (rule request_page_table_effect [OF here])
  qed
  then obtain c m t where eff: "k1 = ?k\<lparr>pcb_heap := (pcb_heap ?k)(a \<mapsto> p\<lparr>page_table := t\<rparr>),
      conexion_memory := c, memory_side := m\<rparr>" by blast
  then have "pcb_heap k1 a = Some (p\<lparr>page_table := t\<rparr>)" by simp
  from this k2 obtain d where
    "k2 = k1\<lparr>pcb_heap := (pcb_heap k1)(a \<mapsto> p\<lparr>page_table := t, status := status_num PCB_READY\<rparr>),
      conexion_interrupt := d, q_ready := q_ready k1 @ [a]\<rparr>"
    by (rule make_ready_effect)
  with that [where c = c and d = d and m = m and t = t] k' eff show ?thesis by simp
qed

lemma admits_keeps:
  assumes wf: "kernel_wf grado k" and lts: "lts k = Lts_request" "0 < dom_sem k"
    and run: "admit env (k\<lparr>dom_sem := dom_sem k - 1\<rparr>) = Some k'"
  shows "kernel_wf grado (k'\<lparr>lts := Lts_waiting\<rparr>)"
proof -
  let ?k = "k\<lparr>dom_sem := dom_sem k - 1\<rparr>"
  have count: "counted grado k" using wf by (simp add: kernel_wf_def)
  then have some: "Suc (req_admit k) = length (q_new k) + length (q_ready_sus k)"
    and exec: "length (q_ready k) \<le> execute_sem k"
    using lts by (simp_all add: counted_def)
  show ?thesis
  proof (cases "q_ready_sus k")
    case (Cons a qs)
    then have front: "a \<in> set (front_places k)" by (simp add: front_places_def)
    then obtain p where p: "pcb_heap k a = Some p" using in_front(2) [OF wf] by blast
    have "q_ready_sus ?k = a # qs" "pcb_heap ?k a = Some p" using Cons p by simp_all
    from this run obtain c where k': "k' = ?k\<lparr>q_ready_sus := qs,
        pcb_heap := (pcb_heap ?k)(a \<mapsto> p\<lparr>status := status_num PCB_READY\<rparr>), conexion_interrupt := c,
        q_ready := q_ready ?k @ [a], execute_sem := Suc (execute_sem ?k)\<rparr>"
      by (rule admit_resumes)
    show ?thesis
      by (rule moved_keeps [OF wf, where a = a and p = p and p' = "p\<lparr>status := status_num PCB_READY\<rparr>"])
        (use lts some exec Cons p in_front(1) [OF wf front] in \<open>simp_all add: k' front_places_def\<close>)
  next
    case Nil
    then obtain a qs where new: "q_new k = a # qs" using some by (cases "q_new k") auto
    then have front: "a \<in> set (front_places k)" by (simp add: front_places_def)
    then obtain p where p: "pcb_heap k a = Some p" using in_front(2) [OF wf] by blast
    have "q_ready_sus ?k = []" "q_new ?k = a # qs" "pcb_heap ?k a = Some p" using Nil new p by simp_all
    from this run obtain c d m t where k': "k' = ?k\<lparr>q_new := qs, conexion_memory := c, memory_side := m,
        pcb_heap := (pcb_heap ?k)(a \<mapsto> p\<lparr>page_table := t, status := status_num PCB_READY\<rparr>),
        conexion_interrupt := d, q_ready := q_ready ?k @ [a], execute_sem := Suc (execute_sem ?k)\<rparr>"
      by (rule admit_new)
    show ?thesis
      by (rule moved_keeps [OF wf, where a = a and p = p and
            p' = "p\<lparr>page_table := t, status := status_num PCB_READY\<rparr>"])
        (use lts some exec Nil new p in_front(1) [OF wf front] in \<open>simp_all add: k' front_places_def\<close>)
  qed
qed

lemma wakes_keeps:
  assumes wf: "kernel_wf grado k" and "lts k = Lts_waiting" "0 < req_admit k"
  shows "kernel_wf grado (k\<lparr>req_admit := req_admit k - 1, lts := Lts_request\<rparr>)" (is "kernel_wf grado ?k")
proof -
  have "counted grado k" using wf by (simp add: kernel_wf_def)
  then have "counted grado ?k" using assms(2,3) slots_same [of ?k k] by (simp add: counted_def)
  with wf show ?thesis by (rule kernel_wf_counts) simp_all
qed

subsection \<open>Input and output\<close>

lemma io_begins_keeps:
  assumes wf: "kernel_wf grado k" and unit: "io_unit k = Io_waiting" "0 < io_request k"
    and run: "io_begin k = Some k'"
  shows "kernel_wf grado k'"
proof -
  have parts: "owned k" "identified k" "cpu_line k" "io_ok k" "counted grado k" "trackers_wf k"
    using wf by (simp_all add: kernel_wf_def)
  have none: "in_io k = []" using unit by (simp add: in_io_def)
  have waiters: "io_request k = length (q_blocked k) + length (q_blocked_sus k)"
    using parts(5) unit by (simp add: counted_def io_waiters_def)
  have dist: "distinct (blocked_places k)"
    using parts(1) by (simp add: owned_def places_split)
  have alive: "\<exists>p. pcb_heap k a = Some p" if "a \<in> set (blocked_places k)" for a
    using that parts(1) by (auto simp: owned_def places_split)
  obtain a q_b q_s where k': "k' = k\<lparr>io_request := io_request k - 1, q_blocked := q_b,
      q_blocked_sus := q_s, current_io := pid_at k a, io_unit := Io_busy a\<rparr>"
    and src: "q_blocked_sus k = a # q_s \<and> q_b = q_blocked k \<or>
      q_blocked_sus k = [] \<and> q_s = [] \<and> q_blocked k = a # q_b"
  proof (cases "q_blocked_sus k")
    case (Cons a q_s)
    moreover obtain p where "pcb_heap k a = Some p"
      using alive [of a] Cons by (auto simp: blocked_places_def)
    ultimately show ?thesis
      using run that [where q_s = q_s and q_b = "q_blocked k" and a = a] by (auto simp: io_begin_def retrieve_pcb_def pid_at_def)
  next
    case Nil
    then obtain a q_b where b: "q_blocked k = a # q_b" using waiters unit by (cases "q_blocked k") auto
    moreover obtain p where "pcb_heap k a = Some p"
      using alive [of a] b by (auto simp: blocked_places_def)
    ultimately show ?thesis
      using run Nil that [where q_s = "[]" and q_b = q_b and a = a] by (auto simp: io_begin_def retrieve_pcb_def pid_at_def)
  qed
  have mem: "a \<notin> set q_s" "a \<notin> set q_b" and sub: "set q_s \<subseteq> set (q_blocked_sus k)" "set q_b \<subseteq> set (q_blocked k)"
    using dist src by (auto simp: blocked_places_def)
  have io: "in_io k' = [a]" using mem by (simp add: in_io_def k')
  have same: "status_at k' = status_at k" "pid_at k' = pid_at k"
    by (simp_all only: status_at_def pid_at_def) (simp_all add: k')
  have m: "mset (places k') = mset (places k)"
    using src by (auto simp: places_def io none) (auto simp: k')
  have set: "set (blocked_places k') = set (blocked_places k)"
    using src by (auto simp: blocked_places_def io none) (auto simp: k')
  have "owned k'" by (rule owned_moved [OF parts(1) m]) (simp_all add: k')
  moreover have "identified k'"
    using identified_moved [OF parts(2) mset_eq_setD [OF m]] same on_cpu_same [of k' k] by (simp add: k')
  moreover have "cpu_line k'" using parts(3) cpu_line_same [of k' k] by (simp add: k')
  moreover have "io_ok k'"
    using parts(4) mem sub unfolding io_ok_def io same by (auto simp: k' unit)
  moreover have "trackers_wf k'"
    using parts(6) set unfolding trackers_wf_def same blocked_places_def by (simp add: k')
  moreover have "counted grado k'"
  proof -
    have "length (filter (\<lambda>b. status_at k b \<noteq> status_num PCB_SUSPENDED_BLOCKED) [a]) + length q_b = length (q_blocked k)"
      using src parts(4) by (auto simp: io_ok_def)
    moreover have "length (filter (\<lambda>b. a \<noteq> b) q_s) = length q_s"
      using mem by (metis (mono_tags, lifting) filter_True)
    ultimately show ?thesis
      using parts(5) waiters src unfolding counted_def using_slot_def io_waiters_def io same none
      by (auto simp: k')
  qed
  ultimately show ?thesis by (intro kernel_wfI)
qed

lemma left_io:
  assumes wf: "kernel_wf grado k" and busy: "io_unit k = Io_busy a"
    and heap: "pcb_heap k a = Some p" "pcb_heap k' = (pcb_heap k)(a \<mapsto> p')" "pcb_id p' = pcb_id p"
    and sel: "q_blocked k' = q_blocked k" "q_blocked_sus k' = remove1 a (q_blocked_sus k)"
      "io_unit k' = Io_waiting" "current_io k' = UINT32_MAX" "trackers k' = trackers k"
      "brk k' = brk k" "pids k' = pids k" "conexion_dispatch k' = conexion_dispatch k" "sts k' = sts k"
    and front: "mset (front_places k') = add_mset a (mset (front_places k))"
  shows "owned k'" "identified k'" "cpu_line k'" "io_ok k'" "trackers_wf k'" "in_io k' = []"
    "io_waiters k' = io_waiters k"
proof -
  have parts: "owned k" "identified k" "cpu_line k" "io_ok k" "counted grado k" "trackers_wf k"
    using wf by (simp_all add: kernel_wf_def)
  have dist: "distinct (blocked_places k)"
    using parts(1) by (simp add: owned_def places_split)
  have here: "a \<in> set (q_blocked_sus k @ in_io k)" "a \<notin> set (q_blocked k)"
    using parts(4) busy by (simp_all add: io_ok_def)
  show io: "in_io k' = []" using sel by (simp add: in_io_def)
  have ds: "distinct (q_blocked_sus k)" using dist by (simp add: blocked_places_def)
  have msus: "mset (q_blocked_sus k @ in_io k) = add_mset a (mset (remove1 a (q_blocked_sus k)))"
    using here ds busy by (auto simp: in_io_def remove1_idem)
  then have mb: "mset (blocked_places k) = add_mset a (mset (blocked_places k'))"
    by (simp add: blocked_places_def sel io)
  have m: "mset (places k') = mset (places k)"
    using mb front by (simp add: places_split)
  have bset: "set (blocked_places k) = insert a (set (blocked_places k'))" and notin: "a \<notin> set (blocked_places k')"
    using mset_eq_setD [of "blocked_places k" "a # blocked_places k'"]
      mset_eq_imp_distinct_iff [of "blocked_places k" "a # blocked_places k'"] mb dist by auto
  have pid: "pid_at k' b = pid_at k b" for b using heap by (simp add: pid_at_def)
  have st: "status_at k' b = status_at k b" if "b \<noteq> a" for b using heap that by (simp add: status_at_def)
  have "dom (pcb_heap k') = dom (pcb_heap k)" using heap(1,2) by (simp add: insert_absorb domI)
  then show "owned k'" using owned_moved [OF parts(1) m] sel by simp
  show "identified k'"
    using identified_moved [OF parts(2) mset_eq_setD [OF m]] pid sel on_cpu_same [of k' k] by simp
  show "cpu_line k'" using parts(3) cpu_line_same [of k' k] sel by simp
  show "io_ok k'"
  proof -
    have "status_at k' b = status_at k b" if "b \<in> set (q_blocked k) \<union> set (remove1 a (q_blocked_sus k))" for b
    proof (rule st)
      show "b \<noteq> a" using that here(2) ds by auto
    qed
    moreover have "set (remove1 a (q_blocked_sus k)) \<subseteq> set (q_blocked_sus k)" by (rule set_remove1_subset)
    ultimately show ?thesis
      using parts(4) unfolding io_ok_def sel by (simp add: subset_iff)
  qed
  show "trackers_wf k'"
  proof -
    have "set (q_blocked k' @ q_blocked_sus k' @ in_io k') \<subseteq> set (q_blocked k @ q_blocked_sus k @ in_io k)"
      "a \<notin> set (q_blocked k' @ q_blocked_sus k' @ in_io k')"
      using bset notin by (auto simp: blocked_places_def)
    then show ?thesis
      using parts(6) st unfolding trackers_wf_def pid sel(5,7) by fastforce
  qed
  have "filter (\<lambda>b. Io_busy a \<noteq> Io_busy b) (q_blocked_sus k) = remove1 a (q_blocked_sus k)"
    using ds by (simp add: distinct_remove1_removeAll removeAll_filter_not_eq)
  then show "io_waiters k' = io_waiters k"
    by (simp add: io_waiters_def sel busy)
qed

lemma exists_pid_alive:
  assumes "\<forall>a \<in> set l. pcb_heap k a \<noteq> None"
  shows "exists_pid k l pid = Some (\<exists>a \<in> set l. pid_at k a = pid)"
proof -
  have "(find (\<lambda>a. pid_at k a = pid) l \<noteq> None) = (\<exists>a \<in> set l. pid_at k a = pid)"
    by (simp only: find_None_iff Bex_def simp_thms)
  then show ?thesis
    by (simp only: exists_pid_def find_pid_alive [OF assms] option.map pid_at_def)
qed

text \<open>An identifier has one PCB.\<close>

lemma one_pcb:
  assumes "kernel_wf grado k" and "a \<in> set (places k)" and "b \<in> set (places k)"
    and "pid_at k a = pid_at k b"
  shows "a = b"
  using assms by (auto simp: kernel_wf_def identified_def dest: inj_onD)

lemma io_ends_keeps:
  assumes wf: "kernel_wf grado k" and busy: "io_unit k = Io_busy a" and run: "io_end k a = Some k'"
  shows "kernel_wf grado k'"
proof -
  have parts: "owned k" "identified k" "cpu_line k" "io_ok k" "counted grado k" "trackers_wf k"
    using wf by (simp_all add: kernel_wf_def)
  have place: "a \<in> set (blocked_places k)"
    using parts(4) busy by (auto simp: io_ok_def blocked_places_def)
  then have inplace: "a \<in> set (places k)" using blocked_in_places by blast
  then obtain p where p: "pcb_heap k a = Some p" using alive [OF wf] by blast
  have status: "status_at k a = status p" and pid: "pid_at k a = pcb_id p" using p by (simp_all add: status_at_def pid_at_def)
  have sus_alive: "\<forall>b \<in> set (q_blocked_sus k). pcb_heap k b \<noteq> None"
    using parts(1) by (auto simp: owned_def places_def)
  show ?thesis
  proof (cases "status p = status_num PCB_SUSPENDED_BLOCKED")
    case True
    have only: "b = a" if "b \<in> set (q_blocked_sus k)" "pid_at k b = pcb_id p" for b
      using one_pcb [OF wf _ inplace, of b] that pid by (simp add: places_def)
    obtain k1 where k1: "suspended_event k a = Some k1"
      and k': "k' = k1\<lparr>current_io := UINT32_MAX, io_unit := Io_waiting\<rparr>"
      using run True p by (auto simp: io_end_def bind_eq_Some_conv)
    have "k1 = k\<lparr>q_blocked_sus := remove1 a (q_blocked_sus k),
        pcb_heap := (pcb_heap k)(a \<mapsto> p\<lparr>status := status_num PCB_SUSPENDED_READY\<rparr>),
        q_ready_sus := q_ready_sus k @ [a], req_admit := Suc (req_admit k)\<rparr>"
    proof (cases "a \<in> set (q_blocked_sus k)")
      case True
      then have "exists_pid k (q_blocked_sus k) (pcb_id p) = Some True"
        using exists_pid_alive [OF sus_alive] pid by auto
      moreover obtain r l where r: "remove_pid k (q_blocked_sus k) (pcb_id p) = Some (r, l)"
        using find_pid_alive [OF sus_alive] by (simp add: remove_pid_def)
      moreover have "r = Some a \<and> l = remove1 a (q_blocked_sus k)"
      proof (cases r)
        case None
        then show ?thesis using remove_pid_alive [OF sus_alive r] True p by auto
      next
        case (Some b)
        then have "b \<in> set (q_blocked_sus k)" "pid_at k b = pcb_id p" "l = remove1 b (q_blocked_sus k)"
          using remove_pid_alive [OF sus_alive r] by (simp_all add: pid_at_def)
        then show ?thesis using only Some by blast
      qed
      ultimately show ?thesis
        using k1 p by (simp add: suspended_event_def update_pcb_def safe_queue_push_def queue_smart_push_def)
    next
      case False
      then have "\<not> (\<exists>b \<in> set (q_blocked_sus k). pid_at k b = pcb_id p)" using only by blast
      then have "exists_pid k (q_blocked_sus k) (pcb_id p) = Some False"
        using exists_pid_alive [OF sus_alive, of "pcb_id p"] by simp
      then show ?thesis
        using k1 p False
        by (simp add: suspended_event_def update_pcb_def safe_queue_push_def queue_smart_push_def remove1_idem)
    qed
    then have eff: "k' = k\<lparr>q_blocked_sus := remove1 a (q_blocked_sus k),
        pcb_heap := (pcb_heap k)(a \<mapsto> p\<lparr>status := status_num PCB_SUSPENDED_READY\<rparr>),
        q_ready_sus := q_ready_sus k @ [a], req_admit := Suc (req_admit k),
        current_io := UINT32_MAX, io_unit := Io_waiting\<rparr>" using k' by simp
    have left: "owned k'" "identified k'" "cpu_line k'" "io_ok k'" "trackers_wf k'" "in_io k' = []"
      "io_waiters k' = io_waiters k"
      by (rule left_io [OF wf busy p, where p' = "p\<lparr>status := status_num PCB_SUSPENDED_READY\<rparr>"];
          simp add: eff front_places_def)+
    have "filter (\<lambda>b. status_at k b \<noteq> status_num PCB_SUSPENDED_BLOCKED) (in_io k) = []"
      using True status busy by (simp add: in_io_def)
    then have "counted grado k'"
      using parts(5) left(6,7) by (simp add: counted_def using_slot_def eff)
    with left show ?thesis by (intro kernel_wfI)
  next
    case False
    then obtain k1 where k1: "event k a = Some k1"
      and k': "k' = k1\<lparr>current_io := UINT32_MAX, io_unit := Io_waiting\<rparr>"
      using run p by (auto simp: io_end_def bind_eq_Some_conv)
    obtain c where "k1 = k\<lparr>pcb_heap := (pcb_heap k)(a \<mapsto> p\<lparr>status := status_num PCB_READY\<rparr>),
        q_ready := q_ready k @ [a], conexion_interrupt := c, execute_sem := Suc (execute_sem k)\<rparr>"
      using event_effect [OF p k1] by blast
    then have eff: "k' = k\<lparr>pcb_heap := (pcb_heap k)(a \<mapsto> p\<lparr>status := status_num PCB_READY\<rparr>),
        q_ready := q_ready k @ [a], conexion_interrupt := c, execute_sem := Suc (execute_sem k),
        current_io := UINT32_MAX, io_unit := Io_waiting\<rparr>" using k' by simp
    have notsus: "a \<notin> set (q_blocked_sus k)"
      using False status parts(4) by (auto simp: io_ok_def)
    have left: "owned k'" "identified k'" "cpu_line k'" "io_ok k'" "trackers_wf k'" "in_io k' = []"
      "io_waiters k' = io_waiters k"
      by (rule left_io [OF wf busy p, where p' = "p\<lparr>status := status_num PCB_READY\<rparr>"];
          simp add: eff front_places_def remove1_idem notsus)+
    have "filter (\<lambda>b. status_at k b \<noteq> status_num PCB_SUSPENDED_BLOCKED) (in_io k) = [a]"
      using False status busy notsus by (simp add: in_io_def)
    then have "counted grado k'"
      using parts(5) left(6,7) by (simp add: counted_def using_slot_def eff)
    with left show ?thesis by (intro kernel_wfI)
  qed
qed

subsection \<open>Suspension\<close>

lemma set_drop_nth: "set (drop_nth i xs) \<subseteq> set xs"
  by (auto simp: drop_nth_def dest: in_set_takeD in_set_dropD)

lemma drop_nth_other:
  assumes "distinct (map f xs)" and "i < length xs" and "x \<in> set (drop_nth i xs)"
  shows "f x \<noteq> f (xs ! i)"
proof -
  have "map f xs = map f (take i xs) @ f (xs ! i) # map f (drop (Suc i) xs)"
    using assms(2) by (metis id_take_nth_drop list.simps(9) map_append)
  then have "f (xs ! i) \<notin> f ` set (take i xs) \<union> f ` set (drop (Suc i) xs)"
    using assms(1) by (metis distinct.simps(2) distinct_append list.set_map UnE disjoint_insert(1) list.simps(15))
  then show ?thesis using assms(3) unfolding drop_nth_def set_append by (metis UnE UnI1 UnI2 imageI)
qed

lemma suspends_keeps:
  assumes wf: "kernel_wf grado k" and p: "pcb_heap k a = Some p"
    and place: "a \<in> set (q_blocked k @ in_io k)"
    and slot: "status p \<noteq> status_num PCB_SUSPENDED_BLOCKED"
    and tr: "set tr \<subseteq> set (trackers k)" "\<And>b pid. (b, pid) \<in> set tr \<Longrightarrow> pid \<noteq> pcb_id p"
    and k': "k' = k\<lparr>trackers := tr, q_blocked := remove1 a (q_blocked k),
      pcb_heap := (pcb_heap k)(a \<mapsto> p\<lparr>status := status_num PCB_SUSPENDED_BLOCKED\<rparr>),
      q_blocked_sus := q_blocked_sus k @ [a], conexion_memory := c, memory_side := m,
      dom_sem := Suc (dom_sem k)\<rparr>"
  shows "kernel_wf grado k'"
proof -
  have parts: "owned k" "identified k" "cpu_line k" "io_ok k" "counted grado k" "trackers_wf k"
    using wf by (simp_all add: kernel_wf_def)
  have dist: "distinct (blocked_places k)"
    using parts(1) by (simp add: owned_def places_split)
  have notsus: "a \<notin> set (q_blocked_sus k)"
    using dist place by (auto simp: blocked_places_def)
  have sel: "q_blocked k' = remove1 a (q_blocked k)" "q_blocked_sus k' = q_blocked_sus k @ [a]"
    "io_unit k' = io_unit k" "current_io k' = current_io k" "pids k' = pids k" "trackers k' = tr"
    by (simp_all add: k')
  have io: "in_io k' = filter (\<lambda>b. b \<noteq> a) (in_io k)"
    unfolding in_io_def sel by (auto split: io_state.split)
  have two: "a \<in> set (q_blocked k) \<and> in_io k' = in_io k \<and> a \<notin> set (in_io k) \<and> io_unit k \<noteq> Io_busy a \<or>
      a \<notin> set (q_blocked k) \<and> in_io k' = [] \<and> in_io k = [a] \<and> io_unit k = Io_busy a"
  proof (cases "a \<in> set (q_blocked k)")
    case True
    then have "a \<notin> set (in_io k)" using dist by (auto simp: blocked_places_def)
    moreover from this have "filter (\<lambda>b. b \<noteq> a) (in_io k) = in_io k" by (metis (mono_tags, lifting) filter_True)
    ultimately show ?thesis using True io parts(4) by (auto simp: io_ok_def)
  next
    case False
    then have "a \<in> set (in_io k)" using place by simp
    then have "in_io k = [a] \<and> io_unit k = Io_busy a"
      by (auto simp: in_io_def split: io_state.splits if_splits)
    then show ?thesis using False io by simp
  qed
  have mb: "mset (blocked_places k') = mset (blocked_places k)"
    using two by (auto simp: blocked_places_def sel remove1_idem)
  have m: "mset (places k') = mset (places k)"
    unfolding places_split mset_append mb by (simp add: front_places_def k')
  have bset: "set (blocked_places k') = set (blocked_places k)" by (rule mset_eq_setD [OF mb])
  have pid: "pid_at k' = pid_at k" using p by (auto simp: pid_at_def k')
  have st: "status_at k' b = status_at k b" if "b \<noteq> a" for b using that by (simp add: status_at_def k')
  have sa: "status_at k' a = status_num PCB_SUSPENDED_BLOCKED" "pid_at k a = pcb_id p"
    using p by (simp_all add: status_at_def pid_at_def k')
  have "dom (pcb_heap k') = dom (pcb_heap k)" using p by (simp add: k' insert_absorb domI)
  then have "owned k'" using owned_moved [OF parts(1) m] by (simp add: k')
  moreover have "identified k'"
    using identified_moved [OF parts(2) mset_eq_setD [OF m]] pid on_cpu_same [of k' k] by (simp add: k')
  moreover have "cpu_line k'" using parts(3) cpu_line_same [of k' k] by (simp add: k')
  moreover have "io_ok k'"
  proof -
    have "status_at k' b = status_at k b" if "b \<in> set (remove1 a (q_blocked k)) \<union> set (q_blocked_sus k)" for b
    proof (rule st)
      show "b \<noteq> a" using that notsus dist by (auto simp: blocked_places_def)
    qed
    moreover have "set (remove1 a (q_blocked k)) \<subseteq> set (q_blocked k)" by (rule set_remove1_subset)
    ultimately show ?thesis
      using parts(4) sa(1) two unfolding io_ok_def sel pid io by (simp add: subset_iff) blast
  qed
  moreover have "trackers_wf k'"
    unfolding trackers_wf_def sel(5,6) pid
  proof (intro ballI, clarify)
    fix b pid assume t: "(b, pid) \<in> set tr"
    then have ne: "pid \<noteq> pcb_id p" using tr(2) by blast
    have old: "pid \<in> taken (pids k)" "\<And>x. x \<in> set (blocked_places k) \<Longrightarrow> pid_at k x = pid \<Longrightarrow>
        x = b \<and> status_at k x \<noteq> status_num PCB_SUSPENDED_BLOCKED"
      using parts(6) tr(1) t unfolding trackers_wf_def blocked_places_def by blast+
    show "pid \<in> taken (pids k) \<and> (\<forall>x \<in> set (q_blocked k' @ q_blocked_sus k' @ in_io k').
        pid_at k x = pid \<longrightarrow> x = b \<and> status_at k' x \<noteq> status_num PCB_SUSPENDED_BLOCKED)"
      using old ne sa(2) st bset [unfolded blocked_places_def [of k']] by metis
  qed
  moreover have "counted grado k'"
    using two
  proof
    assume blk: "a \<in> set (q_blocked k) \<and> in_io k' = in_io k \<and> a \<notin> set (in_io k) \<and> io_unit k \<noteq> Io_busy a"
    have "status_at k' b = status_at k b" if "b \<in> set (in_io k)" for b
      using st [of b] blk that by blast
    then have "filter (\<lambda>b. status_at k' b \<noteq> s) (in_io k) = filter (\<lambda>b. status_at k b \<noteq> s) (in_io k)" for s
      by (intro filter_cong) simp_all
    moreover have "Suc (length (remove1 a (q_blocked k))) = length (q_blocked k)"
      using blk length_pos_if_in_set [of a "q_blocked k"] by (simp add: length_remove1)
    ultimately show ?thesis
      using parts(5) blk unfolding counted_def using_slot_def io_waiters_def sel by (simp add: k')
  next
    assume alone: "a \<notin> set (q_blocked k) \<and> in_io k' = [] \<and> in_io k = [a] \<and> io_unit k = Io_busy a"
    then have io': "in_io k' = []" and io: "in_io k = [a]" by simp_all
    have "status_at k a \<noteq> status_num PCB_SUSPENDED_BLOCKED"
      using slot p by (simp add: status_at_def)
    then show ?thesis
      using parts(5) alone unfolding counted_def using_slot_def io_waiters_def sel io io'
      by (simp add: k' remove1_idem)
  qed
  ultimately show ?thesis by (intro kernel_wfI)
qed

lemma kernel_wf_fewer_trackers:
  assumes "kernel_wf grado k" and "set (trackers k') \<subseteq> set (trackers k)"
    and "pcb_heap k' = pcb_heap k" "brk k' = brk k" "q_new k' = q_new k" "q_ready k' = q_ready k"
    "q_ready_sus k' = q_ready_sus k" "q_blocked k' = q_blocked k" "q_blocked_sus k' = q_blocked_sus k"
    "current_io k' = current_io k" "pids k' = pids k" "pcbs k' = pcbs k"
    "conexion_dispatch k' = conexion_dispatch k" "sts k' = sts k" "io_unit k' = io_unit k"
    "dom_sem k' = dom_sem k" "req_admit k' = req_admit k" "io_request k' = io_request k"
    "execute_sem k' = execute_sem k" "lts k' = lts k"
  shows "kernel_wf grado k'"
proof -
  have "owned k' = owned k" "identified k' = identified k" "cpu_line k' = cpu_line k"
    "io_ok k' = io_ok k" "counted grado k' = counted grado k" "in_io k' = in_io k"
    "pid_at k' = pid_at k" "status_at k' = status_at k"
    by (simp_all only: kernel_wf_defs assms(3-))
  moreover have "trackers_wf k \<longrightarrow> trackers_wf k'"
    unfolding trackers_wf_def calculation(6-8) assms(8,9,11) using assms(2) by blast
  ultimately show ?thesis using assms(1) by (simp add: kernel_wf_def)
qed

lemma kernel_wf_trackers:
  "kernel_wf grado k \<Longrightarrow> set tr \<subseteq> set (trackers k) \<Longrightarrow> kernel_wf grado (k\<lparr>trackers := tr\<rparr>)"
  by (rule kernel_wf_fewer_trackers [of grado k]) simp_all

lemma fires_keeps:
  assumes wf: "kernel_wf grado k" and timely: "timely k" and i: "i < length (trackers k)"
    and run: "track_time env (k\<lparr>trackers := drop_nth i (trackers k)\<rparr>) (trackers k ! i) = Some k'"
  shows "kernel_wf grado k'"
proof -
  let ?tr = "drop_nth i (trackers k)"
  let ?k = "k\<lparr>trackers := ?tr\<rparr>"
  obtain a pid where t: "trackers k ! i = (a, pid)" by fastforce
  then have mem: "(a, pid) \<in> set (trackers k)" using i by (metis nth_mem)
  have parts: "owned k" "identified k" "cpu_line k" "io_ok k" "counted grado k" "trackers_wf k"
    using wf by (simp_all add: kernel_wf_def)
  have small: "pid \<noteq> UINT32_MAX" and mine: "\<And>b. b \<in> set (blocked_places k) \<Longrightarrow> pid_at k b = pid \<Longrightarrow>
      b = a \<and> status_at k b \<noteq> status_num PCB_SUSPENDED_BLOCKED"
    using parts(6) mem taken_small unfolding trackers_wf_def blocked_places_def by blast+
  have others: "q \<noteq> pid" if "(b, q) \<in> set ?tr" for b q
    using drop_nth_other [of snd "trackers k" i "(b, q)"] timely i t that by (simp add: timely_def)
  have sub: "set ?tr \<subseteq> set (trackers k)" by (rule set_drop_nth)
  have blocked_alive: "\<forall>b \<in> set (q_blocked ?k). pcb_heap ?k b \<noteq> None"
    using parts(1) by (auto simp: owned_def places_def)
  have pids: "pid_at ?k = pid_at k" by (simp add: pid_at_def)
  let ?there = "\<exists>b \<in> set (q_blocked k). pid_at k b = pid"
  have there: "exists_pid ?k (q_blocked ?k) pid = Some ?there"
    using exists_pid_alive [OF blocked_alive] by (simp add: pids)
  show ?thesis
  proof (cases "?there \<or> current_io k = pid")
    case False
    then have "k' = ?k" using run there by (simp add: track_time_def t)
    then show ?thesis using kernel_wf_trackers [OF wf sub] by simp
  next
    case True
    obtain r l where r: "remove_pid ?k (q_blocked ?k) pid = Some (r, l)"
      and s: "suspend env (?k\<lparr>q_blocked := l\<rparr>) (case r of None \<Rightarrow> a | Some b \<Rightarrow> b) = Some k'"
      using run there True by (auto simp: track_time_def t bind_eq_Some_conv)
    have place: "a \<in> set (q_blocked k @ in_io k) \<and> pid_at k a = pid \<and>
        status_at k a \<noteq> status_num PCB_SUSPENDED_BLOCKED"
    proof (cases ?there)
      case True
      then show ?thesis using mine by (auto simp: blocked_places_def)
    next
      case False
      then have cur: "current_io k = pid" using \<open>?there \<or> current_io k = pid\<close> by blast
      then obtain b where "io_unit k = Io_busy b" using parts(4) small by (cases "io_unit k") (auto simp: io_ok_def)
      moreover from this have "b \<in> set (q_blocked_sus k @ in_io k)" "pid_at k b = pid"
        using parts(4) cur by (auto simp: io_ok_def)
      ultimately show ?thesis
        using mine [of b] parts(4) by (auto simp: blocked_places_def io_ok_def)
    qed
    have target: "(case r of None \<Rightarrow> a | Some b \<Rightarrow> b) = a" "l = remove1 a (q_blocked k)"
    proof -
      have "(case r of None \<Rightarrow> l = q_blocked k \<and> (\<forall>b \<in> set (q_blocked k). pid_at k b \<noteq> pid)
        | Some b \<Rightarrow> b \<in> set (q_blocked k) \<and> pid_at k b = pid \<and> l = remove1 b (q_blocked k))"
        using remove_pid_alive [OF blocked_alive r] by (cases r) (simp_all add: pid_at_def)
      then show "(case r of None \<Rightarrow> a | Some b \<Rightarrow> b) = a" "l = remove1 a (q_blocked k)"
        using place mine by (auto simp: blocked_places_def remove1_idem split: option.splits)
    qed
    have "a \<in> set (places k)" using place by (auto simp: places_def)
    then obtain p where p: "pcb_heap k a = Some p" using alive [OF wf] by blast
    have "pcb_heap (?k\<lparr>q_blocked := l\<rparr>) a = Some p" using p by simp
    from suspend_effect [OF this s [unfolded target(1)]] obtain c m where
      "k' = (?k\<lparr>q_blocked := l\<rparr>)\<lparr>pcb_heap := (pcb_heap (?k\<lparr>q_blocked := l\<rparr>))
          (a \<mapsto> p\<lparr>status := status_num PCB_SUSPENDED_BLOCKED\<rparr>),
        q_blocked_sus := q_blocked_sus (?k\<lparr>q_blocked := l\<rparr>) @ [a], conexion_memory := c, memory_side := m,
        dom_sem := Suc (dom_sem (?k\<lparr>q_blocked := l\<rparr>))\<rparr>"
      by blast
    then show ?thesis
      by (intro suspends_keeps [OF wf p _ _ sub, where c = c and m = m])
        (use place p others in \<open>auto simp: target(2) pid_at_def status_at_def\<close>)
  qed
qed

subsection \<open>Every step, and the reachable states\<close>

lemma step_keeps:
  assumes "kernel_step env k e k'" and "sorts_lists (list_sort env)"
    and "kernel_wf grado k" and "timely k" and "timely k'"
  shows "kernel_wf grado k'"
  using assms(1)
proof cases
  case (connects s)
  with assms(3) show ?thesis by simp
next
  case (requests i s pid k1 s1 pid1 stays)
  with kernel_routine_keeps [OF assms(3)] show ?thesis by simp
next
  case wakes
  with wakes_keeps [OF assms(3)] show ?thesis by simp
next
  case (admits k1)
  with admits_keeps [OF assms(3)] show ?thesis by simp
next
  case idles
  with idles_keeps [OF assms(3) _ assms(2)] show ?thesis by simp
next
  case (dispatches a k1)
  with dispatches_keeps [OF assms(3) _ _ assms(2)] show ?thesis by simp
next
  case (returns p t c real_usage)
  with returns_keeps [OF assms(3) _ _ _ assms(5)] show ?thesis by blast
next
  case io_begins
  with io_begins_keeps [OF assms(3)] show ?thesis by simp
next
  case (io_ends a)
  with io_ends_keeps [OF assms(3)] show ?thesis by simp
next
  case (fires i)
  with fires_keeps [OF assms(3,4)] show ?thesis by simp
qed

text \<open>The states the kernel reaches from its start with each tracker in time.\<close>

inductive kernel_reachable :: "'m kernel_env \<Rightarrow> 'm kernel \<Rightarrow> 'm kernel \<Rightarrow> bool" for env k0 where
  start: "kernel_reachable env k0 k0"
| step: "kernel_reachable env k0 k'"
  if "kernel_reachable env k0 k" "kernel_step env k e k'" "timely k'"

text \<open>A fresh line to the CPU.\<close>

definition idle_line :: "conexion_t \<Rightarrow> bool" where
  "idle_line c \<longleftrightarrow> incoming (sock c) = [] \<and> outgoing (sock c) = []"

lemma start_wf:
  assumes "idle_line dispatch"
  shows "kernel_wf grado (on_init_kernel grado algorithm memory dispatch interrupts m)" (is "kernel_wf _ ?k")
    and "timely (on_init_kernel grado algorithm memory dispatch interrupts m)"
proof -
  have io: "in_io ?k = []" by (simp add: in_io_def on_init_kernel_def new_scheduler_def)
  then have places: "places ?k = []"
    by (simp add: places_def) (simp add: on_init_kernel_def new_scheduler_def new_safe_queue_def)
  show "kernel_wf grado ?k"
  proof (rule kernel_wfI)
    show "owned ?k" unfolding owned_def places by (simp add: on_init_kernel_def new_scheduler_def)
    show "identified ?k" unfolding identified_def places on_cpu_def
      by (simp add: on_init_kernel_def new_scheduler_def new_pids_def)
    show "cpu_line ?k"
      using assms by (simp add: cpu_line_def on_init_kernel_def new_scheduler_def idle_line_def)
    show "io_ok ?k" unfolding io_ok_def io
      by (simp add: on_init_kernel_def new_scheduler_def new_safe_queue_def)
    show "counted grado ?k" unfolding counted_def using_slot_def io_waiters_def io
      by (simp add: on_init_kernel_def new_scheduler_def new_safe_queue_def)
    show "trackers_wf ?k" by (simp add: trackers_wf_def on_init_kernel_def new_scheduler_def)
  qed
  show "timely ?k" by (simp add: timely_def on_init_kernel_def new_scheduler_def)
qed

lemma reachable_wf:
  assumes "kernel_reachable env (on_init_kernel grado algorithm memory dispatch interrupts m) k"
    and "sorts_lists (list_sort env)" and "idle_line dispatch"
  shows "kernel_wf grado k \<and> timely k"
  using assms(1)
proof induction
  case start
  show ?case by (intro conjI start_wf assms(3))
next
  case (step k e k')
  show ?case
    using step_keeps [OF step.hyps(2) assms(2), of grado] step.IH step.hyps(3) by simp
qed

end
