(* ===== verification/Kernel_Runs.thy ===== *)
theory Kernel_Runs
  imports Kernel_Steps
begin

section \<open>What the kernel does with a program and with an answer of the CPU\<close>

text \<open>
  The effect of the requests of a console and of the two halves of \<open>execute\<close> on good
  connections, and with them a sample run, on a kernel without a memory: the properties'
  witnesses and the two theorems on late trackers are instances of it.
\<close>

subsection \<open>A console creates a process\<close>

text \<open>What a console sends: the action of a new process and its program.\<close>

definition console_bytes :: "u32 \<Rightarrow> instruction_t list \<Rightarrow> byte list" where
  "console_bytes sz is = message SYS (accion_serializar (accion_create 0 sz)) @
     message CMD (instructions_fold is)"

lemma accion_recibir_message:
  assumes "\<not> recv_error s" and "incoming s = le32 8 @ accion_serializar a @ rest"
  shows "accion_recibir junk s = Some (a, s\<lparr>incoming := rest\<rparr>)"
proof -
  have "length (accion_serializar a) = 8" by (simp add: accion_serializar_def)
  then show ?thesis
    using recibir_buffer_message [of s "accion_serializar a" rest junk] assms
    by (simp add: accion_recibir_def accion_roundtrip)
qed

lemma recibir_instructions_message:
  assumes "\<not> recv_error s" and "12 * length is + 4 < 2 ^ 32"
    and "incoming s = le32 (word_of_nat (length (instructions_fold is))) @ instructions_fold is @ rest"
  shows "recibir_instructions junk s = Some (is, s\<lparr>incoming := rest\<rparr>)"
proof -
  have len: "length (instructions_fold is) = 12 * length is + 4" by (simp add: instructions_fold_eq)
  have "length is < 2 ^ 32" using assms(2) by simp
  then have "instruction_list_from (instructions_fold is) = Some is"
    using instruction_list_roundtrip [of "is" "[]"] by (simp add: instructions_fold_eq)
  then show ?thesis
    using recibir_buffer_message [of s "instructions_fold is" rest junk] assms len
    by (simp add: recibir_instructions_def)
qed

lemma length_accion: "length (accion_serializar a) = 8"
  by (simp add: accion_serializar_def)

lemma sys_request:
  assumes "\<not> recv_error s" and "incoming s = message SYS (accion_serializar (accion_create 0 sz)) @ rest"
    and "get_pid_libre (pids k) = (w, ps)" and "w \<noteq> UNDEFINED"
  shows "kernel_routine env k s pid = Some
    (k\<lparr>pids := ps, pcb_heap := (pcb_heap k)(brk k \<mapsto> new_pcb w (ucast sz) (estimacion_inicial env)),
       brk := Suc (brk k), pcbs := pcbs k @ [brk k]\<rparr>, s\<lparr>incoming := rest\<rparr>, w, True)"
proof -
  let ?s = "s\<lparr>incoming := le32 (word_of_nat 8) @ accion_serializar (accion_create 0 sz) @ rest\<rparr>"
  have op: "servidor_recibir_operacion (stack_junk env) s = (3, ?s)"
    using recibir_operacion_message [OF assms(1,2)] by (simp add: length_accion)
  have "accion_recibir (stack_junk env) ?s = Some (accion_create 0 sz, s\<lparr>incoming := rest\<rparr>)"
    using accion_recibir_message [of ?s "accion_create 0 sz" rest] assms(1) by simp
  moreover have "opcode_of 3 = Some SYS" by (simp add: opcode_of_def opcodes_def)
  ultimately show ?thesis
    using assms(3,4) unfolding kernel_routine_def op
    by (simp add: dispatch_handle_syscall_def alloc_pcb_def accion_create_def)
qed

lemma cmd_request:
  assumes "\<not> recv_error s" and "incoming s = message CMD (instructions_fold is) @ rest"
    and "12 * length is + 4 < 2 ^ 32"
    and "pcbs k = l @ [a]" and "pcb_heap k a = Some p" and "pcb_id p = pid"
    and "\<forall>b \<in> set l. \<exists>q. pcb_heap k b = Some q \<and> pcb_id q \<noteq> pid"
  shows "kernel_routine env k s pid = Some
    (k\<lparr>pcbs := l, pcb_heap := (pcb_heap k)(a \<mapsto> p\<lparr>instructions := is\<rparr>), q_new := q_new k @ [a],
       req_admit := Suc (req_admit k)\<rparr>, s\<lparr>incoming := rest\<rparr>, pid, True)"
proof -
  let ?s = "s\<lparr>incoming := le32 (word_of_nat (length (instructions_fold is))) @ instructions_fold is @ rest\<rparr>"
  have op: "servidor_recibir_operacion (stack_junk env) s = (4, ?s)"
    using recibir_operacion_message [OF assms(1,2)] by simp
  have rcv: "recibir_instructions (stack_junk env) ?s = Some (is, s\<lparr>incoming := rest\<rparr>)"
    using recibir_instructions_message [of ?s "is" rest] assms(1,3) by simp
  have "\<forall>b \<in> set (l @ [a]). pcb_heap k b \<noteq> None" using assms(5,7) by auto
  note found = find_pid_alive [OF this, of pid]
  have "find (\<lambda>b. pcb_id (the (pcb_heap k b)) = pid) (l @ [a]) = Some a"
    using assms(5-7) by (induction l) auto
  moreover have "a \<notin> set l" using assms(5-7) by auto
  ultimately have "remove_pid k (pcbs k) pid = Some (Some a, l)"
    using found assms(4) by (simp add: remove_pid_def remove1_append)
  moreover have "opcode_of 4 = Some CMD" by (simp add: opcode_of_def opcodes_def)
  ultimately show ?thesis
    using assms(5) rcv unfolding kernel_routine_def op
    by (simp add: dispatch_handle_instruction_def update_pcb_def safe_queue_push_def queue_smart_push_def)
qed

subsection \<open>A round on the CPU\<close>

lemma execute_sent:
  assumes "pcb_heap k a = Some p" and "conectado (conexion_dispatch k)"
    and "\<not> send_error (sock (conexion_dispatch k))"
  shows "execute env k a = Some (k\<lparr>pcb_heap := (pcb_heap k)(a := None), current_estimation := estimation p,
      conexion_dispatch := (conexion_dispatch k)\<lparr>sock := (sock (conexion_dispatch k))\<lparr>outgoing :=
        outgoing (sock (conexion_dispatch k)) @
        message PCB (pcb_to_stream (p\<lparr>status := status_num PCB_EXECUTING\<rparr>))\<rparr>\<rparr>, sts := Sts_running\<rparr>)"
proof -
  have len: "pcb_bytes_size q = length (pcb_to_stream q)" for q by (simp add: length_pcb_to_stream)
  show ?thesis
    using assms servidor_enviar_stream_message [OF assms(3) len, of PCB "p\<lparr>status := status_num PCB_EXECUTING\<rparr>"]
    by (simp add: execute_def update_pcb_def cpu_controller_send_pcb_def conexion_enviar_stream_def
        servidor_enviar_stream_def pcb_destroy_def)
qed

lemma cpu_answer_eq:
  assumes "outgoing (sock c) = message PCB (pcb_to_stream q)" and "length (instructions q) < 2 ^ 32"
    and "same_process p (received junk q)" and "pcb_bytes_size p + 4 < 2 ^ 32"
  shows "cpu_answer junk c p t = Some (c\<lparr>sock := (sock c)\<lparr>outgoing := [],
    incoming := message INOUT (pcb_to_stream p @ le32 t)\<rparr>\<rparr>)"
proof -
  have "drop 8 (message PCB (pcb_to_stream q)) = pcb_to_stream q" by (simp add: message_def)
  moreover have "pcb_from_stream junk (pcb_to_stream q) = Some (received junk q)"
    using pcb_roundtrip_fields [OF assms(2), of junk "[]"] by (simp add: received_def)
  ultimately show ?thesis using assms by (simp add: cpu_answer_def)
qed

lemma execute_return_answer:
  assumes c: "incoming (sock (conexion_dispatch k)) = message INOUT (pcb_to_stream p @ le32 t)"
    and ok: "\<not> recv_error (sock (conexion_dispatch k))" and small: "pcb_bytes_size p + 4 < 2 ^ 32"
  shows "execute_return env k u =
    (let q = (received (heap_junk env) p)\<lparr>real_time := u\<rparr>;
         k = k\<lparr>conexion_dispatch := (conexion_dispatch k)\<lparr>sock := (sock (conexion_dispatch k))\<lparr>incoming := []\<rparr>\<rparr>,
           brk := Suc (brk k), pcb_heap := (pcb_heap k)(brk k \<mapsto> q), current_estimation := 0\<rparr>; a = brk k - 1 in
     map_option (\<lambda>k. k\<lparr>execute_sem := Suc (execute_sem k), sts := Sts_waiting\<rparr>)
       (if status p = status_num PCB_BLOCKED then block env k a t
        else if status p = status_num PCB_TERMINATED then terminate env k a
        else if status p = status_num PCB_READY then pre_empt k a
        else terminate env k a))"
  unfolding execute_return_def receive_answer [OF c ok small]
  by (simp add: update_pcb_def Let_def map_conv_bind_option comp_def cong: if_cong)

lemma kernel_run_append:
  "kernel_run env k (xs @ ys) = Option.bind (kernel_run env k xs) (\<lambda>k. kernel_run env k ys)"
  by (induction xs arbitrary: k) (auto split: Option.bind_splits)

subsection \<open>A process that blocks twice\<close>

definition quiet :: "byte list \<Rightarrow> socket" where
  "quiet bytes = \<lparr>incoming = bytes, recv_error = False, outgoing = [], send_error = False\<rparr>"

definition offline :: conexion_t where
  "offline = \<lparr>sock = quiet [], conectado = False\<rparr>"

definition online :: conexion_t where
  "online = \<lparr>sock = quiet [], conectado = True\<rparr>"

definition half_env :: "unit kernel_env" where
  "half_env = \<lparr>mem_server = (\<lambda>m _. Some (m, [])), list_sort = sort_by, alfa_part = (\<lambda>r. r div 2),
     rest_part = (\<lambda>e. e div 2), estimacion_inicial = 10, stack_junk = (\<lambda>_. 0),
     heap_junk = \<lparr>size_hi = 0, junk_io = 0, junk_real = 0\<rparr>\<rparr>"

definition io_program :: "instruction_t list" where
  "io_program = [\<lparr>icode = 4, param0 = 7, param1 = 0\<rparr>, \<lparr>icode = 4, param0 = 9, param1 = 0\<rparr>]"

definition small_kernel :: "unit kernel" where
  "small_kernel = on_init_kernel 1 ''SRT'' offline online offline ()"

definition blocked_answer :: "u32 \<Rightarrow> pcb_t" where
  "blocked_answer e = \<lparr>pcb_id = 0, status = 4, pcb_size = 64, instructions = io_program,
     page_table = UINT32_MAX, estimation = e, pc = 1, io = 0, real_time = 0\<rparr>"

lemma first_pid: "get_pid_libre new_pids = (0, new_pids[0 := True])"
proof -
  have "[0..<PIDS] = 0 # [Suc 0..<PIDS]" by (rule upt_conv_Cons) simp
  moreover have "find (\<lambda>i. \<not> new_pids ! i) (0 # xs) = Some 0" for xs
    by (simp add: new_pids_def)
  ultimately show ?thesis
    by (simp only: get_pid_libre_def option.case) simp
qed

text \<open>The program comes in and its process is admitted.\<close>

definition arrives :: "choice list" where
  "arrives = [Connect (quiet (console_bytes 64 io_program)), Request 0, Request 0, Wake, Admit]"

definition arrived_kernel :: "unit kernel" where
  "arrived_kernel = small_kernel\<lparr>pids := new_pids[0 := True], brk := 1,
     pcb_heap := [0 \<mapsto> (new_pcb 0 64 10)\<lparr>instructions := io_program, status := 1\<rparr>],
     q_ready := [0], dom_sem := 0, execute_sem := 1, clients := [(quiet [], 0)]\<rparr>"

lemma small_kernel_fields:
  "clients small_kernel = []" "pids small_kernel = new_pids" "pcb_heap small_kernel = Map.empty"
  "brk small_kernel = 0" "pcbs small_kernel = []" "q_new small_kernel = []" "req_admit small_kernel = 0"
  "q_ready small_kernel = []" "q_ready_sus small_kernel = []" "q_blocked small_kernel = []"
  "q_blocked_sus small_kernel = []" "dom_sem small_kernel = 1" "io_request small_kernel = 0"
  "execute_sem small_kernel = 0" "interrupt small_kernel = True" "get_next_fn small_kernel = Get_next_fifo"
  "current_estimation small_kernel = 0" "current_io small_kernel = UINT32_MAX" "trackers small_kernel = []"
  "lts small_kernel = Lts_waiting" "sts small_kernel = Sts_waiting" "io_unit small_kernel = Io_waiting"
  "conexion_memory small_kernel = offline" "conexion_dispatch small_kernel = online"
  by (simp_all add: small_kernel_def on_init_kernel_def new_scheduler_def new_safe_queue_def)

lemma reachable_do:
  "kernel_reachable env k0 k \<Longrightarrow> kernel_do env k ch = Some k' \<Longrightarrow> timely k' \<Longrightarrow> kernel_reachable env k0 k'"
  by (blast intro: kernel_reachable.step kernel_do_step)

lemma arrives_run:
  "kernel_run half_env small_kernel arrives = Some arrived_kernel"
  "kernel_reachable half_env small_kernel arrived_kernel"
proof -
  let ?s = "quiet (console_bytes 64 io_program)" and ?s1 = "quiet (message CMD (instructions_fold io_program))"
  let ?k0 = "small_kernel\<lparr>clients := [(?s, 0)]\<rparr>"
  let ?k1 = "small_kernel\<lparr>clients := [(?s1, 0)], pids := new_pids[0 := True], pcb_heap := [0 \<mapsto> new_pcb 0 64 10],
    brk := 1, pcbs := [0]\<rparr>"
  let ?k2 = "small_kernel\<lparr>clients := [(quiet [], 0)], pids := new_pids[0 := True],
    pcb_heap := [0 \<mapsto> (new_pcb 0 64 10)\<lparr>instructions := io_program\<rparr>], brk := 1, q_new := [0], req_admit := 1\<rparr>"
  let ?k3 = "?k2\<lparr>req_admit := 0, lts := Lts_request\<rparr>"
  have d: "kernel_do half_env small_kernel (Connect ?s) = Some ?k0"
    "kernel_do half_env ?k0 (Request 0) = Some ?k1" "kernel_do half_env ?k1 (Request 0) = Some ?k2"
    "kernel_do half_env ?k2 Wake = Some ?k3" "kernel_do half_env ?k3 Admit = Some arrived_kernel"
    using sys_request [of ?s 64 "message CMD (instructions_fold io_program)" ?k0 0 "new_pids[0 := True]" half_env 0]
      cmd_request [of ?s1 io_program "[]" ?k1 "[]" 0 "new_pcb 0 64 10" 0 half_env]
    by (simp_all add: quiet_def console_bytes_def first_pid small_kernel_fields half_env_def io_program_def
        admit_def resume_def update_pcb_def check_interruption_def
        should_interrupt_def offline_def safe_queue_push_def queue_smart_push_def arrived_kernel_def new_pcb_def)
  then show "kernel_run half_env small_kernel arrives = Some arrived_kernel" by (simp add: arrives_def)
  have t: "timely ?k0" "timely ?k1" "timely ?k2" "timely ?k3" "timely arrived_kernel"
    by (simp_all add: timely_def small_kernel_fields arrived_kernel_def)
  show "kernel_reachable half_env small_kernel arrived_kernel"
    by (rule reachable_do [OF _ d(5) t(5)], rule reachable_do [OF _ d(4) t(4)],
        rule reachable_do [OF _ d(3) t(3)], rule reachable_do [OF _ d(2) t(2)],
        rule reachable_do [OF _ d(1) t(1)], rule kernel_reachable.start)
qed

text \<open>It blocks, ends its I/O before its tracker fires, runs and blocks again.\<close>

definition blocks_twice :: "choice list" where
  "blocks_twice = [Dispatch, Return (blocked_answer 10) 7 3, Begin_io, End_io,
     Dispatch, Return (blocked_answer 6) 9 3]"

definition blocked_kernel :: "unit kernel" where
  "blocked_kernel = arrived_kernel\<lparr>brk := 3,
     pcb_heap := [2 \<mapsto> (blocked_answer 4)\<lparr>io := 9, real_time := 3\<rparr>],
     q_ready := [], q_blocked := [2], trackers := [(1, 0), (2, 0)], io_request := 1, execute_sem := 2\<rparr>"

lemma half_env_fields:
  "mem_server half_env = (\<lambda>m _. Some (m, []))" "list_sort half_env = sort_by"
  "alfa_part half_env = (\<lambda>r. r div 2)" "rest_part half_env = (\<lambda>e. e div 2)"
  "heap_junk half_env = \<lparr>size_hi = 0, junk_io = 0, junk_real = 0\<rparr>"
  by (simp_all add: half_env_def)

text \<open>The kernel while the CPU has the process.\<close>

definition cpu_has :: "pcb_t \<Rightarrow> conexion_t" where
  "cpu_has p = online\<lparr>sock := (quiet [])\<lparr>outgoing := message PCB (pcb_to_stream p)\<rparr>\<rparr>"

lemma cpu_blocks:
  assumes "sts k = Sts_running" and "conexion_dispatch k = cpu_has q"
    and "same_process p (received (heap_junk env) q)" and "status p = status_num PCB_BLOCKED"
    and same: "received (heap_junk env) p = p" and size: "pcb_bytes_size p + 4 < 2 ^ 32"
    and "length (instructions q) < 2 ^ 32"
  shows "kernel_do env k (Return p t u) = Some (k\<lparr>conexion_dispatch := online, brk := Suc (brk k),
    pcb_heap := (pcb_heap k)(brk k \<mapsto> p\<lparr>real_time := u, io := t,
      estimation := alfa_part env u + rest_part env (estimation p)\<rparr>),
    current_estimation := 0, q_blocked := q_blocked k @ [brk k], trackers := trackers k @ [(brk k, pcb_id p)],
    io_request := Suc (io_request k), execute_sem := Suc (execute_sem k), sts := Sts_waiting\<rparr>)"
proof -
  let ?c = "(cpu_has q)\<lparr>sock := (sock (cpu_has q))\<lparr>outgoing := [], incoming := message INOUT (pcb_to_stream p @ le32 t)\<rparr>\<rparr>"
  have "cpu_answer (heap_junk env) (cpu_has q) p t = Some ?c"
    by (rule cpu_answer_eq [of _ q]) (use assms in \<open>simp_all add: cpu_has_def\<close>)
  moreover have "execute_return env (k\<lparr>conexion_dispatch := ?c\<rparr>) u = Some (k\<lparr>conexion_dispatch := online,
    brk := Suc (brk k), pcb_heap := (pcb_heap k)(brk k \<mapsto> p\<lparr>real_time := u, io := t,
      estimation := alfa_part env u + rest_part env (estimation p)\<rparr>),
    current_estimation := 0, q_blocked := q_blocked k @ [brk k], trackers := trackers k @ [(brk k, pcb_id p)],
    io_request := Suc (io_request k), execute_sem := Suc (execute_sem k), sts := Sts_waiting\<rparr>)"
    using execute_return_answer [of "k\<lparr>conexion_dispatch := ?c\<rparr>" p t env u] size assms(4)
    by (simp add: same block_effect cpu_has_def online_def quiet_def Let_def)
  ultimately show ?thesis using assms by simp
qed

lemma blocked_answer_fields:
  "status (blocked_answer e) = status_num PCB_BLOCKED" "pcb_id (blocked_answer e) = 0"
  "estimation (blocked_answer e) = e" "pcb_bytes_size (blocked_answer e) + 4 < 2 ^ 32"
  "received \<lparr>size_hi = 0, junk_io = 0, junk_real = 0\<rparr> (blocked_answer e) = blocked_answer e"
  by (simp_all add: blocked_answer_def pcb_bytes_size_def io_program_def received_def)

lemma sort_by_one [simp]: "sort_by cmp [a] = [a]"
  by (simp add: sort_by_def)

text \<open>After its first dispatch, and after its first answer.\<close>

definition running_kernel :: "unit kernel" where
  "running_kernel = arrived_kernel\<lparr>pcb_heap := Map.empty, q_ready := [], execute_sem := 0,
     current_estimation := 10,
     conexion_dispatch := cpu_has ((new_pcb 0 64 10)\<lparr>instructions := io_program, status := 2\<rparr>),
     sts := Sts_running\<rparr>"

definition waiting_kernel :: "unit kernel" where
  "waiting_kernel = arrived_kernel\<lparr>pcb_heap := [1 \<mapsto> (blocked_answer 6)\<lparr>io := 7, real_time := 3\<rparr>],
     brk := 2, q_ready := [], q_blocked := [1], trackers := [(1, 0)], io_request := 1\<rparr>"

lemma blocks_once_run:
  "kernel_do half_env arrived_kernel Dispatch = Some running_kernel"
  "kernel_do half_env running_kernel (Return (blocked_answer 10) 7 3) = Some waiting_kernel"
proof -
  show "kernel_do half_env arrived_kernel Dispatch = Some running_kernel"
    by (simp add: running_kernel_def arrived_kernel_def small_kernel_fields get_next_def get_next_fifo_def
        execute_sent online_def quiet_def cpu_has_def new_pcb_def)
  show "kernel_do half_env running_kernel (Return (blocked_answer 10) 7 3) = Some waiting_kernel"
    using cpu_blocks [of running_kernel "(new_pcb 0 64 10)\<lparr>instructions := io_program, status := 2\<rparr>"
        "blocked_answer 10" half_env 7 3]
    by (simp add: running_kernel_def waiting_kernel_def arrived_kernel_def small_kernel_fields
        same_process_def new_pcb_def received_def half_env_fields blocked_answer_def io_program_def
        pcb_bytes_size_def)
qed

lemma waiting_reached: "kernel_reachable half_env small_kernel waiting_kernel"
proof -
  have "timely running_kernel" "timely waiting_kernel"
    by (simp_all add: timely_def running_kernel_def waiting_kernel_def arrived_kernel_def small_kernel_fields)
  then show ?thesis
    using reachable_do [OF reachable_do [OF arrives_run(2) blocks_once_run(1)] blocks_once_run(2)] by simp
qed

text \<open>After its first I/O, and when the CPU has it again: its first tracker still waits, and the PCB
  that it points to is freed.\<close>

definition ready_again_kernel :: "unit kernel" where
  "ready_again_kernel = arrived_kernel\<lparr>pcb_heap := [1 \<mapsto> (blocked_answer 6)\<lparr>io := 7, real_time := 3, status := 1\<rparr>],
     brk := 2, q_ready := [1], trackers := [(1, 0)], execute_sem := 2\<rparr>"

definition running_again_kernel :: "unit kernel" where
  "running_again_kernel = ready_again_kernel\<lparr>pcb_heap := Map.empty, q_ready := [], execute_sem := 1,
     current_estimation := 6,
     conexion_dispatch := cpu_has ((blocked_answer 6)\<lparr>io := 7, real_time := 3, status := 2\<rparr>),
     sts := Sts_running\<rparr>"

definition first_io_kernel :: "unit kernel" where
  "first_io_kernel = arrived_kernel\<lparr>pcb_heap := [1 \<mapsto> (blocked_answer 6)\<lparr>io := 7, real_time := 3\<rparr>],
     brk := 2, q_ready := [], trackers := [(1, 0)], current_io := 0, io_unit := Io_busy 1\<rparr>"

lemma blocks_again_run:
  "kernel_do half_env waiting_kernel Begin_io = Some first_io_kernel"
  "kernel_do half_env first_io_kernel End_io = Some ready_again_kernel"
  "kernel_do half_env ready_again_kernel Dispatch = Some running_again_kernel"
  "kernel_do half_env running_again_kernel (Return (blocked_answer 6) 9 3) = Some blocked_kernel"
proof -
  show "kernel_do half_env waiting_kernel Begin_io = Some first_io_kernel"
    by (simp add: waiting_kernel_def first_io_kernel_def arrived_kernel_def small_kernel_fields io_begin_def
        retrieve_pcb_def blocked_answer_def)
  show "kernel_do half_env first_io_kernel End_io = Some ready_again_kernel"
    by (simp add: first_io_kernel_def ready_again_kernel_def arrived_kernel_def small_kernel_fields io_end_def
        event_def update_pcb_def check_interruption_def should_interrupt_def safe_queue_push_def
        queue_smart_push_def blocked_answer_def)
  show "kernel_do half_env ready_again_kernel Dispatch = Some running_again_kernel"
    by (simp add: ready_again_kernel_def running_again_kernel_def arrived_kernel_def small_kernel_fields
        get_next_def get_next_fifo_def execute_sent online_def quiet_def cpu_has_def blocked_answer_def)
  show "kernel_do half_env running_again_kernel (Return (blocked_answer 6) 9 3) = Some blocked_kernel"
    using cpu_blocks [of running_again_kernel "(blocked_answer 6)\<lparr>io := 7, real_time := 3, status := 2\<rparr>"
        "blocked_answer 6" half_env 9 3]
    by (simp add: running_again_kernel_def ready_again_kernel_def arrived_kernel_def small_kernel_fields
        same_process_def received_def half_env_fields blocked_answer_def io_program_def blocked_kernel_def
        pcb_bytes_size_def)
qed

lemma ready_again_reached: "kernel_reachable half_env small_kernel ready_again_kernel"
proof -
  have "timely first_io_kernel" "timely ready_again_kernel"
    by (simp_all add: timely_def first_io_kernel_def ready_again_kernel_def arrived_kernel_def small_kernel_fields)
  then show ?thesis
    using reachable_do [OF reachable_do [OF waiting_reached blocks_again_run(1)] blocks_again_run(2)] by simp
qed

lemma blocks_twice_run: "kernel_run half_env arrived_kernel blocks_twice = Some blocked_kernel"
  using blocks_once_run blocks_again_run by (simp add: blocks_twice_def)

subsection \<open>Late trackers\<close>

text \<open>The process is in the I/O unit for the second time: no tracker has fired, or the first has.\<close>

definition second_io_kernel :: "unit kernel" where
  "second_io_kernel = blocked_kernel\<lparr>io_request := 0, q_blocked := [], current_io := 0, io_unit := Io_busy 2\<rparr>"

lemma second_io_run: "kernel_do half_env blocked_kernel Begin_io = Some second_io_kernel"
  by (simp add: blocked_kernel_def second_io_kernel_def arrived_kernel_def small_kernel_fields io_begin_def
      retrieve_pcb_def blocked_answer_def)

definition suspended_io_kernel :: "unit kernel" where
  "suspended_io_kernel = second_io_kernel\<lparr>trackers := [(2, 0)], dom_sem := 1,
    pcb_heap := [2 \<mapsto> (blocked_answer 4)\<lparr>io := 9, real_time := 3, status := 5\<rparr>]\<rparr>"

lemma suspended_io_run:
  "kernel_run half_env small_kernel (arrives @ blocks_twice @ [Fire 0, Begin_io]) = Some suspended_io_kernel"
proof -
  let ?p = "(blocked_answer 4)\<lparr>io := 9, real_time := 3, status := 5\<rparr>"
  let ?k = "blocked_kernel\<lparr>trackers := [(2, 0)], q_blocked := [], q_blocked_sus := [2], dom_sem := 1,
    pcb_heap := [2 \<mapsto> ?p]\<rparr>"
  note defs = blocked_kernel_def arrived_kernel_def small_kernel_fields track_time_def exists_pid_def
        remove_pid_def find_pid_def suspend_def update_pcb_def safe_queue_push_def queue_smart_push_def
        swap_controller_send_pcb_def send_memory_def conexion_enviar_stream_def offline_def
        deliver_def quiet_def io_begin_def retrieve_pcb_def blocked_answer_def drop_nth_def
  have "kernel_do half_env blocked_kernel (Fire 0) = Some ?k"
    by (simp add: defs)
  moreover have "kernel_do half_env ?k Begin_io = Some suspended_io_kernel"
    by (simp add: defs suspended_io_kernel_def second_io_kernel_def)
  ultimately show ?thesis
    by (simp add: kernel_run_append arrives_run blocks_twice_run)
qed

end
