(* ===== verification/Kernel_Progress.thy ===== *)
theory Kernel_Progress
  imports Kernel_Steps
begin

section \<open>What the threads of the kernel can always do\<close>

text \<open>
  Consequences of the invariant: a thread that a semaphore wakes finds the process it was
  woken for, a tracker never follows a pointer to a freed PCB, and as long as a process is
  in a queue some thread can move it. What the memory module has to take for this is said of the
  requests that the schedulers may send next, about the kernel's own PCBs (\<open>admission_served\<close>,
  \<open>dispatch_served\<close>, \<open>suspension_served\<close>); \<open>Kernel_Memory\<close> shows it of the memory module.
\<close>

subsection \<open>The operations are defined\<close>

text \<open>The page table of the process that would be admitted next.\<close>

definition admission_served :: "'m kernel_env \<Rightarrow> 'm kernel \<Rightarrow> bool" where
  "admission_served env k \<longleftrightarrow>
     (case q_ready_sus k @ q_new k of
        [] \<Rightarrow> True
      | a # _ \<Rightarrow> q_ready_sus k = [] \<longrightarrow> conectado (conexion_memory k) \<longrightarrow> request_page_table env k a \<noteq> None)"

text \<open>The end of a ready process, which \<open>execute\<close> asks for when the CPU cannot be reached.\<close>

definition cpu_link_ok :: "'m kernel \<Rightarrow> bool" where
  "cpu_link_ok k \<longleftrightarrow> conectado (conexion_dispatch k) \<and> \<not> send_error (sock (conexion_dispatch k))"

definition dispatch_served :: "'m kernel_env \<Rightarrow> 'm kernel \<Rightarrow> bool" where
  "dispatch_served env k \<longleftrightarrow> cpu_link_ok k \<or> list_all (\<lambda>a. swap_controller_exit env k a \<noteq> None) (q_ready k)"

text \<open>The suspension of a process that is blocked.\<close>

definition suspension_served :: "'m kernel_env \<Rightarrow> 'm kernel \<Rightarrow> bool" where
  "suspension_served env k \<longleftrightarrow>
     list_all (\<lambda>a. case pcb_heap k a of
         None \<Rightarrow> True
       | Some p \<Rightarrow> send_memory env k SWAP_PCB
           (pcb_to_stream (p\<lparr>status := status_num PCB_SUSPENDED_BLOCKED\<rparr>)) \<noteq> None)
       (q_blocked k @ q_blocked_sus k @ in_io k)"

text \<open>An answer depends on the connection and on the state of the memory module only.\<close>

lemma send_memory_same_side:
  assumes "conexion_memory k' = conexion_memory k" and "memory_side k' = memory_side k"
  shows "send_memory env k' code data =
    map_option (\<lambda>(n, k1). (n, k'\<lparr>conexion_memory := conexion_memory k1, memory_side := memory_side k1\<rparr>))
      (send_memory env k code data)"
  using assms by (auto simp: send_memory_def map_option_bind comp_def case_prod_unfold map_conv_bind_option
      intro!: Option.bind_cong)

lemma request_page_table_same_side:
  assumes "conexion_memory k' = conexion_memory k" and "memory_side k' = memory_side k"
    and "pcb_heap k' = pcb_heap k" and "request_page_table env k a \<noteq> None"
  shows "\<exists>k1. request_page_table env k' a = Some k1"
proof -
  obtain p n k1 where p: "pcb_heap k a = Some p" and sent: "send_memory env k MEMORY_INIT
      (operandos_to_stream \<lparr>op1 = pcb_id p, op2 = ucast (pcb_size p)\<rparr>) = Some (n, k1)"
    using assms(4) by (auto simp: request_page_table_def bind_eq_Some_conv)
  let ?r = "fst (conexion_recibir_stream (stack_junk env) (sock (conexion_memory k1)))"
  have "pcb_heap k1 a = Some p" using send_memory_effect [OF sent] p by auto
  then have "case ?r of None \<Rightarrow> True | Some (stream, _) \<Rightarrow> read_u32 stream 0 \<noteq> None"
    using assms(4) p sent
    by (auto simp: request_page_table_def Let_def case_prod_unfold bind_eq_Some_conv split: option.splits)
  moreover have "send_memory env k' MEMORY_INIT
      (operandos_to_stream \<lparr>op1 = pcb_id p, op2 = ucast (pcb_size p)\<rparr>) =
      Some (n, k'\<lparr>conexion_memory := conexion_memory k1, memory_side := memory_side k1\<rparr>)"
    using send_memory_same_side [OF assms(1,2)] sent by simp
  ultimately show ?thesis
    using p assms(3)
    by (auto simp: request_page_table_def Let_def case_prod_unfold update_pcb_def split: option.splits)
qed

lemma terminate_defined:
  assumes "swap_controller_exit env k a \<noteq> None" and "conexion_memory k' = conexion_memory k"
    and "memory_side k' = memory_side k" and "pcb_heap k a = Some p"
    and "pcb_heap k' a = Some (p\<lparr>status := s\<rparr>)"
  shows "terminate env k' a \<noteq> None"
proof -
  have "\<exists>n k1. swap_controller_exit env k' a = Some (n, k1)"
    using assms(1) send_memory_same_side [OF assms(2,3), of env PROCESS_TERMINATED]
    by (auto simp: swap_controller_exit_def assms(4,5))
  then obtain n k1 where k1: "swap_controller_exit env k' a = Some (n, k1)" by blast
  then have "pcb_heap k1 = pcb_heap k'"
    by (auto simp: swap_controller_exit_def bind_eq_Some_conv dest!: send_memory_effect)
  with k1 assms(5) show ?thesis by (auto simp: terminate_def pcb_destroy_def)
qed

lemma suspend_defined:
  assumes "suspension_served env k" and "conexion_memory k' = conexion_memory k"
    and "memory_side k' = memory_side k" and "pcb_heap k' = pcb_heap k" and "pcb_heap k a = Some p"
    and "a \<in> set (q_blocked k @ q_blocked_sus k @ in_io k)"
  shows "suspend env k' a \<noteq> None"
proof -
  let ?p = "p\<lparr>status := status_num PCB_SUSPENDED_BLOCKED\<rparr>"
  let ?k = "k'\<lparr>dom_sem := Suc (dom_sem k'), pcb_heap := (pcb_heap k')(a \<mapsto> ?p),
    q_blocked_sus := q_blocked_sus k' @ [a]\<rparr>"
  have "send_memory env k SWAP_PCB (pcb_to_stream ?p) \<noteq> None"
    using bspec [OF assms(1) [unfolded suspension_served_def list_all_iff] assms(6)] assms(5) by simp
  then have "send_memory env ?k SWAP_PCB (pcb_to_stream ?p) \<noteq> None"
    using send_memory_same_side [of ?k k env SWAP_PCB "pcb_to_stream ?p"] assms(2,3) by simp
  then show ?thesis
    using assms(4,5) by (auto simp: suspend_def update_pcb_def safe_queue_push_def queue_smart_push_def
        swap_controller_send_pcb_def)
qed

lemma check_interruption_some:
  assumes "pcb_heap k a \<noteq> None"
  shows "\<exists>c. check_interruption k a = Some (k\<lparr>conexion_interrupt := c\<rparr>)"
proof -
  obtain k' where k': "check_interruption k a = Some k'"
    using check_interruption_defined [OF assms] by blast
  from check_interruption_effect [OF k'] k' show ?thesis by auto
qed

lemma make_ready_defined:
  assumes "pcb_heap k a = Some p"
  shows "\<exists>c. (do {
      k \<leftarrow> update_pcb k a (\<lambda>pcb. pcb\<lparr>status := s\<rparr>);
      k \<leftarrow> check_interruption k a;
      Some (f k) }) = Some (f (k\<lparr>pcb_heap := (pcb_heap k)(a \<mapsto> p\<lparr>status := s\<rparr>), conexion_interrupt := c\<rparr>))"
  using assms check_interruption_some [of "k\<lparr>pcb_heap := (pcb_heap k)(a \<mapsto> p\<lparr>status := s\<rparr>)\<rparr>" a]
  by (auto simp: update_pcb_def)

lemma admit_defined:
  assumes mem: "admission_served env k" and wf: "kernel_wf grado k" and req: "lts k = Lts_request"
    and k': "k' = k\<lparr>dom_sem := d\<rparr>"
  shows "admit env k' \<noteq> None"
proof -
  have nonempty: "q_new k \<noteq> [] \<or> q_ready_sus k \<noteq> []"
    using wf req by (auto simp: kernel_wf_def counted_def)
  have alive: "pcb_heap k a \<noteq> None" if "a \<in> set (q_new k @ q_ready_sus k)" for a
    using that wf by (auto simp: kernel_wf_def owned_def places_def)
  show ?thesis
  proof (cases "q_ready_sus k")
    case (Cons a qs)
    then obtain p where "pcb_heap (k'\<lparr>q_ready_sus := qs\<rparr>) a = Some p" using alive by (auto simp: k')
    from make_ready_defined [OF this, of "status_num PCB_READY" "\<lambda>k. k\<lparr>q_ready := safe_queue_push (q_ready k) (Some a),
        execute_sem := Suc (execute_sem k)\<rparr>"]
    show ?thesis using Cons by (auto simp: admit_def resume_def k')
  next
    case Nil
    then obtain a qs where q: "q_new k = a # qs" using nonempty by (cases "q_new k") auto
    let ?k = "k'\<lparr>q_new := qs\<rparr>"
    have here: "pcb_heap ?k a \<noteq> None" using alive q by (simp add: k')
    obtain k1 where k1: "(if conectado (conexion_memory ?k) then request_page_table env ?k a else Some ?k) = Some k1"
      "pcb_heap k1 a \<noteq> None"
    proof (cases "conectado (conexion_memory ?k)")
      case True
      have "request_page_table env k a \<noteq> None" using mem Nil q True by (simp add: admission_served_def k')
      then obtain k1 where r: "request_page_table env ?k a = Some k1"
        using request_page_table_same_side [of ?k k env a] by (auto simp: k')
      obtain p where "pcb_heap ?k a = Some p" using here by blast
      from request_page_table_effect [OF this r] have "pcb_heap k1 a \<noteq> None" by auto
      with that True r show ?thesis by simp
    next
      case False
      with that here show ?thesis by simp
    qed
    from k1(2) obtain p where "pcb_heap k1 a = Some p" by blast
    from make_ready_defined [OF this, of "status_num PCB_READY" "\<lambda>k. k\<lparr>q_ready := safe_queue_push (q_ready k) (Some a),
        execute_sem := Suc (execute_sem k)\<rparr>"]
    have "\<exists>r. (do {
        k \<leftarrow> (if conectado (conexion_memory ?k) then request_page_table env ?k a else Some ?k);
        k \<leftarrow> update_pcb k a (\<lambda>pcb. pcb\<lparr>status := status_num PCB_READY\<rparr>);
        k \<leftarrow> check_interruption k a;
        Some (k\<lparr>q_ready := safe_queue_push (q_ready k) (Some a), execute_sem := Suc (execute_sem k)\<rparr>) }) = Some r"
      unfolding k1(1) by auto
    moreover have "resume k' = (None, k')" using Nil by (simp add: resume_def k')
    ultimately show ?thesis using q by (auto simp: admit_def k' split: if_splits)
  qed
qed

lemma io_begin_defined:
  assumes "kernel_wf grado k" and "io_unit k = Io_waiting" and "0 < io_request k"
  obtains a where "io_begin k = Some (k\<lparr>io_request := io_request k - 1, current_io := pid_at k a,
    io_unit := Io_busy a, q_blocked := q_blocked (snd (retrieve_pcb k)),
    q_blocked_sus := q_blocked_sus (snd (retrieve_pcb k))\<rparr>)"
    and "fst (retrieve_pcb k) = Some a" and "a \<in> set (q_blocked k @ q_blocked_sus k)"
proof -
  have "io_request k = length (q_blocked k) + length (q_blocked_sus k)"
    using assms(1,2) by (simp add: kernel_wf_def counted_def io_waiters_def)
  then have ne: "q_blocked k @ q_blocked_sus k \<noteq> []" using assms(3) by auto
  have alive: "pcb_heap k a \<noteq> None" if "a \<in> set (q_blocked k @ q_blocked_sus k)" for a
    using that assms(1) by (auto simp: kernel_wf_def owned_def places_def)
  show ?thesis
  proof (cases "q_blocked_sus k")
    case (Cons a q)
    moreover obtain p where "pcb_heap k a = Some p" using alive [of a] Cons by auto
    ultimately show ?thesis
      by (intro that [of a]) (simp_all add: io_begin_def retrieve_pcb_def pid_at_def)
  next
    case Nil
    then obtain a q where q: "q_blocked k = a # q" using ne by (cases "q_blocked k") auto
    moreover obtain p where "pcb_heap k a = Some p" using alive [of a] q by auto
    ultimately show ?thesis using Nil
      by (intro that [of a]) (simp_all add: io_begin_def retrieve_pcb_def pid_at_def)
  qed
qed

lemma io_end_defined:
  assumes wf: "kernel_wf grado k" and busy: "io_unit k = Io_busy a"
  shows "io_end k a \<noteq> None"
proof -
  have "a \<in> set (places k)"
    using wf busy by (auto simp: kernel_wf_def io_ok_def places_def)
  with wf obtain p where p: "pcb_heap k a = Some p" by (rule alive)
  have sus: "\<forall>b \<in> set (q_blocked_sus k). pcb_heap k b \<noteq> None"
    using wf by (auto simp: kernel_wf_def owned_def places_def)
  have "suspended_event k a \<noteq> None"
  proof -
    let ?r = "find (\<lambda>b. pcb_id (the (pcb_heap k b)) = pcb_id p) (q_blocked_sus k)"
    have "pcb_heap k b \<noteq> None" if "?r = Some b" for b using that sus by (auto simp: find_Some_iff)
    then show ?thesis
      using p find_pid_alive [OF sus, of "pcb_id p"]
      by (cases ?r) (auto simp: suspended_event_def exists_pid_def remove_pid_def update_pcb_def)
  qed
  moreover have "event k a \<noteq> None"
  proof -
    let ?k = "k\<lparr>pcb_heap := (pcb_heap k)(a \<mapsto> p\<lparr>status := status_num PCB_READY\<rparr>), q_ready := q_ready k @ [a]\<rparr>"
    have "\<exists>c. check_interruption ?k a = Some (?k\<lparr>conexion_interrupt := c\<rparr>)"
      by (rule check_interruption_some) simp
    then show ?thesis using p by (auto simp: event_def update_pcb_def)
  qed
  ultimately show ?thesis using p by (auto simp: io_end_def)
qed

lemma send_pcb_defined:
  assumes "pcb_heap k a = Some p"
  shows "\<exists>n c. cpu_controller_send_pcb k code a = Some (n, k\<lparr>conexion_dispatch := c\<rparr>) \<and>
    (cpu_link_ok k \<longrightarrow> n > 0)"
  using assms
  by (auto simp: cpu_controller_send_pcb_def conexion_enviar_stream_def enviar_stream_def
      package_serialize_def new_package_for_def new_buffer_def new_package_def read_bytes_def send_def
      length_pcb_to_stream cpu_link_ok_def intro: exI [of _ "conexion_dispatch k"] split: prod.splits)

lemma dispatch_defined:
  assumes mem: "dispatch_served env k" and wf: "kernel_wf grado k" and sorts: "sorts_lists (list_sort env)"
    and ne: "q_ready k \<noteq> []"
  obtains a k1 k2 where "get_next env (k\<lparr>execute_sem := x\<rparr>) = Some (Some a, k1)" and "a \<in> set (q_ready k)"
    and "execute env k1 a = Some k2"
proof -
  have alive: "\<forall>a \<in> set (q_ready k). pcb_heap k a \<noteq> None"
    using wf by (auto simp: kernel_wf_def owned_def places_def)
  let ?k = "k\<lparr>execute_sem := x\<rparr>"
  have "get_next env ?k \<noteq> None"
    using alive by (auto simp: get_next_def get_next_srt_def get_next_fifo_def list_all_iff Let_def
        split: get_next_t.split prod.splits)
  then obtain r k1 where got: "get_next env ?k = Some (r, k1)" by fastforce
  obtain q where k1: "k1 = ?k\<lparr>q_ready := q\<rparr>"
    and r: "case r of None \<Rightarrow> q_ready ?k = [] \<and> q = [] | Some a \<Rightarrow> mset (q_ready ?k) = add_mset a (mset q)"
    using get_next_effect [OF sorts got] by blast
  obtain a where a: "r = Some a" and m: "mset (q_ready k) = add_mset a (mset q)"
    using r ne by (cases r) auto
  have "a \<in># mset (q_ready k)" unfolding m by simp
  then have here: "a \<in> set (q_ready k)" by simp
  obtain p where p: "pcb_heap k1 a = Some p" using alive here by (auto simp: k1)
  let ?k2 = "k1\<lparr>pcb_heap := (pcb_heap k1)(a \<mapsto> p\<lparr>status := status_num PCB_EXECUTING\<rparr>),
    current_estimation := estimation p\<rparr>"
  have "pcb_heap ?k2 a = Some (p\<lparr>status := status_num PCB_EXECUTING\<rparr>)" by simp
  from send_pcb_defined [OF this] obtain n c where
    send: "cpu_controller_send_pcb ?k2 PCB a = Some (n, ?k2\<lparr>conexion_dispatch := c\<rparr>)"
    "cpu_link_ok ?k2 \<longrightarrow> n > 0" by blast
  have "cpu_link_ok ?k2 = cpu_link_ok k" by (simp add: cpu_link_ok_def k1)
  then have "terminate env (?k2\<lparr>conexion_dispatch := c\<rparr>) a \<noteq> None" if "\<not> n > 0"
    using that send(2) mem here p
    by (intro terminate_defined [of env k a _ p]) (auto simp: dispatch_served_def list_all_iff k1)
  then obtain k3 where "execute env k1 a = Some k3"
    using p send by (cases "n > 0") (auto simp: execute_def update_pcb_def pcb_destroy_def)
  with that got a here show ?thesis by blast
qed

lemma track_time_defined:
  assumes mem: "suspension_served env k" and wf: "kernel_wf grado k" and i: "i < length (trackers k)"
  shows "track_time env (k\<lparr>trackers := drop_nth i (trackers k)\<rparr>) (trackers k ! i) \<noteq> None"
proof -
  let ?k = "k\<lparr>trackers := drop_nth i (trackers k)\<rparr>"
  obtain a pid where t: "trackers k ! i = (a, pid)" by fastforce
  then have mem_t: "(a, pid) \<in> set (trackers k)" using i by (metis nth_mem)
  have parts: "owned k" "io_ok k" "trackers_wf k" using wf by (simp_all add: kernel_wf_def)
  have small: "pid \<noteq> UINT32_MAX" and mine: "\<And>b. b \<in> set (blocked_places k) \<Longrightarrow> pid_at k b = pid \<Longrightarrow> b = a"
    using parts(3) mem_t taken_small unfolding trackers_wf_def blocked_places_def by blast+
  have alive: "\<forall>b \<in> set (q_blocked ?k). pcb_heap ?k b \<noteq> None"
    using parts(1) by (auto simp: owned_def places_def)
  let ?there = "\<exists>b \<in> set (q_blocked k). pid_at k b = pid"
  have there: "exists_pid ?k (q_blocked ?k) pid = Some ?there"
    using exists_pid_alive [OF alive] by (simp add: pid_at_def)
  obtain r l where r: "remove_pid ?k (q_blocked ?k) pid = Some (r, l)"
    using find_pid_alive [OF alive] by (simp add: remove_pid_def)
  have "pcb_heap k (case r of None \<Rightarrow> a | Some b \<Rightarrow> b) \<noteq> None \<and>
      (case r of None \<Rightarrow> a | Some b \<Rightarrow> b) \<in> set (q_blocked k @ q_blocked_sus k @ in_io k)"
    if enter: "?there \<or> current_io k = pid"
  proof (cases r)
    case (Some b)
    then show ?thesis using remove_pid_alive [OF alive r] alive by auto
  next
    case None
    then have "\<not> ?there" using remove_pid_alive [OF alive r] by (simp add: pid_at_def)
    then have cur: "current_io k = pid" using enter by blast
    then obtain b where "io_unit k = Io_busy b" using parts(2) small by (cases "io_unit k") (auto simp: io_ok_def)
    then have "b \<in> set (q_blocked_sus k @ in_io k)" "pid_at k b = pid"
      using parts(2) cur by (auto simp: io_ok_def)
    moreover from this have "b = a" using mine [of b] by (auto simp: blocked_places_def)
    ultimately show ?thesis using None parts(1) by (auto simp: owned_def places_def)
  qed
  then have "suspend env (?k\<lparr>q_blocked := l\<rparr>) (case r of None \<Rightarrow> a | Some b \<Rightarrow> b) \<noteq> None"
    if "?there \<or> current_io k = pid"
    using that suspend_defined [OF mem, of "?k\<lparr>q_blocked := l\<rparr>"] by auto
  then show ?thesis using there r by (auto simp: track_time_def t)
qed

subsection \<open>No deadlock\<close>

text \<open>A process is in a queue of the schedulers or in the I/O unit.\<close>

definition processes_pending :: "'m kernel \<Rightarrow> bool" where
  "processes_pending k \<longleftrightarrow> q_new k \<noteq> [] \<or> q_ready k \<noteq> [] \<or> q_ready_sus k \<noteq> [] \<or> q_blocked k \<noteq> [] \<or>
     q_blocked_sus k \<noteq> [] \<or> io_unit k \<noteq> Io_waiting"

text \<open>The steps that move a process: a dispatch that finds the queue empty is none.\<close>

definition scheduler_moves :: "'m kernel \<Rightarrow> kernel_event \<Rightarrow> bool" where
  "scheduler_moves k e \<longleftrightarrow> e \<in> {Lts_wakes, Lts_admits, Io_begins, Io_ends} \<or>
     e = Sts_dispatches \<and> q_ready k \<noteq> []"

lemma pending_moves:
  assumes mem: "admission_served env k" "dispatch_served env k" and wf: "kernel_wf grado k" and sorts: "sorts_lists (list_sort env)"
    and "0 < grado" and idle: "sts k = Sts_waiting" and pend: "processes_pending k"
  shows "\<exists>e k'. scheduler_moves k e \<and> kernel_step env k e k'"
proof -
  have count: "counted grado k" using wf by (simp add: kernel_wf_def)
  consider (ready) "q_ready k \<noteq> []" | (busy) a where "io_unit k = Io_busy a"
    | (blocked) "io_unit k = Io_waiting" "q_blocked k \<noteq> [] \<or> q_blocked_sus k \<noteq> []"
    | (admission) "q_ready k = []" "io_unit k = Io_waiting" "q_blocked k = []" "q_blocked_sus k = []"
    by (cases "io_unit k") auto
  then show ?thesis
  proof cases
    case ready
    moreover have "0 < execute_sem k" using count ready by (cases "q_ready k") (auto simp: counted_def)
    moreover obtain a k1 k2 where "get_next env (k\<lparr>execute_sem := execute_sem k - 1\<rparr>) = Some (Some a, k1)"
      "execute env k1 a = Some k2"
      using dispatch_defined [OF mem(2) wf sorts ready] by metis
    ultimately show ?thesis using idle dispatches [of k env a k1 k2] unfolding scheduler_moves_def by blast
  next
    case busy
    then obtain k1 where "io_end k a = Some k1" using io_end_defined [OF wf] by blast
    then show ?thesis using io_ends [OF busy] unfolding scheduler_moves_def by blast
  next
    case blocked
    then have "0 < io_request k" using count by (auto simp: counted_def io_waiters_def)
    moreover obtain k1 where "io_begin k = Some k1" using io_begin_defined [OF wf blocked(1) calculation] by blast
    ultimately show ?thesis using io_begins [OF blocked(1)] unfolding scheduler_moves_def by blast
  next
    case admission
    then have "q_new k \<noteq> [] \<or> q_ready_sus k \<noteq> []" using pend by (simp add: processes_pending_def)
    then have len: "0 < length (q_new k) + length (q_ready_sus k)" by simp
    have dom: "0 < dom_sem k"
      using count admission idle \<open>0 < grado\<close> by (simp add: counted_def using_slot_def in_io_def)
    show ?thesis
    proof (cases "lts k")
      case Lts_waiting
      then have "0 < req_admit k" using count len by (simp add: counted_def)
      with wakes [OF Lts_waiting] show ?thesis unfolding scheduler_moves_def by blast
    next
      case Lts_request
      then obtain k1 where "admit env (k\<lparr>dom_sem := dom_sem k - 1\<rparr>) = Some k1"
        using admit_defined [OF mem(1) wf Lts_request refl] by blast
      with admits [OF Lts_request dom] show ?thesis unfolding scheduler_moves_def by blast
    qed
  qed
qed

subsection \<open>First come, first served\<close>

definition ready_grows :: "'m kernel \<Rightarrow> 'm kernel \<Rightarrow> bool" where
  "ready_grows k k' \<longleftrightarrow> get_next_fn k' = get_next_fn k \<and> (\<exists>ws. q_ready k' = q_ready k @ ws)"

lemma ready_growsI: "get_next_fn k' = get_next_fn k \<Longrightarrow> q_ready k' = q_ready k @ ws \<Longrightarrow> ready_grows k k'"
  by (auto simp: ready_grows_def)

lemma ready_grows_same: "get_next_fn k' = get_next_fn k \<Longrightarrow> q_ready k' = q_ready k \<Longrightarrow> ready_grows k k'"
  by (simp add: ready_grows_def)

lemma ready_grows_trans: "ready_grows k1 k2 \<Longrightarrow> ready_grows k2 k3 \<Longrightarrow> ready_grows k1 k3"
  by (auto simp: ready_grows_def)

lemma update_pcb_same:
  "update_pcb k a f = Some k' \<Longrightarrow> get_next_fn k' = get_next_fn k \<and> q_ready k' = q_ready k"
  by (auto simp: update_pcb_def bind_eq_Some_conv)

lemma send_memory_same:
  "send_memory env k code data = Some (n, k') \<Longrightarrow> get_next_fn k' = get_next_fn k \<and> q_ready k' = q_ready k"
  by (auto dest!: send_memory_effect)

lemma check_interruption_same:
  "check_interruption k a = Some k' \<Longrightarrow> get_next_fn k' = get_next_fn k \<and> q_ready k' = q_ready k"
  by (auto dest!: check_interruption_effect)

lemma routine_grows:
  assumes "kernel_routine env k s pid = Some (k', s', pid', stays)"
  shows "ready_grows k k'"
  using assms
  by (intro ready_grows_same)
    (auto simp: kernel_routine_def dispatch_handle_syscall_def dispatch_handle_instruction_def alloc_pcb_def
      bind_eq_Some_conv Let_def dest!: update_pcb_same split: if_splits option.splits opcode_t.splits prod.splits)

lemma terminate_grows: "terminate env k a = Some k' \<Longrightarrow> ready_grows k k'"
  by (rule ready_grows_same) (auto dest!: terminate_effect)

lemma block_grows: "block env k a t = Some k' \<Longrightarrow> ready_grows k k'"
  by (rule ready_grows_same)
    (auto simp: block_def re_schedule_def notify_mts_def bind_eq_Some_conv Let_def dest!: update_pcb_same)

lemma pre_empt_grows: "pre_empt k a = Some k' \<Longrightarrow> ready_grows k k'"
  by (rule ready_growsI [of _ _ "[a]"]) (auto simp: pre_empt_def bind_eq_Some_conv dest!: update_pcb_same)

lemma suspend_grows: "suspend env k a = Some k' \<Longrightarrow> ready_grows k k'"
  by (rule ready_grows_same)
    (auto simp: suspend_def swap_controller_send_pcb_def bind_eq_Some_conv Let_def
      dest!: update_pcb_same send_memory_same)

lemma track_time_grows: "track_time env k dto = Some k' \<Longrightarrow> ready_grows k k'"
  by (auto simp: track_time_def bind_eq_Some_conv Let_def ready_grows_def dest!: suspend_grows
      split: prod.splits if_splits)

lemma receive_pcb_same:
  "cpu_controller_receive_pcb env k = Some (a, t, k') \<Longrightarrow> get_next_fn k' = get_next_fn k \<and> q_ready k' = q_ready k"
  by (auto simp: cpu_controller_receive_pcb_def bind_eq_Some_conv alloc_pcb_def Let_def split: prod.splits)

lemma execute_return_grows: "execute_return env k u = Some k' \<Longrightarrow> ready_grows k k'"
  by (auto simp: execute_return_def bind_eq_Some_conv Let_def ready_grows_def split: if_splits
      dest!: receive_pcb_same update_pcb_same block_grows [unfolded ready_grows_def]
        terminate_grows [unfolded ready_grows_def] pre_empt_grows [unfolded ready_grows_def])

lemma io_end_grows: "io_end k a = Some k' \<Longrightarrow> ready_grows k k'"
proof -
  have e: "ready_grows k1 k2" if "event k1 a = Some k2" for k1 k2 :: "'a kernel"
    by (rule ready_growsI [of _ _ "[a]"])
      (use that in \<open>auto simp: event_def bind_eq_Some_conv Let_def dest!: update_pcb_same check_interruption_same\<close>)
  have s: "ready_grows k1 k2" if "suspended_event k1 a = Some k2" for k1 k2 :: "'a kernel"
    by (rule ready_grows_same)
      (use that in \<open>auto simp: suspended_event_def bind_eq_Some_conv Let_def dest!: update_pcb_same split: if_splits\<close>)
  assume "io_end k a = Some k'"
  then show ?thesis
    by (auto simp: io_end_def bind_eq_Some_conv ready_grows_def split: if_splits
        dest!: e [unfolded ready_grows_def] s [unfolded ready_grows_def])
qed

lemma request_page_table_same:
  assumes "request_page_table env k a = Some k'"
  shows "get_next_fn k' = get_next_fn k \<and> q_ready k' = q_ready k"
proof -
  obtain p where "pcb_heap k a = Some p" using assms by (auto simp: request_page_table_def bind_eq_Some_conv)
  from request_page_table_effect [OF this assms] show ?thesis by auto
qed

lemma make_ready_grows:
  assumes "(do {
      k \<leftarrow> update_pcb k a (\<lambda>pcb. pcb\<lparr>status := s\<rparr>);
      k \<leftarrow> check_interruption k a;
      Some (k\<lparr>q_ready := safe_queue_push (q_ready k) (Some a)\<rparr>) }) = Some k'"
  shows "ready_grows k k'"
  by (rule ready_growsI [of _ _ "[a]"])
    (use assms in \<open>auto simp: bind_eq_Some_conv dest!: update_pcb_same check_interruption_same\<close>)

lemma admit_grows: "admit env k = Some k' \<Longrightarrow> ready_grows k k'"
proof -
  assume run: "admit env k = Some k'"
  show ?thesis
  proof (cases "q_ready_sus k")
    case (Cons a qs)
    let ?k = "k\<lparr>q_ready_sus := qs\<rparr>"
    obtain k1 where "(do {
      k \<leftarrow> update_pcb ?k a (\<lambda>pcb. pcb\<lparr>status := status_num PCB_READY\<rparr>);
      k \<leftarrow> check_interruption k a;
      Some (k\<lparr>q_ready := safe_queue_push (q_ready k) (Some a)\<rparr>) }) = Some k1"
      and k': "k' = k1\<lparr>execute_sem := Suc (execute_sem k1)\<rparr>"
      using run Cons by (auto simp: admit_def resume_def bind_eq_Some_conv)
    from make_ready_grows [OF this(1)] show ?thesis by (simp add: k' ready_grows_def)
  next
    case Nil
    then have sus: "resume k = (None, k)" by (simp add: resume_def)
    obtain r q where pop: "safe_queue_pop (q_new k) = (r, q)" by fastforce
    let ?k = "k\<lparr>q_new := q\<rparr>"
    show ?thesis
    proof (cases r)
      case None
      then show ?thesis
        using run sus pop by (intro ready_grows_same) (auto simp: admit_def Let_def split: if_splits)
    next
      case (Some a)
      obtain k1 k2 where k1: "k1 = ?k \<or> request_page_table env ?k a = Some k1"
        and k2: "(do {
          k \<leftarrow> update_pcb k1 a (\<lambda>pcb. pcb\<lparr>status := status_num PCB_READY\<rparr>);
          k \<leftarrow> check_interruption k a;
          Some (k\<lparr>q_ready := safe_queue_push (q_ready k) (Some a)\<rparr>) }) = Some k2"
        and k': "k' = k2\<lparr>execute_sem := Suc (execute_sem k2)\<rparr>"
        using run Some sus pop by (auto simp: admit_def bind_eq_Some_conv Let_def split: if_splits)
      have "get_next_fn k1 = get_next_fn k \<and> q_ready k1 = q_ready k"
        using k1 request_page_table_same [of env ?k a k1] by auto
      with make_ready_grows [OF k2] show ?thesis by (simp add: k' ready_grows_def)
    qed
  qed
qed

lemma execute_same:
  "execute env k a = Some k' \<Longrightarrow> get_next_fn k' = get_next_fn k \<and> q_ready k' = q_ready k"
  by (auto simp: execute_def cpu_controller_send_pcb_def pcb_destroy_def bind_eq_Some_conv Let_def
      dest!: update_pcb_same terminate_effect split: if_splits)

text \<open>With \<open>get_next_fifo\<close> a process that waits never loses its turn: a step other than a
  dispatch only adds behind it, and a dispatch takes the first one.\<close>

lemma waits_in_order:
  assumes step: "kernel_step env k e k'" and fifo: "get_next_fn k = Get_next_fifo"
    and q: "q_ready k = us @ a # vs" and wait: "e = Sts_dispatches \<Longrightarrow> us \<noteq> []"
  shows "get_next_fn k' = Get_next_fifo \<and>
    (\<exists>ws. q_ready k' = (if e = Sts_dispatches then tl us else us) @ a # ws)"
proof -
  have grows: ?thesis if "ready_grows k k'" "e \<noteq> Sts_dispatches"
    using that fifo q by (auto simp: ready_grows_def)
  show ?thesis
    using step
  proof cases
    case (idles)
    then show ?thesis using fifo q by (auto simp: get_next_def get_next_fifo_def safe_queue_pop_def split: list.splits)
  next
    case (dispatches b k1)
    then obtain u us' where us: "us = u # us'" using wait by (cases us) auto
    then have "k1 = k\<lparr>execute_sem := execute_sem k - 1, q_ready := us' @ a # vs\<rparr>"
      using dispatches fifo q by (auto simp: get_next_def get_next_fifo_def)
    then show ?thesis using execute_same [OF dispatches(5)] fifo dispatches(1) us by auto
  next
    case (requests i s pid k1 s' pid' stays)
    then show ?thesis using routine_grows [OF requests(5)] fifo q by (auto simp: ready_grows_def)
  next
    case (admits k1)
    then show ?thesis using admit_grows [OF admits(5)] fifo q by (auto simp: ready_grows_def)
  next
    case (returns p t c u)
    then show ?thesis using execute_return_grows [OF returns(4)] fifo q by (auto simp: ready_grows_def)
  next
    case io_begins
    then show ?thesis
      using fifo q by (auto simp: io_begin_def retrieve_pcb_def safe_queue_pop_def bind_eq_Some_conv Let_def
          split: list.splits option.splits prod.splits)
  next
    case (io_ends b)
    then show ?thesis using io_end_grows [OF io_ends(3)] fifo q by (auto simp: ready_grows_def)
  next
    case (fires i)
    then show ?thesis using track_time_grows [OF fires(3)] fifo q by (auto simp: ready_grows_def)
  qed (use fifo q in simp_all)
qed

text \<open>A run of steps, with the number of processes it dispatches.\<close>

inductive kernel_steps :: "'m kernel_env \<Rightarrow> 'm kernel \<Rightarrow> kernel_event list \<Rightarrow> 'm kernel \<Rightarrow> bool" for env where
  nothing: "kernel_steps env k [] k"
| more: "kernel_step env k e k1 \<Longrightarrow> kernel_steps env k1 es k' \<Longrightarrow> kernel_steps env k (e # es) k'"

lemma steps_in_order:
  assumes "kernel_steps env k es k'" and "get_next_fn k = Get_next_fifo" and "q_ready k = us @ a # vs"
    and "length (filter (\<lambda>e. e = Sts_dispatches) es) \<le> length us"
  shows "\<exists>ws. q_ready k' = drop (length (filter (\<lambda>e. e = Sts_dispatches) es)) us @ a # ws"
  using assms
proof (induction arbitrary: us vs rule: kernel_steps.induct)
  case (nothing k)
  then show ?case by simp
next
  case (more k e k1 es k')
  have "e = Sts_dispatches \<Longrightarrow> us \<noteq> []" using more.prems(3) by auto
  from waits_in_order [OF more.hyps(1) more.prems(1,2) this] obtain ws where
    k1: "get_next_fn k1 = Get_next_fifo" "q_ready k1 = (if e = Sts_dispatches then tl us else us) @ a # ws"
    by blast
  show ?case
    using more.IH [OF k1] more.prems(3) by (auto simp: drop_Suc split: if_splits)
qed

subsection \<open>The algorithm of the configuration\<close>

lemma get_next_same:
  "get_next env k = Some (r, k') \<Longrightarrow> get_next_fn k' = get_next_fn k"
  by (auto simp: get_next_def get_next_srt_def get_next_fifo_def Let_def
      split: get_next_t.splits if_splits prod.splits)

lemma step_same_algorithm: "kernel_step env k e k' \<Longrightarrow> get_next_fn k' = get_next_fn k"
proof (induction rule: kernel_step.induct)
  case (dispatches k a k1 k2)
  then show ?case using get_next_same [OF dispatches(3)] execute_same [OF dispatches(4)] by simp
next
  case (io_begins k k1)
  then show ?case
    by (auto simp: io_begin_def retrieve_pcb_def bind_eq_Some_conv Let_def split: option.splits prod.splits)
qed (auto simp: ready_grows_def dest!: routine_grows admit_grows get_next_same execute_return_grows io_end_grows
    track_time_grows)

lemma reachable_algorithm: "kernel_reachable env k0 k \<Longrightarrow> get_next_fn k = get_next_fn k0"
  by (induction rule: kernel_reachable.induct) (auto dest: step_same_algorithm)

lemma by_estimation_order:
  "by_estimation k x y \<or> by_estimation k y x"
  "by_estimation k x y \<Longrightarrow> by_estimation k y z \<Longrightarrow> by_estimation k x z"
  by (auto simp: by_estimation_def pcb_sort_by_estimation_def)

lemma get_next_srt_shortest:
  assumes "sorts_lists (list_sort env)" and "get_next_srt env k = Some (Some a, k')"
  shows "a \<in> set (q_ready k)"
    and "\<forall>b \<in> set (q_ready k). estimation (the (pcb_heap k a)) \<le> estimation (the (pcb_heap k b))"
proof -
  let ?l = "list_sort env (by_estimation k) (q_ready k)"
  have m: "mset ?l = mset (q_ready k)" and s: "sorted_wrt (by_estimation k) ?l"
    using assms(1) by_estimation_order [of k] unfolding sorts_lists_def by blast+
  obtain l where l: "?l = a # l"
    using assms(2) by (auto simp: get_next_srt_def get_next_fifo_def safe_queue_sort_def safe_queue_pop_def Let_def
        split: if_splits list.splits prod.splits)
  have set: "set (q_ready k) = insert a (set l)" using mset_eq_setD [OF m] l by simp
  then show "a \<in> set (q_ready k)" by simp
  show "\<forall>b \<in> set (q_ready k). estimation (the (pcb_heap k a)) \<le> estimation (the (pcb_heap k b))"
    using s unfolding l set by (auto simp: by_estimation_def pcb_sort_by_estimation_def)
qed

end
