(* ===== verification/Late_Trackers.thy ===== *)
theory Late_Trackers
  imports Kernel_Progress Kernel_Runs
begin

section \<open>Trackers that fire late\<close>

text \<open>
  A tracker of \<open>mts.c\<close> waits with the pointer to the PCB it was started with. Here is what
  happens when its process has ended its I/O before the tracker fires, has run (\<open>execute\<close> frees
  the PCB) and has blocked again: an address that was freed stays free in every step of the
  kernel's threads, and a tracker that fires while its process is in the I/O unit writes to the
  PCB of its own pointer. Two trackers of one process that both fire in time suspend it twice.
\<close>

subsection \<open>What was freed stays freed\<close>

definition no_revival :: "'m kernel \<Rightarrow> 'm kernel \<Rightarrow> bool" where
  "no_revival k k' \<longleftrightarrow> brk k \<le> brk k' \<and>
     (\<forall>b < brk k. pcb_heap k b = None \<longrightarrow> pcb_heap k' b = None)"

lemma no_revival_trans: "no_revival k1 k2 \<Longrightarrow> no_revival k2 k3 \<Longrightarrow> no_revival k1 k3"
  by (auto simp: no_revival_def)

lemma update_pcb_effect:
  "update_pcb k a f = Some k' \<Longrightarrow> \<exists>p. pcb_heap k a = Some p \<and> k' = k\<lparr>pcb_heap := (pcb_heap k)(a \<mapsto> f p)\<rparr>"
  by (auto simp: update_pcb_def bind_eq_Some_conv)

lemma update_pcb_revives_none: "update_pcb k a f = Some k' \<Longrightarrow> no_revival k k'"
  by (auto simp: no_revival_def dest!: update_pcb_effect)

lemma send_memory_revives_none: "send_memory env k code data = Some (n, k') \<Longrightarrow> no_revival k k'"
  by (auto simp: no_revival_def dest!: send_memory_effect)

lemma check_interruption_revives_none: "check_interruption k a = Some k' \<Longrightarrow> no_revival k k'"
  by (auto simp: no_revival_def dest!: check_interruption_effect)

lemma routine_revives_none:
  "kernel_routine env k s pid = Some (k', s', pid', stays) \<Longrightarrow> no_revival k k'"
  by (auto simp: no_revival_def kernel_routine_def dispatch_handle_syscall_def dispatch_handle_instruction_def
      alloc_pcb_def bind_eq_Some_conv Let_def dest!: update_pcb_effect
      split: if_splits option.splits opcode_t.splits prod.splits)

lemma terminate_revives_none: "terminate env k a = Some k' \<Longrightarrow> no_revival k k'"
  by (auto simp: no_revival_def dest!: terminate_effect)

lemma block_revives_none: "block env k a t = Some k' \<Longrightarrow> no_revival k k'"
  by (auto simp: no_revival_def block_def re_schedule_def notify_mts_def bind_eq_Some_conv Let_def
      dest!: update_pcb_effect)

lemma pre_empt_revives_none: "pre_empt k a = Some k' \<Longrightarrow> no_revival k k'"
  by (auto simp: no_revival_def pre_empt_def bind_eq_Some_conv dest!: update_pcb_effect)

lemma suspend_revives_none: "suspend env k a = Some k' \<Longrightarrow> no_revival k k'"
  by (auto simp: no_revival_def suspend_def swap_controller_send_pcb_def bind_eq_Some_conv Let_def
      dest!: update_pcb_effect send_memory_effect)

lemma track_time_revives_none: "track_time env k t = Some k' \<Longrightarrow> no_revival k k'"
  by (auto simp: track_time_def bind_eq_Some_conv no_revival_def dest!: suspend_revives_none
      split: prod.splits if_splits)

lemma receive_pcb_revives_none: "cpu_controller_receive_pcb env k = Some (a, t, k') \<Longrightarrow> no_revival k k'"
  by (auto simp: no_revival_def cpu_controller_receive_pcb_def bind_eq_Some_conv alloc_pcb_def Let_def
      split: prod.splits)

lemma execute_revives_none: "execute env k a = Some k' \<Longrightarrow> no_revival k k'"
  by (auto simp: no_revival_def execute_def cpu_controller_send_pcb_def pcb_destroy_def bind_eq_Some_conv Let_def
      dest!: update_pcb_effect terminate_effect split: if_splits)

lemma execute_return_revives_none: "execute_return env k u = Some k' \<Longrightarrow> no_revival k k'"
  by (auto simp: execute_return_def bind_eq_Some_conv Let_def no_revival_def split: if_splits
      dest!: receive_pcb_revives_none [unfolded no_revival_def] update_pcb_revives_none [unfolded no_revival_def]
        block_revives_none [unfolded no_revival_def] terminate_revives_none [unfolded no_revival_def]
        pre_empt_revives_none [unfolded no_revival_def])

lemma io_end_revives_none:
  assumes "io_end k a = Some k'"
  shows "no_revival k k'"
proof -
  have e: "no_revival k k1" if "event k a = Some k1" for k1
    using that by (auto simp: no_revival_def event_def bind_eq_Some_conv Let_def
        dest!: update_pcb_effect check_interruption_effect)
  have s: "no_revival k k1" if "suspended_event k a = Some k1" for k1
    using that by (auto simp: no_revival_def suspended_event_def bind_eq_Some_conv Let_def
        dest!: update_pcb_effect split: if_splits)
  show ?thesis
    using assms by (auto simp: io_end_def bind_eq_Some_conv no_revival_def split: if_splits
        dest!: e [unfolded no_revival_def] s [unfolded no_revival_def])
qed

lemma admit_revives_none:
  assumes "admit env k = Some k'"
  shows "no_revival k k'"
proof -
  have page: "no_revival k1 k2" if r: "request_page_table env k1 a = Some k2" for k1 k2 a
  proof -
    obtain p where p: "pcb_heap k1 a = Some p" using r by (auto simp: request_page_table_def bind_eq_Some_conv)
    from request_page_table_effect [OF p r] p show ?thesis by (auto simp: no_revival_def)
  qed
  show ?thesis
    using assms
    by (auto simp: admit_def resume_def bind_eq_Some_conv Let_def case_prod_unfold no_revival_def
        dest!: page [unfolded no_revival_def] update_pcb_effect check_interruption_effect
        split: option.splits if_splits)
qed

lemma step_revives_none: "kernel_step env k e k' \<Longrightarrow> no_revival k k'"
proof (induction rule: kernel_step.induct)
  case (requests i k s pid k1 s' pid' stays)
  then show ?case using routine_revives_none [OF requests(3)] by (simp add: no_revival_def)
next
  case (admits k k1)
  then show ?case using admit_revives_none [OF admits(3)] by (simp add: no_revival_def)
next
  case (idles k k1)
  then show ?case
    by (auto simp: get_next_def get_next_srt_def get_next_fifo_def no_revival_def Let_def
        split: get_next_t.splits if_splits prod.splits)
next
  case (dispatches k a k1 k2)
  then have "pcb_heap k1 = pcb_heap k" "brk k1 = brk k"
    by (auto simp: get_next_def get_next_srt_def get_next_fifo_def Let_def
        split: get_next_t.splits if_splits prod.splits)
  with execute_revives_none [OF dispatches(4)] show ?case by (simp add: no_revival_def)
next
  case (returns k p t c u k1)
  then show ?case using execute_return_revives_none [OF returns(3)] by (simp add: no_revival_def)
next
  case (io_begins k k1)
  then show ?case
    by (auto simp: io_begin_def retrieve_pcb_def bind_eq_Some_conv Let_def no_revival_def
        split: option.splits prod.splits)
next
  case (io_ends k a k1)
  then show ?case using io_end_revives_none [OF io_ends(2)] by simp
next
  case (fires i k k1)
  then show ?case using track_time_revives_none [OF fires(2)] by (simp add: no_revival_def)
qed (auto simp: no_revival_def)

lemma steps_revive_none: "kernel_steps env k es k' \<Longrightarrow> no_revival k k'"
proof (induction rule: kernel_steps.induct)
  case (nothing k)
  then show ?case by (simp add: no_revival_def)
next
  case (more k e k1 es k')
  with step_revives_none [OF more.hyps(1)] show ?case by (blast intro: no_revival_trans)
qed

subsection \<open>A tracker whose PCB is gone\<close>

text \<open>The process of the tracker is in the I/O unit and not in the queue of blocked processes.\<close>

definition only_in_io :: "'m kernel \<Rightarrow> u32 \<Rightarrow> bool" where
  "only_in_io k pid \<longleftrightarrow> current_io k = pid \<and>
     list_all (\<lambda>b. case pcb_heap k b of None \<Rightarrow> False | Some q \<Rightarrow> pcb_id q \<noteq> pid) (q_blocked k)"

lemma track_time_in_io:
  assumes "only_in_io k pid"
  shows "track_time env k (a, pid) = suspend env k a"
proof -
  have alive: "\<forall>b \<in> set (q_blocked k). pcb_heap k b \<noteq> None"
    and other: "\<forall>b \<in> set (q_blocked k). pcb_id (the (pcb_heap k b)) \<noteq> pid"
    using assms by (auto simp: only_in_io_def list_all_iff split: option.splits)
  then have "find (\<lambda>b. pcb_id (the (pcb_heap k b)) = pid) (q_blocked k) = None"
    by (auto simp: find_None_iff)
  then show ?thesis
    using assms find_pid_alive [OF alive, of pid]
    by (simp add: track_time_def exists_pid_def remove_pid_def only_in_io_def)
qed

lemma suspend_freed: "pcb_heap k a = None \<Longrightarrow> suspend env k a = None"
  by (simp add: suspend_def update_pcb_def)

lemma freed_tracker_undefined:
  assumes "kernel_steps env k es k'" and "pcb_heap k a = None" and "a < brk k" and "only_in_io k' pid"
  shows "pcb_heap k' a = None" and "track_time env (k'\<lparr>trackers := ts\<rparr>) (a, pid) = None"
    and "track_time env (k'\<lparr>trackers := ts, pcb_heap := (pcb_heap k')(a \<mapsto> p)\<rparr>) (a, pid) =
      suspend env (k'\<lparr>trackers := ts, pcb_heap := (pcb_heap k')(a \<mapsto> p)\<rparr>) a"
proof -
  show gone: "pcb_heap k' a = None"
    using steps_revive_none [OF assms(1)] assms(2,3) by (simp add: no_revival_def)
  have "only_in_io (k'\<lparr>trackers := ts\<rparr>) pid" using assms(4) by (simp add: only_in_io_def)
  then show "track_time env (k'\<lparr>trackers := ts\<rparr>) (a, pid) = None"
    using gone by (simp add: track_time_in_io suspend_freed)
  have "only_in_io (k'\<lparr>trackers := ts, pcb_heap := (pcb_heap k')(a \<mapsto> p)\<rparr>) pid"
    using assms(4) gone by (auto simp: only_in_io_def list_all_iff)
  then show "track_time env (k'\<lparr>trackers := ts, pcb_heap := (pcb_heap k')(a \<mapsto> p)\<rparr>) (a, pid) =
      suspend env (k'\<lparr>trackers := ts, pcb_heap := (pcb_heap k')(a \<mapsto> p)\<rparr>) a"
    by (rule track_time_in_io)
qed

subsection \<open>Two trackers that fire\<close>

lemma second_suspension:
  assumes tracker: "i < length (trackers k)" "trackers k ! i = (a, pid)" and io: "io_unit k = Io_busy a"
    and only: "only_in_io k pid" and p: "pcb_heap k a = Some p" "status p = status_num PCB_SUSPENDED_BLOCKED"
    and served: "send_memory env k SWAP_PCB (pcb_to_stream p) \<noteq> None"
  shows "\<exists>k'. kernel_step env k (Tracker_fires i) k' \<and> dom_sem k' = Suc (dom_sem k) \<and>
    using_slot k' = using_slot k"
proof -
  let ?k = "k\<lparr>trackers := drop_nth i (trackers k)\<rparr>"
  have same: "p\<lparr>status := status_num PCB_SUSPENDED_BLOCKED\<rparr> = p"
    using p(2) by (metis pcb_t.surjective pcb_t.update_convs(2))
  let ?k1 = "?k\<lparr>dom_sem := Suc (dom_sem k), pcb_heap := (pcb_heap k)(a \<mapsto> p), q_blocked_sus := q_blocked_sus k @ [a]\<rparr>"
  have "send_memory env ?k1 SWAP_PCB (pcb_to_stream p) \<noteq> None"
    using send_memory_same_side [of ?k1 k env SWAP_PCB "pcb_to_stream p"] served by simp
  then have "suspend env ?k a \<noteq> None"
    using p(1) same by (auto simp: suspend_def update_pcb_def safe_queue_push_def queue_smart_push_def
        swap_controller_send_pcb_def)
  then obtain k' where k': "suspend env ?k a = Some k'" by blast
  have "only_in_io ?k pid" using only by (simp add: only_in_io_def)
  then have "track_time env ?k (trackers k ! i) = Some k'" by (simp add: tracker(2) track_time_in_io k')
  then have "kernel_step env k (Tracker_fires i) k'" by (rule fires [OF tracker(1)])
  moreover obtain c m where eff: "k' = ?k\<lparr>pcb_heap := (pcb_heap k)(a \<mapsto> p),
      q_blocked_sus := q_blocked_sus k @ [a], conexion_memory := c, memory_side := m, dom_sem := Suc (dom_sem k)\<rparr>"
    using suspend_effect [OF _ k', of p] p(1) same by auto
  moreover have "using_slot k' = using_slot k"
    using io p by (simp add: eff using_slot_def in_io_def status_at_def)
  ultimately show ?thesis by auto
qed

end
