(* ===== verification/Cpu_Kernel.thy ===== *)
theory Cpu_Kernel
  imports Cpu Kernel
begin

section \<open>The CPU module answers as the kernel expects\<close>

text \<open>
  The kernel's step \<open>returns\<close> assumes that the CPU gives back the process it was sent
  (\<open>cpu_answers\<close>). Here the CPU module's own functions, from the request handler of its
  dispatch server through the instruction cycle to \<open>return_pcb\<close>, are shown to do that.
\<close>

definition runs :: "pcb_t \<Rightarrow> socket \<Rightarrow> cpu_t \<Rightarrow> bool" where
  "runs q fd cpu \<longleftrightarrow> dispatch_client cpu = Some fd \<and> (\<exists>p. cpu_pcb cpu = Some p \<and> same_process p q)"

definition answered :: "pcb_t \<Rightarrow> socket \<Rightarrow> cpu_t \<Rightarrow> bool" where
  "answered q fd cpu \<longleftrightarrow> cpu_pcb cpu = None \<and> (\<exists>p t. same_process p q \<and> dispatch_client cpu =
     Some (fd\<lparr>outgoing := outgoing fd @ message INOUT (pcb_to_stream p @ le32 t)\<rparr>))"

text \<open>Memory accesses do not touch the PCB nor the dispatch line.\<close>

definition same_job :: "cpu_t \<Rightarrow> cpu_t \<Rightarrow> bool" where
  "same_job cpu cpu' \<longleftrightarrow> cpu_pcb cpu' = cpu_pcb cpu \<and> dispatch_client cpu' = dispatch_client cpu"

lemma req_physical_address_job:
  "req_physical_address serve junk cpu m la = Some (v, cpu', m') \<Longrightarrow> same_job cpu cpu'"
  by (auto simp: req_physical_address_def request_table_2_entry_def request_frame_def same_job_def
      Let_def bind_eq_Some_conv split: option.splits)

lemma execute_READ_job:
  "execute_READ serve junk cpu m la = Some (v, cpu', m') \<Longrightarrow> same_job cpu cpu'"
  by (auto simp: execute_READ_def bind_eq_Some_conv same_job_def dest!: req_physical_address_job)

lemma execute_WRITE_job:
  "execute_WRITE serve junk cpu m la x = Some (cpu', m') \<Longrightarrow> same_job cpu cpu'"
  by (auto simp: execute_WRITE_def bind_eq_Some_conv same_job_def dest!: req_physical_address_job)

lemma runs_job: "runs q fd cpu \<Longrightarrow> same_job cpu cpu' \<Longrightarrow> runs q fd cpu'"
  by (simp add: runs_def same_job_def)

lemma return_pcb_answers:
  assumes "runs q fd cpu" and "\<not> send_error fd" and "return_pcb cpu t = Some (n, cpu')"
  shows "answered q fd cpu'"
proof -
  obtain p where p: "cpu_pcb cpu = Some p" "same_process p q" and fd: "dispatch_client cpu = Some fd"
    using assms(1) by (auto simp: runs_def)
  have len: "pcb_bytes_size p + 4 = length (pcb_to_stream p @ le32 t)"
    by (simp add: length_pcb_to_stream)
  have "cpu_pcb cpu' = None \<and> dispatch_client cpu' =
      Some (fd\<lparr>outgoing := outgoing fd @ message INOUT (pcb_to_stream p @ le32 t)\<rparr>)"
    using assms(3) p fd servidor_enviar_stream_message [OF assms(2) len, of INOUT]
    by (auto simp: return_pcb_def cpu_tlb_reset_def bind_eq_Some_conv)
  with p(2) show ?thesis unfolding answered_def by blast
qed

lemma runs_pcb:
  assumes "runs q fd cpu" and "cpu_pcb cpu = Some p" and "same_process p' p"
    and "cpu_pcb cpu' = Some p'" and "dispatch_client cpu' = dispatch_client cpu"
  shows "runs q fd cpu'"
  using assms by (auto simp: runs_def same_process_def)

lemma instruction_execute_runs:
  assumes "runs q fd cpu" and "\<not> send_error fd"
    and run: "instruction_execute serve junk i cpu m = Some (v, cpu', m')"
  shows "runs q fd cpu' \<or> answered q fd cpu'"
proof -
  obtain p where p: "cpu_pcb cpu = Some p" using assms(1) by (auto simp: runs_def)
  have st: "runs q fd (cpu\<lparr>cpu_pcb := Some (p\<lparr>status := s\<rparr>)\<rparr>)"
    "runs q fd (cpu\<lparr>cpu_pcb := Some (p\<lparr>status := s\<rparr>), tlb := t\<rparr>)" for s t
    by (rule runs_pcb [OF assms(1) p, of "p\<lparr>status := s\<rparr>"]; simp add: same_process_def)+
  show ?thesis
  proof (cases "instcode_of (icode i)")
    case (Some c)
    then show ?thesis
    proof (cases c)
      case C_REQUEST_IO
      then show ?thesis
        using run Some p st(1) assms(2)
        by (auto simp: instruction_execute_def execute_IO_def bind_eq_Some_conv
            intro: return_pcb_answers)
    next
      case C_REQUEST_EXIT
      then show ?thesis
        using run Some p st(2) assms(2)
        by (auto simp: instruction_execute_def execute_EXIT_def cpu_tlb_reset_def bind_eq_Some_conv
            intro: return_pcb_answers)
    qed (use run Some p assms(1) in \<open>auto simp: instruction_execute_def execute_COPY_def bind_eq_Some_conv
        dest!: execute_READ_job execute_WRITE_job intro: runs_job\<close>)
  qed (use run p assms(1) in \<open>auto simp: instruction_execute_def\<close>)
qed

lemma cycle_runs:
  assumes r: "runs q fd cpu" and ok: "\<not> send_error fd" and run: "cycle serve junk cpu m = Some (cpu', m')"
  shows "runs q fd cpu' \<or> answered q fd cpu'"
proof -
  obtain p where p: "cpu_pcb cpu = Some p" using r by (auto simp: runs_def)
  show ?thesis
  proof (cases "has_interruption cpu")
    case True
    obtain t n cpu1 where ret: "return_pcb (cpu\<lparr>cpu_pcb := Some (p\<lparr>status := status_num PCB_READY\<rparr>), tlb := t\<rparr>) 0
        = Some (n, cpu1)" and cpu': "cpu' = cpu1\<lparr>has_interruption := False\<rparr>"
      using run True p by (auto simp: cycle_def cpu_tlb_reset_def bind_eq_Some_conv)
    have "runs q fd (cpu\<lparr>cpu_pcb := Some (p\<lparr>status := status_num PCB_READY\<rparr>), tlb := t\<rparr>)"
      by (rule runs_pcb [OF r p, of "p\<lparr>status := status_num PCB_READY\<rparr>"]) (simp_all add: same_process_def)
    from return_pcb_answers [OF this ok ret] show ?thesis by (simp add: cpu' answered_def)
  next
    case False
    let ?p = "p\<lparr>pc := pc p + 1\<rparr>"
    let ?cpu = "cpu\<lparr>cpu_pcb := Some ?p\<rparr>"
    have r1: "runs q fd ?cpu"
      by (rule runs_pcb [OF r p, of ?p]) (simp_all add: same_process_def)
    let ?k = "sint (pc p)"
    show ?thesis
    proof (cases "0 \<le> ?k \<and> nat ?k < length (instructions p)")
      case no: False
      then have "cpu' = ?cpu" using run False p by (auto simp: cycle_def instruction_fetch_def)
      with r1 show ?thesis by simp
    next
      case fetched: True
      let ?i = "instructions p ! nat ?k"
      obtain i cpu1 m1 v where dec: "(if decode ?i
            then do {
              (value, cpu, m) \<leftarrow> fetch_operands serve junk ?cpu m (param1 ?i);
              let operandos = \<lparr>op1 = 0, op2 = 0\<rparr>;
              let instruction = ?i\<lparr>param0 := op1 operandos, param1 := value\<rparr>;
              cpu \<leftarrow> set_instruction cpu (nat ?k) instruction;
              Some (instruction, cpu, m) }
            else Some (?i, ?cpu, m)) = Some (i, cpu1, m1)"
        and ex: "instruction_execute serve junk i cpu1 m1 = Some (v, cpu', m')"
        using run False p fetched
        by (auto simp: cycle_def instruction_fetch_def arr_get_def bind_eq_Some_conv)
      have "runs q fd cpu1"
      proof (cases "decode ?i")
        case True
        then obtain x cpu2 where rd: "execute_READ serve junk ?cpu m (param1 ?i) = Some (x, cpu2, m1)"
          and set: "set_instruction cpu2 (nat ?k) (?i\<lparr>param0 := 0, param1 := x\<rparr>) = Some cpu1"
          using dec by (auto simp: fetch_operands_def Let_def bind_eq_Some_conv)
        have r2: "runs q fd cpu2" using runs_job [OF r1 execute_READ_job [OF rd]] .
        then obtain p2 where p2: "cpu_pcb cpu2 = Some p2" by (auto simp: runs_def)
        then obtain l where l: "arr_set (instructions p2) (nat ?k) (?i\<lparr>param0 := 0, param1 := x\<rparr>) = Some l"
          and cpu1: "cpu1 = cpu2\<lparr>cpu_pcb := Some (p2\<lparr>instructions := l\<rparr>)\<rparr>"
          using set by (auto simp: set_instruction_def bind_eq_Some_conv)
        have "length l = length (instructions p2)" using l by (auto simp: arr_set_def split: if_splits)
        then show ?thesis
          by (intro runs_pcb [OF r2 p2, of "p2\<lparr>instructions := l\<rparr>"]) (simp_all add: cpu1 same_process_def)
      next
        case False
        with dec r1 show ?thesis by simp
      qed
      from instruction_execute_runs [OF this ok ex] show ?thesis .
    qed
  qed
qed

lemma run_pcb_answers:
  assumes "\<not> send_error fd" and "runs q fd cpu \<or> answered q fd cpu"
    and "run_pcb n serve junk cpu m = Some (cpu', m', True)"
  shows "answered q fd cpu'"
  using assms(2,3)
proof (induction n arbitrary: cpu m)
  case 0
  then show ?case by (auto simp: runs_def)
next
  case (Suc n)
  show ?case
  proof (cases "cpu_pcb cpu = None")
    case True
    with Suc.prems show ?thesis by (auto simp: runs_def)
  next
    case False
    then have r: "runs q fd cpu" using Suc.prems(1) by (auto simp: answered_def)
    obtain cpu1 m1 where c: "cycle serve junk cpu m = Some (cpu1, m1)"
      and rest: "run_pcb n serve junk cpu1 m1 = Some (cpu', m', True)"
      using Suc.prems(2) False by (auto simp: bind_eq_Some_conv)
    from cycle_runs [OF r assms(1) c] rest show ?thesis by (rule Suc.IH)
  qed
qed

text \<open>The whole way: the handler takes the message of the kernel, the cycle runs, and what is on
  the line is an answer in the sense of the kernel's step.\<close>

lemma request_handler_pcb:
  assumes "cpu_pcb cpu = None" and "\<not> recv_error fd" and "incoming fd = message PCB stream"
    and "length stream < 2 ^ 32" and "request_handler junk pj cpu fd = Some (cpu', fd', stays)"
  obtains q where "pcb_from_stream pj stream = Some q" and "cpu_pcb cpu' = Some q"
    and "fd' = fd\<lparr>incoming := []\<rparr>"
proof -
  let ?s = "fd\<lparr>incoming := le32 (word_of_nat (length stream)) @ stream\<rparr>"
  have op: "servidor_recibir_operacion junk fd = (7, ?s)"
    using recibir_operacion_message [of fd PCB stream "[]" junk] assms(2,3) by simp
  have "opcode_of 7 = Some PCB" by (simp add: opcode_of_def opcodes_def)
  moreover have "servidor_recibir_stream junk ?s = (Some (stream, int (length stream)), fd\<lparr>incoming := []\<rparr>)"
    using recibir_buffer_message [of ?s stream "[]" junk] assms(2,4) by simp
  ultimately show ?thesis
    using assms(5) that unfolding request_handler_def op
    by (auto simp: receive_pcb_def bind_eq_Some_conv split: if_splits)
qed

lemma read_u32_bound: "read_u32 s k = Some v \<Longrightarrow> k + 4 \<le> length s"
  by (auto simp: read_u32_def read_bytes_def bind_eq_Some_conv split: if_splits)

lemma read_instructions_bound:
  "read_instructions s off n = Some is \<Longrightarrow> length is = n \<and> (n = 0 \<or> off + 12 * n \<le> length s)"
proof (induction n arbitrary: off "is")
  case 0
  then show ?case by simp
next
  case (Suc n)
  then obtain i "is'" where i: "instruction_from_stream (drop off s) = Some i"
    and r: "read_instructions s (off + 12) n = Some is'" and "is": "is = i # is'"
    by (auto simp: bind_eq_Some_conv)
  obtain v where "read_u32 (drop off s) 8 = Some v"
    using i by (auto simp: instruction_from_stream_def bind_eq_Some_conv)
  then have "8 + 4 \<le> length (drop off s)" by (rule read_u32_bound)
  then show ?case using Suc.IH [OF r] by (auto simp: "is")
qed

lemma pcb_from_stream_size:
  assumes "pcb_from_stream junk s = Some q"
  shows "pcb_bytes_size q \<le> length s"
proof -
  obtain n where n: "read_u32 (drop 24 s) 0 = Some n"
    and r: "read_instructions (drop 24 s) 4 (unat n) = Some (instructions q)"
    using assms by (auto simp: pcb_from_stream_def instruction_list_from_def bind_eq_Some_conv)
  show ?thesis
    using read_u32_bound [OF n] read_instructions_bound [OF r] by (auto simp: pcb_bytes_size_def)
qed

lemma cpu_module_answers:
  assumes line: "outgoing (sock c) = message PCB stream" and small: "length stream + 4 < 2 ^ 32"
    and idle: "cpu_pcb cpu = None"
    and fd: "incoming fd = outgoing (sock c)" "\<not> recv_error fd" "\<not> send_error fd" "outgoing fd = []"
    and got: "request_handler junk pj cpu fd = Some (cpu1, fd1, stays)"
    and run: "run_pcb n serve junk (cpu1\<lparr>dispatch_client := Some fd1\<rparr>) m = Some (cpu2, m2, True)"
  shows "\<exists>p t fd2. dispatch_client cpu2 = Some fd2 \<and>
    cpu_answers pj c p t (c\<lparr>sock := (sock c)\<lparr>outgoing := [], incoming := outgoing fd2\<rparr>\<rparr>)"
proof -
  have "incoming fd = message PCB stream" "length stream < 2 ^ 32" using line fd(1) small by simp_all
  from idle fd(2) this got obtain q where q: "pcb_from_stream pj stream = Some q"
    and cpu1: "cpu_pcb cpu1 = Some q" and fd1: "fd1 = fd\<lparr>incoming := []\<rparr>"
    by (rule request_handler_pcb)
  have r: "runs q fd1 (cpu1\<lparr>dispatch_client := Some fd1\<rparr>)"
    using cpu1 by (simp add: runs_def same_process_def)
  have "\<not> send_error fd1" using fd(3) by (simp add: fd1)
  then have "answered q fd1 cpu2" using r run by (blast intro: run_pcb_answers)
  then obtain p t where p: "same_process p q" and out: "dispatch_client cpu2 =
      Some (fd1\<lparr>outgoing := message INOUT (pcb_to_stream p @ le32 t)\<rparr>)"
    using fd(4) by (auto simp: answered_def fd1)
  have "pcb_bytes_size p + 4 < 2 ^ 32"
    using pcb_from_stream_size [OF q] p small by (simp add: pcb_bytes_size_def same_process_def)
  then have "cpu_answers pj c p t (c\<lparr>sock := (sock c)\<lparr>outgoing := [],
      incoming := message INOUT (pcb_to_stream p @ le32 t)\<rparr>\<rparr>)"
    using line q p by (auto simp: cpu_answers_def)
  with out show ?thesis by fastforce
qed

end
