(* ===== verification/Process_Service.thy ===== *)
theory Process_Service
  imports Cpu_Memory Scheduler
begin

section \<open>The contract between the kernel and the memory\<close>

text \<open>
  The locale \<open>process_service\<close> states what the kernel relies on: the memory answers
  \<open>MEMORY_INIT\<close> with the index of the table it made and takes
  \<open>PROCESS_TERMINATED\<close> and \<open>SWAP_PCB\<close> without an answer. Inside it the requests of
  the schedulers are computed without the sockets. The interpretation puts the memory
  module in its place.
\<close>

locale process_service =
  fixes serve :: "'m server"
    and start :: "'m \<Rightarrow> u32 \<Rightarrow> u32 \<Rightarrow> ('m \<times> u32) option"
    and finish :: "'m \<Rightarrow> u32 \<Rightarrow> u32 \<Rightarrow> 'm option"
    and swap_out :: "'m \<Rightarrow> pcb_t \<Rightarrow> 'm option"
  assumes serve_start: "serve m (message MEMORY_INIT (operandos_to_stream \<lparr>op1 = pid, op2 = sz\<rparr>)) =
      map_option (\<lambda>(m, t). (m, message MEMORY_INIT (le32 t))) (start m pid sz)"
    and serve_finish: "serve m (message PROCESS_TERMINATED (le32 pid @ le32 t)) =
      map_option (\<lambda>m. (m, [])) (finish m pid t)"
    and serve_swap: "length (pcb_to_stream pcb) < 2 ^ 32 \<Longrightarrow>
      serve m (message SWAP_PCB (pcb_to_stream pcb)) = map_option (\<lambda>m. (m, [])) (swap_out m pcb)"
begin

lemma send_memory_eq:
  assumes "mem_server env = serve" and "conn_ok (conexion_memory k)"
  shows "send_memory env k code data =
    map_option (\<lambda>(m, reply). (int (length data) + 8,
        k\<lparr>conexion_memory := (conexion_memory k)\<lparr>sock := (sock (conexion_memory k))\<lparr>incoming := reply\<rparr>\<rparr>,
          memory_side := m\<rparr>))
      (serve (memory_side k) (message code data))"
  using assms
  by (cases "serve (memory_side k) (message code data)")
    (auto simp: send_memory_def conexion_enviar_message deliver_message simp del: opcode_num.simps)

lemma conn_ok_nothing: "conn_ok c \<Longrightarrow> c\<lparr>sock := (sock c)\<lparr>incoming := []\<rparr>\<rparr> = c"
  by (simp add: conn_ok_def)

lemma request_page_table_eq:
  assumes "mem_server env = serve" and ok: "conn_ok (conexion_memory k)" and p: "pcb_heap k a = Some p"
  shows "request_page_table env k a =
    map_option (\<lambda>(m, t). k\<lparr>memory_side := m, pcb_heap := (pcb_heap k)(a \<mapsto> p\<lparr>page_table := t\<rparr>)\<rparr>)
      (start (memory_side k) (pcb_id p) (ucast (pcb_size p)))"
proof (cases "start (memory_side k) (pcb_id p) (ucast (pcb_size p))")
  case None
  then show ?thesis
    using p send_memory_eq [OF assms(1,2)] by (simp add: request_page_table_def serve_start)
next
  case (Some r)
  obtain m t where r: "r = (m, t)" by (cases r)
  let ?s = "(sock (conexion_memory k))\<lparr>incoming := message MEMORY_INIT (le32 t)\<rparr>"
  have "conexion_recibir_stream (stack_junk env) ?s = (Some (le32 t, 12), (sock (conexion_memory k)))"
    using ok by (simp add: conexion_recibir_stream_def recv_def conn_ok_def overlay_full message_def)
  moreover have "read_u32 (le32 t) 0 = Some t" using read_u32_append(2) [of t "[]"] by simp
  ultimately show ?thesis
    using Some r p send_memory_eq [OF assms(1,2)] ok
    by (simp add: request_page_table_def serve_start update_pcb_def)
qed

lemma terminate_eq:
  assumes "mem_server env = serve" and ok: "conn_ok (conexion_memory k)" and p: "pcb_heap k a = Some p"
  shows "terminate env k a =
    map_option (\<lambda>m. k\<lparr>memory_side := m, pcb_heap := (pcb_heap k)(a := None), dom_sem := Suc (dom_sem k)\<rparr>)
      (finish (memory_side k) (pcb_id p) (page_table p))"
  using assms send_memory_eq [OF assms(1,2)]
  by (cases "finish (memory_side k) (pcb_id p) (page_table p)")
    (simp_all add: terminate_def swap_controller_exit_def serve_finish pcb_destroy_def conn_ok_nothing)

lemma suspend_eq:
  assumes "mem_server env = serve" and ok: "conn_ok (conexion_memory k)" and p: "pcb_heap k a = Some p"
    and "pcb_bytes_size p < 2 ^ 32"
  shows "suspend env k a =
    map_option (\<lambda>m. k\<lparr>memory_side := m, dom_sem := Suc (dom_sem k),
        pcb_heap := (pcb_heap k)(a \<mapsto> p\<lparr>status := status_num PCB_SUSPENDED_BLOCKED\<rparr>),
        q_blocked_sus := q_blocked_sus k @ [a]\<rparr>)
      (swap_out (memory_side k) (p\<lparr>status := status_num PCB_SUSPENDED_BLOCKED\<rparr>))"
proof -
  let ?p = "p\<lparr>status := status_num PCB_SUSPENDED_BLOCKED\<rparr>"
  let ?k = "k\<lparr>dom_sem := Suc (dom_sem k), pcb_heap := (pcb_heap k)(a \<mapsto> ?p),
    q_blocked_sus := q_blocked_sus k @ [a]\<rparr>"
  have small: "length (pcb_to_stream ?p) < 2 ^ 32"
    using assms(4) by (simp add: length_pcb_to_stream pcb_bytes_size_def)
  have "send_memory env ?k SWAP_PCB (pcb_to_stream ?p) =
      map_option (\<lambda>m. (int (length (pcb_to_stream ?p)) + 8, ?k\<lparr>memory_side := m\<rparr>)) (swap_out (memory_side k) ?p)"
    using send_memory_eq [OF assms(1), of ?k] ok serve_swap [OF small]
    by (cases "swap_out (memory_side k) ?p") (simp_all add: conn_ok_nothing)
  then show ?thesis
    using p by (cases "swap_out (memory_side k) ?p")
      (simp_all add: suspend_def update_pcb_def swap_controller_send_pcb_def safe_queue_push_def queue_smart_push_def)
qed

end

subsection \<open>The memory module keeps the contract\<close>

text \<open>What the three requests of the kernel do, without the sockets.\<close>

definition start_process :: "memory \<Rightarrow> u32 \<Rightarrow> u32 \<Rightarrow> (memory \<times> u32) option" where
  "start_process m pid sz = do {
     m \<leftarrow> create_file (m\<lparr>swap_data := safe_list_add (swap_data m) (Some (new_swap_data pid sz))\<rparr>) pid sz;
     (m, t) \<leftarrow> create_new_process m;
     print_tables m;
     Some (m, t) }"

definition finish_process :: "memory \<Rightarrow> u32 \<Rightarrow> u32 \<Rightarrow> memory option" where
  "finish_process m pid t = do {
     m \<leftarrow> delete_process m t;
     m \<leftarrow> delete_swapped_pcb m pid;
     print_tables m;
     Some m }"

definition swap_out_process :: "pcb_junk \<Rightarrow> memory \<Rightarrow> pcb_t \<Rightarrow> memory option" where
  "swap_out_process pj m pcb = map_option fst (swap_pcb_stream pj m (pcb_to_stream pcb))"

interpretation mem_proc: process_service "serve_memory junk pj" start_process finish_process
  "swap_out_process pj"
proof
  fix m pid sz t pcb
  show "serve_memory junk pj m (message MEMORY_INIT (operandos_to_stream \<lparr>op1 = pid, op2 = sz\<rparr>)) =
      map_option (\<lambda>(m, t). (m, message MEMORY_INIT (le32 t))) (start_process m pid sz)"
    using served_stream [of "operandos_to_stream \<lparr>op1 = pid, op2 = sz\<rparr>" junk]
      operandos_roundtrip [of "\<lparr>op1 = pid, op2 = sz\<rparr>"]
    by (simp add: serve_memory_def routine_step_message kernel_controller_memory_init_def
        start_process_def operandos_to_stream_def servidor_enviar_stream_message Let_def
        map_option_bind comp_def case_prod_unfold map_conv_bind_option)
  show "serve_memory junk pj m (message PROCESS_TERMINATED (le32 pid @ le32 t)) =
      map_option (\<lambda>m. (m, [])) (finish_process m pid t)"
    using served_stream [of "le32 pid @ le32 t" junk] read_u32_append(1) [of "le32 pid" t "[]"]
      read_u32_append(2) [of pid "le32 t"]
    by (simp add: serve_memory_def routine_step_message kernel_controller_destroy_process_file_def
        finish_process_def Let_def map_option_bind comp_def case_prod_unfold map_conv_bind_option)
  show "serve_memory junk pj m (message SWAP_PCB (pcb_to_stream pcb)) =
      map_option (\<lambda>m. (m, [])) (swap_out_process pj m pcb)" if "length (pcb_to_stream pcb) < 2 ^ 32"
    using served_stream [OF that, of junk]
    by (simp add: serve_memory_def routine_step_message kernel_controller_swap_def
        swap_out_process_def Let_def map_option_bind comp_def case_prod_unfold map_conv_bind_option)
qed

subsection \<open>What the requests do to the memory\<close>

text \<open>The entries of \<open>swap_data\<close> are never \<open>NULL\<close>, and a page of the system holds an identifier.\<close>

definition swap_ready :: "memory \<Rightarrow> bool" where
  "swap_ready m \<longleftrightarrow> list_all (\<lambda>d. d \<noteq> None) (swap_data m) \<and> 4 \<le> os_page (os m)"

lemma process_rows_cong:
  assumes "tables_lvl_1 m' = tables_lvl_1 m" and "tables_lvl_2 m' = tables_lvl_2 m"
    and "max_rows m' = max_rows m"
  shows "process_rows m' ti = process_rows m ti"
proof -
  have "create_big_table m' ti = create_big_table m ti" by (simp only: create_big_table_def assms)
  moreover have "deref_row m' = deref_row m"
    by (rule ext) (metis assms(2) deref_row_def surj_pair)
  moreover have "view bt m' = view bt m" if "deref_row m' = deref_row m" for bt
    using that by (simp add: view_def)
  ultimately show ?thesis by (simp add: process_rows_def cong: if_cong)
qed

lemma foldM_unit: "(\<And>i. i \<in> set xs \<Longrightarrow> f i () = Some ()) \<Longrightarrow> foldM f xs () = Some ()"
  by (induction xs) auto

lemma print_tables_defined:
  assumes "tables_wf m"
  shows "print_tables m = Some ()"
  unfolding print_tables_def
proof (rule foldM_unit)
  fix i assume "i \<in> set [0..<safe_list_size (tables_lvl_1 m)]"
  then have i: "i < length (tables_lvl_1 m)" by (simp add: safe_list_size_def)
  then have "sint (word_of_nat i :: u32) = int i"
    using assms by (intro sint_u32_of_nat) (simp add: tables_wf_def)
  then show "(case safe_list_get (tables_lvl_1 m) (int i) of
       None \<Rightarrow> Some () | Some _ \<Rightarrow> print_table m (word_of_nat i)) = Some ()"
    using print_table_live [OF assms, of "word_of_nat i"] by (auto split: option.split)
qed

text \<open>A process that starts gets tables of its own with no frames; nobody else's pages change.\<close>

lemma start_process_effect:
  assumes wf: "mem_wf m" and room: "has_room m" and ready: "swap_ready m"
  shows "\<exists>m' t. start_process m pid sz = Some (m', t) \<and> mem_wf m' \<and>
    safe_list_get (tables_lvl_1 m) (sint t) = None \<and>
    process_rows m' t = Some (replicate (rows_of m * rows_of m) free_row) \<and>
    (\<forall>tj rs. tj \<noteq> t \<longrightarrow> process_rows m tj = Some rs \<longrightarrow> process_rows m' tj = Some rs) \<and>
    frames m' = frames m"
proof -
  let ?m = "m\<lparr>swap_data := safe_list_add (swap_data m) (Some (new_swap_data pid sz))\<rparr>"
  obtain m1 where m1: "create_file ?m pid sz = Some m1" "m1\<lparr>swap_files := swap_files ?m\<rparr> = ?m"
    using create_file_defined [of ?m pid sz] ready by (auto simp: swap_ready_def)
  have kept: "keeps m m1"
    using create_file_keeps [OF m1(1), of m] by (simp add: keeps_def frame_at_def deref_row_def shape_def)
  have rows: "process_rows m1 tj = process_rows m tj" and same: "tables_lvl_1 m1 = tables_lvl_1 m"
    "rows_of m1 = rows_of m" "frames m1 = frames m" for tj
    using m1(2) by (auto intro!: process_rows_cong)
      (metis memory.select_convs memory.surjective memory.update_convs)+
  have wf1: "mem_wf m1" "tables_wf m1" "has_room m1"
    using keeps_wf [OF kept wf] keeps_room [OF kept room] by (simp_all add: mem_wf_def)
  obtain m2 t where m2: "create_new_process m1 = Some (m2, t)"
    using create_new_process_eq [OF wf1(2,3)] by metis
  note fresh = create_new_process_fresh [OF wf1(2,3) m2]
  have wf2: "mem_wf m2" by (rule create_process_mem_wf [OF wf1(1,3) m2])
  then have "print_tables m2 = Some ()" by (intro print_tables_defined) (simp add: mem_wf_def)
  then have "start_process m pid sz = Some (m2, t)" using m1(1) m2 by (simp add: start_process_def)
  moreover have "frames m2 = frames m"
    using fresh(4) same(3) by (metis memory.select_convs(4) memory.surjective memory.update_convs(6,7))
  ultimately show ?thesis using fresh(1-3) wf2 by (auto simp: rows same)
qed

text \<open>A process that ends loses its slot, its metadata and its swap file; of its frames, the ones in
  the first \<open>freed_rows\<close> rows of each table are given back.\<close>

lemma finish_process_effect:
  assumes wf: "mem_wf m" and ready: "swap_ready m"
    and live: "safe_list_get (tables_lvl_1 m) (sint ti) = Some t"
  shows "\<exists>m'. finish_process m pid ti = Some m' \<and> mem_wf m' \<and>
    safe_list_get (tables_lvl_1 m') (sint ti) = None \<and> swap_files m' pid = None \<and>
    (\<forall>tj rs. tj \<noteq> ti \<longrightarrow> process_rows m tj = Some rs \<longrightarrow> process_rows m' tj = Some rs) \<and>
    (\<forall>s j f. s \<in> set (process_ids m ti) \<longrightarrow> frame_at m (sint s, j) = f \<longrightarrow> f \<noteq> INVALID_FRAME \<longrightarrow>
      arr_get (frames m') (unat f) = Some (freed_rows m \<le> j))"
proof -
  have parts: "tables_wf m" "frames_wf m" using wf by (simp_all add: mem_wf_def)
  note eq = delete_process_eq [OF parts live]
  then obtain m1 where m1: "delete_process m ti = Some m1" by blast
  have fields: "swap_data m1 = swap_data m" "os m1 = os m"
    "safe_list_get (tables_lvl_1 m1) (sint ti) = None"
    using eq m1 by (auto simp: safe_list_get_def)
  obtain l where l: "delete_swap_data (delete_swap_file m1 pid) pid =
      Some ((delete_swap_file m1 pid)\<lparr>swap_data := l\<rparr>)"
    using delete_swap_data_defined [of "delete_swap_file m1 pid" pid] ready fields(1)
    by (auto simp: swap_ready_def delete_swap_file_def)
  let ?m = "(delete_swap_file m1 pid)\<lparr>swap_data := l\<rparr>"
  have gone: "delete_swapped_pcb m1 pid = Some ?m" using l by (simp add: delete_swapped_pcb_def)
  have wf': "mem_wf ?m"
    using delete_swapped_pcb_keeps [OF gone keeps_refl] delete_process_mem_wf [OF wf m1] by (rule keeps_wf)
  then have "print_tables ?m = Some ()" by (intro print_tables_defined) (simp add: mem_wf_def)
  then have "finish_process m pid ti = Some ?m" using m1 gone by (simp add: finish_process_def)
  moreover have "process_rows ?m tj = process_rows m1 tj" for tj
    by (rule process_rows_cong) (simp_all add: delete_swap_file_def)
  moreover have "swap_files ?m pid = None" "tables_lvl_1 ?m = tables_lvl_1 m1" "frames ?m = frames m1"
    by (simp_all add: delete_swap_file_def)
  ultimately show ?thesis
    using wf' fields(3) delete_process_other [OF parts live m1] delete_process_frees [OF parts live m1]
    by auto
qed

text \<open>A process that is swapped out: its file becomes the bytes of its PCB.\<close>

lemma swap_out_process_eq:
  assumes "length (instructions pcb) < 2 ^ 32" and "swap_ready m"
  shows "swap_out_process pj m pcb = Some
    (if \<not> open_ok (os m) (pcb_id pcb) then m
     else if \<not> mmap_ok (os m) (pcb_id pcb)
     then set_file m (pcb_id pcb) (truncate_file (length (pcb_to_stream pcb))
       (case swap_files m (pcb_id pcb) of None \<Rightarrow> [] | Some f \<Rightarrow> f))
     else set_file m (pcb_id pcb) (pcb_to_stream pcb))"
  using swap_pcb_stream_eq [OF assms(1), of m pj] assms(2)
  by (simp add: swap_out_process_def swap_ready_def)

end
