(* ===== verification/Kernel_Memory.thy ===== *)
theory Kernel_Memory
  imports Late_Trackers Process_Service Samples
begin

section \<open>The schedulers on the memory module\<close>

text \<open>
  The kernel with \<open>serve_memory\<close> at the other end of its connection: what an admission, an end
  and a suspension do to both of them, that the module takes the requests which progress needs,
  and a sample run of a kernel on the module.
\<close>

subsection \<open>Admission\<close>

text \<open>The line to the CPU's interruptions after \<open>check_interruption\<close>: with an algorithm that
  interrupts, a process with a shorter estimation than the current one sends an \<open>INT\<close>.\<close>

definition signalled :: "'m kernel \<Rightarrow> pcb_t \<Rightarrow> conexion_t" where
  "signalled k p =
     (if interrupt k \<and> estimation p < current_estimation k
      then snd (connection_send_value (conexion_interrupt k) (le32 (opcode_num INT_op)))
      else conexion_interrupt k)"

lemma check_interruption_eq:
  assumes "pcb_heap k a = Some p"
  shows "check_interruption k a = Some (k\<lparr>conexion_interrupt := signalled k p\<rparr>)"
  using assms
  by (simp add: check_interruption_def should_interrupt_def cpu_controller_send_interrupt_def signalled_def
      case_prod_unfold Let_def)

text \<open>A process that was suspended comes first, and the memory is not asked for anything.\<close>

lemma admit_resumes_eq:
  assumes "q_ready_sus k = a # qs" and "pcb_heap k a = Some p"
  shows "admit env k = Some (k\<lparr>q_ready_sus := qs,
    pcb_heap := (pcb_heap k)(a \<mapsto> p\<lparr>status := status_num PCB_READY\<rparr>),
    conexion_interrupt := signalled k p, q_ready := q_ready k @ [a], execute_sem := Suc (execute_sem k)\<rparr>)"
proof -
  let ?q = "p\<lparr>status := status_num PCB_READY\<rparr>"
  let ?k = "k\<lparr>q_ready_sus := qs, pcb_heap := (pcb_heap k)(a \<mapsto> ?q)\<rparr>"
  have "check_interruption ?k a = Some (?k\<lparr>conexion_interrupt := signalled ?k ?q\<rparr>)"
    by (rule check_interruption_eq) simp
  moreover have "signalled ?k ?q = signalled k p" by (simp add: signalled_def)
  ultimately show ?thesis
    using assms by (simp add: admit_def resume_def update_pcb_def safe_queue_push_def queue_smart_push_def)
qed

lemma admit_new_eq:
  assumes serve: "mem_server env = serve_memory junk pj" and conn: "conn_ok (conexion_memory k)"
    and q: "q_ready_sus k = []" "q_new k = a # qs" and p: "pcb_heap k a = Some p"
    and start: "start_process (memory_side k) (pcb_id p) (ucast (pcb_size p)) = Some (m, t)"
  shows "admit env k = Some (k\<lparr>q_new := qs, memory_side := m,
    pcb_heap := (pcb_heap k)(a \<mapsto> p\<lparr>page_table := t, status := status_num PCB_READY\<rparr>),
    conexion_interrupt := signalled k p, q_ready := q_ready k @ [a], execute_sem := Suc (execute_sem k)\<rparr>)"
proof -
  let ?q = "p\<lparr>page_table := t, status := status_num PCB_READY\<rparr>"
  let ?k = "k\<lparr>q_new := qs, memory_side := m, pcb_heap := (pcb_heap k)(a \<mapsto> ?q)\<rparr>"
  have "conectado (conexion_memory k)" using conn by (simp add: conn_ok_def)
  moreover have "resume k = (None, k)" using q(1) by (simp add: resume_def)
  moreover have "request_page_table env (k\<lparr>q_new := qs\<rparr>) a =
      Some (k\<lparr>q_new := qs, memory_side := m, pcb_heap := (pcb_heap k)(a \<mapsto> p\<lparr>page_table := t\<rparr>)\<rparr>)"
    using mem_proc.request_page_table_eq [of env junk pj "k\<lparr>q_new := qs\<rparr>" a p] serve conn p start by simp
  moreover have "check_interruption ?k a = Some (?k\<lparr>conexion_interrupt := signalled ?k ?q\<rparr>)"
    by (rule check_interruption_eq) simp
  moreover have "signalled ?k ?q = signalled k p" by (simp add: signalled_def)
  ultimately show ?thesis
    using q by (simp add: admit_def update_pcb_def safe_queue_push_def queue_smart_push_def)
qed

subsection \<open>The module takes the requests of the schedulers\<close>

lemma module_serves_admission:
  assumes serve: "mem_server env = serve_memory junk pj" and conn: "conn_ok (conexion_memory k)"
    and mem: "mem_wf (memory_side k)" "has_room (memory_side k)" "swap_ready (memory_side k)"
    and alive: "\<forall>a \<in> set (q_new k). pcb_heap k a \<noteq> None"
  shows "admission_served env k"
proof (cases "q_ready_sus k @ q_new k")
  case Nil
  then show ?thesis by (simp add: admission_served_def)
next
  case (Cons a qs)
  have "request_page_table env k a \<noteq> None" if "q_ready_sus k = []"
  proof -
    have "a \<in> set (q_new k)" using Cons that by simp
    then obtain p where p: "pcb_heap k a = Some p" using alive by blast
    obtain m t where "start_process (memory_side k) (pcb_id p) (ucast (pcb_size p)) = Some (m, t)"
      using start_process_effect [OF mem] by blast
    then show ?thesis using mem_proc.request_page_table_eq [OF serve conn p] by simp
  qed
  then show ?thesis using Cons by (simp add: admission_served_def)
qed

lemma module_serves_suspension:
  assumes serve: "mem_server env = serve_memory junk pj" and conn: "conn_ok (conexion_memory k)"
    and ready: "swap_ready (memory_side k)"
    and small: "\<forall>a p. pcb_heap k a = Some p \<longrightarrow> pcb_bytes_size p < 2 ^ 32"
  shows "suspension_served env k"
proof -
  have "send_memory env k SWAP_PCB (pcb_to_stream (p\<lparr>status := s\<rparr>)) \<noteq> None" if p: "pcb_heap k a = Some p" for a p s
  proof -
    let ?p = "p\<lparr>status := s\<rparr>"
    have size: "pcb_bytes_size ?p < 2 ^ 32" using small p by (simp add: pcb_bytes_size_def)
    then have len: "length (pcb_to_stream ?p) < 2 ^ 32" by (simp add: length_pcb_to_stream)
    have "length (instructions ?p) < 2 ^ 32" using size by (simp add: pcb_bytes_size_def)
    from swap_out_process_eq [OF this ready, of pj] show ?thesis
      using mem_proc.send_memory_eq [OF serve conn, of SWAP_PCB "pcb_to_stream ?p"]
        mem_proc.serve_swap [OF len, of junk pj "memory_side k"] by simp
  qed
  then show ?thesis by (auto simp: suspension_served_def list_all_iff split: option.split)
qed

subsection \<open>A sample run\<close>

text \<open>A kernel that is connected to the memory of \<open>Samples\<close>: a program comes in, is admitted with
  tables of the memory module, runs, and blocks.\<close>

definition memory_env :: "memory kernel_env" where
  "memory_env = \<lparr>mem_server = serve_memory (\<lambda>_. 0) sample_junk, list_sort = sort_by,
     alfa_part = (\<lambda>r. r div 2), rest_part = (\<lambda>e. e div 2), estimacion_inicial = 10,
     stack_junk = (\<lambda>_. 0), heap_junk = sample_junk\<rparr>"

definition module_kernel :: "memory kernel" where
  "module_kernel = on_init_kernel 1 ''SRT'' online online offline sample_start"

definition queued_kernel :: "memory kernel" where
  "queued_kernel = module_kernel\<lparr>clients := [(quiet [], 0)], pids := new_pids[0 := True],
     pcb_heap := [0 \<mapsto> (new_pcb 0 64 10)\<lparr>instructions := io_program\<rparr>], brk := 1, q_new := [0], lts := Lts_request\<rparr>"

definition started :: "memory \<times> u32" where
  "started = the (start_process sample_start 0 64)"

definition admitted_kernel :: "memory kernel" where
  "admitted_kernel = queued_kernel\<lparr>q_new := [], memory_side := fst started,
     pcb_heap := [0 \<mapsto> (new_pcb 0 64 10)\<lparr>instructions := io_program, page_table := snd started, status := 1\<rparr>],
     q_ready := [0], execute_sem := 1, dom_sem := 0, lts := Lts_waiting\<rparr>"

definition module_runs_kernel :: "memory kernel" where
  "module_runs_kernel = admitted_kernel\<lparr>pcb_heap := Map.empty, q_ready := [], execute_sem := 0,
     current_estimation := 10, sts := Sts_running, conexion_dispatch :=
       cpu_has ((new_pcb 0 64 10)\<lparr>instructions := io_program, page_table := snd started, status := 2\<rparr>)\<rparr>"

definition module_waits_kernel :: "memory kernel" where
  "module_waits_kernel = admitted_kernel\<lparr>pcb_heap := [1 \<mapsto> (blocked_answer 6)\<lparr>page_table := snd started,
       io := 7, real_time := 3\<rparr>],
     brk := 2, q_ready := [], q_blocked := [1], trackers := [(1, 0)], io_request := 1\<rparr>"

lemma module_kernel_fields:
  "clients module_kernel = []" "pids module_kernel = new_pids" "pcb_heap module_kernel = Map.empty"
  "brk module_kernel = 0" "pcbs module_kernel = []" "q_new module_kernel = []" "req_admit module_kernel = 0"
  "q_ready module_kernel = []" "q_ready_sus module_kernel = []" "q_blocked module_kernel = []"
  "q_blocked_sus module_kernel = []" "dom_sem module_kernel = 1" "io_request module_kernel = 0"
  "execute_sem module_kernel = 0" "interrupt module_kernel = True" "get_next_fn module_kernel = Get_next_fifo"
  "current_estimation module_kernel = 0" "current_io module_kernel = UINT32_MAX" "trackers module_kernel = []"
  "lts module_kernel = Lts_waiting" "sts module_kernel = Sts_waiting" "io_unit module_kernel = Io_waiting"
  "conexion_memory module_kernel = online" "conexion_dispatch module_kernel = online"
  "conexion_interrupt module_kernel = offline" "memory_side module_kernel = sample_start"
  by (simp_all add: module_kernel_def on_init_kernel_def new_scheduler_def new_safe_queue_def)

lemma memory_env_fields:
  "mem_server memory_env = serve_memory (\<lambda>_. 0) sample_junk" "list_sort memory_env = sort_by"
  "alfa_part memory_env = (\<lambda>r. r div 2)" "rest_part memory_env = (\<lambda>e. e div 2)"
  "estimacion_inicial memory_env = 10" "heap_junk memory_env = \<lparr>size_hi = 0, junk_io = 0, junk_real = 0\<rparr>"
  by (simp_all add: memory_env_def sample_junk_def)

lemma online_ok: "conn_ok online"
  by (simp add: conn_ok_def online_def quiet_def)

lemma sample_start_ready:
  "mem_wf sample_start" "has_room sample_start" "swap_ready sample_start"
  by code_simp+

lemma started_eq:
  "start_process sample_start 0 64 = Some started"
proof -
  have "start_process sample_start 0 64 \<noteq> None"
    using start_process_effect [OF sample_start_ready, of 0 64] by auto
  then show ?thesis by (auto simp: started_def)
qed

lemma started_ready: "swap_ready (fst started)"
  by code_simp

lemma queued_run:
  "kernel_run memory_env module_kernel
     [Connect (quiet (console_bytes 64 io_program)), Request 0, Request 0, Wake] = Some queued_kernel"
  "kernel_reachable memory_env module_kernel queued_kernel"
proof -
  let ?s = "quiet (console_bytes 64 io_program)" and ?s1 = "quiet (message CMD (instructions_fold io_program))"
  let ?k0 = "module_kernel\<lparr>clients := [(?s, 0)]\<rparr>"
  let ?k1 = "module_kernel\<lparr>clients := [(?s1, 0)], pids := new_pids[0 := True], pcb_heap := [0 \<mapsto> new_pcb 0 64 10],
    brk := 1, pcbs := [0]\<rparr>"
  let ?k2 = "module_kernel\<lparr>clients := [(quiet [], 0)], pids := new_pids[0 := True],
    pcb_heap := [0 \<mapsto> (new_pcb 0 64 10)\<lparr>instructions := io_program\<rparr>], brk := 1, q_new := [0], req_admit := 1\<rparr>"
  have d: "kernel_do memory_env module_kernel (Connect ?s) = Some ?k0"
    "kernel_do memory_env ?k0 (Request 0) = Some ?k1" "kernel_do memory_env ?k1 (Request 0) = Some ?k2"
    "kernel_do memory_env ?k2 Wake = Some queued_kernel"
    using sys_request [of ?s 64 "message CMD (instructions_fold io_program)" ?k0 0 "new_pids[0 := True]" memory_env 0]
      cmd_request [of ?s1 io_program "[]" ?k1 "[]" 0 "new_pcb 0 64 10" 0 memory_env]
    by (simp_all add: quiet_def console_bytes_def first_pid module_kernel_fields memory_env_fields io_program_def
        safe_queue_push_def queue_smart_push_def queued_kernel_def new_pcb_def)
  then show "kernel_run memory_env module_kernel
     [Connect (quiet (console_bytes 64 io_program)), Request 0, Request 0, Wake] = Some queued_kernel" by simp
  have t: "timely ?k0" "timely ?k1" "timely ?k2" "timely queued_kernel"
    by (simp_all add: timely_def module_kernel_fields queued_kernel_def)
  show "kernel_reachable memory_env module_kernel queued_kernel"
    by (rule reachable_do [OF _ d(4) t(4)], rule reachable_do [OF _ d(3) t(3)],
        rule reachable_do [OF _ d(2) t(2)], rule reachable_do [OF _ d(1) t(1)], rule kernel_reachable.start)
qed

lemma module_waits_reached: "kernel_reachable memory_env module_kernel module_waits_kernel"
proof -
  have admit: "kernel_do memory_env queued_kernel Admit = Some admitted_kernel"
    using admit_new_eq [of memory_env "\<lambda>_. 0" sample_junk "queued_kernel\<lparr>dom_sem := 0\<rparr>" 0 "[]"
        "(new_pcb 0 64 10)\<lparr>instructions := io_program\<rparr>" "fst started" "snd started"] started_eq
    by (simp add: queued_kernel_def admitted_kernel_def module_kernel_fields memory_env_fields online_ok
        signalled_def new_pcb_def)
  moreover have run: "kernel_do memory_env admitted_kernel Dispatch = Some module_runs_kernel"
    by (simp add: module_runs_kernel_def admitted_kernel_def queued_kernel_def module_kernel_fields get_next_def
        get_next_fifo_def execute_sent online_def quiet_def cpu_has_def new_pcb_def)
  moreover have ret: "kernel_do memory_env module_runs_kernel
      (Return ((blocked_answer 10)\<lparr>page_table := snd started\<rparr>) 7 3) = Some module_waits_kernel"
    using cpu_blocks [of module_runs_kernel
        "(new_pcb 0 64 10)\<lparr>instructions := io_program, page_table := snd started, status := 2\<rparr>"
        "(blocked_answer 10)\<lparr>page_table := snd started\<rparr>" memory_env 7 3]
    by (simp add: module_runs_kernel_def module_waits_kernel_def admitted_kernel_def queued_kernel_def
        module_kernel_fields memory_env_fields same_process_def new_pcb_def received_def blocked_answer_def
        io_program_def pcb_bytes_size_def)
  moreover have "timely admitted_kernel" "timely module_runs_kernel" "timely module_waits_kernel"
    by (simp_all add: timely_def module_runs_kernel_def module_waits_kernel_def admitted_kernel_def
        queued_kernel_def module_kernel_fields)
  ultimately show ?thesis
    using reachable_do [OF reachable_do [OF reachable_do [OF queued_run(2) admit] run] ret] by simp
qed

end
