(* ===== verification/Console.thy ===== *)
theory Console
  imports Pcb
begin

section \<open>The console: scanner, parser and program\<close>

text \<open>
  \<open>console/flex/console.l\<close> (the rules of the scanner; the longest match wins),
  \<open>console/src/console/parser.c\<close> (the automaton that Bison made of \<open>parser.y\<close>, with its
  tables), the actions of \<open>semantic.c\<close>, \<open>context.c\<close> and \<open>on_run\<close> of
  \<open>console.c\<close>. A text is the characters of the file.
\<close>

subsection \<open>Characters and numbers\<close>

definition char_code :: "char \<Rightarrow> nat" where
  "char_code c = of_char c"

definition is_space :: "char \<Rightarrow> bool" where
  "is_space c = (char_code c = 32 \<or> 9 \<le> char_code c \<and> char_code c \<le> 13)"

definition is_digit :: "char \<Rightarrow> bool" where
  "is_digit c = (48 \<le> char_code c \<and> char_code c \<le> 57)"

definition is_alpha :: "char \<Rightarrow> bool" where
  "is_alpha c = (65 \<le> char_code c \<and> char_code c \<le> 90 \<or> 97 \<le> char_code c \<and> char_code c \<le> 122)"

text \<open>The class \<open>invalid_character\<close>.\<close>

definition is_invalid :: "char \<Rightarrow> bool" where
  "is_invalid c = (char_code c \<in> {126, 96, 33, 64, 35, 36, 94, 38, 91, 125, 93, 39, 34, 63, 92, 62})"

definition upcase :: "char \<Rightarrow> char" where
  "upcase c = (if 97 \<le> char_code c \<and> char_code c \<le> 122 then char_of (char_code c - 32) else c)"

text \<open>\<open>atoi\<close>: white space, a sign, digits. A value that is no \<open>int\<close> is undefined.\<close>

definition digits_value :: "string \<Rightarrow> int" where
  "digits_value ds = foldl (\<lambda>v c. 10 * v + int (char_code c - 48)) 0 ds"

definition atoi :: "string \<Rightarrow> int option" where
  "atoi s =
     (let s = dropWhile is_space s;
          neg = (case s of c # _ \<Rightarrow> char_code c = 45 | [] \<Rightarrow> False);
          signed = (case s of c # _ \<Rightarrow> char_code c = 45 \<or> char_code c = 43 | [] \<Rightarrow> False);
          v = digits_value (takeWhile is_digit (if signed then tl s else s));
          n = (if neg then - v else v) in
      if - (2 ^ 31) \<le> n \<and> n < 2 ^ 31 then Some n else None)"

subsection \<open>The scanner\<close>

datatype token = CONSTANT string | EXIT | NO_OP | READ | IO | WRITE | COPY

datatype lexeme = Tok token | Lex_error

definition reserved :: "(string \<times> token) list" where
  "reserved = [(''NO_OP'', NO_OP), (''I/O'', IO), (''READ'', READ), (''COPY'', COPY),
     (''WRITE'', WRITE), (''EXIT'', EXIT)]"

definition keyword_at :: "string \<Rightarrow> (string \<times> token) option" where
  "keyword_at s = find (\<lambda>(k, t). map upcase (take (length k) s) = k) reserved"

lemma keyword_at_positive: "keyword_at s = Some (k, t) \<Longrightarrow> 0 < length k"
  by (auto simp: keyword_at_def reserved_def split: if_splits)

lemma length_drop_both: "length (dropWhile P (dropWhile Q xs)) \<le> length xs"
  using length_dropWhile_le [of P "dropWhile Q xs"] length_dropWhile_le [of Q xs] by simp

function scan_text :: "string \<Rightarrow> lexeme list" where
  "scan_text [] = []"
| "scan_text (c # cs) =
     (if is_space c then scan_text (dropWhile is_space cs)
      else if is_digit c
      then let ds = c # takeWhile is_digit cs; rest = dropWhile is_digit cs in
        (case rest of
           [] \<Rightarrow> [Tok (CONSTANT ds)]
         | d # _ \<Rightarrow>
             if is_invalid d \<or> is_alpha d
             then Lex_error # scan_text (dropWhile (\<lambda>x. is_invalid x \<or> is_alpha x \<or> is_digit x) rest)
             else Tok (CONSTANT ds) # scan_text rest)
      else
        (case keyword_at (c # cs) of
           Some (k, t) \<Rightarrow> Tok t # scan_text (drop (length k) (c # cs))
         | None \<Rightarrow> Lex_error # scan_text cs))"
  by pat_completeness auto

termination scan_text
  by (relation "measure length")
    (auto simp: le_imp_less_Suc length_dropWhile_le length_drop_both dest: keyword_at_positive)

definition lexemes :: "lexeme list \<Rightarrow> token list" where
  "lexemes ls = concat (map (\<lambda>l. case l of Tok t \<Rightarrow> [t] | Lex_error \<Rightarrow> []) ls)"

definition yylexerrs :: "lexeme list \<Rightarrow> nat" where
  "yylexerrs ls = length (filter (\<lambda>l. l = Lex_error) ls)"

subsection \<open>The actions of the parser\<close>

definition request_instruction :: "instcode_t \<Rightarrow> int \<Rightarrow> int \<Rightarrow> instruction_t list \<Rightarrow> instruction_t list" where
  "request_instruction c p0 p1 l =
     l @ [instruction_create (instcode_num c) (word_of_int p0) (word_of_int p1)]"

definition request_exit :: "instruction_t list \<Rightarrow> instruction_t list option" where
  "request_exit l = Some (request_instruction C_REQUEST_EXIT 0 0 l)"

definition request_no_op :: "string \<Rightarrow> instruction_t list \<Rightarrow> instruction_t list option" where
  "request_no_op constant l = do {
     n \<leftarrow> atoi constant;
     Some (foldl (\<lambda>l _. request_instruction C_REQUEST_NO_OP 0 0 l) l [0..<nat n]) }"

definition request_io :: "string \<Rightarrow> instruction_t list \<Rightarrow> instruction_t list option" where
  "request_io constant l = do { n \<leftarrow> atoi constant; Some (request_instruction C_REQUEST_IO n 0 l) }"

definition request_read :: "string \<Rightarrow> instruction_t list \<Rightarrow> instruction_t list option" where
  "request_read constant l = do { n \<leftarrow> atoi constant; Some (request_instruction C_REQUEST_READ n 0 l) }"

definition request_write :: "string \<Rightarrow> string \<Rightarrow> instruction_t list \<Rightarrow> instruction_t list option" where
  "request_write constant_l constant_r l = do {
     a \<leftarrow> atoi constant_l;
     b \<leftarrow> atoi constant_r;
     Some (request_instruction C_REQUEST_WRITE a b l) }"

definition request_copy :: "string \<Rightarrow> string \<Rightarrow> instruction_t list \<Rightarrow> instruction_t list option" where
  "request_copy constant_l constant_r l = do {
     a \<leftarrow> atoi constant_l;
     b \<leftarrow> atoi constant_r;
     Some (request_instruction C_REQUEST_COPY a b l) }"

subsection \<open>The automaton\<close>

text \<open>The tables of \<open>parser.c\<close>; an entry is read with an index that the code has checked or
  made from a state.\<close>

definition yypact :: "int list" where
  "yypact = [6, -5, -2, -1, 13, 14, 15, 0, -5, -5, -5, -5, 16, 17, -5, -5, -5, -5]"

definition yydefact :: "int list" where
  "yydefact = [0, 4, 0, 0, 0, 0, 0, 0, 2, 5, 7, 6, 0, 0, 1, 3, 8, 9]"

definition yypgoto :: "int list" where
  "yypgoto = [-5, -5, -4]"

definition yydefgoto :: "int list" where
  "yydefgoto = [0, 7, 8]"

definition yytable :: "int list" where
  "yytable = [14, 9, 10, 15, 1, 2, 3, 4, 5, 6, 1, 2, 3, 4, 5, 6, 11, 12, 13, 16, 17]"

definition yycheck :: "int list" where
  "yycheck = [0, 3, 3, 7, 4, 5, 6, 7, 8, 9, 4, 5, 6, 7, 8, 9, 3, 3, 3, 3, 3]"

definition yyr1 :: "int list" where
  "yyr1 = [0, 10, 11, 11, 12, 12, 12, 12, 12, 12]"

definition yyr2 :: "int list" where
  "yyr2 = [0, 2, 1, 2, 1, 2, 2, 2, 3, 3]"

definition entry_at :: "int list \<Rightarrow> int \<Rightarrow> int" where
  "entry_at table i = table ! nat i"

text \<open>The symbol of the next token, 0 at the end, and its value.\<close>

fun yysymbol :: "token list \<Rightarrow> int" where
  "yysymbol [] = 0"
| "yysymbol (t # ts) = (case t of CONSTANT _ \<Rightarrow> 3 | EXIT \<Rightarrow> 4 | NO_OP \<Rightarrow> 5 | READ \<Rightarrow> 6 | IO \<Rightarrow> 7
     | WRITE \<Rightarrow> 8 | COPY \<Rightarrow> 9)"

fun yylval :: "token list \<Rightarrow> string" where
  "yylval (CONSTANT s # ts) = s"
| "yylval ts = []"

text \<open>The stack holds the states with their values, the top first.\<close>

type_synonym yystack = "(int \<times> string) list"

definition yyaction :: "int \<Rightarrow> yystack \<Rightarrow> instruction_t list \<Rightarrow> instruction_t list option" where
  "yyaction rule stack l =
     (if rule = 4 then request_exit l
      else if rule = 5 then request_no_op (snd (stack ! 0)) l
      else if rule = 6 then request_io (snd (stack ! 0)) l
      else if rule = 7 then request_read (snd (stack ! 0)) l
      else if rule = 8 then request_write (snd (stack ! 1)) (snd (stack ! 0)) l
      else if rule = 9 then request_copy (snd (stack ! 1)) (snd (stack ! 0)) l
      else Some l)"

definition yyreduce :: "int \<Rightarrow> yystack \<Rightarrow> instruction_t list \<Rightarrow> (yystack \<times> instruction_t list) option" where
  "yyreduce rule stack l = do {
     l \<leftarrow> yyaction rule stack l;
     let yylen = nat (entry_at yyr2 rule);
     let yyval = snd (stack ! (yylen - 1));
     let stack = drop yylen stack;
     let top = fst (hd stack);
     let yylhs = entry_at yyr1 rule - 10;
     let yyi = entry_at yypgoto yylhs + top;
     let state = (if 0 \<le> yyi \<and> yyi \<le> 20 \<and> entry_at yycheck yyi = top then entry_at yytable yyi else entry_at yydefgoto yylhs);
     Some ((state, yyval) # stack, l) }"

text \<open>What the automaton does in a state: accept, shift, reduce by a rule, or an error.\<close>

datatype yydo = Accept | Shift int | Reduce int | Syntax_error

definition yydefault :: "int \<Rightarrow> yydo" where
  "yydefault state = (if entry_at yydefact state = 0 then Syntax_error else Reduce (entry_at yydefact state))"

definition yybackup :: "int \<Rightarrow> int \<Rightarrow> yydo" where
  "yybackup state symbol =
     (if state = 14 then Accept
      else if entry_at yypact state = -5 then yydefault state
      else let yyn = entry_at yypact state + symbol in
        if yyn < 0 \<or> 20 < yyn \<or> entry_at yycheck yyn \<noteq> symbol then yydefault state
        else if entry_at yytable yyn \<le> 0 then Reduce (- entry_at yytable yyn)
        else Shift (entry_at yytable yyn))"

text \<open>After an error the stack is popped down to a state that shifts the token \<open>error\<close>, which
  is symbol 1; no state of this grammar does (lemma \<open>no_recovery\<close>), and the parser
  gives up.\<close>

definition shifts_error :: "int \<Rightarrow> bool" where
  "shifts_error state = (entry_at yypact state \<noteq> -5 \<and> 0 \<le> entry_at yypact state + 1 \<and>
     entry_at yypact state + 1 \<le> 20 \<and> entry_at yycheck (entry_at yypact state + 1) = 1 \<and>
     0 < entry_at yytable (entry_at yypact state + 1))"

lemma no_recovery: "0 \<le> state \<Longrightarrow> state < 18 \<Longrightarrow> \<not> shifts_error state"
proof -
  assume "0 \<le> state" "state < 18"
  then have "state \<in> set [0..17]" by simp
  moreover have "list_all (\<lambda>s. \<not> shifts_error s) [0..17]" by code_simp
  ultimately show ?thesis by (metis list_all_iff)
qed

text \<open>The result is whether the text was accepted, with the instructions that were made; the
  fuel counts the passes through \<open>yynewstate\<close>.\<close>

fun yyparse :: "nat \<Rightarrow> yystack \<Rightarrow> token list \<Rightarrow> instruction_t list \<Rightarrow> (bool \<times> instruction_t list) option" where
  "yyparse 0 stack ts l = None"
| "yyparse (Suc n) stack ts l =
     (case yybackup (fst (hd stack)) (yysymbol ts) of
        Accept \<Rightarrow> Some (True, l)
      | Shift state \<Rightarrow> yyparse n ((state, yylval ts) # stack) (tl ts) l
      | Reduce rule \<Rightarrow> do { (stack, l) \<leftarrow> yyreduce rule stack l; yyparse n stack ts l }
      | Syntax_error \<Rightarrow> Some (False, l))"

text \<open>Enough for every text: \<open>parse_enough\<close>.\<close>

definition parse_tokens :: "token list \<Rightarrow> (bool \<times> instruction_t list) option" where
  "parse_tokens ts = yyparse (3 * length ts + 3) [(0, [])] ts []"

subsection \<open>The grammar\<close>

datatype statement = S_exit | S_no_op string | S_io string | S_read string
  | S_write string string | S_copy string string

fun tokens_of :: "statement \<Rightarrow> token list" where
  "tokens_of S_exit = [EXIT]"
| "tokens_of (S_no_op c) = [NO_OP, CONSTANT c]"
| "tokens_of (S_io c) = [IO, CONSTANT c]"
| "tokens_of (S_read c) = [READ, CONSTANT c]"
| "tokens_of (S_write a b) = [WRITE, CONSTANT a, CONSTANT b]"
| "tokens_of (S_copy a b) = [COPY, CONSTANT a, CONSTANT b]"

fun run_statement :: "statement \<Rightarrow> instruction_t list \<Rightarrow> instruction_t list option" where
  "run_statement S_exit l = request_exit l"
| "run_statement (S_no_op c) l = request_no_op c l"
| "run_statement (S_io c) l = request_io c l"
| "run_statement (S_read c) l = request_read c l"
| "run_statement (S_write a b) l = request_write a b l"
| "run_statement (S_copy a b) l = request_copy a b l"

fun run_statements :: "statement list \<Rightarrow> instruction_t list \<Rightarrow> instruction_t list option" where
  "run_statements [] l = Some l"
| "run_statements (s # ss) l = do { l \<leftarrow> run_statement s l; run_statements ss l }"

text \<open>The longest sequence of statements at the start of a token sequence, and what is left.\<close>

fun next_statement :: "token list \<Rightarrow> (statement \<times> token list) option" where
  "next_statement (EXIT # ts) = Some (S_exit, ts)"
| "next_statement (NO_OP # CONSTANT c # ts) = Some (S_no_op c, ts)"
| "next_statement (IO # CONSTANT c # ts) = Some (S_io c, ts)"
| "next_statement (READ # CONSTANT c # ts) = Some (S_read c, ts)"
| "next_statement (WRITE # CONSTANT a # CONSTANT b # ts) = Some (S_write a b, ts)"
| "next_statement (COPY # CONSTANT a # CONSTANT b # ts) = Some (S_copy a b, ts)"
| "next_statement ts = None"

lemma next_statement_Some: "next_statement ts = Some (s, rest) \<longleftrightarrow> ts = tokens_of s @ rest"
  by (induction ts rule: next_statement.induct; cases s) auto

text \<open>The entries that matter.\<close>

lemma yybackup_start:
  "yybackup 0 3 = Syntax_error" "yybackup 0 0 = Syntax_error"
  "yybackup 0 4 = Shift 1" "yybackup 0 5 = Shift 2" "yybackup 0 6 = Shift 3" "yybackup 0 7 = Shift 4"
  "yybackup 0 8 = Shift 5" "yybackup 0 9 = Shift 6"
  "yybackup 7 3 = Syntax_error" "yybackup 7 0 = Shift 14"
  "yybackup 7 4 = Shift 1" "yybackup 7 5 = Shift 2" "yybackup 7 6 = Shift 3" "yybackup 7 7 = Shift 4"
  "yybackup 7 8 = Shift 5" "yybackup 7 9 = Shift 6"
  by code_simp+

lemma yybackup_operand:
  "yybackup 2 3 = Shift 9" "yybackup 3 3 = Shift 10" "yybackup 4 3 = Shift 11" "yybackup 5 3 = Shift 12"
  "yybackup 6 3 = Shift 13" "yybackup 12 3 = Shift 16" "yybackup 13 3 = Shift 17"
  by code_simp+

lemma yybackup_no_operand:
  assumes "s \<in> {2, 3, 4, 5, 6, 12, 13}" and "symbol \<in> {0, 4, 5, 6, 7, 8, 9}"
  shows "yybackup s symbol = Syntax_error"
proof -
  have "list_all (\<lambda>s. list_all (\<lambda>x. yybackup s x = Syntax_error) [0, 4, 5, 6, 7, 8, 9]) [2, 3, 4, 5, 6, 12, 13]"
    by code_simp
  then show ?thesis using assms by auto
qed

lemma yybackup_reduce:
  "yybackup 1 x = Reduce 4" "yybackup 8 x = Reduce 2" "yybackup 9 x = Reduce 5" "yybackup 10 x = Reduce 7"
  "yybackup 11 x = Reduce 6" "yybackup 15 x = Reduce 3" "yybackup 16 x = Reduce 8" "yybackup 17 x = Reduce 9"
  "yybackup 14 x = Accept"
proof -
  have "entry_at yypact s = -5" if "s \<in> {1, 8, 9, 10, 11, 15, 16, 17}" for s
  proof -
    have "list_all (\<lambda>s. entry_at yypact s = -5) [1, 8, 9, 10, 11, 15, 16, 17]" by code_simp
    then show ?thesis using that by auto
  qed
  moreover have "entry_at yydefact 1 = 4" "entry_at yydefact 8 = 2" "entry_at yydefact 9 = 5"
    "entry_at yydefact 10 = 7" "entry_at yydefact 11 = 6" "entry_at yydefact 15 = 3"
    "entry_at yydefact 16 = 8" "entry_at yydefact 17 = 9"
    by code_simp+
  ultimately show "yybackup 1 x = Reduce 4" "yybackup 8 x = Reduce 2" "yybackup 9 x = Reduce 5"
    "yybackup 10 x = Reduce 7" "yybackup 11 x = Reduce 6" "yybackup 15 x = Reduce 3"
    "yybackup 16 x = Reduce 8" "yybackup 17 x = Reduce 9" "yybackup 14 x = Accept"
    by (simp_all add: yybackup_def yydefault_def)
qed

lemma yy_rules:
  "entry_at yyr1 2 = 11" "entry_at yyr1 3 = 11" "entry_at yyr1 4 = 12" "entry_at yyr1 5 = 12"
  "entry_at yyr1 6 = 12" "entry_at yyr1 7 = 12" "entry_at yyr1 8 = 12" "entry_at yyr1 9 = 12"
  "entry_at yyr2 2 = 1" "entry_at yyr2 3 = 2" "entry_at yyr2 4 = 1" "entry_at yyr2 5 = 2"
  "entry_at yyr2 6 = 2" "entry_at yyr2 7 = 2" "entry_at yyr2 8 = 3" "entry_at yyr2 9 = 3"
  "entry_at yypgoto 1 = -5" "entry_at yypgoto 2 = -4" "entry_at yydefgoto 1 = 7" "entry_at yydefgoto 2 = 8"
  "entry_at yycheck 3 = 7" "entry_at yytable 3 = 15" "entry_at yycheck 2 = 3"
  by code_simp+

lemma yyreduce_values:
  "s = 0 \<or> s = 7 \<Longrightarrow> yyreduce 4 ((x, v) # (s, w) # st) l =
    map_option (\<lambda>l. ((if s = 7 then 15 else 8, v) # (s, w) # st, l)) (request_exit l)"
  "s = 0 \<or> s = 7 \<Longrightarrow> yyreduce 5 ((x, v) # (y, u) # (s, w) # st) l =
    map_option (\<lambda>l. ((if s = 7 then 15 else 8, u) # (s, w) # st, l)) (request_no_op v l)"
  "s = 0 \<or> s = 7 \<Longrightarrow> yyreduce 6 ((x, v) # (y, u) # (s, w) # st) l =
    map_option (\<lambda>l. ((if s = 7 then 15 else 8, u) # (s, w) # st, l)) (request_io v l)"
  "s = 0 \<or> s = 7 \<Longrightarrow> yyreduce 7 ((x, v) # (y, u) # (s, w) # st) l =
    map_option (\<lambda>l. ((if s = 7 then 15 else 8, u) # (s, w) # st, l)) (request_read v l)"
  "s = 0 \<or> s = 7 \<Longrightarrow> yyreduce 8 ((x, v) # (y, u) # (z, t) # (s, w) # st) l =
    map_option (\<lambda>l. ((if s = 7 then 15 else 8, t) # (s, w) # st, l)) (request_write u v l)"
  "s = 0 \<or> s = 7 \<Longrightarrow> yyreduce 9 ((x, v) # (y, u) # (z, t) # (s, w) # st) l =
    map_option (\<lambda>l. ((if s = 7 then 15 else 8, t) # (s, w) # st, l)) (request_copy u v l)"
  "yyreduce 2 ((x, v) # (0, w) # st) l = Some ((7, v) # (0, w) # st, l)"
  "yyreduce 3 ((x, v) # (y, u) # (0, w) # st) l = Some ((7, u) # (0, w) # st, l)"
  by (auto simp: yyreduce_def yyaction_def yy_rules map_conv_bind_option comp_def)

lemma yyparse_statement:
  assumes "stack = [(0, v)] \<or> stack = [(7, v), (0, w)]"
  shows "\<exists>v'. yyparse (Suc (Suc (length (tokens_of s) + n))) stack (tokens_of s @ ts) l =
    do { l \<leftarrow> run_statement s l; yyparse n [(7, v'), (0, snd (last stack))] ts l }"
  using assms
  by (cases s) (auto simp: yybackup_start yybackup_operand yybackup_reduce yyreduce_values
      map_conv_bind_option split: Option.bind_splits)

lemma yysymbol_operand:
  "(\<forall>c r. ts \<noteq> CONSTANT c # r) \<Longrightarrow> yysymbol ts \<in> {0, 4, 5, 6, 7, 8, 9}"
  by (cases ts) (auto split: token.split)

lemma yyparse_error:
  assumes "next_statement ts = None" and "fst (hd stack) = 0 \<or> fst (hd stack) = 7 \<and> ts \<noteq> []"
  shows "yyparse (Suc (Suc (Suc n))) stack ts l = Some (False, l)"
proof (cases ts)
  case Nil
  with assms show ?thesis by (auto simp: yybackup_start)
next
  case (Cons t r)
  have bad: "yybackup s (yysymbol u) = Syntax_error"
    if "\<forall>c v. u \<noteq> CONSTANT c # v" "s \<in> {2, 3, 4, 5, 6, 12, 13}" for s u
    using yybackup_no_operand [OF that(2) yysymbol_operand [OF that(1)]] .
  show ?thesis
  proof (cases t)
    case (CONSTANT c)
    then show ?thesis using assms(2) Cons by (auto simp: yybackup_start)
  next
    case EXIT
    then show ?thesis using assms(1) Cons by simp
  next
    case NO_OP
    then have "\<forall>c v. r \<noteq> CONSTANT c # v" using assms(1) Cons by auto
    then show ?thesis using assms(2) Cons NO_OP bad [of r 2] by (auto simp: yybackup_start)
  next
    case READ
    then have "\<forall>c v. r \<noteq> CONSTANT c # v" using assms(1) Cons by auto
    then show ?thesis using assms(2) Cons READ bad [of r 3] by (auto simp: yybackup_start)
  next
    case IO
    then have "\<forall>c v. r \<noteq> CONSTANT c # v" using assms(1) Cons by auto
    then show ?thesis using assms(2) Cons IO bad [of r 4] by (auto simp: yybackup_start)
  next
    case WRITE
    show ?thesis
    proof (cases "\<exists>a r'. r = CONSTANT a # r'")
      case False
      then show ?thesis using assms(2) Cons WRITE bad [of r 5] by (auto simp: yybackup_start)
    next
      case True
      then obtain a r' where r: "r = CONSTANT a # r'" by blast
      then have "\<forall>c v. r' \<noteq> CONSTANT c # v" using assms(1) Cons WRITE by auto
      then show ?thesis using assms(2) Cons WRITE r bad [of r' 12] by (auto simp: yybackup_start yybackup_operand)
    qed
  next
    case COPY
    show ?thesis
    proof (cases "\<exists>a r'. r = CONSTANT a # r'")
      case False
      then show ?thesis using assms(2) Cons COPY bad [of r 6] by (auto simp: yybackup_start)
    next
      case True
      then obtain a r' where r: "r = CONSTANT a # r'" by blast
      then have "\<forall>c v. r' \<noteq> CONSTANT c # v" using assms(1) Cons COPY by auto
      then show ?thesis using assms(2) Cons COPY r bad [of r' 13] by (auto simp: yybackup_start yybackup_operand)
    qed
  qed
qed

definition cost :: "statement list \<Rightarrow> nat" where
  "cost ss = sum_list (map (\<lambda>s. length (tokens_of s) + 2) ss)"

definition flat :: "statement list \<Rightarrow> token list" where
  "flat ss = concat (map tokens_of ss)"

lemma yyparse_statements:
  assumes "next_statement rest = None"
    and "stack = [(0, v)] \<or> stack = [(7, v), (0, w)]"
  shows "yyparse (cost ss + Suc (Suc (Suc n))) stack (flat ss @ rest) l =
    do { l' \<leftarrow> run_statements ss l;
         Some (rest = [] \<and> (ss \<noteq> [] \<or> fst (hd stack) = 7), l') }"
  using assms(2)
proof (induction ss arbitrary: stack v w l)
  case Nil
  then show ?case
  proof
    assume "stack = [(0, v)]"
    then show ?thesis using yyparse_error [OF assms(1), of stack n l] by (simp add: cost_def flat_def)
  next
    assume st: "stack = [(7, v), (0, w)]"
    show ?thesis
    proof (cases rest)
      case Nil
      then show ?thesis using st by (simp add: cost_def flat_def yybackup_start yybackup_reduce)
    next
      case (Cons t r)
      then show ?thesis
        using st yyparse_error [OF assms(1), of stack n l] by (simp add: cost_def flat_def del: yyparse.simps)
    qed
  qed
next
  case (Cons s ss)
  obtain v' where step: "yyparse (Suc (Suc (length (tokens_of s) + (cost ss + Suc (Suc (Suc n))))))
      stack (tokens_of s @ (flat ss @ rest)) l =
    do { l \<leftarrow> run_statement s l;
         yyparse (cost ss + Suc (Suc (Suc n))) [(7, v'), (0, snd (last stack))] (flat ss @ rest) l }"
    using yyparse_statement [OF Cons.prems, of s "cost ss + Suc (Suc (Suc n))" "flat ss @ rest" l] by blast
  have "yyparse (cost ss + Suc (Suc (Suc n))) [(7, v'), (0, snd (last stack))] (flat ss @ rest) l1 =
      do { l' \<leftarrow> run_statements ss l1; Some (rest = [], l') }" for l1
    using Cons.IH [of "[(7, v'), (0, snd (last stack))]" v' "snd (last stack)" l1] by (simp del: yyparse.simps)
  then show ?case
    using step by (simp add: cost_def flat_def add.assoc del: yyparse.simps)
qed

text \<open>Every text splits into the statements at its start and a rest that starts with none.\<close>

lemma split_statements: "\<exists>ss rest. ts = flat ss @ rest \<and> next_statement rest = None"
proof (induction "length ts" arbitrary: ts rule: less_induct)
  case less
  show ?case
  proof (cases "next_statement ts")
    case None
    then have "ts = flat [] @ ts \<and> next_statement ts = None" by (simp add: flat_def)
    then show ?thesis by blast
  next
    case (Some r)
    then obtain s rest where ts: "ts = tokens_of s @ rest" by (metis next_statement_Some surj_pair)
    moreover have "0 < length (tokens_of s)" by (cases s) simp_all
    ultimately obtain ss r' where "rest = flat ss @ r'" "next_statement r' = None"
      using less [of rest] by auto
    with ts have "ts = flat (s # ss) @ r' \<and> next_statement r' = None" by (simp add: flat_def)
    then show ?thesis by blast
  qed
qed

lemma cost_bound: "cost ss \<le> 3 * length (flat ss)"
proof (induction ss)
  case Nil
  then show ?case by (simp add: cost_def)
next
  case (Cons s ss)
  moreover have "1 \<le> length (tokens_of s)" by (cases s) simp_all
  ultimately show ?case by (simp add: cost_def flat_def)
qed

lemma parse_tokens_eq:
  assumes "next_statement rest = None"
  shows "parse_tokens (flat ss @ rest) =
    do { l \<leftarrow> run_statements ss []; Some (rest = [] \<and> ss \<noteq> [], l) }"
proof -
  have "cost ss + Suc (Suc (Suc 0)) \<le> 3 * length (flat ss @ rest) + 3"
    using cost_bound [of ss] by simp
  then have "3 * length (flat ss @ rest) + 3 = cost ss + Suc (Suc (Suc (3 * length (flat ss @ rest) - cost ss)))"
    by simp
  then obtain n where n: "3 * length (flat ss @ rest) + 3 = cost ss + Suc (Suc (Suc n))" by blast
  then show ?thesis
    using yyparse_statements [OF assms, of "[(0, [])]" "[]" undefined ss n "[]"]
    unfolding parse_tokens_def n by (simp del: yyparse.simps)
qed

subsection \<open>The text of a program\<close>

text \<open>A token as it may be written: a keyword in any case, a constant in digits.\<close>

fun spelled :: "token \<Rightarrow> string \<Rightarrow> bool" where
  "spelled (CONSTANT ds) s = (s = ds \<and> ds \<noteq> [] \<and> list_all is_digit ds)"
| "spelled EXIT s = (map upcase s = ''EXIT'')"
| "spelled NO_OP s = (map upcase s = ''NO_OP'')"
| "spelled READ s = (map upcase s = ''READ'')"
| "spelled IO s = (map upcase s = ''I/O'')"
| "spelled WRITE s = (map upcase s = ''WRITE'')"
| "spelled COPY s = (map upcase s = ''COPY'')"

text \<open>A text that spells the tokens, with white space after each.\<close>

inductive spells :: "string \<Rightarrow> token list \<Rightarrow> bool" where
  none: "list_all is_space sp \<Longrightarrow> spells sp []"
| one: "spelled t w \<Longrightarrow> list_all is_space sp \<Longrightarrow> sp \<noteq> [] \<Longrightarrow> spells rest ts \<Longrightarrow>
    spells (w @ sp @ rest) (t # ts)"

lemma scan_spaces: "list_all is_space sp \<Longrightarrow> scan_text (sp @ rest) = scan_text rest"
proof (induction sp arbitrary: rest rule: length_induct)
  case (1 sp)
  show ?case
  proof (cases sp)
    case Nil
    then show ?thesis by simp
  next
    case (Cons c cs)
    have "dropWhile is_space (cs @ rest) = dropWhile is_space rest"
      using 1(2) Cons by (simp add: list_all_iff)
    then have a: "scan_text (sp @ rest) = scan_text (dropWhile is_space rest)" using 1(2) Cons by simp
    show ?thesis
    proof (cases rest)
      case Nil
      with a show ?thesis by simp
    next
      case (Cons d ds)
      then show ?thesis using a by (cases "is_space d") simp_all
    qed
  qed
qed

lemma code_upcase_letter:
  assumes "upcase c = CHR 0x4E \<or> upcase c = CHR 0x49 \<or> upcase c = CHR 0x52 \<or> upcase c = CHR 0x43 \<or>
    upcase c = CHR 0x57 \<or> upcase c = CHR 0x45"
  shows "\<not> is_space c \<and> \<not> is_digit c"
proof -
  have "char_code (upcase c) \<in> {78, 73, 82, 67, 87, 69}" using assms by (auto simp: char_code_def)
  then show ?thesis
    by (auto simp: upcase_def is_space_def is_digit_def char_code_def split: if_splits)
qed

lemma keyword_at_append:
  assumes "map upcase w = k" and "(k, t) \<in> set reserved"
  shows "keyword_at (w @ s) = Some (k, t)"
  using assms by (auto simp: reserved_def keyword_at_def map_eq_Cons_conv)

lemma scan_keyword:
  assumes "map upcase w = k" and "(k, t) \<in> set reserved"
  shows "scan_text (w @ s) = Tok t # scan_text s"
proof -
  obtain c cs where w: "w = c # cs" using assms by (cases w) (auto simp: reserved_def)
  then have "upcase c = hd k" using assms(1) by auto
  then have "\<not> is_space c \<and> \<not> is_digit c"
    using assms(2) code_upcase_letter [of c] by (auto simp: reserved_def)
  moreover have "length k = length w" using assms(1) by auto
  ultimately show ?thesis
    using keyword_at_append [OF assms, of s] w by simp
qed

lemma space_classes:
  assumes "is_space c"
  shows "\<not> is_digit c" "\<not> is_alpha c" "\<not> is_invalid c"
  using assms by (auto simp: is_space_def is_digit_def is_alpha_def is_invalid_def)

lemma scan_constant:
  assumes "ds \<noteq> []" and "list_all is_digit ds" and "sp \<noteq> []" and "list_all is_space sp"
  shows "scan_text (ds @ sp @ s) = Tok (CONSTANT ds) # scan_text (sp @ s)"
proof -
  obtain c cs where ds: "ds = c # cs" using assms(1) by (cases ds) auto
  obtain d sp' where sp: "sp = d # sp'" using assms(3) by (cases sp) auto
  have d: "is_space d" "\<not> is_digit d" using assms(4) sp space_classes by auto
  have "takeWhile is_digit (cs @ sp @ s) = cs" "dropWhile is_digit (cs @ sp @ s) = sp @ s"
    using assms(2) ds sp d by (simp_all add: list_all_iff)
  moreover have "is_digit c" "\<not> is_space c"
    using assms(2) ds space_classes(1) [of c] by auto
  ultimately show ?thesis
    using ds sp d space_classes(2,3) [OF d(1)] by (simp add: Let_def)
qed

lemma scan_spells: "spells text ts \<Longrightarrow> scan_text text = map Tok ts"
proof (induction rule: spells.induct)
  case (none sp)
  then show ?case using scan_spaces [of sp "[]"] by simp
next
  case (one t w sp rest ts)
  have "scan_text (w @ sp @ rest) = Tok t # scan_text (sp @ rest)"
  proof (cases t)
    case (CONSTANT ds)
    then show ?thesis using one scan_constant by simp
  next
    case EXIT
    then show ?thesis using one scan_keyword [of w "''EXIT''" EXIT] by (simp add: reserved_def)
  next
    case NO_OP
    then show ?thesis using one scan_keyword [of w "''NO_OP''" NO_OP] by (simp add: reserved_def)
  next
    case READ
    then show ?thesis using one scan_keyword [of w "''READ''" READ] by (simp add: reserved_def)
  next
    case IO
    then show ?thesis using one scan_keyword [of w "''I/O''" IO] by (simp add: reserved_def)
  next
    case WRITE
    then show ?thesis using one scan_keyword [of w "''WRITE''" WRITE] by (simp add: reserved_def)
  next
    case COPY
    then show ?thesis using one scan_keyword [of w "''COPY''" COPY] by (simp add: reserved_def)
  qed
  then show ?case using one scan_spaces by simp
qed

lemma lexemes_Tok [simp]: "lexemes (map Tok ts) = ts" "yylexerrs (map Tok ts) = 0"
  by (induction ts) (simp_all add: lexemes_def yylexerrs_def)

subsection \<open>The module\<close>

record context_t =
  input_file_name :: "string option"
  process_size :: int
  context_status :: int

text \<open>The values of the statuses of \<open>lib.h\<close>. The process size goes through \<open>atoi\<close>.\<close>

definition context_evaluate :: "string list \<Rightarrow> context_t option" where
  "context_evaluate argv =
     (if length argv = 1
      then Some \<lparr>input_file_name = None, process_size = 0, context_status = -252\<rparr>
      else if length argv = 2
      then Some \<lparr>input_file_name = None, process_size = 0, context_status = -251\<rparr>
      else do {
        name \<leftarrow> arr_get argv 1;
        size_text \<leftarrow> arr_get argv 2;
        sz \<leftarrow> atoi size_text;
        Some \<lparr>input_file_name = Some name, process_size = sz, context_status = 0\<rparr> })"

definition on_send_action :: "conexion_t \<Rightarrow> opcode_t \<Rightarrow> u32 \<Rightarrow> u32 \<Rightarrow> (int \<times> conexion_t) option" where
  "on_send_action c oc act p =
     conexion_enviar_stream c (opcode_num oc) (accion_serializar (accion_create act p)) 8"

definition on_send_instructions :: "conexion_t \<Rightarrow> instruction_t list \<Rightarrow> (int \<times> conexion_t) option" where
  "on_send_instructions c l =
     conexion_enviar_stream c (opcode_num CMD) (instructions_fold l)
       (length l * 12 + 4)"

text \<open>\<open>parse\<close> opens the file: \<open>None\<close> as text is a file that does not open, which
  \<open>fclose\<close> is then called on.\<close>

definition parse :: "string option \<Rightarrow> (bool \<times> instruction_t list \<times> nat) option" where
  "parse text = do {
     s \<leftarrow> text;
     (accepted, l) \<leftarrow> parse_tokens (lexemes (scan_text s));
     Some (accepted, l, yylexerrs (scan_text s)) }"

text \<open>\<open>on_run\<close>, with the connection that \<open>on_connect\<close> makes; the result is its status and the
  connection after it. An error counts in \<open>yynerrs\<close> when the text is not accepted.\<close>

definition on_run_console :: "string option \<Rightarrow> u32 \<Rightarrow> conexion_t \<Rightarrow> (int \<times> conexion_t) option" where
  "on_run_console text sz c = do {
     (accepted, l, lexerrs) \<leftarrow> parse text;
     let result = (if accepted then 0 else 1);
     if accepted \<and> lexerrs = 0
     then if l = [] then Some (1, c)
       else do {
         (_, c) \<leftarrow> on_send_action c SYS 0 sz;
         (_, c) \<leftarrow> on_send_instructions c l;
         Some (result, c) }
     else Some (result, c) }"

lemma on_run_sends:
  assumes "spells text (flat ss)" and "ss \<noteq> []" and "run_statements ss [] = Some l" and "l \<noteq> []"
    and "conectado c" and "\<not> send_error (sock c)"
  shows "on_run_console (Some text) sz c = Some (0, c\<lparr>sock := (sock c)\<lparr>outgoing := outgoing (sock c) @
    message SYS (accion_serializar (accion_create 0 sz)) @ message CMD (instructions_fold l)\<rparr>\<rparr>)"
proof -
  have "parse (Some text) = Some (True, l, 0)"
    using scan_spells [OF assms(1)] parse_tokens_eq [of "[]" ss] assms(2,3)
    by (simp add: parse_def)
  moreover have "8 = length (accion_serializar (accion_create 0 sz))"
    by (simp add: accion_serializar_def)
  moreover have "length l * 12 + 4 = length (instructions_fold l)"
    by (simp add: instructions_fold_eq)
  ultimately show ?thesis
    using assms(4-6)
      servidor_enviar_stream_message [of "sock c" 8 "accion_serializar (accion_create 0 sz)" SYS]
      servidor_enviar_stream_message [of "(sock c)\<lparr>outgoing := outgoing (sock c) @
        message SYS (accion_serializar (accion_create 0 sz))\<rparr>" "length l * 12 + 4" "instructions_fold l" CMD]
    by (simp add: on_run_console_def on_send_action_def on_send_instructions_def
        conexion_enviar_stream_def servidor_enviar_stream_def)
qed

end
