(* ===== verification/Scanner.thy ===== *)
theory Scanner
  imports Console
begin

section \<open>The generated scanner\<close>

text \<open>
  \<open>console/src/console/scanner.c\<close>: the tables that Flex made of \<open>console.l\<close> and the loop of
  \<open>yylex\<close> that runs them, with its compressed transitions (\<open>yy_def\<close>, \<open>yy_meta\<close>) and its return
  to the last accepting state. The automaton is shown to do what the rules say (\<open>scan_text\<close> of
  the theory \<open>Console\<close>). The text is all there: at its end the loop acts as it does after the
  last buffer (\<open>EOB_ACT_LAST_MATCH\<close>).
\<close>

subsection \<open>The tables\<close>

definition yy_accept :: "int list" where
  "yy_accept = [0, 0, 0, 12, 10, 7, 7, 8, 10, 10, 10, 10, 10, 10, 7, 9, 8, 0, 0, 0, 0, 0, 0, 9, 0, 0,
     2, 0, 0, 0, 4, 6, 0, 3, 0, 1, 5, 0]"

definition yy_ec :: "int list" where
  "yy_ec = [0, 1, 1, 1, 1, 1, 1, 1, 1, 2, 3, 2, 2, 2, 1, 1, 1, 1, 1, 1, 1, 1, 1, 1, 1, 1, 1, 1, 1,
     1, 1, 1, 2, 4, 4, 4, 4, 1, 4, 4, 1, 1, 1, 1, 1, 1, 1, 5, 6, 6, 6, 6, 6, 6, 6, 6, 6, 6,
     1, 1, 1, 1, 4, 4, 4, 7, 8, 9, 10, 11, 8, 8, 8, 12, 8, 8, 8, 8, 13, 14, 15, 8, 16, 8,
     17, 8, 8, 18, 19, 20, 8, 4, 4, 4, 4, 21, 4, 22, 8, 23, 24, 25, 8, 8, 8, 26, 8, 8, 8, 8,
     27, 28, 29, 8, 30, 8, 31, 8, 8, 32, 33, 34, 8, 1, 1, 4, 4, 1, 1, 1, 1, 1, 1, 1, 1, 1,
     1, 1, 1, 1, 1, 1, 1, 1, 1, 1, 1, 1, 1, 1, 1, 1, 1, 1, 1, 1, 1, 1, 1, 1, 1, 1, 1, 1, 1,
     1, 1, 1, 1, 1, 1, 1, 1, 1, 1, 1, 1, 1, 1, 1, 1, 1, 1, 1, 1, 1, 1, 1, 1, 1, 1, 1, 1, 1,
     1, 1, 1, 1, 1, 1, 1, 1, 1, 1, 1, 1, 1, 1, 1, 1, 1, 1, 1, 1, 1, 1, 1, 1, 1, 1, 1, 1, 1,
     1, 1, 1, 1, 1, 1, 1, 1, 1, 1, 1, 1, 1, 1, 1, 1, 1, 1, 1, 1, 1, 1, 1, 1, 1, 1, 1, 1, 1,
     1, 1, 1, 1]"

definition yy_meta :: "int list" where
  "yy_meta = [0, 1, 1, 1, 2, 1, 2, 2, 2, 2, 2, 2, 2, 2, 2, 2, 2, 2, 2, 2, 2, 1, 2, 2, 2, 2, 2, 2, 2,
     2, 2, 2, 2, 2, 2]"

definition yy_base :: "int list" where
  "yy_base = [0, 0, 0, 78, 84, 33, 35, 70, 25, 21, 70, 27, 31, 27, 42, 0, 68, 31, 35, 34, 50, 42, 39,
     0, 32, 41, 84, 45, 53, 50, 84, 84, 53, 84, 58, 84, 84, 84, 68, 48]"

definition yy_def :: "int list" where
  "yy_def = [0, 37, 1, 37, 37, 37, 37, 38, 37, 37, 37, 37, 37, 37, 37, 39, 38, 37, 37, 37, 37, 37,
     37, 39, 37, 37, 37, 37, 37, 37, 37, 37, 37, 37, 37, 37, 37, 0, 37, 37]"

definition yy_nxt :: "int list" where
  "yy_nxt = [0, 4, 5, 6, 4, 4, 7, 4, 4, 8, 4, 9, 10, 11, 4, 4, 12, 4, 13, 4, 4, 4, 4, 8, 4, 9, 10,
     11, 4, 4, 12, 4, 13, 4, 4, 14, 14, 14, 14, 17, 18, 20, 21, 22, 14, 14, 24, 25, 26, 28,
     23, 29, 30, 17, 18, 20, 21, 22, 31, 32, 24, 25, 26, 33, 28, 29, 30, 34, 35, 36, 15, 27,
     31, 32, 16, 19, 16, 33, 37, 37, 37, 34, 35, 36, 3, 37, 37, 37, 37, 37, 37, 37, 37, 37,
     37, 37, 37, 37, 37, 37, 37, 37, 37, 37, 37, 37, 37, 37, 37, 37, 37, 37, 37, 37, 37, 37,
     37, 37, 37]"

definition yy_chk :: "int list" where
  "yy_chk = [0, 1, 1, 1, 1, 1, 1, 1, 1, 1, 1, 1, 1, 1, 1, 1, 1, 1, 1, 1, 1, 1, 1, 1, 1, 1, 1, 1, 1,
     1, 1, 1, 1, 1, 1, 5, 5, 6, 6, 8, 9, 11, 12, 13, 14, 14, 17, 18, 19, 21, 39, 22, 24, 8,
     9, 11, 12, 13, 25, 27, 17, 18, 19, 28, 21, 22, 24, 29, 32, 34, 38, 20, 25, 27, 16, 10,
     7, 28, 3, 0, 0, 29, 32, 34, 37, 37, 37, 37, 37, 37, 37, 37, 37, 37, 37, 37, 37, 37, 37,
     37, 37, 37, 37, 37, 37, 37, 37, 37, 37, 37, 37, 37, 37, 37, 37, 37, 37, 37, 37]"

subsection \<open>The loop\<close>

text \<open>The class of a character; a NUL of the text is in class 1 (\<open>yy_try_NUL_trans\<close>).\<close>

definition yy_class :: "char \<Rightarrow> int" where
  "yy_class c = (if char_code c = 0 then 1 else entry_at yy_ec (int (char_code c)))"

text \<open>The next state: the loop follows \<open>yy_def\<close> until the entry is the state's own.\<close>

partial_function (option) yy_trans :: "int \<Rightarrow> int \<Rightarrow> int option" where
  "yy_trans state c =
     (if entry_at yy_chk (entry_at yy_base state + c) = state
      then Some (entry_at yy_nxt (entry_at yy_base state + c))
      else yy_trans (entry_at yy_def state)
        (if 38 \<le> entry_at yy_def state then entry_at yy_meta c else c))"

declare yy_trans.simps [code]

text \<open>\<open>yy_find_action\<close>: the rule and the length of the token.\<close>

definition yy_find_action :: "int \<Rightarrow> nat \<Rightarrow> int \<times> nat \<Rightarrow> int \<times> nat" where
  "yy_find_action state pos acc =
     (if entry_at yy_accept state = 0 then (entry_at yy_accept (fst acc), snd acc)
      else (entry_at yy_accept state, pos))"

fun yy_match :: "int \<Rightarrow> nat \<Rightarrow> int \<times> nat \<Rightarrow> string \<Rightarrow> (int \<times> nat) option" where
  "yy_match state pos acc [] = Some (yy_find_action state pos acc)"
| "yy_match state pos acc (c # cs) =
     (let acc = (if entry_at yy_accept state \<noteq> 0 then (state, pos) else acc) in
      do {
        state \<leftarrow> yy_trans state (yy_class c);
        if entry_at yy_base state = 84 then Some (yy_find_action state (pos + 1) acc)
        else yy_match state (pos + 1) acc cs })"

text \<open>The actions of the rules: the lexemes that a token gives. Rule 7 (white space) gives none; rules 9
  and 10 are \<open>ERROR_LEXICO\<close>; a rule that has no action here (\<open>ECHO\<close>, or the scanner's internal
  error) is \<open>None\<close>.\<close>

definition action_lexemes :: "int \<Rightarrow> string \<Rightarrow> lexeme list option" where
  "action_lexemes act token =
     (if act = 1 then Some [Tok NO_OP]
      else if act = 2 then Some [Tok IO]
      else if act = 3 then Some [Tok READ]
      else if act = 4 then Some [Tok COPY]
      else if act = 5 then Some [Tok WRITE]
      else if act = 6 then Some [Tok EXIT]
      else if act = 7 then Some []
      else if act = 8 then Some [Tok (CONSTANT token)]
      else if act = 9 \<or> act = 10 then Some [Lex_error]
      else None)"

text \<open>The tokens until the end of the text. A token of \<open>YYLMAX\<close> characters or more ends the program
  (\<open>YY_DO_BEFORE_ACTION\<close>), which is \<open>None\<close>.\<close>

fun yylex :: "nat \<Rightarrow> string \<Rightarrow> lexeme list option" where
  "yylex 0 text = (if text = [] then Some [] else None)"
| "yylex (Suc n) text =
     (if text = [] then Some []
      else do {
        (act, len) \<leftarrow> yy_match 1 0 (0, 0) text;
        if 8192 \<le> len then None
        else do {
          ls \<leftarrow> action_lexemes act (take len text);
          more \<leftarrow> yylex n (drop len text);
          Some (ls @ more) } })"

subsection \<open>The classes\<close>

lemma char_code_less: "char_code c < 256"
  by (simp add: char_code_def)

text \<open>Each predicate on characters is a set of classes; the letters of the keywords, with the classes
  of the capital and of the small letter.\<close>

definition letter_table :: "(int \<times> int \<times> int) list" where
  "letter_table = [(67, 9, 23), (69, 11, 25), (73, 12, 26), (78, 13, 27), (82, 16, 30), (87, 18, 32),
     (79, 14, 28), (80, 15, 29), (89, 20, 34), (88, 19, 33), (84, 17, 31), (65, 7, 22),
     (68, 10, 24), (47, 5, 5), (95, 21, 21)]"

definition class_ok :: "int \<Rightarrow> int \<Rightarrow> bool" where
  "class_ok i e \<longleftrightarrow> 1 \<le> e \<and> e < 35 \<and>
     (i = 32 \<or> 9 \<le> i \<and> i \<le> 13 \<longleftrightarrow> e = 2 \<or> e = 3) \<and> (48 \<le> i \<and> i \<le> 57 \<longleftrightarrow> e = 6) \<and>
     (i \<in> set [126, 96, 33, 64, 35, 36, 94, 38, 91, 125, 93, 39, 34, 63, 92, 62] \<or>
        (65 \<le> i \<and> i \<le> 90 \<or> 97 \<le> i \<and> i \<le> 122) \<longleftrightarrow>
      \<not> (e = 1 \<or> e = 2 \<or> e = 3 \<or> e = 5 \<or> e = 6 \<or> e = 21)) \<and>
     list_all (\<lambda>(k, a, b). ((if 97 \<le> i \<and> i \<le> 122 then i - 32 else i) = k) = (e = a \<or> e = b))
       letter_table"

lemma classes_ok: "list_all2 class_ok [1..255] (tl yy_ec)"
  by code_simp

lemma class_ok_char: "char_code c \<noteq> 0 \<Longrightarrow> class_ok (int (char_code c)) (yy_class c)"
proof -
  assume c: "char_code c \<noteq> 0"
  have "length (tl yy_ec) = 255" by (simp add: yy_ec_def)
  moreover have "[1..255] ! (char_code c - 1) = int (char_code c)"
    using c char_code_less [of c] by simp
  moreover have "tl yy_ec ! (char_code c - 1) = yy_ec ! char_code c"
    using c char_code_less [of c] by (simp add: nth_tl yy_ec_def)
  ultimately show ?thesis
    using list_all2_nthD [OF classes_ok, of "char_code c - 1"] c char_code_less [of c]
    by (simp add: yy_class_def entry_at_def)
qed

lemma classes:
  "yy_class c \<in> set [1..34]"
  "is_space c \<longleftrightarrow> yy_class c = 2 \<or> yy_class c = 3"
  "is_digit c \<longleftrightarrow> yy_class c = 6"
  "is_invalid c \<or> is_alpha c \<longleftrightarrow> yy_class c \<notin> {1, 2, 3, 5, 6, 21}"
proof -
  have "yy_class c \<in> set [1..34] \<and> (is_space c \<longleftrightarrow> yy_class c = 2 \<or> yy_class c = 3) \<and>
    (is_digit c \<longleftrightarrow> yy_class c = 6) \<and> (is_invalid c \<or> is_alpha c \<longleftrightarrow> yy_class c \<notin> {1, 2, 3, 5, 6, 21})"
  proof (cases "char_code c = 0")
    case True
    then show ?thesis
      by (simp add: yy_class_def is_space_def is_digit_def is_invalid_def is_alpha_def)
  next
    case False
    let ?i = "int (char_code c)"
    have "is_space c \<longleftrightarrow> ?i = 32 \<or> 9 \<le> ?i \<and> ?i \<le> 13" "is_digit c \<longleftrightarrow> 48 \<le> ?i \<and> ?i \<le> 57"
      "is_invalid c \<longleftrightarrow> ?i \<in> set [126, 96, 33, 64, 35, 36, 94, 38, 91, 125, 93, 39, 34, 63, 92, 62]"
      "is_alpha c \<longleftrightarrow> 65 \<le> ?i \<and> ?i \<le> 90 \<or> 97 \<le> ?i \<and> ?i \<le> 122"
      by (simp_all add: is_space_def is_digit_def is_invalid_def is_alpha_def)
    note eq = this
    show ?thesis
      using class_ok_char [OF False] unfolding eq class_ok_def by simp
  qed
  then show "yy_class c \<in> set [1..34]"
    "is_space c \<longleftrightarrow> yy_class c = 2 \<or> yy_class c = 3" "is_digit c \<longleftrightarrow> yy_class c = 6"
    "is_invalid c \<or> is_alpha c \<longleftrightarrow> yy_class c \<notin> {1, 2, 3, 5, 6, 21}" by blast+
qed

lemma upcase_code: "upcase c = d \<longleftrightarrow>
    (if 97 \<le> char_code c \<and> char_code c \<le> 122 then char_code c - 32 else char_code c) = char_code d"
proof -
  have inj: "char_code x = char_code y \<longleftrightarrow> x = y" for x y
    by (simp add: char_code_def)
  have "char_code (upcase c) = (if 97 \<le> char_code c \<and> char_code c \<le> 122 then char_code c - 32 else char_code c)"
  proof (cases "97 \<le> char_code c \<and> char_code c \<le> 122")
    case True
    then have "(char_code c - 32) mod 256 = char_code c - 32" using char_code_less [of c] by (intro mod_less) linarith
    then show ?thesis using True by (simp add: upcase_def char_code_def)
  next
    case False
    then show ?thesis by (auto simp: upcase_def)
  qed
  then show ?thesis using inj [of "upcase c" d] by simp
qed

lemma letter_class:
  assumes "(int (char_code d), a, b) \<in> set letter_table"
  shows "upcase c = d \<longleftrightarrow> yy_class c = a \<or> yy_class c = b"
proof (cases "char_code c = 0")
  case True
  then show ?thesis using assms by (auto simp: upcase_code yy_class_def letter_table_def)
next
  case False
  let ?i = "int (char_code c)"
  have "list_all (\<lambda>(k, a, b). ((if 97 \<le> ?i \<and> ?i \<le> 122 then ?i - 32 else ?i) = k) =
      (yy_class c = a \<or> yy_class c = b)) letter_table"
    using class_ok_char [OF False] by (simp only: class_ok_def)
  then have "((if 97 \<le> ?i \<and> ?i \<le> 122 then ?i - 32 else ?i) = int (char_code d)) =
      (yy_class c = a \<or> yy_class c = b)"
    using assms unfolding list_all_iff by fastforce
  then show ?thesis unfolding upcase_code by (auto split: if_splits)
qed

text \<open>The classes of the letters of the keywords.\<close>

lemma letters:
  "upcase c = CHR ''C'' \<longleftrightarrow> yy_class c = 9 \<or> yy_class c = 23"
  "upcase c = CHR ''E'' \<longleftrightarrow> yy_class c = 11 \<or> yy_class c = 25"
  "upcase c = CHR ''I'' \<longleftrightarrow> yy_class c = 12 \<or> yy_class c = 26"
  "upcase c = CHR ''N'' \<longleftrightarrow> yy_class c = 13 \<or> yy_class c = 27"
  "upcase c = CHR ''R'' \<longleftrightarrow> yy_class c = 16 \<or> yy_class c = 30"
  "upcase c = CHR ''W'' \<longleftrightarrow> yy_class c = 18 \<or> yy_class c = 32"
  "upcase c = CHR ''O'' \<longleftrightarrow> yy_class c = 14 \<or> yy_class c = 28"
  "upcase c = CHR ''P'' \<longleftrightarrow> yy_class c = 15 \<or> yy_class c = 29"
  "upcase c = CHR ''Y'' \<longleftrightarrow> yy_class c = 20 \<or> yy_class c = 34"
  "upcase c = CHR ''X'' \<longleftrightarrow> yy_class c = 19 \<or> yy_class c = 33"
  "upcase c = CHR ''T'' \<longleftrightarrow> yy_class c = 17 \<or> yy_class c = 31"
  "upcase c = CHR ''A'' \<longleftrightarrow> yy_class c = 7 \<or> yy_class c = 22"
  "upcase c = CHR ''D'' \<longleftrightarrow> yy_class c = 10 \<or> yy_class c = 24"
  "upcase c = CHR ''/'' \<longleftrightarrow> yy_class c = 5 \<or> yy_class c = 5"
  "upcase c = CHR ''_'' \<longleftrightarrow> yy_class c = 21 \<or> yy_class c = 21"
  by (rule letter_class; simp add: letter_table_def char_code_def)+

subsection \<open>The transitions\<close>

definition only_to :: "int \<Rightarrow> int \<Rightarrow> int \<Rightarrow> int \<Rightarrow> bool" where
  "only_to state a b t = list_all (\<lambda>e. yy_trans state e = Some (if e = a \<or> e = b then t else 37)) [1..34]"

lemma keyword_transitions:
  "only_to 8 14 28 17" "only_to 17 15 29 24" "only_to 24 20 34 30"
  "only_to 9 19 33 18" "only_to 18 12 26 25" "only_to 25 17 31 31"
  "only_to 10 5 5 19" "only_to 19 14 28 26"
  "only_to 11 14 28 20" "only_to 20 21 21 27" "only_to 27 14 28 32" "only_to 32 15 29 35"
  "only_to 12 11 25 21" "only_to 21 7 22 28" "only_to 28 10 24 33"
  "only_to 13 16 30 22" "only_to 22 12 26 29" "only_to 29 17 31 34" "only_to 34 11 25 36"
  by code_simp+

lemma space_transitions: "only_to 5 2 3 14" "only_to 6 2 3 14" "only_to 14 2 3 14"
  by code_simp+

lemma constant_transitions:
  "list_all (\<lambda>s. list_all (\<lambda>e. yy_trans s e = Some (if e = 6 then 16
     else if e = 1 \<or> e = 2 \<or> e = 3 \<or> e = 5 \<or> e = 21 then 37 else 15)) [1..34]) [7, 16]"
  "list_all (\<lambda>s. list_all (\<lambda>e. yy_trans s e =
     Some (if e = 1 \<or> e = 2 \<or> e = 3 \<or> e = 5 \<or> e = 21 then 37 else 23)) [1..34]) [15, 23]"
  by code_simp+

lemma start_transitions:
  "list_all (\<lambda>e. yy_trans 1 e = Some (if e = 2 then 5 else if e = 3 then 6 else if e = 6 then 7
     else if e = 9 \<or> e = 23 then 8 else if e = 11 \<or> e = 25 then 9 else if e = 12 \<or> e = 26 then 10
     else if e = 13 \<or> e = 27 then 11 else if e = 16 \<or> e = 30 then 12 else if e = 18 \<or> e = 32 then 13
     else 4)) [1..34]"
  by code_simp

lemma state_tables:
  "list_all (\<lambda>(s, a, b). entry_at yy_accept s = a \<and> entry_at yy_base s = b)
    [(1, 0, 0), (4, 10, 84), (5, 7, 33), (6, 7, 35), (7, 8, 70), (8, 10, 25), (9, 10, 21), (10, 10, 70),
     (11, 10, 27), (12, 10, 31), (13, 10, 27), (14, 7, 42), (15, 9, 0), (16, 8, 68), (17, 0, 31), (18, 0, 35),
     (19, 0, 34), (20, 0, 50), (21, 0, 42), (22, 0, 39), (23, 9, 0), (24, 0, 32), (25, 0, 41), (26, 2, 84),
     (27, 0, 45), (28, 0, 53), (29, 0, 50), (30, 4, 84), (31, 6, 84), (32, 0, 53), (33, 3, 84), (34, 0, 58),
     (35, 1, 84), (36, 5, 84), (37, 0, 84)]"
  by code_simp

lemmas states [simp] = state_tables [simplified]

lemma trans_at:
  "list_all (\<lambda>e. yy_trans s e = Some (f e)) [1..34] \<Longrightarrow> yy_trans s (yy_class c) = Some (f (yy_class c))"
  using classes(1) [of c] unfolding list_all_iff by blast

subsection \<open>Tokens\<close>

declare dropWhile_eq_Nil_conv [simp del]

lemma match_spaces:
  assumes "s \<in> {5, 6, 14}"
  shows "yy_match s n acc inp = Some (7, n + length (takeWhile is_space inp))"
  using assms
proof (induction inp arbitrary: s n acc)
  case Nil
  then show ?case by (auto simp: yy_find_action_def)
next
  case (Cons c cs)
  have "only_to s 2 3 14" using Cons.prems space_transitions by auto
  then have t: "yy_trans s (yy_class c) = Some (if is_space c then 14 else 37)"
    unfolding only_to_def classes(2) by (rule trans_at)
  show ?case
    using Cons.prems Cons.IH [of 14] t by (cases "is_space c") (auto simp: yy_find_action_def Let_def)
qed

abbreviation odd_char :: "char \<Rightarrow> bool" where
  "odd_char c \<equiv> is_invalid c \<or> is_alpha c \<or> is_digit c"

lemma match_bad_constant:
  assumes "s \<in> {15, 23}"
  shows "yy_match s n acc inp = Some (9, n + length (takeWhile odd_char inp))"
  using assms
proof (induction inp arbitrary: s n acc)
  case Nil
  then show ?case by (auto simp: yy_find_action_def)
next
  case (Cons c cs)
  have "list_all (\<lambda>e. yy_trans s e =
      Some (if e = 1 \<or> e = 2 \<or> e = 3 \<or> e = 5 \<or> e = 21 then 37 else 23)) [1..34]"
    by (rule bspec [OF constant_transitions(2) [unfolded list_all_iff [of _ "[15, 23]"]]])
      (use Cons.prems in simp)
  from trans_at [OF this, of c] have t: "yy_trans s (yy_class c) = Some (if odd_char c then 23 else 37)"
    using classes(3,4) [of c] by auto
  show ?case
    using Cons.prems Cons.IH [of 23] t by (cases "odd_char c") (auto simp: yy_find_action_def Let_def)
qed

lemma match_constant:
  assumes "s \<in> {7, 16}"
  shows "yy_match s n acc inp = Some
    (case dropWhile is_digit inp of
       [] \<Rightarrow> (8, n + length inp)
     | d # r \<Rightarrow> if is_invalid d \<or> is_alpha d
         then (9, n + length (takeWhile is_digit inp) + length (takeWhile odd_char (d # r)))
         else (8, n + length (takeWhile is_digit inp)))"
  using assms
proof (induction inp arbitrary: s n acc)
  case Nil
  then show ?case by (auto simp: yy_find_action_def)
next
  case (Cons c cs)
  have "list_all (\<lambda>e. yy_trans s e = Some (if e = 6 then 16
      else if e = 1 \<or> e = 2 \<or> e = 3 \<or> e = 5 \<or> e = 21 then 37 else 15)) [1..34]"
    by (rule bspec [OF constant_transitions(1) [unfolded list_all_iff [of _ "[7, 16]"]]])
      (use Cons.prems in simp)
  from trans_at [OF this, of c] have t: "yy_trans s (yy_class c) =
      Some (if is_digit c then 16 else if is_invalid c \<or> is_alpha c then 15 else 37)"
    using classes(3,4) [of c] by auto
  show ?case
  proof (cases "is_digit c")
    case True
    then show ?thesis
      using Cons.prems Cons.IH [of 16] t
      by (cases "dropWhile is_digit cs") (auto simp: Let_def)
  next
    case False
    show ?thesis
    proof (cases "is_invalid c \<or> is_alpha c")
      case True
      then show ?thesis
        using Cons.prems False t match_bad_constant [of 15] by (auto simp: Let_def)
    next
      case no: False
      then show ?thesis
        using Cons.prems False t by (auto simp: Let_def yy_find_action_def)
    qed
  qed
qed

text \<open>A path of the automaton that spells a word, and leaves it at any other character.\<close>

fun follows :: "int \<Rightarrow> (char \<times> int) list \<Rightarrow> bool" where
  "follows s [] = (entry_at yy_base s = 84 \<and> entry_at yy_accept s \<noteq> 0)"
| "follows s ((k, t) # p) = ((\<forall>c. yy_trans s (yy_class c) = Some (if upcase c = k then t else 37)) \<and>
     entry_at yy_base s \<noteq> 84 \<and> (p \<noteq> [] \<longrightarrow> entry_at yy_accept t = 0) \<and> follows t p)"

fun ends :: "int \<Rightarrow> (char \<times> int) list \<Rightarrow> int" where
  "ends s [] = s"
| "ends s ((k, t) # p) = ends t p"

lemma match_word:
  fixes acc :: "int \<times> nat" and n :: nat
  assumes "follows s p" and "p \<noteq> []"
  defines "acc' \<equiv> if entry_at yy_accept s \<noteq> 0 then (s, n) else acc"
  shows "yy_match s n acc inp = Some (if map upcase (take (length p) inp) = map fst p
    then (entry_at yy_accept (ends s p), n + length p) else (entry_at yy_accept (fst acc'), snd acc'))"
  using assms(1,2) unfolding acc'_def
proof (induction p arbitrary: s n acc inp)
  case Nil
  then show ?case by simp
next
  case (Cons kt p)
  obtain k t where kt: "kt = (k, t)" by (cases kt)
  let ?acc = "if entry_at yy_accept s \<noteq> 0 then (s, n) else acc"
  show ?case
  proof (cases inp)
    case Nil
    then show ?thesis by (auto simp: yy_find_action_def)
  next
    case inp: (Cons c cs)
    have tr: "yy_trans s (yy_class c) = Some (if upcase c = k then t else 37)"
      and rest: "follows t p" using Cons.prems(1) by (simp_all add: kt)
    show ?thesis
    proof (cases "upcase c = k")
      case False
      then show ?thesis using tr by (simp add: inp kt Let_def yy_find_action_def)
    next
      case True
      show ?thesis
      proof (cases "p = []")
        case last: True
        then show ?thesis using tr True rest by (simp add: inp kt Let_def yy_find_action_def)
      next
        case more: False
        have "entry_at yy_accept t = 0" "entry_at yy_base t \<noteq> 84"
          using Cons.prems(1) more rest by (simp_all add: kt, cases p) auto
        then show ?thesis
          using Cons.IH [OF rest more, of "n + 1" ?acc cs] tr True by (simp add: inp kt Let_def)
      qed
    qed
  qed
qed

lemma only_to_word:
  assumes "only_to s a b t" and "\<And>c. upcase c = k \<longleftrightarrow> yy_class c = a \<or> yy_class c = b"
  shows "\<forall>c. yy_trans s (yy_class c) = Some (if upcase c = k then t else 37)"
  using assms trans_at [of s "\<lambda>e. if e = a \<or> e = b then t else 37"] by (simp add: only_to_def)

lemma keyword_words:
  "\<forall>c. yy_trans 8 (yy_class c) = Some (if upcase c = CHR ''O'' then 17 else 37)"
  "\<forall>c. yy_trans 17 (yy_class c) = Some (if upcase c = CHR ''P'' then 24 else 37)"
  "\<forall>c. yy_trans 24 (yy_class c) = Some (if upcase c = CHR ''Y'' then 30 else 37)"
  "\<forall>c. yy_trans 9 (yy_class c) = Some (if upcase c = CHR ''X'' then 18 else 37)"
  "\<forall>c. yy_trans 18 (yy_class c) = Some (if upcase c = CHR ''I'' then 25 else 37)"
  "\<forall>c. yy_trans 25 (yy_class c) = Some (if upcase c = CHR ''T'' then 31 else 37)"
  "\<forall>c. yy_trans 10 (yy_class c) = Some (if upcase c = CHR ''/'' then 19 else 37)"
  "\<forall>c. yy_trans 19 (yy_class c) = Some (if upcase c = CHR ''O'' then 26 else 37)"
  "\<forall>c. yy_trans 11 (yy_class c) = Some (if upcase c = CHR ''O'' then 20 else 37)"
  "\<forall>c. yy_trans 20 (yy_class c) = Some (if upcase c = CHR ''_'' then 27 else 37)"
  "\<forall>c. yy_trans 27 (yy_class c) = Some (if upcase c = CHR ''O'' then 32 else 37)"
  "\<forall>c. yy_trans 32 (yy_class c) = Some (if upcase c = CHR ''P'' then 35 else 37)"
  "\<forall>c. yy_trans 12 (yy_class c) = Some (if upcase c = CHR ''E'' then 21 else 37)"
  "\<forall>c. yy_trans 21 (yy_class c) = Some (if upcase c = CHR ''A'' then 28 else 37)"
  "\<forall>c. yy_trans 28 (yy_class c) = Some (if upcase c = CHR ''D'' then 33 else 37)"
  "\<forall>c. yy_trans 13 (yy_class c) = Some (if upcase c = CHR ''R'' then 22 else 37)"
  "\<forall>c. yy_trans 22 (yy_class c) = Some (if upcase c = CHR ''I'' then 29 else 37)"
  "\<forall>c. yy_trans 29 (yy_class c) = Some (if upcase c = CHR ''T'' then 34 else 37)"
  "\<forall>c. yy_trans 34 (yy_class c) = Some (if upcase c = CHR ''E'' then 36 else 37)"
  by (rule only_to_word, rule keyword_transitions, rule letters)+

lemma keyword_paths:
  "follows 8 [(CHR ''O'', 17), (CHR ''P'', 24), (CHR ''Y'', 30)]"
  "follows 9 [(CHR ''X'', 18), (CHR ''I'', 25), (CHR ''T'', 31)]"
  "follows 10 [(CHR ''/'', 19), (CHR ''O'', 26)]"
  "follows 11 [(CHR ''O'', 20), (CHR ''_'', 27), (CHR ''O'', 32), (CHR ''P'', 35)]"
  "follows 12 [(CHR ''E'', 21), (CHR ''A'', 28), (CHR ''D'', 33)]"
  "follows 13 [(CHR ''R'', 22), (CHR ''I'', 29), (CHR ''T'', 34), (CHR ''E'', 36)]"
  using keyword_words by simp_all

subsection \<open>The scanner\<close>

fun rule_of :: "token \<Rightarrow> int" where
  "rule_of NO_OP = 1"
| "rule_of IO = 2"
| "rule_of READ = 3"
| "rule_of COPY = 4"
| "rule_of WRITE = 5"
| "rule_of EXIT = 6"
| "rule_of (CONSTANT _) = 8"

lemma start_class:
  "yy_trans 1 (yy_class c) = Some
     (if is_space c then (if yy_class c = 2 then 5 else 6) else if is_digit c then 7
      else if upcase c = CHR ''C'' then 8 else if upcase c = CHR ''E'' then 9 else if upcase c = CHR ''I'' then 10
      else if upcase c = CHR ''N'' then 11 else if upcase c = CHR ''R'' then 12
      else if upcase c = CHR ''W'' then 13 else 4)"
  unfolding trans_at [OF start_transitions, of c] letters classes(2,3) by auto

lemma match_first:
  "yy_match 1 0 (0, 0) (c # cs) = Some
     (if is_space c then (7, 1 + length (takeWhile is_space cs))
      else if is_digit c then
        (case dropWhile is_digit cs of
           [] \<Rightarrow> (8, 1 + length cs)
         | d # r \<Rightarrow> if is_invalid d \<or> is_alpha d
             then (9, 1 + length (takeWhile is_digit cs) + length (takeWhile odd_char (d # r)))
             else (8, 1 + length (takeWhile is_digit cs)))
      else
        (case keyword_at (c # cs) of Some (k, t) \<Rightarrow> (rule_of t, length k) | None \<Rightarrow> (10, 1)))"
proof -
  consider (space) "is_space c" | (digit) "\<not> is_space c" "is_digit c"
    | (C) "\<not> is_space c" "\<not> is_digit c" "upcase c = CHR ''C''"
    | (E) "\<not> is_space c" "\<not> is_digit c" "upcase c = CHR ''E''"
    | (I) "\<not> is_space c" "\<not> is_digit c" "upcase c = CHR ''I''"
    | (N) "\<not> is_space c" "\<not> is_digit c" "upcase c = CHR ''N''"
    | (R) "\<not> is_space c" "\<not> is_digit c" "upcase c = CHR ''R''"
    | (W) "\<not> is_space c" "\<not> is_digit c" "upcase c = CHR ''W''"
    | (other) "\<not> is_space c" "\<not> is_digit c" "upcase c \<notin> set ''CEINRW''" by auto
  then show ?thesis
  proof cases
    case space
    then show ?thesis using start_class [of c] match_spaces by (auto simp: Let_def)
  next
    case digit
    then show ?thesis using start_class [of c] 
      by (cases "dropWhile is_digit cs") (simp_all add: Let_def match_constant)
  next
    case C
    then show ?thesis using start_class [of c] match_word [OF keyword_paths(1)]
      by (simp add: Let_def keyword_at_def reserved_def)
  next
    case E
    then show ?thesis using start_class [of c] match_word [OF keyword_paths(2)]
      by (simp add: Let_def keyword_at_def reserved_def)
  next
    case I
    then show ?thesis using start_class [of c] match_word [OF keyword_paths(3)]
      by (simp add: Let_def keyword_at_def reserved_def)
  next
    case N
    then show ?thesis using start_class [of c] match_word [OF keyword_paths(4)]
      by (simp add: Let_def keyword_at_def reserved_def)
  next
    case R
    then show ?thesis using start_class [of c] match_word [OF keyword_paths(5)]
      by (simp add: Let_def keyword_at_def reserved_def)
  next
    case W
    then show ?thesis using start_class [of c] match_word [OF keyword_paths(6)]
      by (simp add: Let_def keyword_at_def reserved_def)
  next
    case other
    then show ?thesis using start_class [of c]
      by (simp add: Let_def keyword_at_def reserved_def yy_find_action_def)
  qed
qed

lemma drop_takeWhile: "drop (length (takeWhile P xs)) xs = dropWhile P xs"
  by (induction xs) auto

lemma drop_digits:
  assumes "dropWhile P xs = d # r"
  shows "drop (length (takeWhile P xs) + length (takeWhile Q (d # r))) xs = dropWhile Q (d # r)"
  using drop_takeWhile [of P xs] drop_takeWhile [of Q "d # r"] assms by (metis add.commute drop_drop)

lemma take_takeWhile: "take (length (takeWhile P xs)) xs = takeWhile P xs"
  by (metis append_eq_conv_conj takeWhile_dropWhile_id)

lemma keyword_at_cases:
  assumes "keyword_at s = Some (k, t)"
  shows "0 < length k" "length k \<le> 5" "(k, t) \<in> set reserved"
  using assms by (auto simp: keyword_at_def reserved_def split: if_splits)

lemma upcase_newline: "upcase (CHR 0x0A) = CHR 0x0A"
  by (simp add: upcase_def char_code_def)

lemma space_not_odd: "is_space c \<Longrightarrow> \<not> odd_char c"
  by (auto simp: is_space_def is_invalid_def is_alpha_def is_digit_def)

lemma newline_is_space: "is_space (CHR 0x0A)"
  by (simp add: is_space_def char_code_def)

lemma odd_no_newline: "list_all odd_char w \<Longrightarrow> CHR 0x0A \<notin> set w"
  using space_not_odd [OF newline_is_space] by (auto simp: list_all_iff)

lemma keyword_spelled:
  assumes "keyword_at s = Some (k, t)"
  shows "map upcase (take (length k) s) = k" "(k, t) \<in> set reserved"
proof -
  have "(case (k, t) of (k, t) \<Rightarrow> map upcase (take (length k) s) = k) \<and> (k, t) \<in> set reserved"
    using assms unfolding keyword_at_def find_Some_iff by (metis nth_mem)
  then show "map upcase (take (length k) s) = k" "(k, t) \<in> set reserved" by simp_all
qed

lemma keyword_no_newline:
  assumes "keyword_at s = Some (k, t)"
  shows "CHR 0x0A \<notin> set (take (length k) s)"
proof
  assume "CHR 0x0A \<in> set (take (length k) s)"
  then have "upcase (CHR 0x0A) \<in> set (map upcase (take (length k) s))" unfolding set_map by (rule imageI)
  then have "CHR 0x0A \<in> set k" unfolding keyword_spelled(1) [OF assms] upcase_newline .
  then show False using keyword_spelled(2) [OF assms] by (auto simp: reserved_def)
qed

lemma keyword_fits:
  assumes "keyword_at s = Some (k, t)"
  shows "length k \<le> length s"
  using arg_cong [OF keyword_spelled(1) [OF assms], of length] by simp

lemma list_all_takeWhile: "list_all P (takeWhile P xs)"
  by (induction xs) simp_all

text \<open>What a token is: its rule and length, the lexemes of its action, and that the rules agree. Only
  white space and constants are longer than five characters, and only rule 7 has new lines.\<close>

definition token_of :: "string \<Rightarrow> int \<Rightarrow> nat \<Rightarrow> lexeme list \<Rightarrow> bool" where
  "token_of inp act len ls \<longleftrightarrow> yy_match 1 0 (0, 0) inp = Some (act, len) \<and> 0 < len \<and> len \<le> length inp \<and>
     action_lexemes act (take len inp) = Some ls \<and> scan_text inp = ls @ scan_text (drop len inp) \<and>
     (len \<le> 5 \<or> list_all is_space (take len inp) \<or> list_all odd_char (take len inp)) \<and>
     1 \<le> act \<and> act \<le> 10 \<and> (act = 7 \<or> CHR 0x0A \<notin> set (take len inp))"

lemma space_token:
  assumes "is_space c"
  shows "token_of (c # cs) 7 (1 + length (takeWhile is_space cs)) []"
  using assms length_takeWhile_le [of is_space cs]
  by (simp add: token_of_def match_first drop_takeWhile take_takeWhile action_lexemes_def
      list_all_takeWhile del: yy_match.simps)

lemma keyword_token:
  assumes "\<not> is_space c" and "\<not> is_digit c" and k: "keyword_at (c # cs) = Some (k, t)"
  shows "token_of (c # cs) (rule_of t) (length k) [Tok t]"
proof -
  have "yy_match 1 0 (0, 0) (c # cs) = Some (rule_of t, length k)"
    using assms by (simp add: match_first del: yy_match.simps)
  moreover have "scan_text (c # cs) = [Tok t] @ scan_text (drop (length k) (c # cs))"
    using assms by simp
  ultimately show ?thesis
    using keyword_at_cases [OF k] keyword_no_newline [OF k] keyword_fits [OF k]
    by (auto simp: token_of_def reserved_def action_lexemes_def simp del: yy_match.simps scan_text.simps)
qed

lemma unknown_token:
  assumes "\<not> is_space c" and "\<not> is_digit c" and "keyword_at (c # cs) = None"
  shows "token_of (c # cs) 10 1 [Lex_error]"
  using assms newline_is_space
  by (auto simp: token_of_def match_first action_lexemes_def simp del: yy_match.simps)

lemma constant_token:
  assumes c: "is_digit c" and r: "case dropWhile is_digit cs of [] \<Rightarrow> True | d # _ \<Rightarrow> \<not> is_invalid d \<and> \<not> is_alpha d"
  defines "ds \<equiv> takeWhile is_digit cs"
  shows "token_of (c # cs) 8 (1 + length ds) [Tok (CONSTANT (c # ds))]"
proof -
  have s: "\<not> is_space c" using c space_not_odd by blast
  have "list_all odd_char (c # ds)" using c list_all_takeWhile [of is_digit cs]
    by (auto simp: ds_def list_all_iff)
  moreover have "length ds \<le> length cs" by (simp add: ds_def length_takeWhile_le)
  moreover have "take (length ds) cs = ds" "drop (length ds) cs = dropWhile is_digit cs"
    by (simp_all add: ds_def take_takeWhile drop_takeWhile)
  moreover have "dropWhile is_digit cs = [] \<Longrightarrow> ds = cs"
    unfolding ds_def by (metis append_Nil2 takeWhile_dropWhile_id)
  ultimately show ?thesis using s c r odd_no_newline [of "c # ds"]
    by (cases "dropWhile is_digit cs")
      (simp_all add: token_of_def match_first action_lexemes_def Let_def flip: ds_def del: yy_match.simps
        takeWhile.simps dropWhile.simps)
qed

lemma bad_constant_token:
  assumes c: "is_digit c" and r: "dropWhile is_digit cs = d # r" and d: "is_invalid d \<or> is_alpha d"
  defines "w \<equiv> takeWhile is_digit cs @ takeWhile odd_char (d # r)"
  shows "token_of (c # cs) 9 (1 + length w) [Lex_error]"
proof -
  have s: "\<not> is_space c" using c space_not_odd by blast
  have cs: "cs = w @ dropWhile odd_char (d # r)"
    unfolding w_def by (metis append.assoc r takeWhile_dropWhile_id)
  have odd: "list_all odd_char (c # w)"
    using c list.pred_mono_strong [OF list_all_takeWhile [of is_digit cs], of odd_char]
      list_all_takeWhile [of odd_char "d # r"]
    by (simp add: w_def del: takeWhile.simps)
  have len: "length w = length (takeWhile is_digit cs) + length (takeWhile odd_char (d # r))"
    by (simp add: w_def)
  have "take (length w) cs = w" "drop (length w) cs = dropWhile odd_char (d # r)" "length w \<le> length cs"
    by (simp_all add: cs del: dropWhile.simps)
  note w = this
  have m: "yy_match 1 0 (0, 0) (c # cs) = Some (9, 1 + length w)"
    using s c d unfolding match_first r len by simp
  have "scan_text (c # cs) = Lex_error # scan_text (dropWhile odd_char (d # r))"
    using s c d by (simp only: scan_text.simps r Let_def list.case simp_thms if_True if_False)
  then show ?thesis using odd odd_no_newline [OF odd] w unfolding token_of_def m
    by (simp add: action_lexemes_def del: scan_text.simps dropWhile.simps)
qed

lemma token_step:
  assumes "inp \<noteq> []"
  obtains act len ls where "token_of inp act len ls"
proof -
  obtain c cs where inp: "inp = c # cs" using assms by (cases inp) auto
  consider "is_space c" | "is_digit c" "case dropWhile is_digit cs of [] \<Rightarrow> True | d # _ \<Rightarrow> \<not> is_invalid d \<and> \<not> is_alpha d"
    | d r where "is_digit c" "dropWhile is_digit cs = d # r" "is_invalid d \<or> is_alpha d"
    | k t where "\<not> is_space c" "\<not> is_digit c" "keyword_at (c # cs) = Some (k, t)"
    | "\<not> is_space c" "\<not> is_digit c" "keyword_at (c # cs) = None"
    by (cases "dropWhile is_digit cs"; cases "keyword_at (c # cs)") auto
  then show ?thesis unfolding inp
    by cases (blast intro: that [unfolded inp] space_token constant_token bad_constant_token keyword_token unknown_token)+
qed

text \<open>The longest run of characters with a property, \<open>n\<close> of them already read.\<close>

fun longest :: "(char \<Rightarrow> bool) \<Rightarrow> nat \<Rightarrow> string \<Rightarrow> nat" where
  "longest P n [] = n"
| "longest P n (c # cs) = (if P c then longest P (n + 1) cs else max n (longest P 0 cs))"

lemma longest_mono: "m \<le> n \<Longrightarrow> longest P m cs \<le> longest P n cs"
  by (induction cs arbitrary: m n) (auto simp: max.coboundedI1)

lemma longest_drop: "longest P 0 (drop k cs) \<le> longest P n cs"
proof (induction cs arbitrary: k n)
  case Nil
  then show ?case by simp
next
  case (Cons c cs)
  show ?case
  proof (cases k)
    case 0
    then show ?thesis using longest_mono [of 0 n P "c # cs"] by simp
  next
    case (Suc j)
    then show ?thesis using Cons.IH [of j "n + 1"] Cons.IH [of j 0] by (simp add: max.coboundedI2)
  qed
qed

lemma longest_take: "list_all P (take k cs) \<Longrightarrow> k \<le> length cs \<Longrightarrow> n + k \<le> longest P n cs"
proof (induction cs arbitrary: k n)
  case Nil
  then show ?case by simp
next
  case (Cons c cs)
  show ?case
  proof (cases k)
    case 0
    then show ?thesis using longest_mono [of n "n + 1" P cs] by (cases "P c") (use Cons.IH [of 0 "n + 1"] in auto)
  next
    case (Suc j)
    then show ?thesis using Cons.IH [of j "n + 1"] Cons.prems by simp
  qed
qed

lemma longest_le: "longest P n cs \<le> n + length cs"
proof (induction cs arbitrary: n)
  case (Cons c cs)
  show ?case using Cons.IH [of "n + 1"] Cons.IH [of 0] by simp
qed simp

lemma yylex_runs:
  assumes "length inp \<le> n" and "longest is_space 0 inp < 8192" and "longest odd_char 0 inp < 8192"
  shows "yylex n inp = Some (scan_text inp)"
  using assms
proof (induction n arbitrary: inp)
  case 0
  then show ?case by simp
next
  case (Suc n)
  show ?case
  proof (cases "inp = []")
    case False
    then obtain act len ls where t: "token_of inp act len ls" by (rule token_step)
    have small: "len < 8192"
      using t Suc.prems(2,3) longest_take [of is_space len inp 0] longest_take [of odd_char len inp 0]
      by (auto simp: token_of_def)
    have "yylex n (drop len inp) = Some (scan_text (drop len inp))"
      using t Suc.prems longest_drop [of is_space len inp 0] longest_drop [of odd_char len inp 0]
      by (intro Suc.IH) (auto simp: token_of_def)
    then show ?thesis using t small False by (simp add: token_of_def del: scan_text.simps yy_match.simps)
  qed simp
qed

lemma yylex_scan:
  assumes "length inp \<le> n" and "length inp < 8192"
  shows "yylex n inp = Some (scan_text inp)"
  using assms longest_le [of is_space 0 inp] longest_le [of odd_char 0 inp] by (intro yylex_runs) simp_all

declare dropWhile_eq_Nil_conv [simp]

end
