(* ===== verification/Scanner_Buffer.thy ===== *)
theory Scanner_Buffer
  imports Scanner "HOL-Library.Signed_Division"
begin

section \<open>The buffers of the generated scanner\<close>

text \<open>
  \<open>console/src/console/scanner.c\<close> as it reads a file: the buffer of \<open>yy_ch_buf\<close> with its two
  end-of-buffer characters, the character that \<open>YY_DO_BEFORE_ACTION\<close> holds back, the text that
  \<open>yy_get_next_buffer\<close> moves and reads, and the NULs that the scanner takes for the end of the buffer
  until it looks. A pointer into the buffer is its index; a read or a write outside the buffer is
  \<open>None\<close>, as are the fatal errors. Memory that is allocated and not yet written has the contents
  \<open>fresh\<close>, any function of the index. The stream \<open>yyin\<close> is the characters that are still to be read,
  and reads do not fail.
\<close>

subsection \<open>Memory\<close>

abbreviation NUL :: char where
  "NUL \<equiv> CHR 0x00"

definition peek :: "nat \<Rightarrow> string \<Rightarrow> char option" where
  "peek i buf = (if i < length buf then Some (buf ! i) else None)"

definition poke :: "nat \<Rightarrow> char \<Rightarrow> string \<Rightarrow> string option" where
  "poke i c buf = (if i < length buf then Some (buf[i := c]) else None)"

text \<open>\<open>yyalloc\<close> and \<open>yyrealloc\<close>, which do not fail: a block that grows keeps its contents.\<close>

definition yyalloc :: "(nat \<Rightarrow> char) \<Rightarrow> nat \<Rightarrow> string" where
  "yyalloc fresh n = map fresh [0..<n]"

definition yyrealloc :: "(nat \<Rightarrow> char) \<Rightarrow> nat \<Rightarrow> string \<Rightarrow> string" where
  "yyrealloc fresh n buf = take n buf @ map fresh [length buf..<n]"

subsection \<open>The state\<close>

datatype buffer_status = YY_BUFFER_NEW | YY_BUFFER_NORMAL | YY_BUFFER_EOF_PENDING

record yy_buffer_state =
  yy_ch_buf :: string
  yy_buf_pos :: nat
  yy_buf_size :: int
  yy_buf_chars :: nat
  yy_is_our_buffer :: bool
  yy_is_interactive :: bool
  yy_at_bol :: bool
  yy_bs_lineno :: nat
  yy_bs_column :: nat
  yy_fill_buffer :: bool
  yy_buffer_status :: buffer_status

text \<open>The globals: \<open>yy_current\<close> is \<open>YY_CURRENT_BUFFER\<close>, the one buffer of the stack, whose
  \<open>yy_input_file\<close> is the stream \<open>yyin\<close>; \<open>yyin_tty\<close> is what \<open>isatty\<close> says of it. \<open>yytext\<close> is the
  array up to \<open>yyleng\<close>.\<close>

record scanner =
  yy_current :: yy_buffer_state
  yyin :: string
  yyin_tty :: bool
  yy_n_chars :: nat
  yy_c_buf_p :: nat
  yytext_ptr :: nat
  yy_hold_char :: char
  yy_last_accepting_state :: int
  yy_last_accepting_cpos :: nat
  yytext :: string
  yylineno :: nat

abbreviation ch_buf :: "scanner \<Rightarrow> string" where
  "ch_buf st \<equiv> yy_ch_buf (yy_current st)"

abbreviation set_ch_buf :: "string \<Rightarrow> scanner \<Rightarrow> scanner" where
  "set_ch_buf buf st \<equiv> st\<lparr>yy_current := (yy_current st)\<lparr>yy_ch_buf := buf\<rparr>\<rparr>"

abbreviation accepting :: "scanner \<Rightarrow> int \<times> nat" where
  "accepting st \<equiv> (yy_last_accepting_state st, yy_last_accepting_cpos st)"

abbreviation set_accepting :: "int \<times> nat \<Rightarrow> scanner \<Rightarrow> scanner" where
  "set_accepting acc st \<equiv> st\<lparr>yy_last_accepting_state := fst acc, yy_last_accepting_cpos := snd acc\<rparr>"

subsection \<open>Buffers\<close>

definition yy_load_buffer_state :: "scanner \<Rightarrow> scanner option" where
  "yy_load_buffer_state st = do {
     let pos = yy_buf_pos (yy_current st);
     hold \<leftarrow> peek pos (ch_buf st);
     Some (st\<lparr>yy_n_chars := yy_buf_chars (yy_current st), yytext_ptr := pos, yy_c_buf_p := pos,
       yy_hold_char := hold\<rparr>) }"

text \<open>\<open>yy_flush_buffer\<close>; the current buffer is then loaded.\<close>

definition yy_flush_buffer :: "yy_buffer_state \<Rightarrow> yy_buffer_state option" where
  "yy_flush_buffer b = do {
     buf \<leftarrow> poke 0 NUL (yy_ch_buf b);
     buf \<leftarrow> poke 1 NUL buf;
     Some (b\<lparr>yy_buf_chars := 0, yy_ch_buf := buf, yy_buf_pos := 0, yy_at_bol := True,
       yy_buffer_status := YY_BUFFER_NEW\<rparr>) }"

text \<open>The rest of \<open>yy_init_buffer\<close>, which keeps the line of the current buffer.\<close>

definition yy_init_buffer :: "bool \<Rightarrow> bool \<Rightarrow> yy_buffer_state \<Rightarrow> yy_buffer_state" where
  "yy_init_buffer is_current tty b =
     (let b = b\<lparr>yy_fill_buffer := True\<rparr>;
          b = (if is_current then b else b\<lparr>yy_bs_lineno := 1, yy_bs_column := 0\<rparr>) in
      b\<lparr>yy_is_interactive := tty\<rparr>)"

definition yy_create_buffer :: "(nat \<Rightarrow> char) \<Rightarrow> bool \<Rightarrow> int \<Rightarrow> yy_buffer_state option" where
  "yy_create_buffer fresh tty n = do {
     b \<leftarrow> yy_flush_buffer \<lparr>yy_ch_buf = yyalloc fresh (nat (n + 2)), yy_buf_pos = 0, yy_buf_size = n,
       yy_buf_chars = 0, yy_is_our_buffer = True, yy_is_interactive = False, yy_at_bol = False,
       yy_bs_lineno = 0, yy_bs_column = 0, yy_fill_buffer = False, yy_buffer_status = YY_BUFFER_NEW\<rparr>;
     Some (yy_init_buffer False tty b) }"

definition yyrestart :: "scanner \<Rightarrow> scanner option" where
  "yyrestart st = do {
     b \<leftarrow> yy_flush_buffer (yy_current st);
     st \<leftarrow> yy_load_buffer_state (st\<lparr>yy_current := b\<rparr>);
     yy_load_buffer_state (st\<lparr>yy_current := yy_init_buffer True (yyin_tty st) b\<rparr>) }"

subsection \<open>Reading\<close>

text \<open>\<open>YY_INPUT\<close>: a terminal is read up to the end of the line, a file by \<open>fread\<close>.\<close>

fun read_line :: "nat \<Rightarrow> string \<Rightarrow> string \<times> string" where
  "read_line 0 s = ([], s)"
| "read_line (Suc n) [] = ([], [])"
| "read_line (Suc n) (c # cs) =
     (if c = CHR 0x0A then ([c], cs)
      else case read_line n cs of (line, rest) \<Rightarrow> (c # line, rest))"

definition yy_input :: "bool \<Rightarrow> nat \<Rightarrow> string \<Rightarrow> string \<times> string" where
  "yy_input interactive max_size s =
     (if interactive then read_line max_size s else (take max_size s, drop max_size s))"

text \<open>The characters that are read go into the buffer.\<close>

definition store_chars :: "nat \<Rightarrow> string \<Rightarrow> string \<Rightarrow> string option" where
  "store_chars i cs buf =
     (if i + length cs \<le> length buf then Some (take i buf @ cs @ drop (i + length cs) buf) else None)"

text \<open>The first loop of \<open>yy_get_next_buffer\<close> moves the text that is matched to the start.\<close>

fun move_chars :: "nat \<Rightarrow> nat \<Rightarrow> nat \<Rightarrow> string \<Rightarrow> string option" where
  "move_chars 0 dest source buf = Some buf"
| "move_chars (Suc n) dest source buf = do {
     c \<leftarrow> peek source buf;
     buf \<leftarrow> poke dest c buf;
     move_chars n (dest + 1) (source + 1) buf }"

text \<open>The loop that makes room: the size doubles. A size that is no \<open>int\<close> is undefined.\<close>

partial_function (option) yy_grow :: "(nat \<Rightarrow> char) \<Rightarrow> nat \<Rightarrow> yy_buffer_state \<Rightarrow> yy_buffer_state option" where
  "yy_grow fresh moved b =
     (if 0 < yy_buf_size b - int moved - 1 then Some b
      else if \<not> yy_is_our_buffer b then None
      else
        let new_size = yy_buf_size b * 2;
            n = (if new_size \<le> 0 then yy_buf_size b + yy_buf_size b sdiv 8 else new_size) in
        if 2 ^ 31 \<le> n + 2 then None
        else yy_grow fresh moved
          (b\<lparr>yy_buf_size := n, yy_ch_buf := yyrealloc fresh (nat (n + 2)) (yy_ch_buf b)\<rparr>))"

declare yy_grow.simps [code]

definition yy_read_more :: "(nat \<Rightarrow> char) \<Rightarrow> nat \<Rightarrow> scanner \<Rightarrow> scanner option" where
  "yy_read_more fresh moved st =
     (if yy_buffer_status (yy_current st) = YY_BUFFER_EOF_PENDING
      then Some (st\<lparr>yy_current := (yy_current st)\<lparr>yy_buf_chars := 0\<rparr>, yy_n_chars := 0\<rparr>)
      else do {
        b \<leftarrow> yy_grow fresh moved (yy_current st);
        let num_to_read = min (yy_buf_size b - int moved - 1) 8192;
        let (cs, rest) = yy_input (yy_is_interactive b) (nat num_to_read) (yyin st);
        buf \<leftarrow> store_chars moved cs (yy_ch_buf b);
        Some (st\<lparr>yy_current := b\<lparr>yy_ch_buf := buf, yy_buf_chars := length cs\<rparr>, yyin := rest,
          yy_n_chars := length cs\<rparr>) })"

datatype eob_act = EOB_ACT_CONTINUE_SCAN | EOB_ACT_END_OF_FILE | EOB_ACT_LAST_MATCH

definition yy_refilled :: "nat \<Rightarrow> scanner \<Rightarrow> (eob_act \<times> scanner) option" where
  "yy_refilled moved st =
     (if yy_n_chars st = 0 then
        if moved = 0 then map_option (Pair EOB_ACT_END_OF_FILE) (yyrestart st)
        else Some (EOB_ACT_LAST_MATCH,
          st\<lparr>yy_current := (yy_current st)\<lparr>yy_buffer_status := YY_BUFFER_EOF_PENDING\<rparr>\<rparr>)
      else Some (EOB_ACT_CONTINUE_SCAN, st))"

definition yy_extend :: "(nat \<Rightarrow> char) \<Rightarrow> nat \<Rightarrow> scanner \<Rightarrow> scanner" where
  "yy_extend fresh moved st =
     (if yy_buf_size (yy_current st) < int (yy_n_chars st + moved) then
        let new_size = yy_n_chars st + moved + yy_n_chars st div 2 in
        st\<lparr>yy_current := (yy_current st)\<lparr>yy_ch_buf := yyrealloc fresh new_size (ch_buf st),
          yy_buf_size := int new_size - 2\<rparr>\<rparr>
      else st)"

definition yy_get_next_buffer :: "(nat \<Rightarrow> char) \<Rightarrow> scanner \<Rightarrow> (eob_act \<times> scanner) option" where
  "yy_get_next_buffer fresh st =
     (if yy_n_chars st + 1 < yy_c_buf_p st then None
      else if \<not> yy_fill_buffer (yy_current st) then
        Some (if yy_c_buf_p st = yytext_ptr st + 1 then EOB_ACT_END_OF_FILE else EOB_ACT_LAST_MATCH, st)
      else do {
        let moved = yy_c_buf_p st - yytext_ptr st - 1;
        buf \<leftarrow> move_chars moved 0 (yytext_ptr st) (ch_buf st);
        st \<leftarrow> yy_read_more fresh moved (set_ch_buf buf st);
        (act, st) \<leftarrow> yy_refilled moved st;
        let st = yy_extend fresh moved st;
        let n = yy_n_chars st + moved;
        buf \<leftarrow> poke n NUL (ch_buf st);
        buf \<leftarrow> poke (n + 1) NUL buf;
        Some (act, set_ch_buf buf (st\<lparr>yy_n_chars := n, yytext_ptr := 0\<rparr>)) })"

subsection \<open>The automaton on the buffer\<close>

text \<open>The loop of \<open>yylex\<close> at \<open>yy_match\<close>: the state, \<open>yy_cp\<close> and the last accepting state with its
  position. A NUL is in class 0, which every state takes to the state of the end of the buffer.\<close>

function yy_match_loop :: "string \<Rightarrow> int \<Rightarrow> nat \<Rightarrow> int \<times> nat \<Rightarrow> (int \<times> nat \<times> int \<times> nat) option" where
  "yy_match_loop buf state cp acc =
     (if cp < length buf then
        let acc = (if entry_at yy_accept state \<noteq> 0 then (state, cp) else acc) in
        do {
          state \<leftarrow> yy_trans state (entry_at yy_ec (int (char_code (buf ! cp))));
          if entry_at yy_base state = 84 then Some (state, cp + 1, acc)
          else yy_match_loop buf state (cp + 1) acc }
      else None)"
  by pat_completeness auto

termination yy_match_loop
  by (relation "measure (\<lambda>(buf, state, cp, acc). length buf - cp)") auto

declare yy_match_loop.simps [simp del]

definition yy_do_before_action :: "nat \<Rightarrow> nat \<Rightarrow> scanner \<Rightarrow> scanner option" where
  "yy_do_before_action bp cp st = do {
     hold \<leftarrow> peek cp (ch_buf st);
     buf \<leftarrow> poke cp NUL (ch_buf st);
     if 8192 \<le> cp - bp then None
     else Some ((set_ch_buf buf st)\<lparr>yytext_ptr := bp, yy_hold_char := hold,
       yytext := take (cp - bp) (drop bp buf), yy_c_buf_p := cp\<rparr>) }"

definition yy_rule_can_match_eol :: "int list" where
  "yy_rule_can_match_eol = [0, 0, 0, 0, 0, 0, 0, 1, 0, 0, 0, 0]"

definition newlines :: "string \<Rightarrow> nat" where
  "newlines s = length (filter (\<lambda>c. c = CHR 0x0A) s)"

definition count_lines :: "int \<Rightarrow> scanner \<Rightarrow> scanner" where
  "count_lines act st =
     (if act \<noteq> 12 \<and> entry_at yy_rule_can_match_eol act \<noteq> 0
      then st\<lparr>yylineno := yylineno st + newlines (yytext st)\<rparr> else st)"

text \<open>\<open>yy_get_previous_state\<close> runs the automaton again up to the NUL.\<close>

fun yy_run :: "int \<Rightarrow> nat \<Rightarrow> int \<times> nat \<Rightarrow> string \<Rightarrow> (int \<times> int \<times> nat) option" where
  "yy_run state cp acc [] = Some (state, acc)"
| "yy_run state cp acc (c # cs) =
     (let acc = (if entry_at yy_accept state \<noteq> 0 then (state, cp) else acc) in
      do {
        state \<leftarrow> yy_trans state (yy_class c);
        yy_run state (cp + 1) acc cs })"

definition yy_get_previous_state :: "scanner \<Rightarrow> (int \<times> scanner) option" where
  "yy_get_previous_state st = do {
     (state, acc) \<leftarrow> yy_run 1 (yytext_ptr st) (accepting st)
       (take (yy_c_buf_p st - yytext_ptr st) (drop (yytext_ptr st) (ch_buf st)));
     Some (state, set_accepting acc st) }"

definition yy_try_NUL_trans :: "int \<Rightarrow> scanner \<Rightarrow> (int \<times> scanner) option" where
  "yy_try_NUL_trans state st = do {
     let acc = (if entry_at yy_accept state \<noteq> 0 then (state, yy_c_buf_p st) else accepting st);
     next_state \<leftarrow> yy_trans state 1;
     Some (if next_state = 37 then 0 else next_state, set_accepting acc st) }"

text \<open>Where \<open>yylex\<close> goes on: at \<open>yy_match\<close>, at \<open>yy_find_action\<close> (with the state and \<open>yy_cp\<close>) or at
  \<open>do_action\<close> with the action of the end of the file.\<close>

datatype control = Match int nat | Find int nat | End_of_file

text \<open>The action \<open>YY_END_OF_BUFFER\<close> on a NUL that is a character of the text, and at the end of the
  buffer; \<open>yywrap\<close> is 1. \<open>matched\<close> is \<open>yy_amount_of_matched_text\<close>.\<close>

definition yy_real_NUL :: "nat \<Rightarrow> scanner \<Rightarrow> (control \<times> scanner) option" where
  "yy_real_NUL matched st = do {
     let st = st\<lparr>yy_c_buf_p := yytext_ptr st + matched\<rparr>;
     (state, st) \<leftarrow> yy_get_previous_state st;
     (next_state, st) \<leftarrow> yy_try_NUL_trans state st;
     if next_state \<noteq> 0
     then Some (Match next_state (yy_c_buf_p st + 1), st\<lparr>yy_c_buf_p := yy_c_buf_p st + 1\<rparr>)
     else Some (Find state (yy_c_buf_p st), st) }"

definition yy_refill :: "(nat \<Rightarrow> char) \<Rightarrow> nat \<Rightarrow> scanner \<Rightarrow> (control \<times> scanner) option" where
  "yy_refill fresh matched st = do {
     (act, st) \<leftarrow> yy_get_next_buffer fresh st;
     (case act of
        EOB_ACT_END_OF_FILE \<Rightarrow> Some (End_of_file, st\<lparr>yy_c_buf_p := yytext_ptr st\<rparr>)
      | EOB_ACT_CONTINUE_SCAN \<Rightarrow> do {
          (state, st) \<leftarrow> yy_get_previous_state (st\<lparr>yy_c_buf_p := yytext_ptr st + matched\<rparr>);
          Some (Match state (yy_c_buf_p st), st) }
      | EOB_ACT_LAST_MATCH \<Rightarrow> do {
          (state, st) \<leftarrow> yy_get_previous_state (st\<lparr>yy_c_buf_p := yy_n_chars st\<rparr>);
          Some (Find state (yy_c_buf_p st), st) }) }"

definition yy_end_of_buffer :: "(nat \<Rightarrow> char) \<Rightarrow> nat \<Rightarrow> scanner \<Rightarrow> (control \<times> scanner) option" where
  "yy_end_of_buffer fresh cp st = do {
     let matched = cp - yytext_ptr st - 1;
     buf \<leftarrow> poke cp (yy_hold_char st) (ch_buf st);
     let st = set_ch_buf buf st;
     let st = (if yy_buffer_status (yy_current st) = YY_BUFFER_NEW
       then st\<lparr>yy_n_chars := yy_buf_chars (yy_current st),
         yy_current := (yy_current st)\<lparr>yy_buffer_status := YY_BUFFER_NORMAL\<rparr>\<rparr>
       else st);
     if yy_c_buf_p st \<le> yy_n_chars st then yy_real_NUL matched st else yy_refill fresh matched st }"

text \<open>One token: the action and the state after it, \<open>None\<close> for the end of the file. The action of the
  automaton is 0 when it has no accepting state to go back to, which has no lexeme.\<close>

partial_function (option) yy_next :: "(nat \<Rightarrow> char) \<Rightarrow> nat \<Rightarrow> control \<Rightarrow> scanner \<Rightarrow> (int option \<times> scanner) option" where
  "yy_next fresh bp ctl st =
     (case ctl of
        End_of_file \<Rightarrow> Some (None, st)
      | Match state cp \<Rightarrow> do {
          (state, cp, acc) \<leftarrow> yy_match_loop (ch_buf st) state cp (accepting st);
          yy_next fresh bp (Find state cp) (set_accepting acc st) }
      | Find state cp \<Rightarrow> do {
          let (act, cp) = yy_find_action state cp (accepting st);
          st \<leftarrow> yy_do_before_action bp cp st;
          let st = count_lines act st;
          if act = 12 then do {
            (ctl, st) \<leftarrow> yy_end_of_buffer fresh cp st;
            yy_next fresh (yytext_ptr st) ctl st }
          else Some (Some act, st) })"

declare yy_next.simps [code]

text \<open>The loop of \<open>yylex\<close> and the calls of the parser: \<open>yylex\<close> goes on where it returned.\<close>

partial_function (option) yylex_tokens :: "(nat \<Rightarrow> char) \<Rightarrow> scanner \<Rightarrow> (lexeme list \<times> scanner) option" where
  "yylex_tokens fresh st = do {
     buf \<leftarrow> poke (yy_c_buf_p st) (yy_hold_char st) (ch_buf st);
     (act, st) \<leftarrow> yy_next fresh (yy_c_buf_p st) (Match 1 (yy_c_buf_p st)) (set_ch_buf buf st);
     (case act of
        None \<Rightarrow> Some ([], st)
      | Some act \<Rightarrow> do {
          ls \<leftarrow> action_lexemes act (yytext st);
          (more, st) \<leftarrow> yylex_tokens fresh st;
          Some (ls @ more, st) }) }"

declare yylex_tokens.simps [code]

text \<open>The globals before the first file: the statics are zero, there is no buffer yet.\<close>

definition new_scanner :: "bool \<Rightarrow> string \<Rightarrow> scanner" where
  "new_scanner tty file =
     \<lparr>yy_current = \<lparr>yy_ch_buf = [], yy_buf_pos = 0, yy_buf_size = 0, yy_buf_chars = 0, yy_is_our_buffer = False,
        yy_is_interactive = False, yy_at_bol = False, yy_bs_lineno = 0, yy_bs_column = 0,
        yy_fill_buffer = False, yy_buffer_status = YY_BUFFER_NEW\<rparr>,
      yyin = file, yyin_tty = tty, yy_n_chars = 0, yy_c_buf_p = 0, yytext_ptr = 0, yy_hold_char = NUL,
      yy_last_accepting_state = 0, yy_last_accepting_cpos = 0, yytext = [], yylineno = 1\<rparr>"

lemma new_scanner [simp]: "yyin (new_scanner tty file) = file" "yylineno (new_scanner tty file) = 1"
  by (simp_all add: new_scanner_def)

text \<open>The first call makes the buffer of the stream; what the globals hold from an earlier file is
  \<open>g\<close>.\<close>

definition yylex_init :: "(nat \<Rightarrow> char) \<Rightarrow> scanner \<Rightarrow> scanner option" where
  "yylex_init fresh g = do {
     b \<leftarrow> yy_create_buffer fresh (yyin_tty g) 16384;
     yy_load_buffer_state (g\<lparr>yy_current := b\<rparr>) }"

definition scan_file :: "(nat \<Rightarrow> char) \<Rightarrow> scanner \<Rightarrow> (lexeme list \<times> scanner) option" where
  "scan_file fresh g = do {
     st \<leftarrow> yylex_init fresh g;
     yylex_tokens fresh st }"

text \<open>\<open>yylex_destroy\<close>: the buffer is gone (the next call of \<open>yylex\<close> makes its own) and the line is the
  first again; the last accepting state, the token and the character held back stay as they were.\<close>

definition yylex_destroy :: "scanner \<Rightarrow> scanner" where
  "yylex_destroy g = g\<lparr>yylineno := 1, yy_c_buf_p := 0, yyin := []\<rparr>"

text \<open>\<open>parse\<close> of the console with this scanner: \<open>None\<close> as file is one that does not open.\<close>

definition parse_file :: "(nat \<Rightarrow> char) \<Rightarrow> scanner option \<Rightarrow>
    ((bool \<times> instruction_t list \<times> nat) \<times> scanner) option" where
  "parse_file fresh f = do {
     g \<leftarrow> f;
     (ls, st) \<leftarrow> scan_file fresh g;
     (accepted, l) \<leftarrow> parse_tokens (lexemes ls);
     Some ((accepted, l, yylexerrs ls), yylex_destroy st) }"

text \<open>\<open>ERROR_LEXICO\<close>: the message of rule 9 or 10, which \<open>sprintf\<close> writes into an array of 8229
  characters. Its accented letters are two bytes each; \<open>%s\<close> stops at a NUL.\<close>

definition lexical_message :: "int \<Rightarrow> string \<Rightarrow> string" where
  "lexical_message act token =
     ''Error l'' @ [CHR 0xC3, CHR 0xA9] @ ''xico: '' @
     (if act = 9 then ''constante inv'' @ [CHR 0xC3, CHR 0xA1] @ ''lida'' else ''caracter desconocido'') @
     '': '' @ takeWhile (\<lambda>c. c \<noteq> NUL) token"

subsection \<open>The states of the loop\<close>

text \<open>The states in which the loop may find the end of the buffer: all but those that end a token, and
  state 4, which the scanner enters on a NUL. In a state of \<open>space_states\<close> the text matched is white
  space, in one of \<open>odd_states\<close> a constant, and in any other it is as long as the depth of the state.\<close>

definition loop_states :: "int list" where
  "loop_states = [1, 4, 5, 6, 7, 8, 9, 10, 11, 12, 13, 14, 15, 16, 17, 18, 19, 20, 21, 22, 23, 24, 25, 27, 28,
     29, 32, 34]"

definition space_states :: "int list" where
  "space_states = [5, 6, 14]"

definition odd_states :: "int list" where
  "odd_states = [7, 15, 16, 23]"

definition state_depth :: "int \<Rightarrow> nat" where
  "state_depth s = (if s = 1 then 0 else if s < 14 then 1 else if s < 24 then 2 else if s < 30 then 3 else 4)"

definition step_ok :: "int \<Rightarrow> int \<Rightarrow> int \<Rightarrow> bool" where
  "step_ok s e t \<longleftrightarrow>
     (if entry_at yy_base t = 84 then t = 4 \<longrightarrow> s = 1 else t \<in> set loop_states) \<and> t \<noteq> 1 \<and>
     (s = 1 \<longrightarrow> entry_at yy_accept t \<noteq> 0) \<and>
     (t \<in> set loop_states \<longrightarrow>
       (if t \<in> set space_states then (e = 2 \<or> e = 3) \<and> (s = 1 \<or> s \<in> set space_states)
        else if t \<in> set odd_states
        then \<not> (e = 1 \<or> e = 2 \<or> e = 3 \<or> e = 5 \<or> e = 21) \<and> (s = 1 \<or> s \<in> set odd_states)
        else state_depth t = state_depth s + 1 \<and> s \<notin> set space_states \<and> s \<notin> set odd_states)) \<and>
     (e = 1 \<longrightarrow> t = (if s = 1 then 4 else 37))"

lemma loop_steps:
  "list_all (\<lambda>s. list_all (\<lambda>e. case yy_trans s e of Some t \<Rightarrow> step_ok s e t | None \<Rightarrow> False) [1..34]) loop_states"
  by code_simp

lemma loop_end: "list_all (\<lambda>s. yy_trans s 0 = Some 3) loop_states"
  by code_simp

lemma end_jams: "list_all (\<lambda>e. yy_trans 3 e = Some 37) [0..34]"
  by code_simp

lemma state_3 [simp]: "entry_at yy_accept 3 = 12" "entry_at yy_base 3 = 78"
  by code_simp+

lemma loop_step:
  assumes "s \<in> set loop_states"
  obtains t where "yy_trans s (yy_class c) = Some t" "step_ok s (yy_class c) t"
proof -
  have "case yy_trans s (yy_class c) of Some t \<Rightarrow> step_ok s (yy_class c) t | None \<Rightarrow> False"
    using assms loop_steps classes(1) [of c] unfolding list_all_iff by blast
  then show ?thesis using that by (cases "yy_trans s (yy_class c)") auto
qed

lemma loop_4: "yy_trans 4 (yy_class c) = Some 37"
proof -
  have "list_all (\<lambda>e. yy_trans 4 e = Some 37) [1..34]" by code_simp
  then show ?thesis by (rule trans_at [of 4 "\<lambda>_. 37"])
qed

lemma ec_class: "c \<noteq> NUL \<Longrightarrow> entry_at yy_ec (int (char_code c)) = yy_class c"
proof -
  assume "c \<noteq> NUL"
  moreover have "char_code c = char_code NUL \<longleftrightarrow> c = NUL" by (simp only: char_code_def of_char_eq_iff)
  ultimately have "char_code c \<noteq> 0" by (simp add: char_code_def)
  then show ?thesis by (simp add: yy_class_def)
qed

lemma class_NUL: "yy_class NUL = 1" "entry_at yy_ec (int (char_code NUL)) = 0"
  by (simp_all add: yy_class_def char_code_def entry_at_def yy_ec_def)

lemma ec_range: "entry_at yy_ec (int (char_code c)) \<in> set [0..34]"
  using ec_class [of c] class_NUL classes(1) [of c] by (cases "c = NUL") auto

subsection \<open>The automaton after a part of the token\<close>

definition update_acc :: "int \<Rightarrow> nat \<Rightarrow> int \<times> nat \<Rightarrow> int \<times> nat" where
  "update_acc s k a = (if entry_at yy_accept s \<noteq> 0 then (s, k) else a)"

text \<open>What the automaton gives from state \<open>s\<close>, after \<open>k\<close> characters, on the rest of the text.\<close>

definition resume_match :: "int \<Rightarrow> nat \<Rightarrow> int \<times> nat \<Rightarrow> string \<Rightarrow> (int \<times> nat) option" where
  "resume_match s k a cs = (if s = 4 then Some (10, k) else yy_match s k a cs)"

definition state_shape :: "int \<Rightarrow> string \<Rightarrow> bool" where
  "state_shape s w \<longleftrightarrow> (if s \<in> set space_states then list_all is_space w
     else if s \<in> set odd_states then list_all odd_char w else length w \<le> state_depth s)"

definition at_state :: "string \<Rightarrow> int \<Rightarrow> int \<times> nat \<Rightarrow> bool" where
  "at_state w s a \<longleftrightarrow> yy_run 1 0 (0, 0) w = Some (s, a) \<and> s \<in> set loop_states \<and> state_shape s w \<and>
     (fst a \<noteq> 0 \<longrightarrow> snd a \<le> length w) \<and> (s \<noteq> 1 \<longrightarrow> entry_at yy_accept s \<noteq> 0 \<or> fst a \<noteq> 0) \<and> (s = 1 \<longleftrightarrow> w = []) \<and>
     (\<forall>zs. yy_match 1 0 (0, 0) (w @ zs) = resume_match s (length w) a zs)"

lemma at_start: "at_state [] 1 (0, 0)"
  by (simp add: at_state_def loop_states_def state_shape_def space_states_def odd_states_def resume_match_def)

lemma run_append:
  "yy_run s p a (w @ [c]) = do {
     (s', a') \<leftarrow> yy_run s p a w;
     t \<leftarrow> yy_trans s' (yy_class c);
     Some (t, update_acc s' (p + length w) a') }"
  by (induction w arbitrary: s p a) (auto simp: update_acc_def Let_def split: bind_split)

lemma resume_step:
  assumes "yy_trans s (yy_class c) = Some t"
  shows "resume_match s k a (c # cs) = (if s = 4 then Some (10, k)
    else if entry_at yy_base t = 84 then Some (yy_find_action t (k + 1) (update_acc s k a))
    else yy_match t (k + 1) (update_acc s k a) cs)"
  using assms by (simp add: resume_match_def update_acc_def Let_def)

lemma shape_step:
  assumes ok: "step_ok s (yy_class c) t" and "t \<in> set loop_states" and w: "state_shape s w" "s = 1 \<longleftrightarrow> w = []"
  shows "state_shape t (w @ [c])"
proof -
  consider (space) "t \<in> set space_states" | (odd) "t \<notin> set space_states" "t \<in> set odd_states"
    | (word) "t \<notin> set space_states" "t \<notin> set odd_states" by blast
  then show ?thesis
  proof cases
    case space
    then have "is_space c" "w = [] \<or> s \<in> set space_states"
      using ok w(2) assms(2) unfolding classes(2) step_ok_def by simp_all
    then show ?thesis using space w(1) by (auto simp: state_shape_def)
  next
    case odd
    then have "odd_char c" "w = [] \<or> s \<in> set odd_states"
      using ok w(2) assms(2) classes(3,4) [of c] unfolding step_ok_def by auto
    moreover have "s \<in> set odd_states \<Longrightarrow> s \<notin> set space_states"
      by (auto simp: odd_states_def space_states_def)
    ultimately show ?thesis using odd w(1) by (auto simp: state_shape_def)
  next
    case word
    then show ?thesis using ok w(1) assms(2) unfolding step_ok_def state_shape_def by simp
  qed
qed

lemma base_84:
  assumes "s \<in> set loop_states"
  shows "entry_at yy_base s = 84 \<longleftrightarrow> s = 4"
proof -
  have "list_all (\<lambda>s. entry_at yy_base s = 84 \<longleftrightarrow> s = 4) loop_states" by code_simp
  then show ?thesis using assms unfolding list_all_iff by blast
qed

lemma loop_positive: "s \<in> set loop_states \<Longrightarrow> s \<noteq> 0"
proof -
  assume "s \<in> set loop_states"
  moreover have "list_all (\<lambda>s. s \<noteq> 0) loop_states" by code_simp
  ultimately show "s \<noteq> 0" unfolding list_all_iff by blast
qed

text \<open>A step to a state of the loop, and one that ends the token.\<close>

lemma at_step:
  assumes w: "at_state w s a" and t: "yy_trans s (yy_class c) = Some t" and "t \<in> set loop_states"
  shows "at_state (w @ [c]) t (update_acc s (length w) a)"
proof -
  have s: "s \<in> set loop_states" using w by (simp add: at_state_def)
  have ok: "step_ok s (yy_class c) t" using t by (rule_tac loop_step [OF s, of c]) simp
  have s4: "s \<noteq> 4" using t loop_4 [of c] assms(3) by (auto simp: loop_states_def)
  have run: "yy_run 1 0 (0, 0) (w @ [c]) = Some (t, update_acc s (length w) a)"
    using w t by (simp add: run_append at_state_def)
  have sh: "state_shape t (w @ [c])"
    using shape_step [OF ok assms(3)] w by (simp add: at_state_def)
  have acc: "fst (update_acc s (length w) a) \<noteq> 0 \<longrightarrow> snd (update_acc s (length w) a) \<le> length (w @ [c])"
    using w by (auto simp: update_acc_def at_state_def)
  have go: "entry_at yy_accept t \<noteq> 0 \<or> fst (update_acc s (length w) a) \<noteq> 0"
  proof (cases "s = 1")
    case True
    then show ?thesis using ok by (simp add: step_ok_def)
  next
    case False
    moreover have "s \<noteq> 0" using s by (rule loop_positive)
    ultimately show ?thesis using w by (auto simp: update_acc_def at_state_def)
  qed
  have t1: "t \<noteq> 1" using ok by (auto simp: step_ok_def)
  have "yy_match 1 0 (0, 0) (w @ [c] @ zs) = resume_match t (length (w @ [c])) (update_acc s (length w) a) zs" for zs
  proof -
    have "yy_match 1 0 (0, 0) (w @ [c] @ zs) = resume_match s (length w) a (c # zs)"
      using w by (simp add: at_state_def)
    also have "\<dots> = resume_match t (length (w @ [c])) (update_acc s (length w) a) zs"
      unfolding resume_step [OF t] using s4 base_84 [OF assms(3)]
      by (auto simp: resume_match_def yy_find_action_def)
    finally show ?thesis .
  qed
  then show ?thesis using run sh acc go t1 assms(3) by (simp add: at_state_def)
qed

lemma at_jam:
  assumes w: "at_state w s a" and t: "yy_trans s (yy_class c) = Some t" and "entry_at yy_base t = 84"
  shows "yy_match 1 0 (0, 0) (w @ c # zs) = Some (yy_find_action t (length w + 1) (update_acc s (length w) a))"
    and "entry_at yy_accept t \<noteq> 0 \<or> fst (update_acc s (length w) a) \<noteq> 0"
proof -
  have s: "s \<in> set loop_states" using w by (simp add: at_state_def)
  have ok: "step_ok s (yy_class c) t" using t by (rule_tac loop_step [OF s, of c]) simp
  have "yy_match 1 0 (0, 0) (w @ c # zs) = resume_match s (length w) a (c # zs)"
    using w by (simp add: at_state_def)
  then show "yy_match 1 0 (0, 0) (w @ c # zs) = Some (yy_find_action t (length w + 1) (update_acc s (length w) a))"
    unfolding resume_step [OF t] using assms(3) t loop_4 [of c]
    by (auto simp: update_acc_def yy_find_action_def split: if_splits)
  show "entry_at yy_accept t \<noteq> 0 \<or> fst (update_acc s (length w) a) \<noteq> 0"
  proof (cases "s = 1")
    case True
    then show ?thesis using ok by (simp add: step_ok_def)
  next
    case False
    then show ?thesis using w loop_positive [OF s] by (auto simp: update_acc_def at_state_def)
  qed
qed

text \<open>The positions in the buffer are those in the token, from the start of the token on.\<close>

definition agree :: "nat \<Rightarrow> int \<times> nat \<Rightarrow> int \<times> nat \<Rightarrow> bool" where
  "agree t a acc \<longleftrightarrow> (fst a \<noteq> 0 \<longrightarrow> acc = (fst a, t + snd a))"

lemma agree_none [simp]: "agree t (0, 0) acc"
  by (simp add: agree_def)

lemma agree_update: "agree t a acc \<Longrightarrow> agree t (update_acc s k a) (update_acc s (t + k) acc)"
  by (simp add: agree_def update_acc_def)

lemma find_agree:
  assumes "agree t a acc" and "entry_at yy_accept s \<noteq> 0 \<or> fst a \<noteq> 0" and "yy_find_action s k a = (act, len)"
  shows "yy_find_action s (t + k) acc = (act, t + len)"
  using assms by (auto simp: yy_find_action_def agree_def split: if_splits)

lemma run_agree:
  assumes "yy_run s k a w = Some (s', a')" and "agree t a acc"
  obtains acc' where "yy_run s (t + k) acc w = Some (s', acc')" "agree t a' acc'"
proof -
  have "\<exists>acc'. yy_run s (t + k) acc w = Some (s', acc') \<and> agree t a' acc'"
    using assms
  proof (induction w arbitrary: s k a acc)
    case Nil
    then show ?case by simp
  next
    case (Cons c cs)
    from Cons.prems(1) obtain u where u: "yy_trans s (yy_class c) = Some u"
      "yy_run u (k + 1) (update_acc s k a) cs = Some (s', a')"
      by (auto simp: update_acc_def Let_def split: bind_splits)
    show ?case using Cons.IH [OF u(2) agree_update [OF Cons.prems(2)]] u(1)
      by (simp add: update_acc_def Let_def)
  qed
  then show ?thesis using that by blast
qed

text \<open>The loop up to the next NUL of the buffer: it ends a token or comes to the NUL.\<close>

lemma loop_unfold:
  assumes "cp < length buf"
  shows "yy_match_loop buf s cp acc = do {
    t \<leftarrow> yy_trans s (entry_at yy_ec (int (char_code (buf ! cp))));
    if entry_at yy_base t = 84 then Some (t, cp + 1, update_acc s cp acc)
    else yy_match_loop buf t (cp + 1) (update_acc s cp acc) }"
  unfolding yy_match_loop.simps [of buf s cp acc] update_acc_def Let_def using assms by simp

lemma loop_at_end:
  assumes "s \<in> set loop_states" and "buf ! p = NUL" and "p + 1 < length buf"
  shows "yy_match_loop buf s p acc = Some (37, p + 2, 3, p + 1)"
proof -
  have "yy_trans s 0 = Some 3" using assms(1) loop_end unfolding list_all_iff by blast
  moreover have "yy_trans 3 (entry_at yy_ec (int (char_code (buf ! (p + 1))))) = Some 37"
    using end_jams ec_range [of "buf ! (p + 1)"] unfolding list_all_iff by blast
  ultimately show ?thesis using assms by (simp add: loop_unfold class_NUL update_acc_def)
qed

definition jams :: "string \<Rightarrow> nat \<Rightarrow> string \<Rightarrow> (int \<times> nat \<times> int \<times> nat) option \<Rightarrow> bool" where
  "jams w t cs res \<longleftrightarrow> (\<exists>s j a acc. res = Some (s, t + length w + j, acc) \<and> 1 \<le> j \<and> j \<le> length cs \<and>
     agree t a acc \<and> (entry_at yy_accept s \<noteq> 0 \<or> fst a \<noteq> 0) \<and> (fst a \<noteq> 0 \<longrightarrow> snd a \<le> length w + j) \<and>
     (\<forall>zs. yy_match 1 0 (0, 0) (w @ cs @ zs) = Some (yy_find_action s (length w + j) a)))"

lemma loop_runs:
  assumes "at_state w s a" and "agree t a acc" and "take (length cs) (drop (t + length w) buf) = cs"
    and "NUL \<notin> set cs" and "t + length w + length cs + 1 < length buf" and "buf ! (t + length w + length cs) = NUL"
  shows "jams w t cs (yy_match_loop buf s (t + length w) acc) \<or>
    (\<exists>s' a'. at_state (w @ cs) s' a' \<and> yy_match_loop buf s (t + length w) acc =
       Some (37, t + length w + length cs + 2, 3, t + length w + length cs + 1))"
  using assms
proof (induction cs arbitrary: w s a acc)
  case Nil
  have "s \<in> set loop_states" using Nil.prems(1) by (simp add: at_state_def)
  then have "yy_match_loop buf s (t + length w) acc = Some (37, t + length w + 2, 3, t + length w + 1)"
    using Nil.prems by (intro loop_at_end) simp_all
  then show ?case using Nil.prems(1) by (intro disjI2 exI [of _ s] exI [of _ a]) simp
next
  case (Cons c cs)
  let ?p = "t + length w" and ?a = "update_acc s (length w) a" and ?acc = "update_acc s (t + length w) acc"
  have p: "?p < length buf" using Cons.prems(5) by simp
  have "drop ?p buf = buf ! ?p # drop (?p + 1) buf" using p by (simp add: Cons_nth_drop_Suc)
  then have c: "buf ! ?p = c" and cs: "take (length cs) (drop (?p + 1) buf) = cs"
    using Cons.prems(3) by simp_all
  have s: "s \<in> set loop_states" using Cons.prems(1) by (simp add: at_state_def)
  obtain u where u: "yy_trans s (yy_class c) = Some u" and ok: "step_ok s (yy_class c) u"
    by (rule loop_step [OF s])
  have step: "yy_match_loop buf s ?p acc =
      (if entry_at yy_base u = 84 then Some (u, ?p + 1, ?acc) else yy_match_loop buf u (?p + 1) ?acc)"
  proof -
    have "yy_trans s (entry_at yy_ec (int (char_code c))) = Some u"
      using u ec_class [of c] Cons.prems(4) by auto
    then show ?thesis unfolding loop_unfold [OF p] c by simp
  qed
  have ag: "agree t ?a ?acc" using Cons.prems(2) by (rule agree_update)
  show ?case
  proof (cases "entry_at yy_base u = 84")
    case True
    have "fst ?a \<noteq> 0 \<longrightarrow> snd ?a \<le> length w + 1"
      using Cons.prems(1) by (auto simp: update_acc_def at_state_def)
    then have "jams w t (c # cs) (yy_match_loop buf s ?p acc)"
      using at_jam [OF Cons.prems(1) u True] ag unfolding jams_def step
      by (intro exI [of _ u] exI [of _ 1] exI [of _ ?a] exI [of _ ?acc]) (simp add: True)
    then show ?thesis ..
  next
    case False
    then have "u \<in> set loop_states" using ok by (simp add: step_ok_def)
    note at = at_step [OF Cons.prems(1) u this]
    have eq: "yy_match_loop buf s ?p acc = yy_match_loop buf u (t + length (w @ [c])) ?acc"
      using step False by simp
    have "jams (w @ [c]) t cs (yy_match_loop buf u (t + length (w @ [c])) ?acc) \<or>
      (\<exists>s' a'. at_state ((w @ [c]) @ cs) s' a' \<and> yy_match_loop buf u (t + length (w @ [c])) ?acc =
         Some (37, t + length (w @ [c]) + length cs + 2, 3, t + length (w @ [c]) + length cs + 1))"
      by (rule Cons.IH [OF at ag]) (use cs Cons.prems in simp_all)
    moreover have "jams w t (c # cs) res" if "jams (w @ [c]) t cs res" for res
    proof -
      from that obtain s j a acc where "res = Some (s, t + length (w @ [c]) + j, acc)" "1 \<le> j" "j \<le> length cs"
        "agree t a acc" "entry_at yy_accept s \<noteq> 0 \<or> fst a \<noteq> 0" "fst a \<noteq> 0 \<longrightarrow> snd a \<le> length (w @ [c]) + j"
        "\<forall>zs. yy_match 1 0 (0, 0) ((w @ [c]) @ cs @ zs) = Some (yy_find_action s (length (w @ [c]) + j) a)"
        unfolding jams_def by blast
      then show ?thesis unfolding jams_def
        by (intro exI [of _ s] exI [of _ "j + 1"] exI [of _ a] exI [of _ acc]) (simp add: ac_simps)
    qed
    ultimately show ?thesis unfolding eq by (auto simp: ac_simps)
  qed
qed

end
