(* ===== verification/Scanner_File.thy ===== *)
theory Scanner_File
  imports Scanner_Buffer
begin

section \<open>A file is scanned as its text\<close>

text \<open>
  The scanner on its buffer (theory \<open>Scanner_Buffer\<close>) against the rules on the whole text: whatever the
  file is cut into by the reads, whatever NULs it has, a token is the token of the text. The
  invariant relates the buffer and the stream to the text that is left; the token matched so far is a
  prefix of it. No token reaches \<open>YYLMAX\<close> when no run of white space or of the characters of a constant
  does, one character less because the scanner also counts the NUL of the end of the buffer.
\<close>

subsection \<open>The text that is left\<close>

definition reading :: "nat \<Rightarrow> string \<Rightarrow> scanner \<Rightarrow> bool" where
  "reading t inp st \<longleftrightarrow>
     (let b = yy_current st; buf = yy_ch_buf b; n = yy_n_chars st in
      length buf = 16386 \<and> yy_buf_size b = 16384 \<and> yy_fill_buffer b \<and> n \<le> 16384 \<and> t \<le> n \<and>
      buf ! n = NUL \<and> buf ! (n + 1) = NUL \<and> (yy_buffer_status b = YY_BUFFER_NEW \<longrightarrow> yy_buf_chars b = n) \<and>
      (yy_buffer_status b = YY_BUFFER_EOF_PENDING \<longrightarrow> yyin st = []) \<and>
      inp = drop t (take n buf) @ yyin st)"

text \<open>Between two tokens the character at \<open>yy_c_buf_p\<close> is held back.\<close>

definition between_tokens :: "string \<Rightarrow> scanner \<Rightarrow> bool" where
  "between_tokens inp st \<longleftrightarrow>
     reading (yy_c_buf_p st) inp (set_ch_buf ((ch_buf st)[yy_c_buf_p st := yy_hold_char st]) st)"

definition short_runs :: "string \<Rightarrow> bool" where
  "short_runs inp \<longleftrightarrow> longest is_space 0 inp < 8191 \<and> longest odd_char 0 inp < 8191"

lemma short_drop: "short_runs inp \<Longrightarrow> short_runs (drop k inp)"
  using longest_drop [of is_space k inp 0] longest_drop [of odd_char k inp 0]
  by (simp add: short_runs_def)

lemma prefix_short:
  assumes "at_state w s a" and "short_runs (w @ zs)"
  shows "length w < 8191"
proof -
  have sh: "state_shape s w" using assms(1) by (simp add: at_state_def)
  have l: "list_all P w \<Longrightarrow> length w \<le> longest P 0 (w @ zs)" for P
    using longest_take [of P "length w" "w @ zs" 0] by simp
  consider "list_all is_space w" | "list_all odd_char w" | "length w \<le> 4"
    using sh by (auto simp: state_shape_def state_depth_def split: if_splits)
  then show ?thesis using assms(2) l unfolding short_runs_def by cases (force+)
qed

lemma token_short:
  assumes "token_of inp act len ls" and "short_runs inp"
  shows "len < 8191"
  using assms longest_take [of is_space len inp 0] longest_take [of odd_char len inp 0]
  by (auto simp: token_of_def short_runs_def)

text \<open>What the scanner does next on a text: its first token, or the end of the file.\<close>

definition scans :: "string \<Rightarrow> nat \<Rightarrow> (int option \<times> scanner) option \<Rightarrow> bool" where
  "scans inp lines res \<longleftrightarrow>
     (if inp = [] then \<exists>st. res = Some (None, st) \<and> yylineno st = lines
      else \<exists>act len st. yy_match 1 0 (0, 0) inp = Some (act, len) \<and> res = Some (Some act, st) \<and>
        yytext st = take len inp \<and> between_tokens (drop len inp) st \<and>
        yylineno st = lines + (if act = 7 then newlines (take len inp) else 0))"

lemma newlines_eol:
  assumes "1 \<le> act" and "act \<le> 10"
  shows "entry_at yy_rule_can_match_eol act \<noteq> 0 \<longleftrightarrow> act = 7"
proof -
  have "list_all (\<lambda>a. entry_at yy_rule_can_match_eol a \<noteq> 0 \<longleftrightarrow> a = 7) [1..10]" by code_simp
  then show ?thesis using assms unfolding list_all_iff by simp
qed

subsection \<open>A token that is found\<close>

lemma next_find:
  assumes "yy_find_action s cp (accepting st) = (act, p)"
  shows "yy_next fresh bp (Find s cp) st = do {
    st \<leftarrow> yy_do_before_action bp p st;
    if act = 12 then do {
      (ctl, st) \<leftarrow> yy_end_of_buffer fresh p (count_lines act st);
      yy_next fresh (yytext_ptr st) ctl st }
    else Some (Some act, count_lines act st) }"
  by (subst yy_next.simps) (simp add: assms Let_def)

lemma next_match:
  assumes "yy_match_loop (ch_buf st) s cp (accepting st) = Some (s', cp', acc)"
  shows "yy_next fresh bp (Match s cp) st = yy_next fresh bp (Find s' cp') (set_accepting acc st)"
  by (subst yy_next.simps) (simp add: assms)

lemma next_end: "yy_next fresh bp End_of_file st = Some (None, st)"
  by (subst yy_next.simps) simp

lemma token_text:
  assumes "t + len \<le> n" and "n < length buf"
  shows "take len (drop t (buf[t + len := c])) = take len (drop t (take n buf) @ r)"
  using assms by (intro nth_equalityI) (auto simp: nth_append)

lemma find_token:
  assumes st: "reading t inp st" and sh: "short_runs inp" and ne: "inp \<noteq> []"
    and pos: "t + k \<le> yy_n_chars st" and ag: "agree t a (accepting st)"
    and go: "entry_at yy_accept s \<noteq> 0 \<or> fst a \<noteq> 0" and bound: "fst a \<noteq> 0 \<longrightarrow> snd a \<le> k"
    and m: "yy_match 1 0 (0, 0) inp = Some (yy_find_action s k a)"
  shows "scans inp (yylineno st) (yy_next fresh t (Find s (t + k)) st)"
proof -
  obtain act len ls where tok: "token_of inp act len ls" using ne by (rule token_step)
  have f: "yy_find_action s k a = (act, len)" using m tok by (simp add: token_of_def del: yy_match.simps)
  have len: "len \<le> k" using f go bound by (auto simp: yy_find_action_def split: if_splits)
  have act: "1 \<le> act" "act \<le> 10" using tok by (simp_all add: token_of_def)
  let ?buf = "ch_buf st" and ?p = "t + len"
  have p: "?p \<le> yy_n_chars st" "?p < length ?buf" "yy_n_chars st < length ?buf"
    using len pos st by (simp_all add: reading_def Let_def)
  have small: "len < 8192" using token_short [OF tok sh] by simp
  have inp: "inp = drop t (take (yy_n_chars st) ?buf) @ yyin st"
    using st by (simp add: reading_def Let_def)
  define st' where "st' = (set_ch_buf (?buf[?p := NUL]) st)\<lparr>yytext_ptr := t, yy_hold_char := ?buf ! ?p,
    yytext := take len (drop t (?buf[?p := NUL])), yy_c_buf_p := ?p\<rparr>"
  have before: "yy_do_before_action t ?p st = Some st'"
    using p small by (simp add: yy_do_before_action_def st'_def peek_def poke_def)
  have tx: "yytext st' = take len inp"
    using token_text [OF p(1,3), of NUL "yyin st"] by (simp add: st'_def inp)
  have btw: "between_tokens (drop len inp) st'"
  proof -
    have "drop len inp = drop ?p (take (yy_n_chars st) ?buf) @ yyin st"
      using p unfolding inp by (simp add: add.commute min_def)
    then show ?thesis using st p unfolding between_tokens_def st'_def reading_def Let_def by simp
  qed
  have nxt: "yy_next fresh t (Find s (t + k)) st = Some (Some act, count_lines act st')"
    using act unfolding next_find [OF find_agree [OF ag go f]] by (simp add: before)
  have cl: "count_lines act st' = st'\<lparr>yylineno := yylineno st + (if act = 7 then newlines (take len inp) else 0)\<rparr>"
    using newlines_eol [OF act] act tx by (auto simp: count_lines_def st'_def)
  show ?thesis using ne tok btw tx unfolding scans_def nxt cl
    by (auto simp: token_of_def between_tokens_def reading_def simp del: yy_match.simps)
qed

subsection \<open>The next buffer\<close>

lemma move_chars_ok:
  assumes "d \<le> s" and "s + n \<le> length buf"
  shows "move_chars n d s buf = Some (take d buf @ take n (drop s buf) @ drop (d + n) buf)"
  using assms
proof (induction n arbitrary: d s buf)
  case 0
  then show ?case by simp
next
  case (Suc n)
  let ?buf = "buf[d := buf ! s]"
  have "move_chars n (d + 1) (s + 1) ?buf =
      Some (take (d + 1) ?buf @ take n (drop (s + 1) ?buf) @ drop (d + 1 + n) ?buf)"
    by (rule Suc.IH) (use Suc.prems in simp_all)
  moreover have "take (d + 1) ?buf = take d buf @ [buf ! s]"
    using Suc.prems by (simp add: take_Suc_conv_app_nth)
  moreover have "take (Suc n) (drop s buf) = buf ! s # take n (drop (s + 1) buf)"
    using Suc.prems by (simp add: Cons_nth_drop_Suc [symmetric])
  ultimately show ?case using Suc.prems by (simp add: peek_def poke_def)
qed

lemma read_line_ok:
  "read_line m s = (cs, rest) \<Longrightarrow> s = cs @ rest \<and> length cs \<le> m \<and> (0 < m \<and> s \<noteq> [] \<longrightarrow> cs \<noteq> [])"
  by (induction m s arbitrary: cs rest rule: read_line.induct) (auto split: if_splits prod.splits)

lemma yy_input_ok:
  "yy_input i m s = (cs, rest) \<Longrightarrow> s = cs @ rest \<and> length cs \<le> m \<and> (0 < m \<and> s \<noteq> [] \<longrightarrow> cs \<noteq> [])"
  by (cases i) (auto simp: yy_input_def dest: read_line_ok)

lemma read_more_ok:
  assumes "yy_buf_size (yy_current st) = 16384" and "length (ch_buf st) = 16386" and k: "k < 8191"
    and pending: "yy_buffer_status (yy_current st) = YY_BUFFER_EOF_PENDING \<longrightarrow> yyin st = []"
  obtains cs rest where "yyin st = cs @ rest" "length cs \<le> 8192" "yyin st \<noteq> [] \<longrightarrow> cs \<noteq> []"
    "yy_read_more fresh k st = Some (st\<lparr>yy_current := (yy_current st)\<lparr>yy_ch_buf := take k (ch_buf st) @ cs @
        drop (k + length cs) (ch_buf st), yy_buf_chars := length cs\<rparr>, yyin := rest, yy_n_chars := length cs\<rparr>)"
proof (cases "yy_buffer_status (yy_current st) = YY_BUFFER_EOF_PENDING")
  case True
  show ?thesis
    by (rule that [of "[]" "[]"]) (use True pending in \<open>simp_all add: yy_read_more_def\<close>)
next
  case False
  obtain cs rest where i: "yy_input (yy_is_interactive (yy_current st)) 8192 (yyin st) = (cs, rest)"
    by (cases "yy_input (yy_is_interactive (yy_current st)) 8192 (yyin st)")
  note cs = yy_input_ok [OF i]
  have "nat (min (yy_buf_size (yy_current st) - int k - 1) 8192) = 8192" using assms(1) k by simp
  moreover have "yy_grow fresh k (yy_current st) = Some (yy_current st)"
    using assms(1) k by (subst yy_grow.simps) simp
  ultimately have "yy_read_more fresh k st = Some (st\<lparr>yy_current := (yy_current st)\<lparr>yy_ch_buf := take k (ch_buf st) @ cs @
      drop (k + length cs) (ch_buf st), yy_buf_chars := length cs\<rparr>, yyin := rest, yy_n_chars := length cs\<rparr>)"
    using False i cs(1) k assms(2) conjunct1 [OF conjunct2 [OF cs]] by (simp add: yy_read_more_def store_chars_def)
  moreover have "yyin st \<noteq> [] \<longrightarrow> cs \<noteq> []"
    using conjunct2 [OF conjunct2 [OF cs]] by (simp only: zero_less_numeral simp_thms)
  ultimately show ?thesis using that [of cs rest] cs by blast
qed

lemma restart_ok:
  assumes "2 \<le> length (ch_buf st)"
  shows "\<exists>st'. yyrestart st = Some st' \<and> yylineno st' = yylineno st \<and>
    length (ch_buf st') = length (ch_buf st) \<and> yy_n_chars st' = 0 \<and>
    yy_buf_size (yy_current st') = yy_buf_size (yy_current st)"
proof -
  obtain x y r where "ch_buf st = x # y # r"
    using assms by (cases "ch_buf st"; cases "tl (ch_buf st)") auto
  then show ?thesis
    by (simp add: yyrestart_def yy_flush_buffer_def yy_load_buffer_state_def yy_init_buffer_def
        poke_def peek_def)
qed

definition refilled :: "string \<Rightarrow> nat \<Rightarrow> scanner \<Rightarrow> scanner \<Rightarrow> bool" where
  "refilled inp k st st' \<longleftrightarrow> reading 0 inp st' \<and> yytext_ptr st' = 0 \<and> k \<le> yy_n_chars st' \<and>
     (yyin st \<noteq> [] \<longrightarrow> length (yyin st') < length (yyin st)) \<and>
     (yyin st = [] \<longrightarrow> yyin st' = [] \<and> yy_n_chars st' = k) \<and> yylineno st' = yylineno st"

lemma next_buffer_ok:
  assumes st: "reading t inp st" and t: "yytext_ptr st = t" and c: "yy_c_buf_p st = yy_n_chars st + 1"
    and new: "yy_buffer_status (yy_current st) \<noteq> YY_BUFFER_NEW" and k: "k = yy_n_chars st - t" "k < 8191"
  obtains st' where "yylineno st' = yylineno st"
    "inp = [] \<longrightarrow> yy_get_next_buffer fresh st = Some (EOB_ACT_END_OF_FILE, st')"
    "inp \<noteq> [] \<longrightarrow> refilled inp k st st' \<and> yy_get_next_buffer fresh st =
       Some (if yyin st = [] then EOB_ACT_LAST_MATCH else EOB_ACT_CONTINUE_SCAN, st')"
proof -
  let ?buf = "ch_buf st" and ?n = "yy_n_chars st"
  have len: "length ?buf = 16386" "yy_buf_size (yy_current st) = 16384" "?n \<le> 16384" "t \<le> ?n"
    and fill: "yy_fill_buffer (yy_current st)" and inp: "inp = drop t (take ?n ?buf) @ yyin st"
    and pend: "yy_buffer_status (yy_current st) = YY_BUFFER_EOF_PENDING \<longrightarrow> yyin st = []"
    using st by (simp_all add: reading_def Let_def)
  define w where "w = drop t (take ?n ?buf)"
  have w: "length w = k" "take k (drop t ?buf) = w" using k len by (simp_all add: w_def take_drop)
  define buf1 where "buf1 = w @ drop k ?buf"
  have b1: "length buf1 = 16386" "take k buf1 = w" using w len k by (simp_all add: buf1_def)
  have mv: "move_chars k 0 t ?buf = Some buf1"
    using k len w by (subst move_chars_ok) (simp_all add: buf1_def)
  obtain cs rest where cs: "yyin st = cs @ rest" "length cs \<le> 8192" "yyin st \<noteq> [] \<longrightarrow> cs \<noteq> []"
    and rm: "yy_read_more fresh k (set_ch_buf buf1 st) =
      Some (st\<lparr>yy_current := (yy_current st)\<lparr>yy_ch_buf := w @ cs @ drop (k + length cs) buf1,
        yy_buf_chars := length cs\<rparr>, yyin := rest, yy_n_chars := length cs\<rparr>)"
  proof -
    let ?st = "set_ch_buf buf1 st"
    have p: "yy_buf_size (yy_current ?st) = 16384" "length (ch_buf ?st) = 16386"
      "yy_buffer_status (yy_current ?st) = YY_BUFFER_EOF_PENDING \<longrightarrow> yyin ?st = []"
      using len b1(1) pend by simp_all
    obtain cs rest where r: "yyin ?st = cs @ rest" "length cs \<le> 8192" "yyin ?st \<noteq> [] \<longrightarrow> cs \<noteq> []"
      "yy_read_more fresh k ?st = Some (?st\<lparr>yy_current := (yy_current ?st)\<lparr>yy_ch_buf := take k (ch_buf ?st) @ cs @
        drop (k + length cs) (ch_buf ?st), yy_buf_chars := length cs\<rparr>, yyin := rest, yy_n_chars := length cs\<rparr>)"
      by (rule read_more_ok [OF p(1,2) k(2) p(3), where fresh = fresh])
    then show thesis using b1(2) by (intro that [of cs rest]) simp_all
  qed
  define st2 where "st2 = st\<lparr>yy_current := (yy_current st)\<lparr>yy_ch_buf := w @ cs @ drop (k + length cs) buf1,
    yy_buf_chars := length cs\<rparr>, yyin := rest, yy_n_chars := length cs\<rparr>"
  have get: "yy_get_next_buffer fresh st = do {
      (act, st) \<leftarrow> yy_refilled k st2;
      let st = yy_extend fresh k st;
      let n = yy_n_chars st + k;
      buf \<leftarrow> poke n NUL (ch_buf st);
      buf \<leftarrow> poke (n + 1) NUL buf;
      Some (act, set_ch_buf buf (st\<lparr>yy_n_chars := n, yytext_ptr := 0\<rparr>)) }"
    using fill mv rm by (simp add: yy_get_next_buffer_def c t k(1) [symmetric] st2_def)
  let ?b = "ch_buf st2"
  have l2: "length ?b = 16386" "take (k + length cs) ?b = w @ cs" "k + length cs \<le> 16384"
    "yy_n_chars st2 = length cs" "yy_buf_size (yy_current st2) = 16384"
    using b1(1) w(1) cs(2) k len by (simp_all add: st2_def)
  have inp2: "inp = w @ cs @ rest" using inp cs(1) by (simp add: w_def)
  have rd: "reading 0 inp (set_ch_buf (b'[n := NUL, n + 1 := NUL]) (st'\<lparr>yy_n_chars := n, yytext_ptr := 0\<rparr>))"
    if "length b' = 16386" "n = k + length cs" "take n b' = w @ cs" "yyin st' = rest"
      "yy_buf_size (yy_current st') = 16384" "yy_fill_buffer (yy_current st')"
      "yy_buffer_status (yy_current st') \<noteq> YY_BUFFER_NEW"
      "yy_buffer_status (yy_current st') = YY_BUFFER_EOF_PENDING \<longrightarrow> rest = []" for b' n st'
    using that l2(3) by (simp add: reading_def Let_def inp2)
  have ext: "yy_extend fresh k st' = st'" if "yy_buf_size (yy_current st') = 16384" "yy_n_chars st' = length cs" for st'
    using that l2(3) by (simp add: yy_extend_def)
  show ?thesis
  proof (cases "cs = []")
    case False
    define st' where "st' = set_ch_buf (?b[k + length cs := NUL, k + length cs + 1 := NUL])
      (st2\<lparr>yy_n_chars := k + length cs, yytext_ptr := 0\<rparr>)"
    have ref: "yy_refilled k st2 = Some (EOB_ACT_CONTINUE_SCAN, st2)"
      using False by (simp add: yy_refilled_def l2(4))
    have g: "yy_get_next_buffer fresh st = Some (EOB_ACT_CONTINUE_SCAN, st')"
      unfolding get ref using ext [OF l2(5,4)] l2(1,3)
      by (simp add: poke_def st'_def l2(4) add.commute Let_def)
    have "reading 0 inp st'" unfolding st'_def
      by (rule rd) (use l2 fill new pend cs(1) False in \<open>simp_all add: st2_def len(2)\<close>)
    then have "refilled inp k st st'" using False cs(1)
      by (simp add: refilled_def) (simp add: st'_def st2_def)
    moreover have "inp \<noteq> []" "yyin st \<noteq> []" using False by (simp_all add: inp2 cs(1))
    ultimately show ?thesis using that [of st'] g by (simp add: refilled_def)
  next
    case none: True
    then have e1: "yyin st = []" using cs(3) by blast
    then have "rest = []" using cs(1) by (metis append_is_Nil_conv)
    note e = e1 this
    show ?thesis
    proof (cases "k = 0")
      case True
      obtain st' where "yyrestart st2 = Some st'" "yylineno st' = yylineno st" "length (ch_buf st') = 16386"
        "yy_n_chars st' = 0" "yy_buf_size (yy_current st') = 16384"
        using restart_ok [of st2] l2(1,5) by (auto simp: st2_def)
      then have "\<exists>st'. yylineno st' = yylineno st \<and>
          yy_get_next_buffer fresh st = Some (EOB_ACT_END_OF_FILE, st')"
        unfolding get using none True ext [of st']
        by (simp add: yy_refilled_def l2(4) poke_def Let_def)
      moreover have "inp = []" using True w(1) none e by (simp add: inp2)
      ultimately show ?thesis using that by blast
    next
      case False
      let ?st = "st2\<lparr>yy_current := (yy_current st2)\<lparr>yy_buffer_status := YY_BUFFER_EOF_PENDING\<rparr>\<rparr>"
      define st' where "st' = set_ch_buf (?b[k := NUL, k + 1 := NUL]) (?st\<lparr>yy_n_chars := k, yytext_ptr := 0\<rparr>)"
      have ref: "yy_refilled k st2 = Some (EOB_ACT_LAST_MATCH, ?st)"
        using False none by (simp add: yy_refilled_def l2(4))
      have g: "yy_get_next_buffer fresh st = Some (EOB_ACT_LAST_MATCH, st')"
        unfolding get ref using ext [of ?st] l2 none
        by (simp add: poke_def st'_def l2(4) Let_def)
      have "reading 0 inp st'" unfolding st'_def
        by (rule rd) (use l2 fill none e len(2) in \<open>simp_all add: st2_def\<close>)
      then have "refilled inp k st st'" using e
        by (simp add: refilled_def) (simp add: st'_def st2_def e)
      moreover have "inp \<noteq> []" using False w(1) by (auto simp: inp2)
      ultimately show ?thesis using that [of st'] g e by (simp add: refilled_def)
    qed
  qed
qed

subsection \<open>The end of the buffer\<close>

lemma previous_state:
  assumes "at_state w s a" and "take (yy_c_buf_p st - yytext_ptr st) (drop (yytext_ptr st) (ch_buf st)) = w"
  obtains acc where "yy_get_previous_state st = Some (s, set_accepting acc st)" "agree (yytext_ptr st) a acc"
proof -
  have "yy_run 1 0 (0, 0) w = Some (s, a)" using assms(1) by (simp add: at_state_def)
  from run_agree [OF this agree_none, of "yytext_ptr st" "accepting st"]
  obtain acc where "yy_run 1 (yytext_ptr st) (accepting st) w = Some (s, acc)" "agree (yytext_ptr st) a acc"
    by auto
  then show ?thesis using that [of acc] by (simp add: yy_get_previous_state_def assms(2))
qed

lemma NUL_step:
  assumes "s \<in> set loop_states"
  shows "yy_trans s 1 = Some (if s = 1 then 4 else 37)"
proof -
  obtain u where u: "yy_trans s (yy_class NUL) = Some u" and ok: "step_ok s (yy_class NUL) u"
    by (rule loop_step [OF assms])
  have "u = (if s = 1 then 4 else 37)" using ok unfolding class_NUL(1) step_ok_def by blast
  then show ?thesis using u unfolding class_NUL(1) by simp
qed

lemma try_NUL:
  assumes "s \<in> set loop_states"
  shows "yy_try_NUL_trans s st = Some (if s = 1 then 4 else 0, set_accepting (update_acc s (yy_c_buf_p st) (accepting st)) st)"
  using NUL_step [OF assms] by (simp add: yy_try_NUL_trans_def update_acc_def)

text \<open>The state in which the scanner asks what the NUL is: the text is as it was.\<close>

definition asks :: "nat \<Rightarrow> nat \<Rightarrow> scanner \<Rightarrow> scanner \<Rightarrow> bool" where
  "asks t q st st' \<longleftrightarrow> yytext_ptr st' = t \<and> yy_c_buf_p st' = q + 1 \<and>
     yy_buffer_status (yy_current st') \<noteq> YY_BUFFER_NEW \<and> yy_n_chars st' = yy_n_chars st \<and>
     ch_buf st' = ch_buf st \<and> yyin st' = yyin st \<and> yylineno st' = yylineno st"

lemma find_end:
  assumes st: "reading t inp st" and q: "t \<le> q" "q \<le> yy_n_chars st" "q - t < 8191"
    and acc: "accepting st = (3, q + 1)"
  obtains st' where "reading t inp st'" "asks t q st st'"
    "yy_next fresh t (Find 37 (q + 2)) st = do {
       (ctl, st) \<leftarrow> (if q < yy_n_chars st then yy_real_NUL (q - t) st' else yy_refill fresh (q - t) st');
       yy_next fresh (yytext_ptr st) ctl st }"
proof -
  let ?buf = "ch_buf st"
  have len: "length ?buf = 16386" "yy_n_chars st \<le> 16384"
    and new: "yy_buffer_status (yy_current st) = YY_BUFFER_NEW \<longrightarrow> yy_buf_chars (yy_current st) = yy_n_chars st"
    using st by (simp_all add: reading_def Let_def)
  define st1 where "st1 = st\<lparr>yytext_ptr := t, yy_hold_char := ?buf ! (q + 1),
    yytext := take (q + 1 - t) (drop t (?buf[q + 1 := NUL])), yy_c_buf_p := q + 1\<rparr>"
  define st' where "st' = (if yy_buffer_status (yy_current st1) = YY_BUFFER_NEW
    then st1\<lparr>yy_current := (yy_current st1)\<lparr>yy_buffer_status := YY_BUFFER_NORMAL\<rparr>\<rparr> else st1)"
  have r: "reading t inp st'"
    using st by (simp add: reading_def st'_def st1_def Let_def)
  have a: "asks t q st st'" by (simp add: asks_def st'_def st1_def)
  have before: "yy_do_before_action t (q + 1) st = Some (set_ch_buf (?buf[q + 1 := NUL]) st1)"
    using q len by (simp add: yy_do_before_action_def st1_def peek_def poke_def)
  have find: "yy_find_action 37 (q + 2) (accepting st) = (12, q + 1)"
    unfolding acc by (simp add: yy_find_action_def)
  have "yy_end_of_buffer fresh (q + 1) (set_ch_buf (?buf[q + 1 := NUL]) st1) =
      (if q < yy_n_chars st then yy_real_NUL (q - t) st' else yy_refill fresh (q - t) st')"
    using q len new by (auto simp: yy_end_of_buffer_def poke_def st'_def st1_def Let_def)
  then have "yy_next fresh t (Find 37 (q + 2)) st = do {
       (ctl, st) \<leftarrow> (if q < yy_n_chars st then yy_real_NUL (q - t) st' else yy_refill fresh (q - t) st');
       yy_next fresh (yytext_ptr st) ctl st }"
    unfolding next_find [OF find] before by (simp add: count_lines_def)
  then show ?thesis using that r a by blast
qed

text \<open>What follows on a NUL of the text.\<close>

lemma real_NUL_ok:
  assumes st: "reading t inp st" and t: "yytext_ptr st = t" and w: "at_state w s a" "w @ NUL # zs = inp"
    and q: "t + length w < yy_n_chars st"
  obtains acc where "agree t (update_acc s (length w) a) acc"
    "yy_real_NUL (length w) st = Some (if s = 1 then Match 4 (t + length w + 1) else Find s (t + length w),
       (set_accepting acc st)\<lparr>yy_c_buf_p := if s = 1 then t + length w + 1 else t + length w\<rparr>)"
proof -
  let ?st = "st\<lparr>yy_c_buf_p := t + length w\<rparr>"
  have inp: "inp = drop t (take (yy_n_chars st) (ch_buf st)) @ yyin st" "yy_n_chars st < length (ch_buf st)"
    using st by (simp_all add: reading_def Let_def)
  have "take (length w) (drop t (ch_buf st)) = take (length w) inp"
    using q inp(2) by (simp add: inp(1) take_drop)
  then have pre: "take (length w) (drop t (ch_buf st)) = w" by (simp flip: w(2))
  obtain acc where acc: "yy_get_previous_state ?st = Some (s, set_accepting acc ?st)" "agree t a acc"
    using previous_state [of w s a ?st] w(1) pre t by auto
  have s: "s \<in> set loop_states" using w(1) by (simp add: at_state_def)
  have "agree t (update_acc s (length w) a) (update_acc s (t + length w) acc)" using acc(2) by (rule agree_update)
  then show ?thesis
    by (rule that) (use acc(1) try_NUL [OF s] in \<open>simp add: yy_real_NUL_def t\<close>)
qed

text \<open>And at the end of the buffer: the next part of the file, or its end.\<close>

lemma refill_ok:
  assumes st: "reading t inp st" and t: "yytext_ptr st = t" and c: "yy_c_buf_p st = yy_n_chars st + 1"
    and new: "yy_buffer_status (yy_current st) \<noteq> YY_BUFFER_NEW"
    and w: "at_state w s a" "inp = w @ yyin st" "length w < 8191"
  obtains (eof) st' where "inp = []" "yylineno st' = yylineno st"
      "yy_refill fresh (length w) st = Some (End_of_file, st')"
  | (more) st' acc where "inp \<noteq> []" "refilled inp (length w) st st'" "agree 0 a acc"
      "yy_refill fresh (length w) st = Some
         (if yyin st = [] then Find s (length w) else Match s (length w),
          (set_accepting acc st')\<lparr>yy_c_buf_p := length w\<rparr>)"
proof -
  have "length (drop t (take (yy_n_chars st) (ch_buf st))) = yy_n_chars st - t"
    "inp = drop t (take (yy_n_chars st) (ch_buf st)) @ yyin st"
    using st by (simp_all add: reading_def Let_def)
  then have k: "length w = yy_n_chars st - t" using w(2) by simp
  obtain st' where st': "yylineno st' = yylineno st"
    "inp = [] \<longrightarrow> yy_get_next_buffer fresh st = Some (EOB_ACT_END_OF_FILE, st')"
    "inp \<noteq> [] \<longrightarrow> refilled inp (length w) st st' \<and> yy_get_next_buffer fresh st =
       Some (if yyin st = [] then EOB_ACT_LAST_MATCH else EOB_ACT_CONTINUE_SCAN, st')"
    by (rule next_buffer_ok [OF st t c new k w(3), where fresh = fresh])
  show ?thesis
  proof (cases "inp = []")
    case True
    show ?thesis
      by (rule eof [of "st'\<lparr>yy_c_buf_p := yytext_ptr st'\<rparr>"]) (use True st'(1,2) in \<open>simp_all add: yy_refill_def\<close>)
  next
    case False
    note ref = conjunct1 [OF mp [OF st'(3) False]] and get = conjunct2 [OF mp [OF st'(3) False]]
    have r: "reading 0 inp st'" "yytext_ptr st' = 0" "length w \<le> yy_n_chars st'"
      "yyin st = [] \<longrightarrow> yy_n_chars st' = length w"
      using ref by (simp_all add: refilled_def)
    let ?st = "st'\<lparr>yy_c_buf_p := length w\<rparr>"
    have "inp = take (yy_n_chars st') (ch_buf st') @ yyin st'" "yy_n_chars st' < length (ch_buf st')"
      using r(1) by (simp_all add: reading_def Let_def)
    then have "take (length w) (ch_buf st') = take (length w) inp" using r(3) by (simp add: min_def)
    then have "take (length w) (ch_buf st') = w" by (simp add: w(2))
    then obtain acc where acc: "yy_get_previous_state ?st = Some (s, set_accepting acc ?st)" "agree 0 a acc"
      using previous_state [of w s a ?st] w(1) r(2) by auto
    show ?thesis
      by (rule more [OF False ref acc(2)]) (use acc(1) r(2,4) get in \<open>simp add: yy_refill_def\<close>)
  qed
qed

subsection \<open>A token\<close>

text \<open>The buffer after the part \<open>w\<close> of the token, up to the next NUL.\<close>

lemma buffer_split:
  assumes st: "reading t inp st" and zs: "inp = w @ zs" and pos: "t + length w \<le> yy_n_chars st"
  obtains cs where "NUL \<notin> set cs" "take (length cs) (drop (t + length w) (ch_buf st)) = cs"
    "ch_buf st ! (t + length w + length cs) = NUL" "t + length w + length cs \<le> yy_n_chars st"
    "zs = cs @ drop (length cs) zs"
    "t + length w + length cs < yy_n_chars st \<Longrightarrow> zs = cs @ NUL # drop (length cs + 1) zs"
    "t + length w + length cs = yy_n_chars st \<Longrightarrow> zs = cs @ yyin st"
proof -
  let ?n = "yy_n_chars st" and ?buf = "ch_buf st" and ?p = "t + length w"
  have n: "length ?buf = 16386" "?n \<le> 16384" "?buf ! ?n = NUL" and inp: "inp = drop t (take ?n ?buf) @ yyin st"
    using st by (simp_all add: reading_def Let_def)
  define rem where "rem = drop ?p (take ?n ?buf)"
  have "drop (length w) inp = rem @ yyin st"
    using pos n unfolding inp rem_def by (simp add: add.commute min_def)
  then have z: "zs = rem @ yyin st" by (simp add: zs)
  define cs where "cs = takeWhile (\<lambda>c. c \<noteq> NUL) rem"
  have cs: "NUL \<notin> set cs" "length cs \<le> length rem" "length rem = ?n - ?p"
  proof -
    show "NUL \<notin> set cs" unfolding cs_def by (auto dest: set_takeWhileD)
    show "length cs \<le> length rem" unfolding cs_def by (rule length_takeWhile_le)
    show "length rem = ?n - ?p" using n by (simp add: rem_def)
  qed
  have rem: "rem = cs @ drop (length cs) rem"
    by (metis cs_def takeWhile_eq_take append_take_drop_id)
  have "take (length cs) (drop ?p ?buf) = take (length cs) rem"
    using cs(2,3) by (simp add: rem_def drop_take min_def)
  then have buf: "take (length cs) (drop ?p ?buf) = cs" using rem by (metis append_eq_conv_conj)
  have at_NUL: "rem ! length cs = NUL" if "length cs < length rem"
    using that nth_length_takeWhile [of "\<lambda>c. c \<noteq> NUL" rem] by (simp add: cs_def)
  show ?thesis
  proof (rule that [OF cs(1) buf])
    show "?buf ! (?p + length cs) = NUL"
      using at_NUL cs n pos by (cases "length cs < length rem") (simp_all add: rem_def)
    show "?p + length cs \<le> ?n" using cs pos by simp
    show "zs = cs @ drop (length cs) zs" using rem z cs(2) by simp
    show "zs = cs @ NUL # drop (length cs + 1) zs" if "?p + length cs < ?n"
    proof -
      have "length cs < length rem" using that cs(3) by simp
      then have "drop (length cs) rem = NUL # drop (length cs + 1) rem"
        using at_NUL Cons_nth_drop_Suc [of "length cs" rem] by simp
      then show ?thesis using rem z cs(2) \<open>length cs < length rem\<close> by simp
    qed
    show "zs = cs @ yyin st" if "?p + length cs = ?n" using that rem z cs pos by simp
  qed
qed

lemma jam_token:
  assumes st: "reading t inp st" and sh: "short_runs inp" and inp: "inp = w @ cs @ zs"
    and pos: "t + length w + length cs \<le> yy_n_chars st"
    and jam: "jams w t cs (yy_match_loop (ch_buf st) s (t + length w) (accepting st))"
  shows "scans inp (yylineno st) (yy_next fresh t (Match s (t + length w)) st)"
proof -
  obtain s' j a acc where j: "yy_match_loop (ch_buf st) s (t + length w) (accepting st) = Some (s', t + length w + j, acc)"
    "1 \<le> j" "j \<le> length cs" "agree t a acc" "entry_at yy_accept s' \<noteq> 0 \<or> fst a \<noteq> 0"
    "fst a \<noteq> 0 \<longrightarrow> snd a \<le> length w + j"
    "\<forall>zs. yy_match 1 0 (0, 0) (w @ cs @ zs) = Some (yy_find_action s' (length w + j) a)"
    using jam unfolding jams_def by blast
  have r: "reading t inp (set_accepting acc st)" using st by (simp add: reading_def)
  have "scans inp (yylineno (set_accepting acc st))
      (yy_next fresh t (Find s' (t + (length w + j))) (set_accepting acc st))"
  proof (rule find_token [OF r sh _ _ _ j(5,6)])
    show "inp \<noteq> []" using j(2,3) inp by auto
    show "t + (length w + j) \<le> yy_n_chars (set_accepting acc st)" using j(3) pos by simp
    show "agree t a (accepting (set_accepting acc st))" using j(4) by simp
    show "yy_match 1 0 (0, 0) inp = Some (yy_find_action s' (length w + j) a)"
      using j(7) by (simp add: inp del: yy_match.simps)
  qed
  then show ?thesis unfolding next_match [OF j(1)] by (simp add: add.assoc)
qed

text \<open>A NUL of the text after a part of a token ends the token; so does the end of the file.\<close>

lemma jam_NUL:
  assumes w: "at_state w s a" and "s \<noteq> 1"
  shows "yy_match 1 0 (0, 0) (w @ NUL # zs) = Some (yy_find_action s (length w) (update_acc s (length w) a))"
    and "fst (update_acc s (length w) a) \<noteq> 0 \<longrightarrow> snd (update_acc s (length w) a) \<le> length w"
    and "entry_at yy_accept s \<noteq> 0 \<or> fst (update_acc s (length w) a) \<noteq> 0"
proof -
  have s: "s \<in> set loop_states" using w by (simp add: at_state_def)
  have "yy_trans s (yy_class NUL) = Some 37" using NUL_step [OF s] assms(2) by (simp add: class_NUL)
  from at_jam(1) [OF w this, of zs]
  show "yy_match 1 0 (0, 0) (w @ NUL # zs) = Some (yy_find_action s (length w) (update_acc s (length w) a))"
    by (simp add: yy_find_action_def update_acc_def del: yy_match.simps split: if_splits)
  show "fst (update_acc s (length w) a) \<noteq> 0 \<longrightarrow> snd (update_acc s (length w) a) \<le> length w"
    "entry_at yy_accept s \<noteq> 0 \<or> fst (update_acc s (length w) a) \<noteq> 0"
    using w assms(2) by (auto simp: update_acc_def at_state_def)
qed

lemma at_end:
  assumes w: "at_state w s a" and "w \<noteq> []"
  shows "yy_match 1 0 (0, 0) w = Some (yy_find_action s (length w) a)"
    and "fst a \<noteq> 0 \<longrightarrow> snd a \<le> length w" and "entry_at yy_accept s \<noteq> 0 \<or> fst a \<noteq> 0"
proof -
  have "yy_match 1 0 (0, 0) (w @ []) = resume_match s (length w) a []" using w unfolding at_state_def by blast
  then show "yy_match 1 0 (0, 0) w = Some (yy_find_action s (length w) a)"
    by (simp add: resume_match_def yy_find_action_def split: if_splits)
  show "fst a \<noteq> 0 \<longrightarrow> snd a \<le> length w" "entry_at yy_accept s \<noteq> 0 \<or> fst a \<noteq> 0"
    using w assms(2) by (auto simp: at_state_def)
qed

lemma at_NUL: "at_state [NUL] 4 (0, 0)"
proof -
  have "yy_trans 1 (yy_class NUL) = Some 4" using NUL_step [of 1] by (simp add: class_NUL loop_states_def)
  from at_step [OF at_start this] show ?thesis by (simp add: loop_states_def update_acc_def)
qed

text \<open>The scanner from a state of the automaton, after the part \<open>w\<close> of the token. A NUL takes it on in
  the buffer, the end of the buffer takes it to the next part of the file.\<close>

lemma match_token:
  assumes "reading t inp st" and "at_state w s a" and "inp = w @ zs" and "agree t a (accepting st)"
    and "t + length w \<le> yy_n_chars st" and "short_runs inp"
  shows "scans inp (yylineno st) (yy_next fresh t (Match s (t + length w)) st)"
  using assms
proof (induction "length (yyin st) * 20000 + (yy_n_chars st - (t + length w))"
    arbitrary: t w s a zs st rule: less_induct)
  case less
  note st = less.prems(1) and w = less.prems(2) and inp = less.prems(3) and ag = less.prems(4)
    and pos = less.prems(5) and sh = less.prems(6)
  have n: "yy_n_chars st \<le> 16384" "length (ch_buf st) = 16386" using st by (simp_all add: reading_def Let_def)
  obtain cs where cs: "NUL \<notin> set cs" "take (length cs) (drop (t + length w) (ch_buf st)) = cs"
    "ch_buf st ! (t + length w + length cs) = NUL" "t + length w + length cs \<le> yy_n_chars st"
    "zs = cs @ drop (length cs) zs"
    and in_buf: "t + length w + length cs < yy_n_chars st \<Longrightarrow> zs = cs @ NUL # drop (length cs + 1) zs"
    and at_eob: "t + length w + length cs = yy_n_chars st \<Longrightarrow> zs = cs @ yyin st"
    using buffer_split [OF st inp pos] by blast
  let ?w = "w @ cs"
  let ?q = "t + length ?w"
  have "t + length w + length cs + 1 < length (ch_buf st)" using cs(4) n by simp
  from loop_runs [OF w ag cs(2,1) this cs(3)]
  consider (jam) "jams w t cs (yy_match_loop (ch_buf st) s (t + length w) (accepting st))"
    | (ask) s' a' where "at_state ?w s' a'"
        "yy_match_loop (ch_buf st) s (t + length w) (accepting st) = Some (37, ?q + 2, 3, ?q + 1)"
    by (auto simp: add.assoc)
  then show ?case
  proof cases
    case jam
    have "inp = w @ cs @ drop (length cs) zs" using cs(5) inp by simp
    then show ?thesis by (rule jam_token [OF st sh _ cs(4) jam])
  next
    case ask
    let ?st = "set_accepting (3, ?q + 1) st"
    have w': "at_state ?w s' a'" by fact
    have len: "length ?w < 8191"
      using prefix_short [OF w', of "drop (length cs) zs"] cs(5) inp sh by simp
    have r: "reading t inp ?st" using st by (simp add: reading_def)
    obtain st' where st': "reading t inp st'" "asks t ?q ?st st'"
      "yy_next fresh t (Find 37 (?q + 2)) ?st = do {
         (ctl, st) \<leftarrow> (if ?q < yy_n_chars ?st then yy_real_NUL (?q - t) st' else yy_refill fresh (?q - t) st');
         yy_next fresh (yytext_ptr st) ctl st }"
      by (rule find_end [OF r, of ?q, where fresh = fresh]) (use cs(4) len in simp_all)
    have same: "yytext_ptr st' = t" "yy_c_buf_p st' = ?q + 1" "yy_n_chars st' = yy_n_chars st"
      "yyin st' = yyin st" "yylineno st' = yylineno st" "yy_buffer_status (yy_current st') \<noteq> YY_BUFFER_NEW"
      using st'(2) by (simp_all add: asks_def)
    have eq: "yy_next fresh t (Match s (t + length w)) st = do {
         (ctl, st) \<leftarrow> (if ?q < yy_n_chars st then yy_real_NUL (length ?w) st' else yy_refill fresh (length ?w) st');
         yy_next fresh (yytext_ptr st) ctl st }"
      using next_match [OF ask(2), of fresh t] st'(3) by simp
    show ?thesis
    proof (cases "?q < yy_n_chars st")
      case True
      then have inp': "?w @ NUL # drop (length cs + 1) zs = inp" using in_buf inp by simp
      have "t + length ?w < yy_n_chars st'" using True same(3) by simp
      from real_NUL_ok [OF st'(1) same(1) w' inp' this]
      obtain acc where acc: "agree t (update_acc s' (length ?w) a') acc"
        "yy_real_NUL (length ?w) st' = Some (if s' = 1 then Match 4 (?q + 1) else Find s' ?q,
           (set_accepting acc st')\<lparr>yy_c_buf_p := if s' = 1 then ?q + 1 else ?q\<rparr>)" by blast
      let ?st' = "(set_accepting acc st')\<lparr>yy_c_buf_p := if s' = 1 then ?q + 1 else ?q\<rparr>"
      have r': "reading t inp ?st'" using st'(1) by (simp add: reading_def)
      have go: "yy_next fresh t (Match s (t + length w)) st =
          yy_next fresh t (if s' = 1 then Match 4 (?q + 1) else Find s' ?q) ?st'"
        unfolding eq acc(2) using True same(1) by simp
      show ?thesis
      proof (cases "s' = 1")
        case True
        then have "?w = []" using w' by (simp add: at_state_def)
        have "scans inp (yylineno ?st') (yy_next fresh t (Match 4 (t + length [NUL])) ?st')"
          by (rule less.hyps [OF _ r' at_NUL, of "drop (length cs + 1) zs"])
            (use \<open>?q < yy_n_chars st\<close> \<open>?w = []\<close> same inp' sh in auto)
        then show ?thesis unfolding go using True \<open>?w = []\<close> same(5) by simp
      next
        case False
        have "scans inp (yylineno ?st') (yy_next fresh t (Find s' (t + length ?w)) ?st')"
          by (rule find_token [OF r' sh _ _ _ jam_NUL(3,2) [OF w' False]])
            (use \<open>?q < yy_n_chars st\<close> same inp' acc(1) jam_NUL(1) [OF w' False, of "drop (length cs + 1) zs"] in
              \<open>auto simp del: yy_match.simps\<close>)
        then show ?thesis unfolding go using False same(5) by simp
      qed
    next
      case False
      then have q: "?q = yy_n_chars st" using cs(4) by simp
      then have inp': "inp = ?w @ yyin st'" using at_eob inp same(4) by simp
      have c: "yy_c_buf_p st' = yy_n_chars st' + 1" using same(2,3) q by simp
      show ?thesis
      proof (rule refill_ok [OF st'(1) same(1) c same(6) w' inp' len, where fresh = fresh], goal_cases eof more)
        case (eof st2)
        then show ?thesis unfolding eq using False same(5)
          by (simp add: scans_def next_end)
      next
        case (more st2 acc)
        let ?st2 = "(set_accepting acc st2)\<lparr>yy_c_buf_p := length ?w\<rparr>"
        have r2: "reading 0 inp ?st2" "0 + length ?w \<le> yy_n_chars ?st2" "yytext_ptr ?st2 = 0"
          "yylineno ?st2 = yylineno st" "yyin st \<noteq> [] \<Longrightarrow> length (yyin ?st2) < length (yyin st)"
          "agree 0 a' (accepting ?st2)"
          using more(2,3) same(4,5) by (simp_all add: refilled_def reading_def)
        have go: "yy_next fresh t (Match s (t + length w)) st =
            yy_next fresh 0 (if yyin st = [] then Find s' (length ?w) else Match s' (length ?w)) ?st2"
          unfolding eq more(4) using False r2(3) same(4) by simp
        show ?thesis
        proof (cases "yyin st = []")
          case True
          then have "inp = ?w" "?w \<noteq> []" using inp' same(4) more(1) by simp_all
          have "scans inp (yylineno ?st2) (yy_next fresh 0 (Find s' (0 + length ?w)) ?st2)"
            by (rule find_token [OF r2(1) sh more(1) r2(2,6) at_end(3,2) [OF w' \<open>?w \<noteq> []\<close>]])
              (use at_end(1) [OF w' \<open>?w \<noteq> []\<close>] \<open>inp = ?w\<close> in \<open>simp del: yy_match.simps\<close>)
          then show ?thesis unfolding go using True r2(4) by simp
        next
          case False
          have "yy_n_chars ?st2 \<le> 16384" using r2(1) by (simp add: reading_def Let_def)
          then have "scans inp (yylineno ?st2) (yy_next fresh 0 (Match s' (0 + length ?w)) ?st2)"
            using r2(5) [OF False] by (intro less.hyps [OF _ r2(1) w' inp' r2(6,2) sh]) simp
          then show ?thesis unfolding go using False r2(4) by simp
        qed
      qed
    qed
  qed
qed

subsection \<open>The file\<close>

lemma newlines_append: "newlines (a @ b) = newlines a + newlines b"
  by (simp add: newlines_def)

lemma newlines_none: "CHR 0x0A \<notin> set w \<Longrightarrow> newlines w = 0"
  by (auto simp: newlines_def filter_empty_conv)

lemma tokens_ok:
  assumes "between_tokens inp st" and "short_runs inp"
  shows "\<exists>st'. yylex_tokens fresh st = Some (scan_text inp, st') \<and> yylineno st' = yylineno st + newlines inp"
  using assms
proof (induction "length inp" arbitrary: inp st rule: less_induct)
  case less
  let ?c = "yy_c_buf_p st"
  let ?st = "set_ch_buf ((ch_buf st)[?c := yy_hold_char st]) st"
  have r: "reading ?c inp ?st" using less.prems(1) by (simp add: between_tokens_def)
  then have c: "?c < length (ch_buf st)" "?c \<le> yy_n_chars st" by (simp_all add: reading_def Let_def)
  have s: "scans inp (yylineno ?st) (yy_next fresh ?c (Match 1 (?c + length ([] :: string))) ?st)"
    by (rule match_token [OF r at_start _ _ _ less.prems(2), of inp]) (use c in simp_all)
  have unf: "yylex_tokens fresh st = do {
     (act, st) \<leftarrow> yy_next fresh ?c (Match 1 ?c) ?st;
     (case act of
        None \<Rightarrow> Some ([], st)
      | Some act \<Rightarrow> do {
          ls \<leftarrow> action_lexemes act (yytext st);
          (more, st) \<leftarrow> yylex_tokens fresh st;
          Some (ls @ more, st) }) }"
    using c(1) by (subst yylex_tokens.simps) (simp add: poke_def)
  show ?case
  proof (cases "inp = []")
    case True
    then show ?thesis using s unfolding unf by (auto simp: scans_def newlines_def)
  next
    case False
    then obtain act len ls where tok: "token_of inp act len ls" by (rule token_step)
    then obtain st' where st': "yy_next fresh ?c (Match 1 ?c) ?st = Some (Some act, st')"
      "yytext st' = take len inp" "between_tokens (drop len inp) st'"
      "yylineno st' = yylineno st + (if act = 7 then newlines (take len inp) else 0)"
      using s False by (auto simp: scans_def token_of_def simp del: yy_match.simps)
    have "length (drop len inp) < length inp" using tok False by (simp add: token_of_def)
    from less.hyps [OF this st'(3) short_drop [OF less.prems(2)]]
    obtain st'' where st'': "yylex_tokens fresh st' = Some (scan_text (drop len inp), st'')"
      "yylineno st'' = yylineno st' + newlines (drop len inp)" by blast
    have ls: "action_lexemes act (take len inp) = Some ls" "scan_text inp = ls @ scan_text (drop len inp)"
      "act \<noteq> 7 \<longrightarrow> newlines (take len inp) = 0"
      using tok by (auto simp: token_of_def newlines_none simp del: yy_match.simps scan_text.simps)
    have "newlines inp = newlines (take len inp) + newlines (drop len inp)"
      by (simp flip: newlines_append)
    then have "yylineno st'' = yylineno st + newlines inp" using st'(4) st''(2) ls(3) by auto
    then show ?thesis unfolding unf using st'(1,2) st''(1) ls(1,2) by (simp del: scan_text.simps)
  qed
qed

lemma length_yyalloc [simp]: "length (yyalloc fresh n) = n"
  by (simp add: yyalloc_def)

lemma init_ok:
  obtains st where "yylex_init fresh g = Some st" "between_tokens (yyin g) st" "yylineno st = yylineno g"
proof -
  have "\<exists>st. yylex_init fresh g = Some st \<and> between_tokens (yyin g) st \<and> yylineno st = yylineno g"
    by (simp add: yylex_init_def yy_create_buffer_def yy_flush_buffer_def yy_init_buffer_def
        yy_load_buffer_state_def poke_def peek_def between_tokens_def reading_def Let_def)
  then show ?thesis using that by blast
qed

lemma file_scanned:
  assumes "short_runs (yyin g)"
  shows "\<exists>st. scan_file fresh g = Some (scan_text (yyin g), st) \<and>
    yylineno st = yylineno g + newlines (yyin g)"
proof -
  obtain st where "yylex_init fresh g = Some st" "between_tokens (yyin g) st" "yylineno st = yylineno g"
    by (rule init_ok)
  then show ?thesis using tokens_ok [of "yyin g" st fresh] assms by (auto simp: scan_file_def)
qed

text \<open>The console parses the text of the file, and leaves the scanner ready for another: the lines
  count from 1 again.\<close>

theorem file_parsed:
  assumes "short_runs (yyin g)"
  shows "map_option fst (parse_file fresh (Some g)) = parse (Some (yyin g))"
    and "parse_file fresh (Some g) = Some (r, g') \<Longrightarrow> yylineno g' = 1"
  using file_scanned [OF assms, of fresh]
  by (auto simp: parse_file_def parse_def yylex_destroy_def bind_eq_Some_conv split: bind_split prod.split)

text \<open>The array of \<open>ERROR_LEXICO\<close> holds the message of every token that is not fatal, with its NUL,
  and of the longest one there is nothing to spare.\<close>

lemma before_action_small: "yy_do_before_action bp cp st = Some st' \<Longrightarrow> length (yytext st') < 8192"
  by (auto simp: yy_do_before_action_def bind_eq_Some_conv split: if_splits)

theorem lexical_message_fits:
  assumes "yy_do_before_action bp cp st = Some st'"
  shows "length (lexical_message act (yytext st')) + 1 \<le> 8229"
  using before_action_small [OF assms] length_takeWhile_le [of "\<lambda>c. c \<noteq> NUL" "yytext st'"]
  by (auto simp: lexical_message_def)

end
