(* ===== verification/Scanner_Stack.thy ===== *)
theory Scanner_Stack
  imports Scanner_Buffer
begin

section \<open>The stack of buffers of the scanner\<close>

text \<open>
  The part of \<open>console/src/console/scanner.c\<close> with which a scanner can go from one buffer to another:
  the stack of buffers, buffers on a string, the stack of start conditions and \<open>yylex_destroy\<close>. The
  console uses one buffer only (theory \<open>Scanner_Buffer\<close>), which \<open>yylex_destroy\<close> gives back. A pointer to
  a buffer is a number, \<open>NULL\<close> is \<open>None\<close>; using a buffer that was deleted is \<open>None\<close>. A stream is a
  number, too. The buffers that the caller owns (\<open>yy_is_our_buffer\<close> is 0) are not freed.
\<close>

record scanner_stack =
  structs :: "nat \<Rightarrow> (yy_buffer_state \<times> nat option) option"
  next_struct :: nat
  yy_buffer_stack :: "nat option list option"
  yy_buffer_stack_top :: nat
  in_stream :: "nat option"
  out_stream :: "nat option"
  yy_flex_debug :: int
  g_n_chars :: nat
  g_c_buf_p :: nat
  g_text_ptr :: nat
  g_hold_char :: char
  yy_did_buffer_switch_on_eof :: bool
  yy_init :: bool
  yy_start :: int
  start_stack :: "int list"
  start_stack_ptr :: int
  g_lineno :: nat

subsection \<open>Access\<close>

text \<open>\<open>YY_CURRENT_BUFFER\<close>, and the assignment to it.\<close>

definition current_buffer :: "scanner_stack \<Rightarrow> nat option option" where
  "current_buffer s =
     (case yy_buffer_stack s of
        None \<Rightarrow> Some None
      | Some bs \<Rightarrow> if yy_buffer_stack_top s < length bs then Some (bs ! yy_buffer_stack_top s) else None)"

definition set_current_buffer :: "nat option \<Rightarrow> scanner_stack \<Rightarrow> scanner_stack option" where
  "set_current_buffer b s = do {
     bs \<leftarrow> yy_buffer_stack s;
     if yy_buffer_stack_top s < length bs
     then Some (s\<lparr>yy_buffer_stack := Some (bs[yy_buffer_stack_top s := b])\<rparr>) else None }"

definition set_struct :: "nat \<Rightarrow> yy_buffer_state \<times> nat option \<Rightarrow> scanner_stack \<Rightarrow> scanner_stack" where
  "set_struct p b s = s\<lparr>structs := (structs s)(p \<mapsto> b)\<rparr>"

definition load_state :: "scanner_stack \<Rightarrow> scanner_stack option" where
  "load_state s = do {
     p \<leftarrow> current_buffer s;
     p \<leftarrow> p;
     (b, stream) \<leftarrow> structs s p;
     hold \<leftarrow> peek (yy_buf_pos b) (yy_ch_buf b);
     Some (s\<lparr>g_n_chars := yy_buf_chars b, g_text_ptr := yy_buf_pos b, g_c_buf_p := yy_buf_pos b,
       in_stream := stream, g_hold_char := hold\<rparr>) }"

text \<open>The flush of the old buffer in \<open>yy_switch_to_buffer\<close> and \<open>yypush_buffer_state\<close>.\<close>

definition save_state :: "scanner_stack \<Rightarrow> scanner_stack option" where
  "save_state s = do {
     p \<leftarrow> current_buffer s;
     (case p of
        None \<Rightarrow> Some s
      | Some p \<Rightarrow> do {
          (b, stream) \<leftarrow> structs s p;
          buf \<leftarrow> poke (g_c_buf_p s) (g_hold_char s) (yy_ch_buf b);
          Some (set_struct p
            (b\<lparr>yy_ch_buf := buf, yy_buf_pos := g_c_buf_p s, yy_buf_chars := g_n_chars s\<rparr>, stream) s) }) }"

subsection \<open>The operations\<close>

definition yyensure_buffer_stack :: "scanner_stack \<Rightarrow> scanner_stack" where
  "yyensure_buffer_stack s =
     (case yy_buffer_stack s of
        None \<Rightarrow> s\<lparr>yy_buffer_stack := Some [None], yy_buffer_stack_top := 0\<rparr>
      | Some bs \<Rightarrow>
          if length bs - 1 \<le> yy_buffer_stack_top s
          then s\<lparr>yy_buffer_stack := Some (bs @ replicate 8 None)\<rparr> else s)"

definition yy_switch_to_buffer :: "nat \<Rightarrow> scanner_stack \<Rightarrow> scanner_stack option" where
  "yy_switch_to_buffer p s = do {
     let s = yyensure_buffer_stack s;
     c \<leftarrow> current_buffer s;
     if c = Some p then Some s
     else do {
       s \<leftarrow> save_state s;
       s \<leftarrow> set_current_buffer (Some p) s;
       s \<leftarrow> load_state s;
       Some (s\<lparr>yy_did_buffer_switch_on_eof := True\<rparr>) } }"

definition yypush_buffer_state :: "nat option \<Rightarrow> scanner_stack \<Rightarrow> scanner_stack option" where
  "yypush_buffer_state b s =
     (case b of
        None \<Rightarrow> Some s
      | Some p \<Rightarrow> do {
          s \<leftarrow> save_state (yyensure_buffer_stack s);
          c \<leftarrow> current_buffer s;
          let s = (if c = None then s else s\<lparr>yy_buffer_stack_top := yy_buffer_stack_top s + 1\<rparr>);
          s \<leftarrow> set_current_buffer (Some p) s;
          s \<leftarrow> load_state s;
          Some (s\<lparr>yy_did_buffer_switch_on_eof := True\<rparr>) })"

text \<open>\<open>yy_delete_buffer\<close> frees the struct and, when it is the scanner's own, the block of characters.\<close>

definition yy_delete_buffer :: "nat option \<Rightarrow> scanner_stack \<Rightarrow> scanner_stack option" where
  "yy_delete_buffer b s =
     (case b of
        None \<Rightarrow> Some s
      | Some p \<Rightarrow> do {
          c \<leftarrow> current_buffer s;
          s \<leftarrow> (if c = Some p then set_current_buffer None s else Some s);
          _ \<leftarrow> structs s p;
          Some (s\<lparr>structs := (structs s)(p := None)\<rparr>) })"

definition yypop_buffer_state :: "scanner_stack \<Rightarrow> scanner_stack option" where
  "yypop_buffer_state s = do {
     c \<leftarrow> current_buffer s;
     if c = None then Some s
     else do {
       s \<leftarrow> yy_delete_buffer c s;
       s \<leftarrow> set_current_buffer None s;
       let s = (if 0 < yy_buffer_stack_top s then s\<lparr>yy_buffer_stack_top := yy_buffer_stack_top s - 1\<rparr> else s);
       c \<leftarrow> current_buffer s;
       if c = None then Some s
       else do {
         s \<leftarrow> load_state s;
         Some (s\<lparr>yy_did_buffer_switch_on_eof := True\<rparr>) } } }"

text \<open>A buffer on characters of the caller: the last two must be NUL; \<open>None\<close> as buffer when they are
  not.\<close>

definition yy_scan_buffer :: "string \<Rightarrow> scanner_stack \<Rightarrow> (nat option \<times> scanner_stack) option" where
  "yy_scan_buffer base s =
     (let n = length base in
      if n < 2 \<or> base ! (n - 2) \<noteq> NUL \<or> base ! (n - 1) \<noteq> NUL then Some (None, s)
      else do {
        let p = next_struct s;
        let b = \<lparr>yy_ch_buf = base, yy_buf_pos = 0, yy_buf_size = int n - 2, yy_buf_chars = n - 2,
          yy_is_our_buffer = False, yy_is_interactive = False, yy_at_bol = True, yy_bs_lineno = 0,
          yy_bs_column = 0, yy_fill_buffer = False, yy_buffer_status = YY_BUFFER_NEW\<rparr>;
        let s = set_struct p (b, None) (s\<lparr>next_struct := p + 1\<rparr>);
        s \<leftarrow> yy_switch_to_buffer p s;
        Some (Some p, s) })"

definition yy_scan_bytes :: "string \<Rightarrow> scanner_stack \<Rightarrow> (nat \<times> scanner_stack) option" where
  "yy_scan_bytes bytes s = do {
     (p, s) \<leftarrow> yy_scan_buffer (bytes @ [NUL, NUL]) s;
     p \<leftarrow> p;
     (b, stream) \<leftarrow> structs s p;
     Some (p, set_struct p (b\<lparr>yy_is_our_buffer := True\<rparr>, stream) s) }"

definition yy_scan_string :: "string \<Rightarrow> scanner_stack \<Rightarrow> (nat \<times> scanner_stack) option" where
  "yy_scan_string str s = yy_scan_bytes (takeWhile (\<lambda>c. c \<noteq> NUL) str) s"

text \<open>The stack of start conditions: \<open>BEGIN s\<close> is the state \<open>1 + 2 * s\<close> and \<open>YY_START\<close> its inverse.\<close>

definition yy_push_state :: "int \<Rightarrow> scanner_stack \<Rightarrow> scanner_stack option" where
  "yy_push_state new_state s = do {
     let stack = (if int (length (start_stack s)) \<le> start_stack_ptr s
       then start_stack s @ replicate 25 0 else start_stack s);
     if 0 \<le> start_stack_ptr s \<and> start_stack_ptr s < int (length stack)
     then Some (s\<lparr>start_stack := stack[nat (start_stack_ptr s) := (yy_start s - 1) div 2],
       start_stack_ptr := start_stack_ptr s + 1, yy_start := 1 + 2 * new_state\<rparr>)
     else None }"

definition yy_pop_state :: "scanner_stack \<Rightarrow> scanner_stack option" where
  "yy_pop_state s = do {
     let ptr = start_stack_ptr s - 1;
     if 0 \<le> ptr \<and> nat ptr < length (start_stack s)
     then Some (s\<lparr>start_stack_ptr := ptr, yy_start := 1 + 2 * start_stack s ! nat ptr\<rparr>)
     else None }"

definition yy_top_state :: "scanner_stack \<Rightarrow> int option" where
  "yy_top_state s =
     (if 0 < start_stack_ptr s \<and> nat (start_stack_ptr s) \<le> length (start_stack s)
      then Some (start_stack s ! nat (start_stack_ptr s - 1)) else None)"

text \<open>\<open>yy_init_globals\<close> and \<open>yylex_destroy\<close>. Its loop makes one round at most: \<open>yypop_buffer_state\<close>
  finds the current buffer \<open>NULL\<close> and returns.\<close>

definition yy_init_globals :: "scanner_stack \<Rightarrow> scanner_stack" where
  "yy_init_globals s = s\<lparr>g_lineno := 1, yy_buffer_stack := None, yy_buffer_stack_top := 0, g_c_buf_p := 0,
     yy_init := False, yy_start := 0, start_stack_ptr := 0, start_stack := [], in_stream := None,
     out_stream := None\<rparr>"

partial_function (option) destroy_loop :: "scanner_stack \<Rightarrow> scanner_stack option" where
  "destroy_loop s = do {
     c \<leftarrow> current_buffer s;
     if c = None then Some s
     else do {
       s \<leftarrow> yy_delete_buffer c s;
       s \<leftarrow> set_current_buffer None s;
       s \<leftarrow> yypop_buffer_state s;
       destroy_loop s } }"

declare destroy_loop.simps [code]

definition yylex_destroy_stack :: "scanner_stack \<Rightarrow> scanner_stack option" where
  "yylex_destroy_stack s = map_option yy_init_globals (destroy_loop s)"

text \<open>The setters of the globals.\<close>

definition yyset_lineno :: "nat \<Rightarrow> scanner_stack \<Rightarrow> scanner_stack" where
  "yyset_lineno line_number s = s\<lparr>g_lineno := line_number\<rparr>"

definition yyset_in :: "nat option \<Rightarrow> scanner_stack \<Rightarrow> scanner_stack" where
  "yyset_in in_str s = s\<lparr>in_stream := in_str\<rparr>"

definition yyset_out :: "nat option \<Rightarrow> scanner_stack \<Rightarrow> scanner_stack" where
  "yyset_out out_str s = s\<lparr>out_stream := out_str\<rparr>"

definition yyset_debug :: "int \<Rightarrow> scanner_stack \<Rightarrow> scanner_stack" where
  "yyset_debug bdebug s = s\<lparr>yy_flex_debug := bdebug\<rparr>"

subsection \<open>What they do\<close>

text \<open>The stack is well-formed: its top is inside, and what it points to is allocated.\<close>

definition stack_wf :: "scanner_stack \<Rightarrow> bool" where
  "stack_wf s \<longleftrightarrow>
     (case yy_buffer_stack s of
        None \<Rightarrow> True
      | Some bs \<Rightarrow> yy_buffer_stack_top s < length bs \<and>
          list_all (\<lambda>b. case b of None \<Rightarrow> True | Some p \<Rightarrow> structs s p \<noteq> None) bs)"

lemma ensure_room:
  assumes "stack_wf s"
  obtains bs where "yy_buffer_stack (yyensure_buffer_stack s) = Some bs"
    "yy_buffer_stack_top (yyensure_buffer_stack s) < length bs"
    "current_buffer (yyensure_buffer_stack s) = current_buffer s"
    "current_buffer s \<noteq> Some None \<Longrightarrow> yy_buffer_stack_top s + 1 < length bs"
    "structs (yyensure_buffer_stack s) = structs s"
proof (cases "yy_buffer_stack s")
  case None
  then show ?thesis using that [of "[None]"]
    by (simp add: yyensure_buffer_stack_def current_buffer_def)
next
  case (Some bs)
  then have top: "yy_buffer_stack_top s < length bs" using assms by (simp add: stack_wf_def)
  show ?thesis
  proof (cases "length bs - 1 \<le> yy_buffer_stack_top s")
    case True
    then show ?thesis using that [of "bs @ replicate 8 None"] Some top
      by (simp add: yyensure_buffer_stack_def current_buffer_def nth_append)
  next
    case False
    then show ?thesis using that [of bs] Some top
      by (simp add: yyensure_buffer_stack_def current_buffer_def)
  qed
qed

text \<open>A start condition that is pushed and popped leaves the scanner where it was.\<close>

theorem push_pop_state:
  assumes "yy_push_state c s = Some s'" and "odd (yy_start s)"
  obtains s2 where "yy_pop_state s' = Some s2" "yy_start s2 = yy_start s"
    "start_stack_ptr s2 = start_stack_ptr s" "yy_top_state s' = Some ((yy_start s - 1) div 2)"
proof -
  let ?stack = "if int (length (start_stack s)) \<le> start_stack_ptr s
    then start_stack s @ replicate 25 0 else start_stack s"
  have p: "0 \<le> start_stack_ptr s" "start_stack_ptr s < int (length ?stack)"
    and s': "s' = s\<lparr>start_stack := ?stack[nat (start_stack_ptr s) := (yy_start s - 1) div 2],
       start_stack_ptr := start_stack_ptr s + 1, yy_start := 1 + 2 * c\<rparr>"
    using assms(1) by (auto simp: yy_push_state_def Let_def split: if_splits)
  have n: "nat (start_stack_ptr s) < length ?stack" using p by simp
  have st: "start_stack s' ! nat (start_stack_ptr s) = (yy_start s - 1) div 2"
    "length (start_stack s') = length ?stack" "start_stack_ptr s' = start_stack_ptr s + 1"
    using n by (simp_all add: s' del: length_append)
  have "yy_pop_state s' = Some (s'\<lparr>start_stack_ptr := start_stack_ptr s,
      yy_start := 1 + 2 * ((yy_start s - 1) div 2)\<rparr>)"
    using p(1) n st by (simp add: yy_pop_state_def)
  moreover have "1 + 2 * ((yy_start s - 1) div 2) = yy_start s" using assms(2) by presburger
  moreover have "yy_top_state s' = Some ((yy_start s - 1) div 2)"
    using p(1) n st by (simp add: yy_top_state_def nat_add_distrib Suc_le_eq)
  ultimately show ?thesis using that by simp
qed

text \<open>A buffer that is pushed and popped is deleted, and the scanner goes on in the old buffer where it
  was, with the old stream.\<close>

theorem push_pop_buffer:
  assumes wf: "stack_wf s" and a: "current_buffer s = Some (Some a)" "structs s a = Some (b, stream)"
    and c: "g_c_buf_p s < length (yy_ch_buf b)"
    and p: "structs s p = Some (b', stream')" "p \<noteq> a" "yy_buf_pos b' < length (yy_ch_buf b')"
  obtains s1 s2 where "yypush_buffer_state (Some p) s = Some s1" "current_buffer s1 = Some (Some p)"
    "g_c_buf_p s1 = yy_buf_pos b'" "in_stream s1 = stream'" "yypop_buffer_state s1 = Some s2"
    "current_buffer s2 = Some (Some a)" "structs s2 p = None" "g_c_buf_p s2 = g_c_buf_p s"
    "g_n_chars s2 = g_n_chars s" "g_hold_char s2 = g_hold_char s" "in_stream s2 = stream"
proof -
  define e where "e = yyensure_buffer_stack s"
  have same: "g_c_buf_p e = g_c_buf_p s" "g_hold_char e = g_hold_char s" "g_n_chars e = g_n_chars s"
    "yy_buffer_stack_top e = yy_buffer_stack_top s"
    using a(1) by (auto simp: e_def yyensure_buffer_stack_def current_buffer_def split: option.splits)
  obtain bs where e: "yy_buffer_stack e = Some bs" "current_buffer e = Some (Some a)"
    "yy_buffer_stack_top s + 1 < length bs" "structs e = structs s"
    by (rule ensure_room [OF wf]) (use a(1) in \<open>auto simp: e_def\<close>)
  let ?t = "yy_buffer_stack_top s"
  let ?b = "b\<lparr>yy_ch_buf := (yy_ch_buf b)[g_c_buf_p s := g_hold_char s], yy_buf_pos := g_c_buf_p s,
    yy_buf_chars := g_n_chars s\<rparr>"
  have bt: "bs ! ?t = Some a"
    using e(1-3) by (simp add: current_buffer_def same)
  define s0 where "s0 = set_struct a (?b, stream) e"
  have save: "save_state e = Some s0"
    using a(2) c e(2,4) by (simp add: save_state_def poke_def same s0_def)
  define s1 where "s1 = s0\<lparr>yy_buffer_stack_top := ?t + 1, yy_buffer_stack := Some (bs[?t + 1 := Some p]),
    g_n_chars := yy_buf_chars b', g_text_ptr := yy_buf_pos b', g_c_buf_p := yy_buf_pos b',
    in_stream := stream', g_hold_char := yy_ch_buf b' ! yy_buf_pos b', yy_did_buffer_switch_on_eof := True\<rparr>"
  have push: "yypush_buffer_state (Some p) s = Some s1"
    using save e p by (simp add: yypush_buffer_state_def e_def [symmetric] s1_def s0_def set_struct_def
      current_buffer_def set_current_buffer_def load_state_def peek_def same Let_def)
  have cur1: "current_buffer s1 = Some (Some p)" using e(3) by (simp add: s1_def current_buffer_def)
  define s2 where "s2 = s1\<lparr>yy_buffer_stack_top := ?t, yy_buffer_stack := Some (bs[?t + 1 := None]),
    structs := (structs s1)(p := None), g_n_chars := g_n_chars s, g_text_ptr := g_c_buf_p s,
    g_c_buf_p := g_c_buf_p s, in_stream := stream, g_hold_char := g_hold_char s\<rparr>"
  have pop: "yypop_buffer_state s1 = Some s2"
    using e p c bt cur1
    by (simp add: yypop_buffer_state_def yy_delete_buffer_def s2_def s1_def s0_def set_struct_def
        set_current_buffer_def load_state_def peek_def current_buffer_def Let_def)
  show ?thesis
  proof (rule that [OF push cur1 _ _ pop])
    show "current_buffer s2 = Some (Some a)" using e(3) bt by (simp add: s2_def current_buffer_def)
  qed (simp_all add: s1_def s2_def)
qed

text \<open>\<open>yylex_destroy\<close> frees the current buffer only: buffers below it on the stack are not given
  back. With the one buffer of the console nothing is left.\<close>

theorem destroy_frees_top:
  assumes "current_buffer s = Some (Some a)" and "structs s a \<noteq> None"
  shows "yylex_destroy_stack s = Some (yy_init_globals (s\<lparr>structs := (structs s)(a := None)\<rparr>))"
proof -
  obtain bs where bs: "yy_buffer_stack s = Some bs" "yy_buffer_stack_top s < length bs" "bs ! yy_buffer_stack_top s = Some a"
    using assms(1) by (auto simp: current_buffer_def split: option.splits if_splits)
  define s' where "s' = s\<lparr>yy_buffer_stack := Some (bs[yy_buffer_stack_top s := None]), structs := (structs s)(a := None)\<rparr>"
  have cur: "current_buffer s' = Some None" using bs(2) by (simp add: s'_def current_buffer_def)
  have "yy_delete_buffer (Some a) s = Some s'"
    using assms bs by (auto simp: yy_delete_buffer_def set_current_buffer_def s'_def)
  moreover have "set_current_buffer None s' = Some s'"
    using bs(2) by (simp add: set_current_buffer_def s'_def)
  moreover have "yypop_buffer_state s' = Some s'" using cur by (simp add: yypop_buffer_state_def)
  moreover have "destroy_loop s' = Some s'" using cur by (subst destroy_loop.simps) simp
  ultimately have "destroy_loop s = Some s'" using assms(1) by (subst destroy_loop.simps) simp
  then show ?thesis by (simp add: yylex_destroy_stack_def yy_init_globals_def s'_def)
qed

text \<open>A string is scanned from a buffer of its characters with two NULs, at its start, when the scanner
  has no buffer yet.\<close>

theorem scan_string_buffer:
  fixes str :: string
  assumes wf: "stack_wf s" and none: "current_buffer s = Some None"
  defines "str' \<equiv> takeWhile (\<lambda>c. c \<noteq> NUL) str"
  obtains s' b where "yy_scan_string str s = Some (next_struct s, s')"
    "current_buffer s' = Some (Some (next_struct s))" "structs s' (next_struct s) = Some (b, None)"
    "yy_ch_buf b = str' @ [NUL, NUL]" "yy_is_our_buffer b" "\<not> yy_fill_buffer b" "g_c_buf_p s' = 0"
    "g_n_chars s' = length str'"
proof -
  let ?p = "next_struct s"
  let ?b = "\<lparr>yy_ch_buf = str' @ [NUL, NUL], yy_buf_pos = 0, yy_buf_size = int (length str'),
    yy_buf_chars = length str', yy_is_our_buffer = False, yy_is_interactive = False, yy_at_bol = True,
    yy_bs_lineno = 0, yy_bs_column = 0, yy_fill_buffer = False, yy_buffer_status = YY_BUFFER_NEW\<rparr>"
  define e where "e = yyensure_buffer_stack s"
  obtain bs where e: "yy_buffer_stack e = Some bs" "yy_buffer_stack_top e < length bs"
    "current_buffer e = Some None"
    by (rule ensure_room [OF wf]) (use none in \<open>auto simp: e_def\<close>)
  let ?s = "set_struct ?p (?b, None) (s\<lparr>next_struct := ?p + 1\<rparr>)"
  have ens: "yyensure_buffer_stack ?s = set_struct ?p (?b, None) (e\<lparr>next_struct := ?p + 1\<rparr>)"
    "structs e = structs s"
    by (auto simp: e_def yyensure_buffer_stack_def set_struct_def split: option.splits)
  define s1 where "s1 = (set_struct ?p (?b, None) (e\<lparr>next_struct := ?p + 1\<rparr>))
    \<lparr>yy_buffer_stack := Some (bs[yy_buffer_stack_top e := Some ?p]), g_n_chars := length str', g_text_ptr := 0,
      g_c_buf_p := 0, in_stream := None, g_hold_char := (str' @ [NUL, NUL]) ! 0, yy_did_buffer_switch_on_eof := True\<rparr>"
  have cur: "current_buffer (set_struct q x (e\<lparr>next_struct := n\<rparr>)) = Some None" for q x n
    using e by (simp add: current_buffer_def set_struct_def)
  have sw: "yy_switch_to_buffer ?p ?s = Some s1"
    unfolding yy_switch_to_buffer_def ens Let_def cur
    using e(1,2) by (simp add: save_state_def cur)
      (simp add: set_current_buffer_def load_state_def current_buffer_def set_struct_def peek_def s1_def)
  have "yy_scan_buffer (str' @ [NUL, NUL]) s = Some (Some ?p, s1)"
    using sw by (simp add: yy_scan_buffer_def nth_append Let_def)
  moreover have st: "structs s1 ?p = Some (?b, None)" by (simp add: s1_def set_struct_def)
  ultimately have "yy_scan_string str s = Some (?p, set_struct ?p (?b\<lparr>yy_is_our_buffer := True\<rparr>, None) s1)"
    by (simp add: yy_scan_string_def yy_scan_bytes_def str'_def)
  then show ?thesis
    by (rule that [of _ "?b\<lparr>yy_is_our_buffer := True\<rparr>"]) (use e(2) in \<open>simp_all add: s1_def set_struct_def current_buffer_def\<close>)
qed

end
