(* ===== verification/Syntax_Error.thy ===== *)
theory Syntax_Error
  imports Console
begin

section \<open>The messages of the parser\<close>

text \<open>
  The message of a syntax error, as \<open>console/src/console/parser.c\<close> writes it into a buffer: the token that
  was found and, when there are at most four, the tokens that the state expects. The buffer is a list of
  characters with its size; a write outside it is \<open>None\<close>. The buffer of 128 characters that \<open>yyparse\<close>
  starts with is enough for every message of this grammar.
\<close>

subsection \<open>Names of symbols\<close>

text \<open>The names of the symbols; a name in quotes is a description.\<close>

definition yytname :: "string list" where
  "yytname = [[CHR 0x22] @ ''end of file'' @ [CHR 0x22], ''error'', [CHR 0x22] @ ''invalid token'' @ [CHR 0x22],
     ''CONSTANT'', ''EXIT'', ''NO_OP'', ''READ'', ''IO'', ''WRITE'', ''COPY'', ''$accept'', ''instructions'',
     ''instruction'']"

text \<open>The loop of \<open>yytnamerr\<close> on the text after a quote: the text it copies, or \<open>None\<close> for
  \<open>do_not_strip_quotes\<close>. It stops at the next quote; a text without one is read past its end, which
  is the outer \<open>None\<close>.\<close>

fun strip_quotes :: "string \<Rightarrow> string \<Rightarrow> string option option" where
  "strip_quotes copied [] = None"
| "strip_quotes copied (c # s) =
     (if c = CHR 0x27 \<or> c = CHR '','' then Some None
      else if c = CHR 0x5C then
        (case s of
           [] \<Rightarrow> Some None
         | d # s \<Rightarrow> if d \<noteq> CHR 0x5C then Some None else strip_quotes (copied @ [d]) s)
      else if c = CHR 0x22 then Some (Some copied)
      else strip_quotes (copied @ [c]) s)"

text \<open>What \<open>yytnamerr\<close> copies; its length is the result.\<close>

definition yytnamerr :: "string \<Rightarrow> string option" where
  "yytnamerr s =
     (if s \<noteq> [] \<and> hd s = CHR 0x22 then
        do { stripped \<leftarrow> strip_quotes [] (tl s); Some (case stripped of None \<Rightarrow> s | Some text \<Rightarrow> text) }
      else Some s)"

text \<open>\<open>yystpcpy\<close> copies a text with its NUL, and returns the address of the NUL.\<close>

fun yystpcpy :: "nat \<Rightarrow> string \<Rightarrow> string \<Rightarrow> (nat \<times> string) option" where
  "yystpcpy d [] buf = do { buf \<leftarrow> arr_set buf d (CHR 0x00); Some (d, buf) }"
| "yystpcpy d (c # s) buf = do { buf \<leftarrow> arr_set buf d c; yystpcpy (d + 1) s buf }"

subsection \<open>The tokens to report\<close>

text \<open>The loop of \<open>yypcontext_expected_tokens\<close>; more than \<open>n\<close> tokens are none.\<close>

fun expected_loop :: "int \<Rightarrow> nat \<Rightarrow> int list \<Rightarrow> int list \<Rightarrow> int list" where
  "expected_loop yyn n [] arg = arg"
| "expected_loop yyn n (x # xs) arg =
     (if entry_at yycheck (x + yyn) = x \<and> x \<noteq> 1 then
        if length arg = n then [] else expected_loop yyn n xs (arg @ [x])
      else expected_loop yyn n xs arg)"

definition yypcontext_expected_tokens :: "int \<Rightarrow> nat \<Rightarrow> int list" where
  "yypcontext_expected_tokens state n =
     (let yyn = entry_at yypact state in
      if yyn = -5 then []
      else
        let yyxbegin = (if yyn < 0 then - yyn else 0);
            yychecklim = 20 - yyn + 1;
            yyxend = (if yychecklim < 10 then yychecklim else 10) in
        expected_loop yyn n [yyxbegin..yyxend - 1] [])"

text \<open>The symbol \<open>-2\<close> is the absence of a token.\<close>

definition yy_syntax_error_arguments :: "int \<Rightarrow> int \<Rightarrow> nat \<Rightarrow> int list" where
  "yy_syntax_error_arguments state token n =
     (if token = -2 then [] else token # yypcontext_expected_tokens state (n - 1))"

subsection \<open>The message\<close>

definition yyformat :: "nat \<Rightarrow> string" where
  "yyformat yycount =
     (if yycount = 1 then ''syntax error, unexpected %s''
      else if yycount = 2 then ''syntax error, unexpected %s, expecting %s''
      else if yycount = 3 then ''syntax error, unexpected %s, expecting %s or %s''
      else if yycount = 4 then ''syntax error, unexpected %s, expecting %s or %s or %s''
      else if yycount = 5 then ''syntax error, unexpected %s, expecting %s or %s or %s or %s''
      else ''syntax error'')"

datatype message_status = Written | Too_small | Out_of_memory

definition YYSTACK_ALLOC_MAXIMUM :: int where
  "YYSTACK_ALLOC_MAXIMUM = 2 ^ 63 - 1"

text \<open>The size of the message, \<open>Inl\<close> when it cannot be stored. The sums have the width of a pointer.\<close>

fun message_size :: "int list \<Rightarrow> 64 word \<Rightarrow> (unit + 64 word) option" where
  "message_size [] yysize = Some (Inr yysize)"
| "message_size (x # xs) yysize = do {
     name \<leftarrow> yytnamerr (yytname ! nat x);
     let yysize1 = yysize + of_nat (length name);
     if sint yysize \<le> sint yysize1 \<and> sint yysize1 \<le> YYSTACK_ALLOC_MAXIMUM then message_size xs yysize1
     else Some (Inl ()) }"

text \<open>The loop that writes the message: \<open>%s\<close> is the next name, any other character is itself.\<close>

function write_message :: "string \<Rightarrow> int list \<Rightarrow> nat \<Rightarrow> string \<Rightarrow> string option" where
  "write_message [] arg p buf = arr_set buf p (CHR 0x00)"
| "write_message (c # fmt) arg p buf = do {
     buf \<leftarrow> arr_set buf p c;
     if c = CHR ''%'' \<and> fmt \<noteq> [] \<and> hd fmt = CHR ''s'' \<and> arg \<noteq> [] then do {
       name \<leftarrow> yytnamerr (yytname ! nat (hd arg));
       (p, buf) \<leftarrow> yystpcpy p name buf;
       write_message (tl fmt) (tl arg) p buf }
     else write_message fmt arg (p + 1) buf }"
  by pat_completeness auto
termination
  by (relation "measure (\<lambda>(fmt, _). length fmt)") auto

text \<open>\<open>yysyntax_error\<close> with its \<open>yymsg_alloc\<close> and the buffer.\<close>

definition yysyntax_error :: "int \<Rightarrow> int \<Rightarrow> int \<Rightarrow> string \<Rightarrow> (message_status \<times> int \<times> string) option" where
  "yysyntax_error state token yymsg_alloc yymsg =
     (let yyarg = yy_syntax_error_arguments state token 5;
          fmt = yyformat (length yyarg) in do {
      yysize \<leftarrow> message_size yyarg (of_nat (length fmt) - 2 * of_nat (length yyarg) + 1);
      (case yysize of
         Inl _ \<Rightarrow> Some (Out_of_memory, yymsg_alloc, yymsg)
       | Inr yysize \<Rightarrow>
           if yymsg_alloc < sint yysize then
             let alloc = sint (2 * yysize) in
             Some (Too_small, (if sint yysize \<le> alloc \<and> alloc \<le> YYSTACK_ALLOC_MAXIMUM then alloc
               else YYSTACK_ALLOC_MAXIMUM), yymsg)
           else do { buf \<leftarrow> write_message fmt yyarg 0 yymsg; Some (Written, yymsg_alloc, buf) }) })"

text \<open>The report of \<open>yyerrlab\<close>: a message that does not fit is written into new memory, whose size is
  \<open>yymsg_alloc\<close>. The result is whether the memory was exhausted, what \<open>yyerror\<close> is given, and the buffer.\<close>

definition c_string :: "string \<Rightarrow> string" where
  "c_string = takeWhile (\<lambda>c. c \<noteq> CHR 0x00)"

definition report_error :: "(nat \<Rightarrow> char) \<Rightarrow> int \<Rightarrow> int \<Rightarrow> string \<Rightarrow> (bool \<times> string \<times> string) option" where
  "report_error fresh state token yymsg = do {
     (status, alloc, yymsg) \<leftarrow> yysyntax_error state token (int (length yymsg)) yymsg;
     (case status of
        Written \<Rightarrow> Some (False, c_string yymsg, yymsg)
      | Out_of_memory \<Rightarrow> Some (True, ''syntax error'', yymsg)
      | Too_small \<Rightarrow> do {
          (status, _, yymsg) \<leftarrow> yysyntax_error state token alloc (map fresh [0..<nat alloc]);
          Some (status = Out_of_memory, c_string yymsg, yymsg) }) }"

subsection \<open>Every message fits\<close>

text \<open>The message without the buffer.\<close>

fun message_text :: "string \<Rightarrow> int list \<Rightarrow> string option" where
  "message_text [] arg = Some []"
| "message_text (c # fmt) arg =
     (if c = CHR ''%'' \<and> take 1 fmt = ''s'' \<and> arg \<noteq> [] then do {
        name \<leftarrow> yytnamerr (yytname ! nat (hd arg));
        rest \<leftarrow> message_text (drop 1 fmt) (tl arg);
        Some (name @ rest) }
      else map_option ((#) c) (message_text fmt arg))"

lemma yystpcpy_copies:
  "d + length s < length buf \<Longrightarrow>
   yystpcpy d s buf = Some (d + length s, take d buf @ s @ [CHR 0x00] @ drop (d + length s + 1) buf)"
proof (induction s arbitrary: d buf)
  case Nil
  then show ?case by (simp add: arr_set_def upd_conv_take_nth_drop)
next
  case (Cons c s)
  from Cons.prems have "yystpcpy (d + 1) s (buf[d := c]) =
      Some (d + 1 + length s, take (d + 1) (buf[d := c]) @ s @ [CHR 0x00] @ drop (d + 1 + length s + 1) (buf[d := c]))"
    by (intro Cons.IH) simp
  then show ?case using Cons.prems by (simp add: arr_set_def take_Suc_conv_app_nth)
qed

lemma write_message_text:
  "message_text fmt arg = Some t \<Longrightarrow> p + length t < length buf \<Longrightarrow>
   write_message fmt arg p buf = Some (take p buf @ t @ [CHR 0x00] @ drop (p + length t + 1) buf)"
proof (induction fmt arg p buf arbitrary: t rule: write_message.induct)
  case (1 arg p buf)
  then show ?case by (simp add: arr_set_def upd_conv_take_nth_drop)
next
  case (2 c fmt arg p buf)
  let ?buf = "buf[p := c]"
  have p: "p < length buf" using "2.prems"(2) by simp
  have take1: "take 1 fmt = ''s'' \<longleftrightarrow> fmt \<noteq> [] \<and> hd fmt = CHR ''s''" by (cases fmt) auto
  show ?case
  proof (cases "c = CHR ''%'' \<and> fmt \<noteq> [] \<and> hd fmt = CHR ''s'' \<and> arg \<noteq> []")
    case True
    then obtain name rest where t: "yytnamerr (yytname ! nat (hd arg)) = Some name"
      "message_text (tl fmt) (tl arg) = Some rest" "t = name @ rest"
      using "2.prems"(1) take1 by (auto simp: bind_eq_Some_conv drop_Suc)
    have copy: "yystpcpy p name ?buf = Some (p + length name,
        take p ?buf @ name @ [CHR 0x00] @ drop (p + length name + 1) ?buf)"
      using "2.prems"(2) t(3) by (intro yystpcpy_copies) simp
    have "write_message (tl fmt) (tl arg) (p + length name)
        (take p ?buf @ name @ [CHR 0x00] @ drop (p + length name + 1) ?buf) =
      Some (take (p + length name) (take p ?buf @ name @ [CHR 0x00] @ drop (p + length name + 1) ?buf) @ rest @
        [CHR 0x00] @ drop (p + length name + length rest + 1)
          (take p ?buf @ name @ [CHR 0x00] @ drop (p + length name + 1) ?buf))"
      by (rule "2.IH"(1) [OF _ True t(1) copy refl t(2)])
        (use p "2.prems"(2) t(3) in \<open>simp_all add: arr_set_def\<close>)
    then show ?thesis using True p t(1,3) copy "2.prems"(2) by (simp add: arr_set_def ac_simps)
  next
    case False
    then obtain rest where t: "message_text fmt arg = Some rest" "t = c # rest"
      using "2.prems"(1) take1 by auto
    have "write_message fmt arg (p + 1) ?buf =
      Some (take (p + 1) ?buf @ rest @ [CHR 0x00] @ drop (p + 1 + length rest + 1) ?buf)"
      by (rule "2.IH"(2) [OF _ False t(1)]) (use p "2.prems"(2) t(2) in \<open>simp_all add: arr_set_def\<close>)
    then show ?thesis using False p t(2) by (auto simp: arr_set_def take_Suc_conv_app_nth)
  qed
qed

text \<open>The message of a syntax error: in the states in which a statement may begin more than four tokens are
  expected, and none is named.\<close>

definition syntax_message :: "int \<Rightarrow> int \<Rightarrow> string" where
  "syntax_message state token =
     ''syntax error, unexpected '' @ (if token = 0 then ''end of file'' else yytname ! nat token) @
     (if state = 0 \<or> state = 7 then '''' else '', expecting CONSTANT'')"

definition message_fits :: "int \<Rightarrow> int \<Rightarrow> bool" where
  "message_fits state token \<longleftrightarrow>
     (let yyarg = yy_syntax_error_arguments state token 5; fmt = yyformat (length yyarg);
          t = syntax_message state token in
      (case message_size yyarg (of_nat (length fmt) - 2 * of_nat (length yyarg) + 1) of
         Some (Inr n) \<Rightarrow> sint n = int (length t) + 1 | _ \<Rightarrow> False) \<and>
      message_text fmt yyarg = Some t \<and> length t < 128 \<and> list_all (\<lambda>c. c \<noteq> CHR 0x00) t)"

lemma messages_fit:
  "list_all (\<lambda>s. list_all (\<lambda>e. yybackup s e = Syntax_error \<longrightarrow> message_fits s e) [0, 3, 4, 5, 6, 7, 8, 9]) [0..17]"
  by code_simp

lemma message_fits:
  assumes "0 \<le> state" "state < 18" "token \<in> set [0, 3, 4, 5, 6, 7, 8, 9]" "yybackup state token = Syntax_error"
  shows "message_fits state token"
proof -
  have "state \<in> set [0..17]" using assms(1,2) by simp
  then show ?thesis using messages_fit assms(3,4) unfolding list_all_iff by blast
qed

lemma report_error_fits:
  assumes "message_fits state token" and "length buf = 128"
  shows "\<exists>buf'. report_error fresh state token buf = Some (False, syntax_message state token, buf') \<and> length buf' = 128"
proof -
  let ?arg = "yy_syntax_error_arguments state token 5" and ?t = "syntax_message state token"
  let ?fmt = "yyformat (length ?arg)"
  obtain n where size: "message_size ?arg (of_nat (length ?fmt) - 2 * of_nat (length ?arg) + 1) = Some (Inr n)"
    "sint n = int (length ?t) + 1"
    using assms(1) by (auto simp: message_fits_def Let_def split: option.splits sum.splits)
  have t: "message_text ?fmt ?arg = Some ?t" "length ?t < 128" "list_all (\<lambda>c. c \<noteq> CHR 0x00) ?t"
    using assms(1) by (simp_all add: message_fits_def Let_def)
  let ?buf = "?t @ [CHR 0x00] @ drop (length ?t + 1) buf"
  have "write_message ?fmt ?arg 0 buf = Some ?buf"
    using write_message_text [OF t(1), of 0 buf] t(2) assms(2) by simp
  then have "yysyntax_error state token 128 buf = Some (Written, 128, ?buf)"
    using size t(2) by (simp add: yysyntax_error_def Let_def)
  moreover have "c_string ?buf = ?t"
    using t(3) by (simp add: c_string_def list_all_iff takeWhile_append2)
  ultimately show ?thesis using t(2) assms(2) by (simp add: report_error_def)
qed

end
