(* ===== verification/Parser_Machine.thy ===== *)
theory Parser_Machine
  imports Syntax_Error
begin

section \<open>The parser on its stacks\<close>

text \<open>
  \<open>yyparse\<close> of \<open>console/src/console/parser.c\<close> label by label: its stacks with their size, the token
  that is read ahead only when a state asks for one, the status of the error recovery and the count
  \<open>yynerrs\<close>. The tokens come from any scanner, a function from its state to the next token (\<open>None\<close> at the
  end of the file) and the state after it. The run is that of the automaton of the theory \<open>Console\<close>
  on the tokens that the scanner gives, and the stacks stay within their first 200 places, so
  they are never moved. A stack has its top first; the values are the strings of \<open>yylval\<close>, which
  keeps the last constant.
\<close>

subsection \<open>The state\<close>

record 's parser =
  yystate :: int
  yyerrstatus :: nat
  yystacksize :: nat
  yyss :: "int list"
  yyvs :: "string list"
  yychar :: int
  yylval_now :: string
  yynerrs :: nat
  made :: "instruction_t list"
  tokens_from :: 's
  yymsg :: string
  said :: "(string \<times> 's) list"

type_synonym 's next_token = "'s \<Rightarrow> (token option \<times> 's) option"

text \<open>The labels, with the rule of \<open>yyreduce\<close> and the result of \<open>yyreturnlab\<close>.\<close>

datatype yylabel = Yynewstate | Yysetstate | Yybackup | Yydefault | Yyreduce int | Yyerrlab | Yyerrlab1
  | Yyexhaustedlab | Yyreturn nat

text \<open>The numbers of the tokens and their symbols.\<close>

fun token_code :: "token \<Rightarrow> int" where
  "token_code (CONSTANT _) = 258"
| "token_code EXIT = 259"
| "token_code NO_OP = 260"
| "token_code READ = 261"
| "token_code IO = 262"
| "token_code WRITE = 263"
| "token_code COPY = 264"

definition yytranslate :: "int list" where
  "yytranslate = [0] @ replicate 255 2 @ [1, 2, 3, 4, 5, 6, 7, 8, 9]"

definition YYTRANSLATE :: "int \<Rightarrow> int" where
  "YYTRANSLATE c = (if 0 \<le> c \<and> c \<le> 264 then entry_at yytranslate c else 2)"

subsection \<open>The labels\<close>

text \<open>\<open>yynewstate\<close> makes room for the state that \<open>yysetstate\<close> writes.\<close>

definition at_newstate :: "'s parser \<Rightarrow> yylabel \<times> 's parser" where
  "at_newstate st = (Yysetstate, st\<lparr>yyss := 0 # yyss st\<rparr>)"

definition at_setstate :: "'s parser \<Rightarrow> yylabel \<times> 's parser" where
  "at_setstate st =
     (let st = st\<lparr>yyss := yystate st # tl (yyss st)\<rparr>;
          go = (\<lambda>st. (if yystate st = 14 then Yyreturn 0 else Yybackup, st)) in
      if yystacksize st \<le> length (yyss st) then
        if 10000 \<le> yystacksize st then (Yyexhaustedlab, st)
        else let st = st\<lparr>yystacksize := min (2 * yystacksize st) 10000\<rparr> in
          if yystacksize st \<le> length (yyss st) then (Yyreturn 1, st) else go st
      else go st)"

definition read_token :: "'s next_token \<Rightarrow> 's parser \<Rightarrow> 's parser option" where
  "read_token yylex st = do {
     (t, s) \<leftarrow> yylex (tokens_from st);
     Some (case t of
        None \<Rightarrow> st\<lparr>yychar := 0, tokens_from := s\<rparr>
      | Some t \<Rightarrow> st\<lparr>yychar := token_code t, tokens_from := s,
          yylval_now := (case t of CONSTANT c \<Rightarrow> c | _ \<Rightarrow> yylval_now st)\<rparr>) }"

definition at_backup :: "'s next_token \<Rightarrow> 's parser \<Rightarrow> (yylabel \<times> 's parser) option" where
  "at_backup yylex st =
     (if entry_at yypact (yystate st) = -5 then Some (Yydefault, st)
      else do {
        st \<leftarrow> (if yychar st = -2 then read_token yylex st else Some st);
        let st = (if yychar st \<le> 0 then st\<lparr>yychar := 0\<rparr> else st);
        if yychar st = 256 then Some (Yyerrlab1, st\<lparr>yychar := 257\<rparr>)
        else
          let token = YYTRANSLATE (yychar st);
              yyn = entry_at yypact (yystate st) + token in
          Some (if yyn < 0 \<or> 20 < yyn \<or> entry_at yycheck yyn \<noteq> token then (Yydefault, st)
            else if entry_at yytable yyn \<le> 0 then (Yyreduce (- entry_at yytable yyn), st)
            else (Yynewstate, st\<lparr>yyerrstatus := yyerrstatus st - 1, yystate := entry_at yytable yyn,
              yyvs := yylval_now st # yyvs st, yychar := -2\<rparr>)) })"

definition at_default :: "'s parser \<Rightarrow> yylabel \<times> 's parser" where
  "at_default st =
     (if entry_at yydefact (yystate st) = 0 then Yyerrlab else Yyreduce (entry_at yydefact (yystate st)), st)"

definition at_reduce :: "int \<Rightarrow> 's parser \<Rightarrow> (yylabel \<times> 's parser) option" where
  "at_reduce rule st = do {
     (stack, l) \<leftarrow> yyreduce rule (zip (yyss st) (yyvs st)) (made st);
     Some (Yynewstate, st\<lparr>yystate := fst (hd stack), yyss := tl (map fst stack), yyvs := map snd stack,
       made := l\<rparr>) }"

text \<open>\<open>yyerror\<close> is given a message; it prints it with the line of the scanner at that time.\<close>

definition say :: "string \<Rightarrow> 's parser \<Rightarrow> 's parser" where
  "say s st = st\<lparr>said := said st @ [(s, tokens_from st)]\<rparr>"

definition at_errlab :: "(nat \<Rightarrow> char) \<Rightarrow> 's parser \<Rightarrow> (yylabel \<times> 's parser) option" where
  "at_errlab fresh st =
     (let token = (if yychar st = -2 then -2 else YYTRANSLATE (yychar st)) in do {
      (exhausted, st) \<leftarrow> (if yyerrstatus st = 0 then do {
          (exhausted, s, buf) \<leftarrow> report_error fresh (hd (yyss st)) token (yymsg st);
          Some (exhausted, say s (st\<lparr>yynerrs := yynerrs st + 1, yymsg := buf\<rparr>)) }
        else Some (False, st));
      Some (if exhausted then (Yyexhaustedlab, st)
        else if yyerrstatus st = 3 then
          if yychar st \<le> 0 then (if yychar st = 0 then Yyreturn 1 else Yyerrlab1, st)
          else (Yyerrlab1, st\<lparr>yychar := -2\<rparr>)
        else (Yyerrlab1, st)) })"

definition at_exhaustedlab :: "'s parser \<Rightarrow> yylabel \<times> 's parser" where
  "at_exhaustedlab st = (Yyreturn 2, say ''memory exhausted'' st)"

text \<open>The loop of \<open>yyerrlab1\<close>: the state that shifts the token \<open>error\<close>, with what is left of the stacks.\<close>

fun pop_to_error :: "int \<Rightarrow> int list \<Rightarrow> string list \<Rightarrow> (int \<times> int list \<times> string list) option" where
  "pop_to_error state (_ # s # ss) vs =
     (if shifts_error state then Some (state, state # s # ss, vs) else pop_to_error s (s # ss) (tl vs))"
| "pop_to_error state ss vs = (if shifts_error state then Some (state, ss, vs) else None)"

definition at_errlab1 :: "'s parser \<Rightarrow> yylabel \<times> 's parser" where
  "at_errlab1 st =
     (let st = st\<lparr>yyerrstatus := 3\<rparr> in
      case pop_to_error (yystate st) (yyss st) (yyvs st) of
        None \<Rightarrow> (Yyreturn 1, st)
      | Some (state, ss, vs) \<Rightarrow>
          (Yynewstate, st\<lparr>yystate := entry_at yytable (entry_at yypact state + 1), yyss := ss,
             yyvs := yylval_now st # vs\<rparr>))"

partial_function (option) yyrun :: "(nat \<Rightarrow> char) \<Rightarrow> 's next_token \<Rightarrow> yylabel \<Rightarrow> 's parser \<Rightarrow> (nat \<times> 's parser) option" where
  "yyrun fresh yylex lab st =
     (case lab of
        Yynewstate \<Rightarrow> (case at_newstate st of (lab, st) \<Rightarrow> yyrun fresh yylex lab st)
      | Yysetstate \<Rightarrow> (case at_setstate st of (lab, st) \<Rightarrow> yyrun fresh yylex lab st)
      | Yybackup \<Rightarrow> do { (lab, st) \<leftarrow> at_backup yylex st; yyrun fresh yylex lab st }
      | Yydefault \<Rightarrow> (case at_default st of (lab, st) \<Rightarrow> yyrun fresh yylex lab st)
      | Yyreduce rule \<Rightarrow> do { (lab, st) \<leftarrow> at_reduce rule st; yyrun fresh yylex lab st }
      | Yyerrlab \<Rightarrow> do { (lab, st) \<leftarrow> at_errlab fresh st; yyrun fresh yylex lab st }
      | Yyerrlab1 \<Rightarrow> (case at_errlab1 st of (lab, st) \<Rightarrow> yyrun fresh yylex lab st)
      | Yyexhaustedlab \<Rightarrow> (case at_exhaustedlab st of (lab, st) \<Rightarrow> yyrun fresh yylex lab st)
      | Yyreturn result \<Rightarrow> Some (result, st))"

declare yyrun.simps [code]

text \<open>The start: one place of each stack is in use, no token is read. The lists of instructions and of
  errors, and \<open>yylval\<close>, are globals; the buffer of the messages is not initialised.\<close>

definition yyparse_start :: "(nat \<Rightarrow> char) \<Rightarrow> string \<Rightarrow> nat \<Rightarrow> instruction_t list \<Rightarrow> 's \<Rightarrow> 's parser" where
  "yyparse_start fresh lval errors l s =
     \<lparr>yystate = 0, yyerrstatus = 0, yystacksize = 200, yyss = [0], yyvs = [[]], yychar = -2, yylval_now = lval,
      yynerrs = errors, made = l, tokens_from = s,
      yymsg = map fresh [0..<128], said = []\<rparr>"

definition yyparse_on :: "(nat \<Rightarrow> char) \<Rightarrow> 's next_token \<Rightarrow> string \<Rightarrow> 's \<Rightarrow> (nat \<times> 's parser) option" where
  "yyparse_on fresh yylex lval s = yyrun fresh yylex Yysetstate (yyparse_start fresh lval 0 [] s)"

subsection \<open>The stacks of states\<close>

text \<open>All stacks of states that the parser has when a state was pushed: a statement is parsed on the bottom or on the
  list of instructions, and none has more than five places.\<close>

definition state_stacks :: "int list list" where
  "state_stacks = [[0], [7, 0], [8, 0], [15, 7, 0], [14, 7, 0]] @
     concat (map (\<lambda>b. [1 # b, 2 # b, 3 # b, 4 # b, 5 # b, 6 # b, 9 # 2 # b, 10 # 3 # b, 11 # 4 # b,
       12 # 5 # b, 13 # 6 # b, 16 # 12 # 5 # b, 17 # 13 # 6 # b]) [[0], [7, 0]])"

definition constant_states :: "int list" where
  "constant_states = [9, 10, 11, 12, 13, 16, 17]"

definition goto_state :: "int \<Rightarrow> int \<Rightarrow> int" where
  "goto_state rule s =
     (let yylhs = entry_at yyr1 rule - 10; yyi = entry_at yypgoto yylhs + s in
      if 0 \<le> yyi \<and> yyi \<le> 20 \<and> entry_at yycheck yyi = s then entry_at yytable yyi else entry_at yydefgoto yylhs)"

lemma yyreduce_goto:
  "yyreduce rule stack l =
     (let k = nat (entry_at yyr2 rule); rest = drop k stack in
      map_option (\<lambda>l. ((goto_state rule (fst (hd rest)), snd (stack ! (k - 1))) # rest, l)) (yyaction rule stack l))"
  by (cases "yyaction rule stack l") (simp_all add: yyreduce_def goto_state_def Let_def)

definition step_fits :: "int list \<Rightarrow> int \<Rightarrow> bool" where
  "step_fits ss e \<longleftrightarrow>
     (case yybackup (hd ss) e of
        Accept \<Rightarrow> hd ss = 14
      | Syntax_error \<Rightarrow> hd ss \<noteq> 14
      | Shift t \<Rightarrow> hd ss \<noteq> 14 \<and> t # ss \<in> set state_stacks \<and> (t \<in> set constant_states \<longrightarrow> e = 3) \<and> (t = 14 \<longleftrightarrow> e = 0)
      | Reduce r \<Rightarrow>
          let k = nat (entry_at yyr2 r); rest = drop k ss; t = goto_state r (hd rest) in
          hd ss \<noteq> 14 \<and> t \<noteq> 14 \<and> 0 < k \<and> k < length ss \<and> t # rest \<in> set state_stacks \<and> t \<notin> set constant_states \<and>
          (r \<in> set [5, 6, 7, 8, 9] \<longrightarrow> hd ss \<in> set constant_states) \<and>
          (r \<in> set [8, 9] \<longrightarrow> ss ! 1 \<in> set constant_states))"

lemma steps_fit: "list_all (\<lambda>ss. list_all (step_fits ss) [0, 3, 4, 5, 6, 7, 8, 9]) state_stacks"
  by code_simp

lemma stacks_small: "list_all (\<lambda>ss. ss \<noteq> [] \<and> length ss \<le> 5 \<and> list_all (\<lambda>s. 0 \<le> s \<and> s < 18) ss) state_stacks"
  by code_simp

lemma stack_small:
  assumes "ss \<in> set state_stacks"
  shows "ss \<noteq> []" "length ss \<le> 5" "\<forall>s \<in> set ss. 0 \<le> s \<and> s < 18"
  using assms stacks_small unfolding list_all_iff by blast+

lemma yysymbol_range: "yysymbol ts \<in> set [0, 3, 4, 5, 6, 7, 8, 9]"
  by (cases ts) (auto split: token.split)

lemma step_fits:
  assumes "ss \<in> set state_stacks"
  shows "step_fits ss (yysymbol ts)"
  using assms steps_fit yysymbol_range [of ts] unfolding list_all_iff by blast

lemma no_state_shifts_error:
  "\<forall>s \<in> set ss. 0 \<le> s \<and> s < 18 \<Longrightarrow> 0 \<le> s \<Longrightarrow> s < 18 \<Longrightarrow> pop_to_error s ss vs = None"
  by (induction s ss vs rule: pop_to_error.induct) (auto simp: no_recovery)

subsection \<open>Stacks with the same constants\<close>

definition same_constants :: "(int \<times> string) list \<Rightarrow> (int \<times> string) list \<Rightarrow> bool" where
  "same_constants = list_all2 (\<lambda>(s, v) (s', v'). s = s' \<and> (s \<in> set constant_states \<longrightarrow> v = v'))"

lemma same_constants_states: "same_constants st st' \<Longrightarrow> map fst st' = map fst st"
  unfolding same_constants_def by (induction rule: list_all2_induct) auto

lemma same_constants_nth:
  "same_constants st st' \<Longrightarrow> i < length st \<Longrightarrow> map fst st ! i \<in> set constant_states \<Longrightarrow> snd (st ! i) = snd (st' ! i)"
  unfolding same_constants_def by (auto dest: list_all2_nthD simp: case_prod_beta)

lemma same_action:
  assumes "same_constants st st'" and "map fst st \<in> set state_stacks"
    and "yybackup (hd (map fst st)) (yysymbol ts) = Reduce r"
  shows "yyaction r st' l = yyaction r st l"
    and "0 < nat (entry_at yyr2 r)" "nat (entry_at yyr2 r) < length st"
    and "goto_state r (fst (hd (drop (nat (entry_at yyr2 r)) st))) # map fst (drop (nat (entry_at yyr2 r)) st) \<in> set state_stacks"
    and "goto_state r (fst (hd (drop (nat (entry_at yyr2 r)) st))) \<notin> set constant_states"
    and "goto_state r (fst (hd (drop (nat (entry_at yyr2 r)) st))) \<noteq> 14"
proof -
  let ?k = "nat (entry_at yyr2 r)" and ?ss = "map fst st"
  have fit: "0 < ?k" "?k < length ?ss" "goto_state r (hd (drop ?k ?ss)) # drop ?k ?ss \<in> set state_stacks"
    "goto_state r (hd (drop ?k ?ss)) \<notin> set constant_states" "goto_state r (hd (drop ?k ?ss)) \<noteq> 14"
    "r \<in> set [5, 6, 7, 8, 9] \<longrightarrow> hd ?ss \<in> set constant_states" "r \<in> set [8, 9] \<longrightarrow> ?ss ! 1 \<in> set constant_states"
    using step_fits [OF assms(2), of ts] assms(3) by (simp_all add: step_fits_def Let_def)
  have "drop ?k st \<noteq> []" using fit(2) by simp
  then have hd: "hd (drop ?k ?ss) = fst (hd (drop ?k st))" by (simp add: drop_map hd_map)
  show "0 < ?k" "?k < length st" using fit(1,2) by simp_all
  show "goto_state r (fst (hd (drop ?k st))) # map fst (drop ?k st) \<in> set state_stacks"
    "goto_state r (fst (hd (drop ?k st))) \<notin> set constant_states" "goto_state r (fst (hd (drop ?k st))) \<noteq> 14"
    using fit(3-5) unfolding hd by (simp_all add: drop_map)
  have len: "1 < length st" using fit(1,2) by simp
  have "snd (st ! 0) = snd (st' ! 0)" if "r \<in> set [5, 6, 7, 8, 9]"
    using same_constants_nth [OF assms(1), of 0] fit(6) that len by (cases st) auto
  moreover have "snd (st ! 1) = snd (st' ! 1)" if "r \<in> set [8, 9]"
    using same_constants_nth [OF assms(1), of 1] fit(7) that len by auto
  ultimately show "yyaction r st' l = yyaction r st l" by (simp add: yyaction_def)
qed

subsection \<open>The run\<close>

text \<open>The scanner gives the tokens \<open>ts\<close> and is in state \<open>e\<close> at the end of the file.\<close>

fun gives_tokens :: "'s next_token \<Rightarrow> 's \<Rightarrow> token list \<Rightarrow> 's \<Rightarrow> bool" where
  "gives_tokens yylex s [] e = (yylex s = Some (None, e))"
| "gives_tokens yylex s (t # ts) e = (\<exists>s'. yylex s = Some (Some t, s') \<and> gives_tokens yylex s' ts e)"

text \<open>The next token has been read, or it has not.\<close>

definition token_read :: "'s next_token \<Rightarrow> token list \<Rightarrow> 's \<Rightarrow> 's parser \<Rightarrow> bool" where
  "token_read yylex ts e st \<longleftrightarrow>
     (case ts of
        [] \<Rightarrow> yychar st = 0 \<and> tokens_from st = e
      | t # ts \<Rightarrow> yychar st = token_code t \<and> (\<forall>c. t = CONSTANT c \<longrightarrow> yylval_now st = c) \<and>
          gives_tokens yylex (tokens_from st) ts e)"

definition token_ahead :: "'s next_token \<Rightarrow> token list \<Rightarrow> 's \<Rightarrow> 's parser \<Rightarrow> bool" where
  "token_ahead yylex ts e st \<longleftrightarrow>
     (yychar st = -2 \<and> gives_tokens yylex (tokens_from st) ts e) \<or> token_read yylex ts e st"

definition parses :: "(int \<times> string) list \<Rightarrow> instruction_t list \<Rightarrow> nat \<Rightarrow> 's parser \<Rightarrow> bool" where
  "parses stack l errors st \<longleftrightarrow> map fst stack \<in> set state_stacks \<and> length (yyvs st) = length stack \<and>
     yyss st = map fst stack \<and> same_constants stack (zip (map fst stack) (yyvs st)) \<and> yystate st = fst (hd stack) \<and>
     made st = l \<and> yystacksize st = 200 \<and> yyerrstatus st = 0 \<and> yynerrs st = errors \<and> length (yymsg st) = 128 \<and> said st = []"

lemma token_code_positive: "0 \<le> token_code t" "token_code t \<noteq> 256"
  by (cases t; simp)+

lemma token_read_symbol:
  assumes "token_read yylex ts e st"
  shows "0 \<le> yychar st" "yychar st \<noteq> 256" "YYTRANSLATE (yychar st) = yysymbol ts"
proof -
  have tab: "list_all (\<lambda>(c, s). YYTRANSLATE c = s)
      [(0, 0), (258, 3), (259, 4), (260, 5), (261, 6), (262, 7), (263, 8), (264, 9)]" by code_simp
  show "0 \<le> yychar st" "yychar st \<noteq> 256" "YYTRANSLATE (yychar st) = yysymbol ts"
    using assms tab token_code_positive by (auto simp: token_read_def split: list.splits token.splits)
qed

lemma read_ahead:
  assumes "token_ahead yylex ts e st" and "parses stack l errors st"
  obtains st' where "(if yychar st = -2 then read_token yylex st else Some st) = Some st'"
    "token_read yylex ts e st'" "parses stack l errors st'"
proof (cases "token_read yylex ts e st")
  case True
  then show ?thesis using that [of st] assms(2) token_read_symbol(1) [OF True] by simp
next
  case False
  then have c: "yychar st = -2" and y: "gives_tokens yylex (tokens_from st) ts e"
    using assms(1) by (simp_all add: token_ahead_def)
  show ?thesis
  proof (cases ts)
    case Nil
    let ?st = "st\<lparr>yychar := 0, tokens_from := e\<rparr>"
    have "parses stack l errors ?st" using assms(2) by (simp add: parses_def)
    then show ?thesis using y c that [of ?st] by (simp add: Nil read_token_def token_read_def)
  next
    case (Cons t r)
    then obtain s where s: "yylex (tokens_from st) = Some (Some t, s)" "gives_tokens yylex s r e" using y by auto
    let ?st = "st\<lparr>yychar := token_code t, tokens_from := s,
      yylval_now := (case t of CONSTANT c \<Rightarrow> c | _ \<Rightarrow> yylval_now st)\<rparr>"
    have "token_read yylex ts e ?st" using s(2) by (simp add: token_read_def Cons)
    moreover have "parses stack l errors ?st" using assms(2) by (simp add: parses_def)
    ultimately show ?thesis using that [of ?st] c s(1) by (simp add: read_token_def)
  qed
qed

lemma default_reduces:
  assumes "0 \<le> s" and "s < 18" and "entry_at yypact s = -5"
  shows "yydefault s \<noteq> Syntax_error"
proof -
  have "list_all (\<lambda>s. entry_at yypact s = -5 \<longrightarrow> yydefault s \<noteq> Syntax_error) [0..17]" by code_simp
  then show ?thesis using assms by (simp add: list_all_iff)
qed

lemma top_range:
  assumes "parses stack l errors st"
  shows "0 \<le> fst (hd stack)" "fst (hd stack) < 18" "stack \<noteq> []"
proof -
  have ss: "map fst stack \<in> set state_stacks" using assms by (simp add: parses_def)
  then show ne: "stack \<noteq> []" using stack_small(1) [OF ss] by simp
  then have "fst (hd stack) \<in> set (map fst stack)" by simp
  then show "0 \<le> fst (hd stack)" "fst (hd stack) < 18" using stack_small(3) [OF ss] by blast+
qed

lemma run_newstate:
  "yyrun fresh yylex Yynewstate st = yyrun fresh yylex Yysetstate (st\<lparr>yyss := yystate st # yyss st\<rparr>)"
proof -
  have "at_setstate (st\<lparr>yyss := 0 # yyss st\<rparr>) = at_setstate (st\<lparr>yyss := yystate st # yyss st\<rparr>)"
    by (simp add: at_setstate_def Let_def)
  then have "yyrun fresh yylex Yysetstate (st\<lparr>yyss := 0 # yyss st\<rparr>) =
      yyrun fresh yylex Yysetstate (st\<lparr>yyss := yystate st # yyss st\<rparr>)"
    by (subst (1 2) yyrun.simps) simp
  then show ?thesis by (subst yyrun.simps) (simp add: at_newstate_def)
qed

lemma run_setstate:
  assumes "parses stack l errors st"
  shows "yyrun fresh yylex Yysetstate st = (if fst (hd stack) = 14 then Some (0, st) else yyrun fresh yylex Yybackup st)"
proof -
  have "length stack \<le> 5" "stack \<noteq> []"
    using stack_small(1,2) [of "map fst stack"] assms by (auto simp: parses_def)
  moreover have "st\<lparr>yyss := yystate st # tl (yyss st)\<rparr> = st"
    using assms \<open>stack \<noteq> []\<close> by (cases stack) (simp_all add: parses_def)
  ultimately have "at_setstate st = (if fst (hd stack) = 14 then Yyreturn 0 else Yybackup, st)"
    using assms by (simp add: at_setstate_def Let_def parses_def)
  moreover have "yyrun fresh yylex (Yyreturn 0) st = Some (0, st)" by (subst yyrun.simps) simp
  ultimately show ?thesis by (subst yyrun.simps) simp
qed

text \<open>What the parser does in a state is what the automaton does on the next token.\<close>

lemma run_backup:
  assumes st: "parses stack l errors st" and ah: "token_ahead yylex ts e st" and "fst (hd stack) \<noteq> 14"
  obtains st' where "token_ahead yylex ts e st'" "parses stack l errors st'"
    "yyrun fresh yylex Yybackup st = (case yybackup (fst (hd stack)) (yysymbol ts) of
       Shift t \<Rightarrow> yyrun fresh yylex Yynewstate
         (st'\<lparr>yystate := t, yyvs := yylval_now st' # yyvs st', yychar := -2\<rparr>)
     | Reduce r \<Rightarrow> yyrun fresh yylex (Yyreduce r) st'
     | _ \<Rightarrow> yyrun fresh yylex Yyerrlab st')"
    "\<And>t. yybackup (fst (hd stack)) (yysymbol ts) = Shift t \<Longrightarrow> token_read yylex ts e st'"
    "yybackup (fst (hd stack)) (yysymbol ts) = Syntax_error \<Longrightarrow> token_read yylex ts e st'"
proof -
  let ?s = "fst (hd stack)"
  have range: "0 \<le> ?s" "?s < 18" using top_range [OF st] by simp_all
  have s: "yystate st = ?s" using st by (simp add: parses_def)
  have default: "yyrun fresh yylex Yydefault st' = (case yydefault ?s of Reduce r \<Rightarrow> yyrun fresh yylex (Yyreduce r) st'
      | _ \<Rightarrow> yyrun fresh yylex Yyerrlab st')" if "yystate st' = ?s" for st'
    by (subst yyrun.simps) (simp add: at_default_def yydefault_def that)
  have unf: "yyrun fresh yylex Yybackup st = do { (lab, st) \<leftarrow> at_backup yylex st; yyrun fresh yylex lab st }"
    by (subst yyrun.simps) simp
  show ?thesis
  proof (cases "entry_at yypact ?s = -5")
    case True
    have d: "yybackup ?s (yysymbol ts) = yydefault ?s" using True assms(3) by (simp add: yybackup_def)
    have "yyrun fresh yylex Yybackup st = yyrun fresh yylex Yydefault st" using True s unfolding unf by (simp add: at_backup_def)
    moreover have "yydefault ?s \<noteq> Syntax_error"
      using default_reduces [OF range] True by simp
    ultimately show ?thesis
      by (intro that [of st]) (use ah st default [OF s] d in \<open>auto simp: yydefault_def split: if_splits\<close>)
  next
    case False
    obtain st' where st': "(if yychar st = -2 then read_token yylex st else Some st) = Some st'"
      "token_read yylex ts e st'" "parses stack l errors st'" by (rule read_ahead [OF ah st])
    note sym = token_read_symbol [OF st'(2)]
    have s': "yystate st' = ?s" "yyerrstatus st' = 0" using st'(3) by (simp_all add: parses_def)
    have id: "(if yychar st' \<le> 0 then st'\<lparr>yychar := 0\<rparr> else st') = st'"
      using sym(1) by (cases "yychar st' = 0") simp_all
    let ?y = "entry_at yypact ?s + yysymbol ts"
    have bk: "at_backup yylex st = Some (if ?y < 0 \<or> 20 < ?y \<or> entry_at yycheck ?y \<noteq> yysymbol ts then (Yydefault, st')
        else if entry_at yytable ?y \<le> 0 then (Yyreduce (- entry_at yytable ?y), st')
        else (Yynewstate, st'\<lparr>yystate := entry_at yytable ?y, yyvs := yylval_now st' # yyvs st', yychar := -2\<rparr>))"
      unfolding at_backup_def s st'(1) Option.bind.bind_lunit id
      using False by (simp add: sym s' Let_def)
    show ?thesis
    proof (rule that [of st'])
      show "token_ahead yylex ts e st'" using st'(2) by (simp add: token_ahead_def)
      show "parses stack l errors st'" by (rule st'(3))
      show "yyrun fresh yylex Yybackup st = (case yybackup ?s (yysymbol ts) of
         Shift t \<Rightarrow> yyrun fresh yylex Yynewstate (st'\<lparr>yystate := t, yyvs := yylval_now st' # yyvs st', yychar := -2\<rparr>)
       | Reduce r \<Rightarrow> yyrun fresh yylex (Yyreduce r) st'
       | _ \<Rightarrow> yyrun fresh yylex Yyerrlab st')"
        unfolding unf bk using False assms(3) default [OF s'(1)]
        by (simp add: yybackup_def Let_def) (auto simp: yydefault_def)
    qed (use st'(2) in simp_all)
  qed
qed

lemma run_error:
  assumes st: "parses stack l errors st" and rd: "token_read yylex ts e st"
    and err: "yybackup (fst (hd stack)) (yysymbol ts) = Syntax_error"
  shows "\<exists>st'. yyrun fresh yylex Yyerrlab st = Some (1, st') \<and> made st' = l \<and> yynerrs st' = errors + 1 \<and>
    yystacksize st' = 200 \<and> said st' = [(syntax_message (fst (hd stack)) (yysymbol ts), tokens_from st')]"
proof -
  let ?s = "fst (hd stack)"
  have ss: "map fst stack \<in> set state_stacks" "yyss st = map fst stack" "yystate st = ?s"
    "yyerrstatus st = 0" "yynerrs st = errors" "made st = l" "yystacksize st = 200" "length (yymsg st) = 128"
    "said st = []" using st by (simp_all add: parses_def)
  note top = top_range [OF st]
  have pop: "pop_to_error (yystate st) (yyss st) (yyvs st) = None"
    using stack_small(3) [OF ss(1)] top unfolding ss(2,3) by (intro no_state_shifts_error)
  have "message_fits ?s (yysymbol ts)"
    by (rule message_fits [OF top(1,2) yysymbol_range err])
  then obtain buf where buf: "report_error fresh ?s (yysymbol ts) (yymsg st) =
      Some (False, syntax_message ?s (yysymbol ts), buf)"
    using report_error_fits ss(8) by blast
  have "hd (yyss st) = ?s" using top(3) by (simp add: ss(2) hd_map)
  then have buf: "report_error fresh (hd (yyss st)) (yysymbol ts) (yymsg st) =
      Some (False, syntax_message ?s (yysymbol ts), buf)" using buf by simp
  have "yychar st \<noteq> -2" "YYTRANSLATE (yychar st) = yysymbol ts"
    using token_read_symbol [OF rd] by simp_all
  then have "at_errlab fresh st = Some (Yyerrlab1,
      say (syntax_message ?s (yysymbol ts)) (st\<lparr>yynerrs := errors + 1, yymsg := buf\<rparr>))" (is "_ = Some (_, ?st)")
    by (simp add: at_errlab_def buf ss(4,5,9) Let_def say_def)
  then have "yyrun fresh yylex Yyerrlab st = yyrun fresh yylex Yyerrlab1 ?st" by (subst yyrun.simps) simp
  moreover have "yyrun fresh yylex (Yyreturn 1) st' = Some (1, st')" for st' :: "'a parser" by (subst yyrun.simps) simp
  then have "yyrun fresh yylex Yyerrlab1 ?st = Some (1, ?st\<lparr>yyerrstatus := 3\<rparr>)"
    using pop by (subst yyrun.simps) (simp add: at_errlab1_def Let_def say_def)
  ultimately show ?thesis using ss by (simp add: say_def)
qed

text \<open>The run from a state that was pushed.\<close>

definition finishes :: "bool \<Rightarrow> instruction_t list \<Rightarrow> nat \<Rightarrow> token list \<Rightarrow> 's \<Rightarrow> (nat \<times> 's parser) option \<Rightarrow> bool" where
  "finishes accepted l errors ts e res \<longleftrightarrow>
     (\<exists>st. res = Some (if accepted then 0 else 1, st) \<and> made st = l \<and> yystacksize st = 200 \<and>
       yynerrs st = (if accepted then errors else errors + 1) \<and> (accepted \<longrightarrow> tokens_from st = e \<and> said st = []) \<and>
       (\<not> accepted \<longrightarrow> (\<exists>before after state. ts = before @ after \<and>
         said st = [(syntax_message state (yysymbol after), tokens_from st)] \<and>
         yybackup state (yysymbol after) = Syntax_error)))"

lemma finishes_error:
  assumes "res = Some (1, st)" "made st = l" "yynerrs st = errors + 1" "yystacksize st = 200"
    and "said st = [(syntax_message state (yysymbol ts), tokens_from st)]"
    and "yybackup state (yysymbol ts) = Syntax_error"
  shows "finishes False l errors ts e res"
proof -
  have "ts = [] @ ts" by simp
  then show ?thesis using assms unfolding finishes_def by (metis (no_types))
qed

lemma finishes_tl: "finishes accepted l errors (tl ts) e res \<Longrightarrow> finishes accepted l errors ts e res"
  unfolding finishes_def by (cases ts) (simp, metis append_Cons list.sel(3))

lemma run_parses:
  assumes "yyparse n stack ts l = Some (accepted, l')" and "parses stack l errors st"
    and "if fst (hd stack) = 14 then tokens_from st = e else token_ahead yylex ts e st"
  shows "finishes accepted l' errors ts e (yyrun fresh yylex Yysetstate st)"
  using assms
proof (induction n arbitrary: stack ts l st)
  case 0
  then show ?case by simp
next
  case (Suc n)
  let ?s = "fst (hd stack)"
  note st = Suc.prems(2)
  have ss: "map fst stack \<in> set state_stacks" using st by (simp add: parses_def)
  have ne: "stack \<noteq> []" using stack_small(1) [OF ss] by simp
  then have hd: "hd (map fst stack) = ?s" by (simp add: hd_map)
  have fits: "step_fits (map fst stack) (yysymbol ts)" by (rule step_fits [OF ss])
  show ?case
  proof (cases "?s = 14")
    case True
    have "yybackup 14 (yysymbol ts) = Accept" by (rule yybackup_reduce)
    then show ?thesis using True Suc.prems st run_setstate [OF st, of fresh yylex]
      by (simp add: finishes_def parses_def)
  next
    case False
    have ah: "token_ahead yylex ts e st" using Suc.prems(3) False by simp
    obtain st' where st': "token_ahead yylex ts e st'" "parses stack l errors st'"
      and run: "yyrun fresh yylex Yybackup st = (case yybackup ?s (yysymbol ts) of
         Shift t \<Rightarrow> yyrun fresh yylex Yynewstate
           (st'\<lparr>yystate := t, yyvs := yylval_now st' # yyvs st', yychar := -2\<rparr>)
       | Reduce r \<Rightarrow> yyrun fresh yylex (Yyreduce r) st'
       | _ \<Rightarrow> yyrun fresh yylex Yyerrlab st')"
      and shift: "\<And>t. yybackup ?s (yysymbol ts) = Shift t \<Longrightarrow> token_read yylex ts e st'"
      and err: "yybackup ?s (yysymbol ts) = Syntax_error \<Longrightarrow> token_read yylex ts e st'"
      using run_backup [OF st ah False] by blast
    have go: "yyrun fresh yylex Yysetstate st = yyrun fresh yylex Yybackup st" using run_setstate [OF st] False by simp
    have p': "yyss st' = map fst stack" "length (yyvs st') = length stack"
      "same_constants stack (zip (yyss st') (yyvs st'))" "made st' = l" "yystacksize st' = 200"
      "yyerrstatus st' = 0" "yynerrs st' = errors" "length (yymsg st') = 128" "said st' = []" using st'(2) by (simp_all add: parses_def)
    show ?thesis
    proof (cases "yybackup ?s (yysymbol ts)")
      case Accept
      then show ?thesis using fits False by (simp add: step_fits_def hd)
    next
      case Syntax_error
      then have "accepted = False" "l' = l" using Suc.prems(1) by simp_all
      moreover obtain stf where "yyrun fresh yylex Yyerrlab st' = Some (1, stf)" "made stf = l"
        "yynerrs stf = errors + 1" "yystacksize stf = 200"
        "said stf = [(syntax_message ?s (yysymbol ts), tokens_from stf)]"
        using run_error [OF st'(2) err [OF Syntax_error] Syntax_error, of fresh] by blast
      then have "finishes False l errors ts e (yyrun fresh yylex Yyerrlab st')"
        by (rule finishes_error) (rule Syntax_error)
      ultimately show ?thesis unfolding go run Syntax_error by simp
    next
      case (Shift t)
      have abs: "yyparse n ((t, yylval ts) # stack) (tl ts) l = Some (accepted, l')"
        using Suc.prems(1) Shift by simp
      have rd: "token_read yylex ts e st'" by (rule shift [OF Shift])
      have f: "t # map fst stack \<in> set state_stacks" "t \<in> set constant_states \<longrightarrow> yysymbol ts = 3"
        "t = 14 \<longleftrightarrow> yysymbol ts = 0" using fits by (simp_all add: step_fits_def hd Shift)
      let ?st = "st'\<lparr>yystate := t, yyvs := yylval_now st' # yyvs st', yychar := -2, yyss := t # yyss st'\<rparr>"
      have val: "t \<in> set constant_states \<longrightarrow> yylval ts = yylval_now st'"
        using f(2) rd by (cases ts) (auto simp: token_read_def split: token.splits)
      have "parses ((t, yylval ts) # stack) l errors ?st"
        using f(1) val p' by (simp add: parses_def same_constants_def)
      moreover have "if fst (hd ((t, yylval ts) # stack)) = 14 then tokens_from ?st = e
          else token_ahead yylex (tl ts) e ?st"
      proof (cases ts)
        case Nil
        then show ?thesis using rd f(3) by (simp add: token_read_def)
      next
        case (Cons a r)
        then have "t \<noteq> 14" using f(3) by (cases a) auto
        then show ?thesis using rd Cons by (simp add: token_read_def token_ahead_def)
      qed
      ultimately have "finishes accepted l' errors (tl ts) e (yyrun fresh yylex Yysetstate ?st)"
        by (rule Suc.IH [OF abs])
      from finishes_tl [OF this] show ?thesis unfolding go run Shift by (simp add: run_newstate)
    next
      case (Reduce r)
      note act = same_action [OF p'(3) ss, unfolded hd, OF Reduce]
      let ?k = "nat (entry_at yyr2 r)" and ?stack = "zip (yyss st') (yyvs st')"
      let ?g = "goto_state r (fst (hd (drop ?k stack)))"
      obtain l1 where l1: "yyaction r stack l = Some l1"
        and abs: "yyparse n ((?g, snd (stack ! (?k - 1))) # drop ?k stack) ts l1 = Some (accepted, l')"
        using Suc.prems(1) Reduce by (auto simp: yyreduce_goto Let_def bind_eq_Some_conv)
      have states: "map fst ?stack = map fst stack" by (rule same_constants_states [OF p'(3)])
      have len: "length ?stack = length stack" using p'(1,2) by simp
      have ne: "drop ?k stack \<noteq> []" "drop ?k ?stack \<noteq> []" using act(3) len by simp_all
      have rest: "map fst (drop ?k ?stack) = map fst (drop ?k stack)"
        unfolding drop_map [symmetric] states ..
      have "hd (map fst (drop ?k ?stack)) = hd (map fst (drop ?k stack))" by (rule arg_cong [OF rest])
      then have top: "fst (hd (drop ?k ?stack)) = fst (hd (drop ?k stack))"
        unfolding hd_map [OF ne(1), of fst] hd_map [OF ne(2), of fst] .
      let ?new = "(?g, snd (?stack ! (?k - 1))) # drop ?k ?stack"
      have red: "yyreduce r ?stack l = Some (?new, l1)"
        unfolding yyreduce_goto Let_def top using act(1) [of l] l1 by simp
      let ?st = "st'\<lparr>yystate := ?g, yyvs := map snd ?new, made := l1, yyss := map fst ?new\<rparr>"
      have "yyrun fresh yylex (Yyreduce r) st' = yyrun fresh yylex Yynewstate
          (st'\<lparr>yystate := ?g, yyss := tl (map fst ?new), yyvs := map snd ?new, made := l1\<rparr>)"
        by (subst yyrun.simps) (simp add: at_reduce_def p'(4) red)
      then have step: "yyrun fresh yylex (Yyreduce r) st' = yyrun fresh yylex Yysetstate ?st" by (simp add: run_newstate)
      have zz: "zip (map fst (drop ?k stack)) (map snd (drop ?k ?stack)) = drop ?k ?stack"
        unfolding rest [symmetric] by (rule zip_map_fst_snd)
      have "same_constants (drop ?k stack) (drop ?k ?stack)"
        using p'(3) unfolding same_constants_def by (rule list_all2_dropI)
      then have "same_constants ((?g, snd (stack ! (?k - 1))) # drop ?k stack) ?new"
        using act(5) by (simp add: same_constants_def)
      moreover have "map fst ?new = ?g # map fst (drop ?k stack)"
        using rest by simp
      moreover have "length ?new = length (drop ?k stack) + 1" using len by simp
      ultimately have "parses ((?g, snd (stack ! (?k - 1))) # drop ?k stack) l1 errors ?st"
        using act(4) p' zz unfolding parses_def by simp
      moreover have "token_ahead yylex ts e ?st"
        using st'(1) by (simp add: token_ahead_def token_read_def cong: list.case_cong)
      ultimately have "finishes accepted l' errors ts e (yyrun fresh yylex Yysetstate ?st)"
        using act(6) by (intro Suc.IH [OF abs]) simp_all
      then show ?thesis unfolding go run Reduce by (simp add: step)
    qed
  qed
qed

text \<open>The parser on a scanner that gives the tokens \<open>ts\<close> does what the automaton does on \<open>ts\<close>: it returns
  0 or 1, has made the same instructions, and its stacks are where they were. When it accepts, the scanner
  has come to the end of the file; when it rejects, it counts one error and says one message, which
  names the token that cannot follow.\<close>

theorem parser_runs:
  assumes "gives_tokens yylex s ts e" and "parse_tokens ts = Some (accepted, l)"
  shows "finishes accepted l 0 ts e (yyparse_on fresh yylex lval s)"
  unfolding yyparse_on_def
proof (rule run_parses)
  show "yyparse (3 * length ts + 3) [(0, [])] ts [] = Some (accepted, l)"
    using assms(2) by (simp add: parse_tokens_def)
  have "[0] \<in> set state_stacks" by (simp add: state_stacks_def)
  then show "parses [(0, [])] [] 0 (yyparse_start fresh lval 0 [] s)"
    by (simp add: parses_def yyparse_start_def same_constants_def constant_states_def)
  show "if fst (hd [(0 :: int, [] :: char list)]) = 14 then tokens_from (yyparse_start fresh lval 0 [] s) = e
      else token_ahead yylex ts e (yyparse_start fresh lval 0 [] s)"
    using assms(1) by (simp add: token_ahead_def yyparse_start_def)
qed

text \<open>The scanner that has the tokens in a list.\<close>

fun next_in_list :: "token list next_token" where
  "next_in_list [] = Some (None, [])"
| "next_in_list (t # ts) = Some (Some t, ts)"

lemma list_yields: "gives_tokens next_in_list ts ts []"
  by (induction ts) simp_all

end
