(* ===== verification/Front_End.thy ===== *)
theory Front_End
  imports Parser_Machine Scanner_File
begin

section \<open>The console on a file\<close>

text \<open>
  \<open>yyparse\<close> on its stacks (theory \<open>Parser_Machine\<close>) that calls \<open>yylex\<close> on its buffer (theory
  \<open>Scanner_Buffer\<close>) for one token at a time, as \<open>parse\<close> and \<open>on_run\<close> of
  \<open>console/src/module/console.c\<close> use them. On a file the two do what the rules and the automaton do on its text:
  \<open>on_run_file\<close> is \<open>on_run_console\<close>. A text that is rejected is not scanned to its end.
\<close>

subsection \<open>One call of the scanner\<close>

text \<open>\<open>yylex\<close> returns on a token and goes on after white space and after a lexical error, which counts
  in \<open>yylexerrs\<close>; at the end of the file it returns \<open>YYEOF\<close>, here \<open>None\<close>.\<close>

partial_function (option) yylex_call :: "(nat \<Rightarrow> char) \<Rightarrow> scanner \<Rightarrow> nat \<Rightarrow> (token option \<times> scanner \<times> nat) option" where
  "yylex_call fresh st lexerrs = do {
     buf \<leftarrow> poke (yy_c_buf_p st) (yy_hold_char st) (ch_buf st);
     (act, st) \<leftarrow> yy_next fresh (yy_c_buf_p st) (Match 1 (yy_c_buf_p st)) (set_ch_buf buf st);
     (case act of
        None \<Rightarrow> Some (None, st, lexerrs)
      | Some act \<Rightarrow> do {
          ls \<leftarrow> action_lexemes act (yytext st);
          (case ls of
             [] \<Rightarrow> yylex_call fresh st lexerrs
           | Tok t # _ \<Rightarrow> Some (Some t, st, lexerrs)
           | Lex_error # _ \<Rightarrow> yylex_call fresh st (lexerrs + 1)) }) }"

declare yylex_call.simps [code]

abbreviation scanner_calls :: "(nat \<Rightarrow> char) \<Rightarrow> (scanner \<times> nat) next_token" where
  "scanner_calls fresh \<equiv> (\<lambda>(st, lexerrs). yylex_call fresh st lexerrs)"

subsection \<open>The console\<close>

text \<open>What \<open>yyerror\<close> prints, with the line of the scanner.\<close>

fun decimal :: "nat \<Rightarrow> string" where
  "decimal n = (if n < 10 then [] else decimal (n div 10)) @ [char_of (48 + n mod 10)]"

declare decimal.simps [simp del]

definition yyerror :: "nat \<Rightarrow> string \<Rightarrow> string" where
  "yyerror line s = ''l'' @ [CHR 0xC3, CHR 0xAD] @ ''nea #'' @ decimal line @ '': '' @ s @ [CHR 0x0A]"

text \<open>\<open>parse\<close>: the result of \<open>yyparse\<close>, the instructions, \<open>yynerrs\<close>, \<open>yylexerrs\<close>, what the parser prints and
  the scanner after \<open>yylex_destroy\<close>. A file that does not open is \<open>None\<close>; \<open>fclose\<close> is then called on it.\<close>

definition parse_program :: "(nat \<Rightarrow> char) \<Rightarrow> string \<Rightarrow> scanner option \<Rightarrow>
    (nat \<times> instruction_t list \<times> nat \<times> nat \<times> string list \<times> scanner) option" where
  "parse_program fresh lval f = do {
     g \<leftarrow> f;
     st \<leftarrow> yylex_init fresh g;
     (result, p) \<leftarrow> yyparse_on fresh (scanner_calls fresh) lval (st, 0);
     Some (result, made p, yynerrs p, snd (tokens_from p),
       map (\<lambda>(s, st, _). yyerror (yylineno st) s) (said p), yylex_destroy (fst (tokens_from p))) }"

definition on_run_file :: "(nat \<Rightarrow> char) \<Rightarrow> string \<Rightarrow> scanner option \<Rightarrow> u32 \<Rightarrow> conexion_t \<Rightarrow> (int \<times> conexion_t) option" where
  "on_run_file fresh lval f sz c = do {
     (result, l, nerrs, lexerrs, _, _) \<leftarrow> parse_program fresh lval f;
     let running = (result = 0);
     if nerrs = 0 \<and> lexerrs = 0 \<and> running then
       if l = [] then Some (1, c)
       else do {
         (_, c) \<leftarrow> on_send_action c SYS 0 sz;
         (_, c) \<leftarrow> on_send_instructions c l;
         Some (int result, c) }
     else Some (int result, c) }"

subsection \<open>The tokens of the calls\<close>

lemma token_lexemes:
  assumes "token_of inp act len ls"
  shows "ls = [] \<or> (\<exists>t. ls = [Tok t]) \<or> ls = [Lex_error]"
  using assms by (auto simp: token_of_def action_lexemes_def simp del: yy_match.simps scan_text.simps split: if_splits)

lemma lexemes_Cons:
  "lexemes (Tok t # ls) = t # lexemes ls" "lexemes (Lex_error # ls) = lexemes ls"
  "yylexerrs (Tok t # ls) = yylexerrs ls" "yylexerrs (Lex_error # ls) = yylexerrs ls + 1"
  by (simp_all add: lexemes_def yylexerrs_def)

lemma yields_skip:
  "lexer s = lexer s' \<Longrightarrow> gives_tokens lexer s ts e \<longleftrightarrow> gives_tokens lexer s' ts e"
  by (cases ts) simp_all

lemma calls_yield:
  assumes "between_tokens inp st" and "short_runs inp"
  shows "\<exists>st'. gives_tokens (scanner_calls fresh) (st, n) (lexemes (scan_text inp)) (st', n + yylexerrs (scan_text inp))"
  using assms
proof (induction "length inp" arbitrary: inp st n rule: less_induct)
  case less
  let ?c = "yy_c_buf_p st"
  let ?st = "set_ch_buf ((ch_buf st)[?c := yy_hold_char st]) st"
  have r: "reading ?c inp ?st" using less.prems(1) by (simp add: between_tokens_def)
  then have c: "?c < length (ch_buf st)" "?c \<le> yy_n_chars st" by (simp_all add: reading_def Let_def)
  have s: "scans inp (yylineno ?st) (yy_next fresh ?c (Match 1 (?c + length ([] :: string))) ?st)"
    by (rule match_token [OF r at_start _ _ _ less.prems(2), of inp]) (use c in simp_all)
  have unf: "yylex_call fresh st n = do {
     (act, st) \<leftarrow> yy_next fresh ?c (Match 1 ?c) ?st;
     (case act of
        None \<Rightarrow> Some (None, st, n)
      | Some act \<Rightarrow> do {
          ls \<leftarrow> action_lexemes act (yytext st);
          (case ls of
             [] \<Rightarrow> yylex_call fresh st n
           | Tok t # _ \<Rightarrow> Some (Some t, st, n)
           | Lex_error # _ \<Rightarrow> yylex_call fresh st (n + 1)) }) }" for n
    using c(1) by (subst yylex_call.simps) (simp add: poke_def)
  show ?case
  proof (cases "inp = []")
    case True
    then have "\<exists>st'. yylex_call fresh st n = Some (None, st', n)" using s unfolding unf by (auto simp: scans_def)
    then show ?thesis using True by (simp add: lexemes_def yylexerrs_def)
  next
    case False
    then obtain act len ls where tok: "token_of inp act len ls" by (rule token_step)
    then obtain st' where st': "yy_next fresh ?c (Match 1 ?c) ?st = Some (Some act, st')"
      "yytext st' = take len inp" "between_tokens (drop len inp) st'"
      using s False by (auto simp: scans_def token_of_def simp del: yy_match.simps)
    have ls: "action_lexemes act (take len inp) = Some ls" "scan_text inp = ls @ scan_text (drop len inp)"
      using tok by (simp_all add: token_of_def del: yy_match.simps scan_text.simps)
    have "length (drop len inp) < length inp" using tok False by (simp add: token_of_def)
    note IH = less.hyps [OF this st'(3) short_drop [OF less.prems(2)]]
    have step: "yylex_call fresh st n = (case ls of
             [] \<Rightarrow> yylex_call fresh st' n
           | Tok t # _ \<Rightarrow> Some (Some t, st', n)
           | Lex_error # _ \<Rightarrow> yylex_call fresh st' (n + 1))" for n
      unfolding unf using st'(1,2) ls(1) by simp
    from token_lexemes [OF tok] consider "ls = []" | t where "ls = [Tok t]" | "ls = [Lex_error]" by blast
    then show ?thesis
    proof cases
      case 1
      then have "scanner_calls fresh (st, n) = scanner_calls fresh (st', n)" using step by simp
      from yields_skip [OF this] show ?thesis using IH [of n] 1 by (simp add: ls(2) del: scan_text.simps)
    next
      case 2
      then show ?thesis using IH [of n] step by (simp add: ls(2) lexemes_Cons del: scan_text.simps)
    next
      case 3
      then have "scanner_calls fresh (st, n) = scanner_calls fresh (st', n + 1)" using step by simp
      from yields_skip [OF this] show ?thesis
        using IH [of "n + 1"] 3 by (simp add: ls(2) lexemes_Cons del: scan_text.simps)
    qed
  qed
qed

subsection \<open>The console does what the rules and the grammar say\<close>

text \<open>A file that is rejected is told by one line, which names the token that cannot follow.\<close>

theorem program_parsed:
  assumes "short_runs (yyin g)" and "parse (Some (yyin g)) = Some (accepted, l, lexerrs)"
  shows "\<exists>n printed g'. parse_program fresh lval (Some g) =
      Some (if accepted then 0 else 1, l, if accepted then 0 else 1, n, printed, g') \<and>
    (accepted \<longrightarrow> n = lexerrs \<and> printed = []) \<and> yylineno g' = 1 \<and>
    (\<not> accepted \<longrightarrow> (\<exists>before after state line. lexemes (scan_text (yyin g)) = before @ after \<and>
      printed = [yyerror line (syntax_message state (yysymbol after))] \<and>
      yybackup state (yysymbol after) = Syntax_error))"
proof -
  obtain st where st: "yylex_init fresh g = Some st" "between_tokens (yyin g) st" by (rule init_ok)
  obtain e where y: "gives_tokens (scanner_calls fresh) (st, 0) (lexemes (scan_text (yyin g)))
      (e, 0 + yylexerrs (scan_text (yyin g)))"
    using calls_yield [OF st(2) assms(1), of fresh 0] by blast
  have p: "parse_tokens (lexemes (scan_text (yyin g))) = Some (accepted, l)"
    "lexerrs = yylexerrs (scan_text (yyin g))"
    using assms(2) by (auto simp: parse_def bind_eq_Some_conv)
  obtain q where q: "yyparse_on fresh (scanner_calls fresh) lval (st, 0) = Some (if accepted then 0 else 1, q)"
    "made q = l" "yynerrs q = (if accepted then 0 else 0 + 1)"
    "accepted \<longrightarrow> tokens_from q = (e, 0 + yylexerrs (scan_text (yyin g))) \<and> said q = []"
    "\<not> accepted \<longrightarrow> (\<exists>before after state. lexemes (scan_text (yyin g)) = before @ after \<and>
       said q = [(syntax_message state (yysymbol after), tokens_from q)] \<and>
       yybackup state (yysymbol after) = Syntax_error)"
    using parser_runs [OF y p(1), of fresh lval] unfolding finishes_def by blast
  show ?thesis
  proof (cases accepted)
    case True
    then show ?thesis using q st(1) p(2) by (simp add: parse_program_def yylex_destroy_def del: scan_text.simps)
  next
    case False
    then obtain before after state where r: "lexemes (scan_text (yyin g)) = before @ after"
      "said q = [(syntax_message state (yysymbol after), tokens_from q)]"
      "yybackup state (yysymbol after) = Syntax_error" using q(5) by blast
    have "parse_program fresh lval (Some g) = Some (1, l, 1, snd (tokens_from q),
        [yyerror (yylineno (fst (tokens_from q))) (syntax_message state (yysymbol after))],
        yylex_destroy (fst (tokens_from q)))"
      using False q(1-3) r(2) st(1) by (simp add: parse_program_def case_prod_beta)
    then show ?thesis using False r(1,3) by (auto simp: yylex_destroy_def simp del: scan_text.simps)
  qed
qed

theorem on_run_reads_file:
  assumes "short_runs (yyin g)" and "parse (Some (yyin g)) \<noteq> None"
  shows "on_run_file fresh lval (Some g) sz c = on_run_console (Some (yyin g)) sz c"
proof -
  obtain accepted l lexerrs where p: "parse (Some (yyin g)) = Some (accepted, l, lexerrs)"
    using assms(2) by auto
  obtain n printed g' where f: "parse_program fresh lval (Some g) =
      Some (if accepted then 0 else 1, l, if accepted then 0 else 1, n, printed, g')" "accepted \<longrightarrow> n = lexerrs"
    using program_parsed [OF assms(1) p, of fresh lval] by blast
  show ?thesis using f by (cases accepted) (simp_all add: on_run_file_def on_run_console_def p)
qed

end
