(* ===== verification/Console_Kernel.thy ===== *)
theory Console_Kernel
  imports Console Kernel_Runs
begin

section \<open>From the text of a program to a new process\<close>

text \<open>
  The console and the kernel together: the bytes that \<open>on_run\<close> writes are the ones
  the thread of the kernel's server reads in two rounds of its loop.
\<close>

text \<open>A free identifier is not the one of a PCB that waits for its program.\<close>

lemma waiting_pids:
  assumes "kernel_wf grado k" and "get_pid_libre (pids k) = (w, ps)" and "w \<noteq> UNDEFINED"
  shows "\<forall>b \<in> set (pcbs k). \<exists>q. pcb_heap k b = Some q \<and> pcb_id q \<noteq> w"
proof
  fix b assume b: "b \<in> set (pcbs k)"
  have ident: "identified k" using assms(1) by (simp add: kernel_wf_def)
  then have len: "length (pids k) = PIDS" by (simp add: identified_def)
  have place: "b \<in> set (places k)" using b by (simp add: places_def)
  with assms(1) obtain q where q: "pcb_heap k b = Some q" by (rule alive)
  have "pid_at k b \<in> taken (pids k)" using ident place by (auto simp: identified_def)
  then have "pcb_id q \<noteq> w" using get_pid_libre_some(1) [OF len assms(2,3)] q by (auto simp: pid_at_def)
  with q show "\<exists>q. pcb_heap k b = Some q \<and> pcb_id q \<noteq> w" by blast
qed

lemma console_delivers:
  assumes wf: "kernel_wf grado k" and pid: "get_pid_libre (pids k) = (w, ps)" "w \<noteq> UNDEFINED"
    and small: "12 * length l + 4 < 2 ^ 32" and s: "incoming s = console_bytes sz l" "\<not> recv_error s"
  shows "kernel_run env k [Connect s, Request (length (clients k)), Request (length (clients k))] =
    Some (k\<lparr>clients := clients k @ [(s\<lparr>incoming := []\<rparr>, w)], pids := ps, brk := Suc (brk k),
      pcb_heap := (pcb_heap k)(brk k \<mapsto> (new_pcb w (ucast sz) (estimacion_inicial env))\<lparr>instructions := l\<rparr>),
      q_new := q_new k @ [brk k], req_admit := Suc (req_admit k)\<rparr>)"
proof -
  let ?n = "length (clients k)" and ?p = "new_pcb w (ucast sz) (estimacion_inicial env)"
  let ?s1 = "s\<lparr>incoming := message CMD (instructions_fold l)\<rparr>"
  let ?k0 = "k\<lparr>clients := clients k @ [(s, 0)]\<rparr>"
  let ?k1 = "k\<lparr>clients := clients k @ [(?s1, w)], pids := ps, pcb_heap := (pcb_heap k)(brk k \<mapsto> ?p),
    brk := Suc (brk k), pcbs := pcbs k @ [brk k]\<rparr>"
  have "owned k" using wf by (simp add: kernel_wf_def)
  then have fresh: "brk k \<notin> set (pcbs k)" using fresh_address [of k] by (simp add: places_def)
  have others: "\<forall>b \<in> set (pcbs k). \<exists>q. pcb_heap ?k1 b = Some q \<and> pcb_id q \<noteq> w"
    using waiting_pids [OF wf pid] fresh by auto
  have "kernel_routine env ?k0 s 0 = Some (?k1\<lparr>clients := clients k @ [(s, 0)]\<rparr>, ?s1, w, True)"
    using sys_request [of s sz "message CMD (instructions_fold l)" ?k0 w ps env 0] s pid
    by (simp add: console_bytes_def)
  then have "kernel_do env ?k0 (Request ?n) = Some ?k1" by (simp add: nth_append)
  moreover have "kernel_do env ?k1 (Request ?n) = Some (?k1\<lparr>clients := clients k @ [(s\<lparr>incoming := []\<rparr>, w)],
      pcbs := pcbs k, pcb_heap := (pcb_heap k)(brk k \<mapsto> ?p\<lparr>instructions := l\<rparr>),
      q_new := q_new k @ [brk k], req_admit := Suc (req_admit k)\<rparr>)"
    using cmd_request [of ?s1 l "[]" ?k1 "pcbs k" "brk k" ?p w env] s(2) small others
    by (simp add: nth_append new_pcb_def)
  ultimately show ?thesis by simp
qed

text \<open>The text of a program that the console accepts ends as a process in the queue of new ones.\<close>

lemma program_arrives:
  assumes t: "spells prog (flat ss)" "ss \<noteq> []" "run_statements ss [] = Some l" "l \<noteq> []"
    and c: "conectado c" "\<not> send_error (sock c)" "outgoing (sock c) = []"
    and wf: "kernel_wf grado k" and pid: "get_pid_libre (pids k) = (w, ps)" "w \<noteq> UNDEFINED"
    and small: "12 * length l + 4 < 2 ^ 32"
  shows "\<exists>c'. on_run_console (Some prog) sz c = Some (0, c') \<and>
    kernel_run env k [Connect (quiet (outgoing (sock c'))), Request (length (clients k)),
        Request (length (clients k))] =
      Some (k\<lparr>clients := clients k @ [(quiet [], w)], pids := ps, brk := Suc (brk k),
        pcb_heap := (pcb_heap k)(brk k \<mapsto> (new_pcb w (ucast sz) (estimacion_inicial env))\<lparr>instructions := l\<rparr>),
        q_new := q_new k @ [brk k], req_admit := Suc (req_admit k)\<rparr>)"
proof -
  let ?c = "c\<lparr>sock := (sock c)\<lparr>outgoing := console_bytes sz l\<rparr>\<rparr>"
  have "on_run_console (Some prog) sz c = Some (0, ?c)"
    using on_run_sends [OF t c(1,2), of sz] c(3) by (simp add: console_bytes_def)
  moreover have "quiet (console_bytes sz l)\<lparr>incoming := []\<rparr> = quiet []" by (simp add: quiet_def)
  then have "kernel_run env k [Connect (quiet (outgoing (sock ?c))), Request (length (clients k)),
      Request (length (clients k))] =
    Some (k\<lparr>clients := clients k @ [(quiet [], w)], pids := ps, brk := Suc (brk k),
      pcb_heap := (pcb_heap k)(brk k \<mapsto> (new_pcb w (ucast sz) (estimacion_inicial env))\<lparr>instructions := l\<rparr>),
      q_new := q_new k @ [brk k], req_admit := Suc (req_admit k)\<rparr>)"
    using console_delivers [OF wf pid small, of "quiet (console_bytes sz l)" sz env]
    by (simp add: quiet_def)
  ultimately show ?thesis by blast
qed

end
