(* ===== verification/Thread_Manager.thy ===== *)
theory Thread_Manager
  imports Prelude "HOL-Library.Multiset"
begin

section \<open>The thread manager\<close>

text \<open>
  \<open>lib/src/util/thread_manager.c\<close>: an array of the threads that were launched, which doubles when
  it is full. A thread is its \<open>pthread_t\<close>; \<open>pthread_create\<close> succeeds and the identifier it gives is
  an argument of the launch. The lock is held for the whole of each operation, so each is one
  step. The contract of the manager (\<open>registry\<close>) is a multiset of threads.
\<close>

subsection \<open>State and operations\<close>

type_synonym pthread_t = nat

abbreviation N_THREADS :: nat where
  "N_THREADS \<equiv> 6"

record thread_manager_t =
  threads :: "pthread_t list"
  tm_size :: int
  max_threads :: int
  tm_init :: bool

definition new_thread_manager :: thread_manager_t where
  "new_thread_manager =
     \<lparr>threads = replicate N_THREADS 0, tm_size = 0, max_threads = int N_THREADS, tm_init = True\<rparr>"

text \<open>The index of the thread, or \<open>ERROR\<close>.\<close>

definition thread_manager_get_index :: "thread_manager_t \<Rightarrow> pthread_t \<Rightarrow> int option" where
  "thread_manager_get_index tm self = do {
     found \<leftarrow> findM (\<lambda>i. do { t \<leftarrow> arr_get (threads tm) i; Some (t = self) }) [0..<nat (tm_size tm)];
     Some (case found of Some i \<Rightarrow> int i | None \<Rightarrow> -1) }"

text \<open>\<open>realloc\<close> keeps the elements that fit and leaves the new ones as they were in memory.\<close>

definition realloc :: "(nat \<Rightarrow> 'a) \<Rightarrow> 'a list \<Rightarrow> nat \<Rightarrow> 'a list" where
  "realloc junk xs n = take n xs @ map junk [length xs..<n]"

definition thread_manager_launch ::
    "(nat \<Rightarrow> pthread_t) \<Rightarrow> thread_manager_t \<Rightarrow> pthread_t \<Rightarrow> thread_manager_t option" where
  "thread_manager_launch junk tm t =
     (if tm_init tm then do {
        tm \<leftarrow>
          (if tm_size tm < max_threads tm
           then do {
             ts \<leftarrow> arr_set (threads tm) (nat (tm_size tm)) t;
             Some (tm\<lparr>threads := ts\<rparr>) }
           else if 2 ^ 31 \<le> max_threads tm * 2 then None
           else do {
             let tm = tm\<lparr>max_threads := max_threads tm * 2\<rparr>;
             let tm = tm\<lparr>threads := realloc junk (threads tm) (nat (max_threads tm))\<rparr>;
             ts \<leftarrow> arr_set (threads tm) (nat (tm_size tm)) t;
             Some (tm\<lparr>threads := ts\<rparr>) });
        Some (tm\<lparr>tm_size := tm_size tm + 1\<rparr>) }
      else Some tm)"

text \<open>The thread \<open>t\<close> ends itself; the first component says whether it did (\<open>pthread_exit\<close>, the call
  does not return) or whether the call returned \<open>EXIT_FAILURE\<close>.\<close>

definition thread_manager_end_thread ::
    "thread_manager_t \<Rightarrow> pthread_t \<Rightarrow> (bool \<times> thread_manager_t) option" where
  "thread_manager_end_thread tm t = do {
     i \<leftarrow> thread_manager_get_index tm t;
     if i = -1 then Some (False, tm)
     else do {
       ts \<leftarrow> (if 1 < tm_size tm
             then do { t' \<leftarrow> arr_get (threads tm) (nat (tm_size tm - 1)); arr_set (threads tm) (nat i) t' }
             else Some (threads tm));
       Some (True, tm\<lparr>threads := ts, tm_size := tm_size tm - 1\<rparr>) } }"

text \<open>The threads that are cancelled; each is also the first argument of \<open>kill\<close>.\<close>

definition thread_manager_end_threads ::
    "thread_manager_t \<Rightarrow> (pthread_t list \<times> thread_manager_t) option" where
  "thread_manager_end_threads tm = do {
     cancelled \<leftarrow> foldM (\<lambda>i acc. do { t \<leftarrow> arr_get (threads tm) i; Some (acc @ [t]) })
       [0..<nat (tm_size tm)] [];
     Some (cancelled, tm\<lparr>tm_size := 0\<rparr>) }"

definition thread_manager_destroy ::
    "thread_manager_t \<Rightarrow> (pthread_t list \<times> thread_manager_t) option" where
  "thread_manager_destroy tm = do {
     (cancelled, tm) \<leftarrow> (if tm_init tm then thread_manager_end_threads tm else Some ([], tm));
     Some (cancelled, tm\<lparr>threads := [], tm_size := 0, tm_init := False\<rparr>) }"

text \<open>The static manager, which is zero at the start.\<close>

definition static_manager :: thread_manager_t where
  "static_manager = \<lparr>threads = [], tm_size = 0, max_threads = 0, tm_init = False\<rparr>"

definition thread_manager_init :: "thread_manager_t \<Rightarrow> thread_manager_t" where
  "thread_manager_init this = (if \<not> tm_init this then new_thread_manager else this)"

subsection \<open>The contract\<close>

text \<open>\<open>wf n\<close> is the state after at most \<open>n\<close> launches. Up to \<open>limit\<close> of them every launch adds the
  thread, and the end of a thread takes one occurrence of it away and says whether there was one.\<close>

locale registry =
  fixes launch :: "'s \<Rightarrow> 't \<Rightarrow> 's option"
    and leave :: "'s \<Rightarrow> 't \<Rightarrow> (bool \<times> 's) option"
    and tracked :: "'s \<Rightarrow> 't multiset"
    and wf :: "nat \<Rightarrow> 's \<Rightarrow> bool"
    and limit :: nat
  assumes launch_adds: "wf n s \<Longrightarrow> n < limit \<Longrightarrow>
      \<exists>s'. launch s t = Some s' \<and> wf (Suc n) s' \<and> tracked s' = add_mset t (tracked s)"
    and leave_removes: "wf n s \<Longrightarrow>
      \<exists>s'. leave s t = Some (t \<in># tracked s, s') \<and> wf n s' \<and> tracked s' = tracked s - {#t#}"
begin

text \<open>A thread that was launched and is still tracked ends once.\<close>

lemma launched_leaves:
  assumes "wf n s" and "n < limit"
  shows "\<exists>s' s''. launch s t = Some s' \<and> leave s' t = Some (True, s'') \<and> wf (Suc n) s'' \<and>
    tracked s'' = tracked s"
proof -
  obtain s' where s': "launch s t = Some s'" "wf (Suc n) s'" "tracked s' = add_mset t (tracked s)"
    using launch_adds [OF assms] by blast
  obtain s'' where "leave s' t = Some (t \<in># tracked s', s'')" "wf (Suc n) s''" "tracked s'' = tracked s' - {#t#}"
    using leave_removes [OF s'(2)] by blast
  then show ?thesis using s' by auto
qed

lemma stranger_stays:
  "wf n s \<Longrightarrow> t \<notin># tracked s \<Longrightarrow> \<exists>s'. leave s t = Some (False, s') \<and> tracked s' = tracked s"
  using leave_removes [of n s t] by (auto simp: diff_single_trivial)

end

subsection \<open>The manager keeps it\<close>

definition tracked :: "thread_manager_t \<Rightarrow> pthread_t multiset" where
  "tracked tm = mset (take (nat (tm_size tm)) (threads tm))"

definition tm_wf :: "nat \<Rightarrow> thread_manager_t \<Rightarrow> bool" where
  "tm_wf n tm \<longleftrightarrow> tm_init tm \<and> 0 \<le> tm_size tm \<and> tm_size tm \<le> int n \<and> tm_size tm \<le> max_threads tm \<and>
     int (length (threads tm)) = max_threads tm \<and> 0 < max_threads tm \<and> max_threads tm \<le> max 6 (2 * int n)"

lemma tm_size_length: "tm_wf n tm \<Longrightarrow> nat (tm_size tm) \<le> length (threads tm)"
  by (auto simp: tm_wf_def)

lemma new_thread_manager_wf: "tm_wf 0 new_thread_manager" "tracked new_thread_manager = {#}"
  by (simp_all add: new_thread_manager_def tm_wf_def tracked_def)

lemma tracked_push:
  assumes "i < length xs"
  shows "mset (take (Suc i) (xs[i := t])) = add_mset t (mset (take i xs))"
  using assms by (simp add: take_Suc_conv_app_nth)

lemma launch_tracks:
  assumes wf: "tm_wf n tm" and "n < 2 ^ 30"
  shows "\<exists>tm'. thread_manager_launch junk tm t = Some tm' \<and> tm_wf (Suc n) tm' \<and>
    tracked tm' = add_mset t (tracked tm)"
proof (cases "tm_size tm < max_threads tm")
  case True
  then have i: "nat (tm_size tm) < length (threads tm)" using wf by (auto simp: tm_wf_def)
  then show ?thesis
    using wf True tracked_push [OF i, of t]
    by (auto simp: thread_manager_launch_def tm_wf_def tracked_def Suc_nat_eq_nat_zadd1 add.commute)
next
  case False
  then have full: "tm_size tm = max_threads tm" "nat (tm_size tm) = length (threads tm)"
    using wf by (auto simp: tm_wf_def)
  let ?ts = "realloc junk (threads tm) (nat (max_threads tm * 2))"
  have len: "length ?ts = nat (max_threads tm * 2)" and pre: "take (length (threads tm)) ?ts = threads tm"
    using wf by (auto simp: realloc_def tm_wf_def)
  have i: "nat (tm_size tm) < length ?ts" using full wf len by (auto simp: tm_wf_def)
  have suc: "nat (1 + max_threads tm) = Suc (length (threads tm))" using wf by (auto simp: tm_wf_def)
  have "max_threads tm * 2 < 2 ^ 31" using wf full(1) assms(2) by (auto simp: tm_wf_def)
  then show ?thesis
    using wf False full i len pre suc tracked_push [OF i, of t]
    by (auto simp: thread_manager_launch_def tm_wf_def tracked_def Suc_nat_eq_nat_zadd1 add.commute Let_def)
qed

lemma mset_take_pop:
  assumes "i < n" and "n \<le> length xs"
  shows "mset (take (n - 1) (xs[i := xs ! (n - 1)])) = mset (take n xs) - {#xs ! i#}"
proof -
  obtain m where n: "n = Suc m" using assms(1) by (cases n) auto
  have all: "mset (take n xs) = add_mset (xs ! m) (mset (take m xs))"
    using assms(2) n by (simp add: take_Suc_conv_app_nth)
  show ?thesis
  proof (cases "i = m")
    case True
    then show ?thesis using all n by simp
  next
    case False
    then have i: "i < length (take m xs)" using assms n by simp
    have "take m (xs[i := xs ! m]) = (take m xs)[i := xs ! m]" by (rule take_update_swap)
    moreover have "xs ! i \<in># mset (take m xs)" using i False assms n by (metis nth_mem nth_take length_take min_less_iff_conj set_mset_mset)
    ultimately show ?thesis using all n mset_update [OF i, of "xs ! m"] i by (simp add: add_mset_remove_trivial_eq)
  qed
qed

lemma get_index_eq:
  assumes "tm_wf n tm"
  shows "thread_manager_get_index tm t = Some
    (case find (\<lambda>i. threads tm ! i = t) [0..<nat (tm_size tm)] of Some i \<Rightarrow> int i | None \<Rightarrow> -1)"
proof -
  have "findM (\<lambda>i. do { u \<leftarrow> arr_get (threads tm) i; Some (u = t) }) [0..<nat (tm_size tm)] =
      Some (find (\<lambda>i. threads tm ! i = t) [0..<nat (tm_size tm)])"
    by (rule findM_find) (use assms in \<open>auto simp: tm_wf_def\<close>)
  then show ?thesis by (simp add: thread_manager_get_index_def)
qed

lemma end_thread_untracks:
  assumes wf: "tm_wf n tm"
  shows "\<exists>tm'. thread_manager_end_thread tm t = Some (t \<in># tracked tm, tm') \<and> tm_wf n tm' \<and>
    tracked tm' = tracked tm - {#t#}"
proof (cases "find (\<lambda>i. threads tm ! i = t) [0..<nat (tm_size tm)]")
  case None
  then have "t \<notin># tracked tm" using wf
    by (auto simp: find_upt_None tracked_def in_set_conv_nth tm_wf_def)
  then show ?thesis using None wf get_index_eq [OF wf, of t]
    by (simp add: thread_manager_end_thread_def diff_single_trivial)
next
  case (Some i)
  then have i: "i < nat (tm_size tm)" "threads tm ! i = t" by (auto simp: find_Some_iff)
  let ?n = "nat (tm_size tm)"
  have len: "?n \<le> length (threads tm)" using wf by (rule tm_size_length)
  have mem: "t \<in># tracked tm" using i len by (auto simp: tracked_def in_set_conv_nth)
  let ?ts = "(threads tm)[i := threads tm ! (?n - 1)]"
  have pop: "mset (take (?n - 1) ?ts) = tracked tm - {#t#}"
    using mset_take_pop [OF i(1) len] i(2) by (simp add: tracked_def)
  have one: "(threads tm)[i := threads tm ! (?n - 1)] = threads tm" if "\<not> 1 < tm_size tm"
  proof -
    have "i = 0" "?n - 1 = 0" using that i(1) by linarith+
    then show ?thesis by simp
  qed
  have idx: "nat (tm_size tm - 1) = ?n - 1" by simp
  have "thread_manager_end_thread tm t = Some (True, tm\<lparr>threads := ?ts, tm_size := tm_size tm - 1\<rparr>)"
    using Some i len one get_index_eq [OF wf, of t] by (simp add: thread_manager_end_thread_def idx)
  then show ?thesis using wf mem pop i(1) by (auto simp: tm_wf_def tracked_def idx)
qed

interpretation manager: registry "thread_manager_launch junk" thread_manager_end_thread tracked tm_wf "2 ^ 30"
  for junk
  by unfold_locales (rule launch_tracks, assumption+, rule end_thread_untracks)

text \<open>At the end all the threads that are tracked are cancelled.\<close>

lemma end_threads_all:
  assumes "tm_wf n tm"
  shows "thread_manager_end_threads tm = Some (take (nat (tm_size tm)) (threads tm), tm\<lparr>tm_size := 0\<rparr>)"
proof -
  have "foldM (\<lambda>i acc. do { t \<leftarrow> arr_get (threads tm) i; Some (acc @ [t]) }) [0..<k] acc =
      Some (acc @ take k (threads tm))" if "k \<le> length (threads tm)" for k acc
    using that by (induction k) (auto simp: foldM_append take_Suc_conv_app_nth)
  from this [OF tm_size_length [OF assms], of "[]"] show ?thesis by (simp add: thread_manager_end_threads_def)
qed

lemma destroy_cancels_tracked:
  assumes "tm_wf n tm"
  shows "\<exists>ts tm'. thread_manager_destroy tm = Some (ts, tm') \<and> mset ts = tracked tm \<and> \<not> tm_init tm'"
  using end_threads_all [OF assms] assms by (simp add: thread_manager_destroy_def tm_wf_def tracked_def)

end
