(* ===== verification/Network.thy ===== *)
theory Network
  imports Thread_Manager
begin

section \<open>Connections and servers\<close>

text \<open>
  How connections come to be: the part of \<open>lib/src/connection/conexion.c\<close> that resolves addresses,
  opens, connects and listens, \<open>on_module_connect\<close> of \<open>modules/module.c\<close>, and
  \<open>lib/src/connection/server.c\<close> with the threads of its clients. The calls of the system
  (\<open>getaddrinfo\<close>, \<open>socket\<close>, \<open>bind\<close>, \<open>listen\<close>, \<open>connect\<close>, \<open>accept\<close>) answer by parameters. The bytes
  that go over a connection once it is made are the subject of \<open>Wire\<close>.
\<close>

subsection \<open>Connections\<close>

type_synonym addrinfo = nat

record net_env =
  getaddrinfo :: "string \<Rightarrow> string \<Rightarrow> addrinfo list option"
  open_socket :: "addrinfo \<Rightarrow> int"
  bind_socket :: "int \<Rightarrow> addrinfo \<Rightarrow> int"
  listen_socket :: "int \<Rightarrow> int"

record endpoint_t =
  info_server :: "addrinfo list"
  fd :: int
  connected :: bool

text \<open>\<open>_address\<close>: the list of addresses, \<open>None\<close> when it returns \<open>ERROR\<close>.\<close>

definition address :: "net_env \<Rightarrow> string \<Rightarrow> string \<Rightarrow> addrinfo list option" where
  "address env ip port = getaddrinfo env ip port"

text \<open>The result of \<open>_address\<close> is not looked at: when it fails, or gives no address, the pointer that
  is followed is not one.\<close>

definition conexion_cliente_create :: "net_env \<Rightarrow> string \<Rightarrow> string \<Rightarrow> endpoint_t option" where
  "conexion_cliente_create env ip port = do {
     infos \<leftarrow> address env ip port;
     info \<leftarrow> (case infos of [] \<Rightarrow> None | info # _ \<Rightarrow> Some info);
     Some \<lparr>info_server = infos, fd = open_socket env info, connected = False\<rparr> }"

text \<open>The loop over the addresses: the socket of the first that opens and binds, or what the last
  one left.\<close>

fun bind_loop :: "net_env \<Rightarrow> addrinfo list \<Rightarrow> int \<Rightarrow> int" where
  "bind_loop env [] s = s"
| "bind_loop env (info # infos) s =
     (let s = open_socket env info in
      if s < 0 then bind_loop env infos s
      else if bind_socket env s info = -1 then bind_loop env infos s
      else s)"

definition conexion_servidor_create :: "net_env \<Rightarrow> string \<Rightarrow> string \<Rightarrow> endpoint_t" where
  "conexion_servidor_create env ip port =
     (case address env ip port of
        None \<Rightarrow> \<lparr>info_server = [], fd = 0, connected = False\<rparr>
      | Some infos \<Rightarrow> \<lparr>info_server = infos, fd = bind_loop env infos 0, connected = False\<rparr>)"

text \<open>\<open>result\<close> is what \<open>connect\<close> returns.\<close>

definition conexion_conectar :: "int \<Rightarrow> endpoint_t \<Rightarrow> int \<times> endpoint_t" where
  "conexion_conectar result this =
     (let this = this\<lparr>connected := (result \<noteq> -1)\<rparr> in (if connected this then fd this else -1, this))"

definition conexion_escuchar :: "net_env \<Rightarrow> endpoint_t \<Rightarrow> int \<times> endpoint_t" where
  "conexion_escuchar env this =
     (let this = this\<lparr>connected := (listen_socket env (fd this) \<noteq> -1)\<rparr> in
      (if connected this then 1 else -1, this))"

definition conexion_esta_conectada :: "endpoint_t \<Rightarrow> bool" where
  "conexion_esta_conectada this = connected this"

text \<open>The descriptors that a call closes.\<close>

definition conexion_desconectar :: "endpoint_t \<Rightarrow> int list" where
  "conexion_desconectar this = [fd this]"

definition conexion_destroy :: "endpoint_t \<Rightarrow> int list" where
  "conexion_destroy this = conexion_desconectar this"

subsection \<open>Connecting to another module\<close>

text \<open>The loop of \<open>on_module_connect\<close>, with what \<open>connect\<close> answers to each attempt and the number of
  attempts made. A loop that does not end is \<open>None\<close>.\<close>

partial_function (option) connect_loop ::
    "(nat \<Rightarrow> int) \<Rightarrow> nat \<Rightarrow> endpoint_t \<Rightarrow> (nat \<times> endpoint_t) option" where
  "connect_loop answers i this =
     (if conexion_esta_conectada this then Some (i, this)
      else connect_loop answers (Suc i) (snd (conexion_conectar (answers i) this)))"

definition on_module_connect :: "(nat \<Rightarrow> int) \<Rightarrow> bool \<Rightarrow> endpoint_t \<Rightarrow> (int \<times> endpoint_t) option" where
  "on_module_connect answers offline_mode this =
     (if offline_mode then Some (-1, this)
      else do { (_, this) \<leftarrow> connect_loop answers 0 this; Some (1, this) })"

lemma connect_loop_first:
  assumes "i \<le> n" "answers n \<noteq> -1" "\<And>k. i \<le> k \<Longrightarrow> k < n \<Longrightarrow> answers k = -1" "\<not> connected this"
  shows "connect_loop answers i this = Some (Suc n, this\<lparr>connected := True\<rparr>)"
  using assms
proof (induction "n - i" arbitrary: i this)
  case 0
  then have "i = n" by simp
  then show ?case using 0
    by (subst connect_loop.simps)
      (simp add: conexion_esta_conectada_def conexion_conectar_def Let_def connect_loop.simps [of _ _ "_\<lparr>connected := True\<rparr>"])
next
  case (Suc d)
  then have "i < n" by simp
  then have "answers i = -1" using Suc.prems by blast
  then have step: "connect_loop answers i this = connect_loop answers (Suc i) (this\<lparr>connected := False\<rparr>)"
    using Suc.prems(4)
    by (subst connect_loop.simps) (simp add: conexion_esta_conectada_def conexion_conectar_def Let_def)
  have "connect_loop answers (Suc i) (this\<lparr>connected := False\<rparr>) =
      Some (Suc n, this\<lparr>connected := False, connected := True\<rparr>)"
    using Suc \<open>i < n\<close> by (intro Suc.hyps(1)) auto
  then show ?case using step by simp
qed

lemma connect_loop_ends:
  assumes "connect_loop answers i this = Some r" and "\<not> connected this"
  shows "\<exists>k. answers k \<noteq> -1"
proof -
  have "connected this \<or> (\<exists>k. answers k \<noteq> -1)"
  proof (rule connect_loop.raw_induct [where P = "\<lambda>answers i this r. connected this \<or> (\<exists>k. answers k \<noteq> -1)",
        OF _ assms(1)])
    fix loop and answers :: "nat \<Rightarrow> int" and i this r
    assume ih: "\<And>answers i this r. loop answers i this = Some r \<Longrightarrow> connected this \<or> (\<exists>k. (answers k :: int) \<noteq> -1)"
      and run: "(if conexion_esta_conectada this then Some (i, this)
        else loop answers (Suc i) (snd (conexion_conectar (answers i) this))) = Some r"
    show "connected this \<or> (\<exists>k. answers k \<noteq> -1)"
    proof (cases "connected this \<or> answers i \<noteq> -1")
      case False
      then have "loop answers (Suc i) (this\<lparr>connected := False\<rparr>) = Some r"
        using run by (simp add: conexion_esta_conectada_def conexion_conectar_def Let_def)
      from ih [OF this] show ?thesis by simp
    qed blast
  qed
  then show ?thesis using assms by blast
qed

text \<open>A client that is not connected yet keeps trying: it is connected after the first attempt that
  succeeds, and without one it never returns.\<close>

lemma on_module_connect_eq:
  assumes "\<not> connected this"
  shows "on_module_connect answers False this =
    (if \<exists>k. answers k \<noteq> -1 then Some (1, this\<lparr>connected := True\<rparr>) else None)"
proof (cases "\<exists>k. answers k \<noteq> -1")
  case True
  define n where "n = (LEAST k. answers k \<noteq> -1)"
  have "answers n \<noteq> -1" unfolding n_def by (rule LeastI_ex [OF True])
  moreover have "answers k = -1" if "k < n" for k using not_less_Least that unfolding n_def by blast
  ultimately have "connect_loop answers 0 this = Some (Suc n, this\<lparr>connected := True\<rparr>)"
    using assms by (intro connect_loop_first) auto
  then show ?thesis using True by (simp add: on_module_connect_def)
next
  case False
  then have "connect_loop answers 0 this = None"
    using connect_loop_ends [OF _ assms] by (cases "connect_loop answers 0 this") auto
  then show ?thesis using False by (simp add: on_module_connect_def)
qed

subsection \<open>Servers\<close>

record servidor_t =
  srv_conexion :: endpoint_t
  iniciado :: bool
  srv_client :: int
  srv_tm :: thread_manager_t

definition servidor_create :: "net_env \<Rightarrow> string \<Rightarrow> string \<Rightarrow> servidor_t" where
  "servidor_create env ip port =
     \<lparr>srv_conexion = conexion_servidor_create env ip port, iniciado = False, srv_client = -1,
      srv_tm = new_thread_manager\<rparr>"

definition servidor_escuchar :: "net_env \<Rightarrow> servidor_t \<Rightarrow> int \<times> servidor_t" where
  "servidor_escuchar env server =
     (let (r, c) = conexion_escuchar env (srv_conexion server) in (r, server\<lparr>srv_conexion := c\<rparr>))"

text \<open>\<open>result\<close> is what \<open>accept\<close> returns.\<close>

definition server_accept_client :: "int \<Rightarrow> servidor_t \<Rightarrow> int \<times> servidor_t" where
  "server_accept_client result server =
     (result, if 0 < result then server\<lparr>srv_client := result\<rparr> else server)"

definition servidor_run ::
    "(nat \<Rightarrow> pthread_t) \<Rightarrow> int \<Rightarrow> pthread_t \<Rightarrow> servidor_t \<Rightarrow> servidor_t option" where
  "servidor_run junk result t server =
     (let (client, server) = server_accept_client result server in
      if 0 < client then do {
        tm \<leftarrow> thread_manager_launch junk (srv_tm server) t;
        Some (server\<lparr>srv_tm := tm\<rparr>) }
      else Some server)"

text \<open>The descriptors that are closed and the threads that are cancelled.\<close>

definition servidor_destroy :: "servidor_t \<Rightarrow> (int list \<times> pthread_t list \<times> servidor_t) option" where
  "servidor_destroy server = do {
     let closed = conexion_destroy (srv_conexion server);
     let closed = (if 0 < srv_client server then closed @ [srv_client server] else closed);
     (cancelled, tm) \<leftarrow> thread_manager_destroy (srv_tm server);
     Some (closed, cancelled, server\<lparr>srv_tm := tm\<rparr>) }"

text \<open>What happens to a server: a call of \<open>servidor_run\<close>, with the result of \<open>accept\<close> and the thread
  that is made; and the end of a thread, by which a routine leaves when its client is gone.\<close>

datatype server_event = Accepts int pthread_t | Ends pthread_t

fun server_step :: "(nat \<Rightarrow> pthread_t) \<Rightarrow> server_event \<Rightarrow> servidor_t \<Rightarrow> servidor_t option" where
  "server_step junk (Accepts result t) server = servidor_run junk result t server"
| "server_step junk (Ends t) server = do {
     (_, tm) \<leftarrow> thread_manager_end_thread (srv_tm server) t;
     Some (server\<lparr>srv_tm := tm\<rparr>) }"

text \<open>The threads that should be tracked, and the last client that was accepted.\<close>

fun live_step :: "pthread_t multiset \<Rightarrow> server_event \<Rightarrow> pthread_t multiset" where
  "live_step M (Accepts result t) = (if 0 < result then add_mset t M else M)"
| "live_step M (Ends t) = M - {#t#}"

fun client_step :: "int \<Rightarrow> server_event \<Rightarrow> int" where
  "client_step c (Accepts result t) = (if 0 < result then result else c)"
| "client_step c (Ends t) = c"

lemma server_step_tracks:
  assumes "tm_wf n (srv_tm server)" and "n < 2 ^ 30"
  shows "\<exists>server'. server_step junk e server = Some server' \<and> tm_wf (Suc n) (srv_tm server') \<and>
    tracked (srv_tm server') = live_step (tracked (srv_tm server)) e \<and>
    srv_client server' = client_step (srv_client server) e \<and> srv_conexion server' = srv_conexion server"
proof -
  have more: "tm_wf (Suc n) tm" if "tm_wf n tm" for tm using that by (auto simp: tm_wf_def)
  show ?thesis
  proof (cases e)
    case (Accepts result t)
    then show ?thesis
      using manager.launch_adds [OF assms, of junk t] more [OF assms(1)]
      by (auto simp: servidor_run_def server_accept_client_def)
  next
    case (Ends t)
    then show ?thesis using manager.leave_removes [OF assms(1), of t] more by auto
  qed
qed

lemma server_run_tracks:
  assumes "tm_wf n (srv_tm server)" and "n + length es \<le> 2 ^ 30"
  shows "\<exists>server'. foldM (server_step junk) es server = Some server' \<and>
    tm_wf (n + length es) (srv_tm server') \<and>
    tracked (srv_tm server') = foldl live_step (tracked (srv_tm server)) es \<and>
    srv_client server' = foldl client_step (srv_client server) es \<and>
    srv_conexion server' = srv_conexion server"
  using assms
proof (induction es arbitrary: n server)
  case Nil
  then show ?case by simp
next
  case (Cons e es)
  have "n < 2 ^ 30" using Cons.prems(2) by simp
  from server_step_tracks [OF Cons.prems(1) this]
  obtain s where s: "server_step junk e server = Some s" "tm_wf (Suc n) (srv_tm s)"
    "tracked (srv_tm s) = live_step (tracked (srv_tm server)) e"
    "srv_client s = client_step (srv_client server) e" "srv_conexion s = srv_conexion server" by blast
  then show ?case using Cons.IH [of "Suc n" s] Cons.prems(2) by simp
qed

text \<open>A server whose address opens listens on the first socket that binds.\<close>

lemma bind_loop_first:
  assumes "list_all (\<lambda>i. open_socket env i < 0 \<or> bind_socket env (open_socket env i) i = -1) before"
    and "0 \<le> open_socket env info" and "bind_socket env (open_socket env info) info \<noteq> -1"
  shows "bind_loop env (before @ info # after) s = open_socket env info"
  using assms by (induction before arbitrary: s) (auto simp: Let_def)

end
