(* ===== verification/Shutdown.thy ===== *)
theory Shutdown
  imports Kernel_Invariant Thread_Manager
begin

section \<open>The end of the kernel\<close>

text \<open>
  What the kernel frees when it ends: \<open>scheduler_delete\<close> of \<open>kernel/src/scheduling/scheduler.c\<close>, the
  destruction of the queues (\<open>safe_queue.c\<close>, \<open>smartqueues.c\<close>) and of a list (\<open>safe_list.c\<close>, \<open>smartlist.c\<close>).
  A PCB that is freed twice is undefined; in a state of the invariant none is.
\<close>

text \<open>A destroyer is applied to the elements in their order; an empty queue or list is destroyed alone.\<close>

definition queue_smart_destroy :: "('a \<Rightarrow> 's \<Rightarrow> 's option) \<Rightarrow> 'a list \<Rightarrow> 's \<Rightarrow> 's option" where
  "queue_smart_destroy destroyer q s = (if q = [] then Some s else foldM destroyer q s)"

definition safe_queue_destroy :: "('a \<Rightarrow> 's \<Rightarrow> 's option) \<Rightarrow> 'a safe_queue \<Rightarrow> 's \<Rightarrow> 's option" where
  "safe_queue_destroy destroyer q s = queue_smart_destroy destroyer q s"

definition list_smart_destroy :: "('a \<Rightarrow> 's \<Rightarrow> 's option) \<Rightarrow> 'a list \<Rightarrow> 's \<Rightarrow> 's option" where
  "list_smart_destroy destroyer l s = (if l = [] then Some s else foldM destroyer l s)"

definition safe_list_destroy_with :: "('a \<Rightarrow> 's \<Rightarrow> 's option) \<Rightarrow> 'a list \<Rightarrow> 's \<Rightarrow> 's option" where
  "safe_list_destroy_with destroyer l s = list_smart_destroy destroyer l s"

text \<open>The queues of the scheduler with their PCBs; then its threads are cancelled.\<close>

definition destroy_queues :: "'m kernel \<Rightarrow> 'm kernel option" where
  "destroy_queues k = do {
     k \<leftarrow> safe_queue_destroy (\<lambda>a k. pcb_destroy k a) (q_new k) k;
     k \<leftarrow> safe_queue_destroy (\<lambda>a k. pcb_destroy k a) (q_ready k) k;
     k \<leftarrow> safe_queue_destroy (\<lambda>a k. pcb_destroy k a) (q_ready_sus k) k;
     k \<leftarrow> safe_queue_destroy (\<lambda>a k. pcb_destroy k a) (q_blocked k) k;
     safe_queue_destroy (\<lambda>a k. pcb_destroy k a) (q_blocked_sus k) k }"

definition scheduler_delete :: "thread_manager_t \<Rightarrow> 'm kernel \<Rightarrow> (pthread_t list \<times> 'm kernel) option" where
  "scheduler_delete tm k = do {
     k \<leftarrow> destroy_queues k;
     (cancelled, _) \<leftarrow> thread_manager_destroy tm;
     Some (cancelled, k) }"

text \<open>The PCBs that \<open>on_delete_kernel\<close> frees: those of the queues, and those that wait for their program.\<close>

definition delete_processes :: "thread_manager_t \<Rightarrow> 'm kernel \<Rightarrow> (pthread_t list \<times> 'm kernel) option" where
  "delete_processes tm k = do {
     (cancelled, k) \<leftarrow> scheduler_delete tm k;
     k \<leftarrow> safe_list_destroy_with (\<lambda>a k. pcb_destroy k a) (pcbs k) k;
     Some (cancelled, k) }"

lemma destroy_all:
  assumes "distinct l" and "set l \<subseteq> dom (pcb_heap k)"
  shows "foldM (\<lambda>a k. pcb_destroy k a) l k = Some (k\<lparr>pcb_heap := pcb_heap k |` (- set l)\<rparr>)"
  using assms
proof (induction l arbitrary: k)
  case Nil
  have "pcb_heap k |` UNIV = pcb_heap k" by (rule ext) simp
  then show ?case by simp
next
  case (Cons a l)
  let ?k = "k\<lparr>pcb_heap := (pcb_heap k)(a := None)\<rparr>"
  have "pcb_destroy k a = Some ?k" using Cons.prems(2) by (auto simp: pcb_destroy_def)
  moreover have "foldM (\<lambda>a k. pcb_destroy k a) l ?k = Some (?k\<lparr>pcb_heap := pcb_heap ?k |` (- set l)\<rparr>)"
    using Cons.prems by (intro Cons.IH) auto
  moreover have "(pcb_heap k)(a := None) |` (- set l) = pcb_heap k |` (- set (a # l))"
    by (rule ext) (simp add: restrict_map_def)
  ultimately show ?case by simp
qed

lemma destroy_list:
  assumes "distinct l" and "set l \<subseteq> dom (pcb_heap k)"
  shows "safe_queue_destroy (\<lambda>a k. pcb_destroy k a) l k = Some (k\<lparr>pcb_heap := pcb_heap k |` (- set l)\<rparr>)"
    and "safe_list_destroy_with (\<lambda>a k. pcb_destroy k a) l k = Some (k\<lparr>pcb_heap := pcb_heap k |` (- set l)\<rparr>)"
  using destroy_all [OF assms] destroy_all [of "[]" k]
  by (auto simp: safe_queue_destroy_def queue_smart_destroy_def safe_list_destroy_with_def list_smart_destroy_def)

text \<open>Freeing PCBs leaves the queues as they were.\<close>

lemma destroy_pcbs_queues:
  assumes "foldM (\<lambda>a k. pcb_destroy k a) l k = Some k'"
  shows "\<exists>h. k' = k\<lparr>pcb_heap := h\<rparr>"
  using assms
proof (induction l arbitrary: k)
  case Nil
  then show ?case by (intro exI [of _ "pcb_heap k"]) simp
next
  case (Cons a l)
  then obtain k1 where "pcb_destroy k a = Some k1" "foldM (\<lambda>a k. pcb_destroy k a) l k1 = Some k'"
    by (auto simp: bind_eq_Some_conv)
  moreover from this(1) obtain h where "k1 = k\<lparr>pcb_heap := h\<rparr>" by (auto simp: pcb_destroy_def bind_eq_Some_conv)
  ultimately show ?case using Cons.IH [of k1] by auto
qed

lemma destroy_queue_foldM: "safe_queue_destroy f q s = foldM f q s"
  by (simp add: safe_queue_destroy_def queue_smart_destroy_def)

lemma destroy_pcbs_bind:
  assumes "\<And>h. f (k\<lparr>pcb_heap := h\<rparr>) = g (k\<lparr>pcb_heap := h\<rparr>)"
  shows "foldM (\<lambda>a k. pcb_destroy k a) l k \<bind> f = foldM (\<lambda>a k. pcb_destroy k a) l k \<bind> g"
  using destroy_pcbs_queues [of l k] assms by (cases "foldM (\<lambda>a k. pcb_destroy k a) l k") auto

lemma destroy_queues_append:
  "destroy_queues k = foldM (\<lambda>a k. pcb_destroy k a)
     (q_new k @ q_ready k @ q_ready_sus k @ q_blocked k @ q_blocked_sus k) k"
  unfolding destroy_queues_def destroy_queue_foldM foldM_append
  by (rule destroy_pcbs_bind, simp, rule destroy_pcbs_bind [where k = "k\<lparr>pcb_heap := _\<rparr>", simplified], simp,
      rule destroy_pcbs_bind [where k = "k\<lparr>pcb_heap := _\<rparr>", simplified], simp,
      rule destroy_pcbs_bind [where k = "k\<lparr>pcb_heap := _\<rparr>", simplified], simp)

text \<open>In a state of the invariant each PCB is freed once, but for the one that the I/O unit has.\<close>

lemma delete_processes_frees:
  assumes "owned k" and "tm_wf n tm"
  shows "\<exists>ts k'. delete_processes tm k = Some (ts, k') \<and> mset ts = tracked tm \<and> dom (pcb_heap k') = set (in_io k)"
proof -
  have own: "distinct (places k)" "set (places k) = dom (pcb_heap k)" using assms(1) by (simp_all add: owned_def)
  obtain ts tm' where ts: "thread_manager_destroy tm = Some (ts, tm')" "mset ts = tracked tm"
    using destroy_cancels_tracked [OF assms(2)] by blast
  let ?l = "q_new k @ q_ready k @ q_ready_sus k @ q_blocked k @ q_blocked_sus k"
  have "distinct ?l" "set ?l \<subseteq> dom (pcb_heap k)" using own unfolding places_def by auto
  from destroy_all [OF this] have "destroy_queues k = Some (k\<lparr>pcb_heap := pcb_heap k |` (- set ?l)\<rparr>)"
    unfolding destroy_queues_append .
  then have "\<exists>k'. destroy_queues k = Some k' \<and> pcbs k' = pcbs k \<and> pcb_heap k' = pcb_heap k |` (- set ?l)" by simp
  then obtain k' where k': "destroy_queues k = Some k'" "pcbs k' = pcbs k"
    "pcb_heap k' = pcb_heap k |` (- set (q_new k @ q_ready k @ q_ready_sus k @ q_blocked k @ q_blocked_sus k))" by blast
  have "distinct (pcbs k)" "set (pcbs k) \<subseteq> dom (pcb_heap k')"
    using own unfolding places_def by (auto simp: k'(3))
  then have "safe_list_destroy_with (\<lambda>a k. pcb_destroy k a) (pcbs k) k' =
      Some (k'\<lparr>pcb_heap := pcb_heap k' |` (- set (pcbs k))\<rparr>)" by (rule destroy_list(2))
  moreover have "dom (pcb_heap k' |` (- set (pcbs k))) = set (in_io k)"
    using own unfolding places_def by (auto simp: k'(3))
  ultimately show ?thesis using k'(1,2) ts by (auto simp: delete_processes_def scheduler_delete_def)
qed

end
