(* ===== verification/Config.thy ===== *)
theory Config
  imports Prelude "HOL-Library.Sublist"
begin

section \<open>The configuration and the log of a module\<close>

text \<open>
  \<open>lib/src/common/cfg.c\<close> and \<open>log.c\<close>: which file a module's configuration and log are, when they are
  opened and closed, and the keys that the getters read. The commons library that parses the
  file and converts its values is the parameter \<open>commons\<close>; a key that is not in the file, like a
  NULL configuration, is undefined.
\<close>

subsection \<open>The library and the file system\<close>

record ('c, 'l, 'd) commons =
  config_create :: "string \<Rightarrow> 'c option"
  config_get_string_value :: "'c \<Rightarrow> string \<Rightarrow> string option"
  config_get_int_value :: "'c \<Rightarrow> string \<Rightarrow> int option"
  config_get_double_value :: "'c \<Rightarrow> string \<Rightarrow> 'd option"
  log_create :: "string \<Rightarrow> string \<Rightarrow> 'l option"

abbreviation MAX_CHARS :: nat where
  "MAX_CHARS \<equiv> 4096"

text \<open>\<open>getcwd\<close> into a buffer of \<open>n\<close> characters, with the name of the directory that there is.\<close>

definition getcwd :: "string option \<Rightarrow> nat \<Rightarrow> string option" where
  "getcwd dir n = (case dir of Some d \<Rightarrow> if length d + 1 \<le> n then Some d else None | None \<Rightarrow> None)"

definition strstr :: "string \<Rightarrow> string \<Rightarrow> bool" where
  "strstr haystack needle = list_ex (\<lambda>s. prefix needle s) (suffixes haystack)"

text \<open>\<open>strcat\<close> into a buffer of \<open>MAX_CHARS\<close> characters.\<close>

definition strcat :: "string \<Rightarrow> string \<Rightarrow> string option" where
  "strcat dest src = (if length dest + length src + 1 \<le> MAX_CHARS then Some (dest @ src) else None)"

subsection \<open>Opening and closing\<close>

text \<open>The static pointers of the two files.\<close>

record ('c, 'l) runtime =
  config_this :: "'c option"
  log_this :: "'l option"

definition config_path :: "string option \<Rightarrow> string \<Rightarrow> string option" where
  "config_path dir app_name = do {
     cfg_path \<leftarrow>
       (case getcwd dir MAX_CHARS of
          None \<Rightarrow> strcat ''../config/'' app_name
        | Some cwd \<Rightarrow>
            if strstr cwd app_name \<or> strstr cwd ''build'' then strcat ''../config/'' app_name
            else do { cfg_path \<leftarrow> strcat cwd ''/config/''; strcat cfg_path app_name });
     strcat cfg_path ''.cfg'' }"

definition config_init ::
    "('c, 'l, 'd) commons \<Rightarrow> string option \<Rightarrow> string \<Rightarrow> ('c, 'l) runtime \<Rightarrow> (int \<times> ('c, 'l) runtime) option" where
  "config_init lib dir app_name r = do {
     cfg_path \<leftarrow> config_path dir app_name;
     let r = (if config_this r = None then r\<lparr>config_this := config_create lib cfg_path\<rparr> else r);
     Some (if config_this r = None then -1 else 1, r) }"

definition config_initialized :: "('c, 'l) runtime \<Rightarrow> int" where
  "config_initialized r = (if config_this r = None then -1 else 1)"

definition config_close :: "('c, 'l) runtime \<Rightarrow> ('c, 'l) runtime" where
  "config_close r = r\<lparr>config_this := None\<rparr>"

definition log_path :: "string option \<Rightarrow> string \<Rightarrow> string option" where
  "log_path dir app_name = do {
     path \<leftarrow>
       (case getcwd dir MAX_CHARS of
          None \<Rightarrow> strcat ''../log/'' app_name
        | Some cwd \<Rightarrow>
            if strstr cwd app_name \<or> strstr cwd ''build'' then strcat ''../log/'' app_name
            else do { path \<leftarrow> strcat cwd ''/log/''; strcat path app_name });
     strcat path ''.log'' }"

definition log_init ::
    "('c, 'l, 'd) commons \<Rightarrow> string option \<Rightarrow> string \<Rightarrow> ('c, 'l) runtime \<Rightarrow> (int \<times> ('c, 'l) runtime) option" where
  "log_init lib dir app_name r = do {
     path \<leftarrow> log_path dir app_name;
     let r = (if log_this r = None then r\<lparr>log_this := log_create lib path app_name\<rparr> else r);
     Some (if log_this r = None then -1 else 1, r) }"

definition log_close :: "('c, 'l) runtime \<Rightarrow> ('c, 'l) runtime" where
  "log_close r = r\<lparr>log_this := None\<rparr>"

subsection \<open>The getters\<close>

definition config_string :: "('c, 'l, 'd) commons \<Rightarrow> ('c, 'l) runtime \<Rightarrow> string \<Rightarrow> string option" where
  "config_string lib r key = do { c \<leftarrow> config_this r; config_get_string_value lib c key }"

definition config_int :: "('c, 'l, 'd) commons \<Rightarrow> ('c, 'l) runtime \<Rightarrow> string \<Rightarrow> int option" where
  "config_int lib r key = do { c \<leftarrow> config_this r; config_get_int_value lib c key }"

definition config_double :: "('c, 'l, 'd) commons \<Rightarrow> ('c, 'l) runtime \<Rightarrow> string \<Rightarrow> 'd option" where
  "config_double lib r key = do { c \<leftarrow> config_this r; config_get_double_value lib c key }"

definition config_puerto :: "('c, 'l, 'd) commons \<Rightarrow> ('c, 'l) runtime \<Rightarrow> string option" where
  "config_puerto lib r = config_string lib r ''PUERTO''"

definition config_ip :: "('c, 'l, 'd) commons \<Rightarrow> ('c, 'l) runtime \<Rightarrow> string option" where
  "config_ip lib r = config_string lib r ''IP''"

definition config_puerto_kernel :: "('c, 'l, 'd) commons \<Rightarrow> ('c, 'l) runtime \<Rightarrow> string option" where
  "config_puerto_kernel lib r = config_string lib r ''PUERTO_KERNEL''"

definition config_ip_kernel :: "('c, 'l, 'd) commons \<Rightarrow> ('c, 'l) runtime \<Rightarrow> string option" where
  "config_ip_kernel lib r = config_string lib r ''IP_KERNEL''"

definition config_ip_memoria :: "('c, 'l, 'd) commons \<Rightarrow> ('c, 'l) runtime \<Rightarrow> string option" where
  "config_ip_memoria lib r = config_string lib r ''IP_MEMORIA''"

definition config_puerto_memoria :: "('c, 'l, 'd) commons \<Rightarrow> ('c, 'l) runtime \<Rightarrow> string option" where
  "config_puerto_memoria lib r = config_string lib r ''PUERTO_MEMORIA''"

definition config_ip_cpu :: "('c, 'l, 'd) commons \<Rightarrow> ('c, 'l) runtime \<Rightarrow> string option" where
  "config_ip_cpu lib r = config_string lib r ''IP_CPU''"

definition config_puerto_cpu_dispatch :: "('c, 'l, 'd) commons \<Rightarrow> ('c, 'l) runtime \<Rightarrow> string option" where
  "config_puerto_cpu_dispatch lib r = config_string lib r ''PUERTO_CPU_DISPATCH''"

definition config_puerto_cpu_interrupt :: "('c, 'l, 'd) commons \<Rightarrow> ('c, 'l) runtime \<Rightarrow> string option" where
  "config_puerto_cpu_interrupt lib r = config_string lib r ''PUERTO_CPU_INTERRUPT''"

definition config_puerto_escucha :: "('c, 'l, 'd) commons \<Rightarrow> ('c, 'l) runtime \<Rightarrow> string option" where
  "config_puerto_escucha lib r = config_string lib r ''PUERTO_ESCUCHA''"

definition config_algoritmo_planificacion :: "('c, 'l, 'd) commons \<Rightarrow> ('c, 'l) runtime \<Rightarrow> string option" where
  "config_algoritmo_planificacion lib r = config_string lib r ''ALGORITMO_PLANIFICACION''"

definition config_estimacion_inicial :: "('c, 'l, 'd) commons \<Rightarrow> ('c, 'l) runtime \<Rightarrow> int option" where
  "config_estimacion_inicial lib r = config_int lib r ''ESTIMACION_INICIAL''"

definition config_alfa :: "('c, 'l, 'd) commons \<Rightarrow> ('c, 'l) runtime \<Rightarrow> 'd option" where
  "config_alfa lib r = config_double lib r ''ALFA''"

definition config_grado_multiprogramacion :: "('c, 'l, 'd) commons \<Rightarrow> ('c, 'l) runtime \<Rightarrow> int option" where
  "config_grado_multiprogramacion lib r = config_int lib r ''GRADO_MULTIPROGRAMACION''"

definition config_tiempo_maximo_bloqueado :: "('c, 'l, 'd) commons \<Rightarrow> ('c, 'l) runtime \<Rightarrow> int option" where
  "config_tiempo_maximo_bloqueado lib r = config_int lib r ''TIEMPO_MAXIMO_BLOQUEADO''"

definition config_puerto_escucha_dispatch :: "('c, 'l, 'd) commons \<Rightarrow> ('c, 'l) runtime \<Rightarrow> string option" where
  "config_puerto_escucha_dispatch lib r = config_string lib r ''PUERTO_ESCUCHA_DISPATCH''"

definition config_puerto_escucha_interrupt :: "('c, 'l, 'd) commons \<Rightarrow> ('c, 'l) runtime \<Rightarrow> string option" where
  "config_puerto_escucha_interrupt lib r = config_string lib r ''PUERTO_ESCUCHA_INTERRUPT''"

definition config_retardo_noop :: "('c, 'l, 'd) commons \<Rightarrow> ('c, 'l) runtime \<Rightarrow> int option" where
  "config_retardo_noop lib r = config_int lib r ''RETARDO_NOOP''"

definition config_reemplazo_tlb :: "('c, 'l, 'd) commons \<Rightarrow> ('c, 'l) runtime \<Rightarrow> string option" where
  "config_reemplazo_tlb lib r = config_string lib r ''REEMPLAZO_TLB''"

definition config_entradas_tlb :: "('c, 'l, 'd) commons \<Rightarrow> ('c, 'l) runtime \<Rightarrow> int option" where
  "config_entradas_tlb lib r = config_int lib r ''ENTRADAS_TLB''"

definition config_tam_memoria :: "('c, 'l, 'd) commons \<Rightarrow> ('c, 'l) runtime \<Rightarrow> int option" where
  "config_tam_memoria lib r = config_int lib r ''TAM_MEMORIA''"

definition config_tam_pagina :: "('c, 'l, 'd) commons \<Rightarrow> ('c, 'l) runtime \<Rightarrow> int option" where
  "config_tam_pagina lib r = config_int lib r ''TAM_PAGINA''"

definition config_entradas_por_tabla :: "('c, 'l, 'd) commons \<Rightarrow> ('c, 'l) runtime \<Rightarrow> int option" where
  "config_entradas_por_tabla lib r = config_int lib r ''ENTRADAS_POR_TABLA''"

definition config_retardo_memoria :: "('c, 'l, 'd) commons \<Rightarrow> ('c, 'l) runtime \<Rightarrow> int option" where
  "config_retardo_memoria lib r = config_int lib r ''RETARDO_MEMORIA''"

definition config_algoritmo_reemplazo :: "('c, 'l, 'd) commons \<Rightarrow> ('c, 'l) runtime \<Rightarrow> string option" where
  "config_algoritmo_reemplazo lib r = config_string lib r ''ALGORITMO_REEMPLAZO''"

definition config_marcos_por_proceso :: "('c, 'l, 'd) commons \<Rightarrow> ('c, 'l) runtime \<Rightarrow> int option" where
  "config_marcos_por_proceso lib r = config_int lib r ''MARCOS_POR_PROCESO''"

definition config_retardo_swap :: "('c, 'l, 'd) commons \<Rightarrow> ('c, 'l) runtime \<Rightarrow> int option" where
  "config_retardo_swap lib r = config_int lib r ''RETARDO_SWAP''"

definition config_path_swap :: "('c, 'l, 'd) commons \<Rightarrow> ('c, 'l) runtime \<Rightarrow> string option" where
  "config_path_swap lib r = config_string lib r ''PATH_SWAP''"

subsection \<open>Which files they are\<close>

text \<open>A file is looked for beside the directory of the module when the program runs in a directory
  with the module's name or \<open>build\<close> in its path (or in none whose name fits), and else in the
  folder of the directory it runs in.\<close>

definition file_of :: "string \<Rightarrow> string \<Rightarrow> string option \<Rightarrow> string \<Rightarrow> string" where
  "file_of folder ext dir app_name =
     (case dir of
        Some d \<Rightarrow>
          if length d < MAX_CHARS \<and> \<not> sublist app_name d \<and> \<not> sublist ''build'' d
          then d @ ''/'' @ folder @ ''/'' @ app_name @ ext
          else ''../'' @ folder @ ''/'' @ app_name @ ext
      | None \<Rightarrow> ''../'' @ folder @ ''/'' @ app_name @ ext)"

lemma strstr_sublist: "strstr haystack needle \<longleftrightarrow> sublist needle haystack"
  by (auto simp: strstr_def list_ex_iff sublist_altdef')

lemma config_path_eq:
  "config_path dir app_name =
    (let p = file_of ''config'' ''.cfg'' dir app_name in if length p < MAX_CHARS then Some p else None)"
  by (cases dir) (auto simp: config_path_def getcwd_def file_of_def strstr_sublist strcat_def Let_def)

lemma log_path_eq:
  "log_path dir app_name =
    (let p = file_of ''log'' ''.log'' dir app_name in if length p < MAX_CHARS then Some p else None)"
  by (cases dir) (auto simp: log_path_def getcwd_def file_of_def strstr_sublist strcat_def Let_def)

text \<open>The first configuration that is opened stays until it is closed.\<close>

lemma config_init_eq:
  "config_init lib dir app_name r =
    (let p = file_of ''config'' ''.cfg'' dir app_name;
         c = (if config_this r = None then config_create lib p else config_this r) in
     if length p < MAX_CHARS then Some (if c = None then -1 else 1, r\<lparr>config_this := c\<rparr>) else None)"
  by (cases "config_this r") (auto simp: config_init_def config_path_eq Let_def)

lemma log_init_eq:
  "log_init lib dir app_name r =
    (let p = file_of ''log'' ''.log'' dir app_name;
         l = (if log_this r = None then log_create lib p app_name else log_this r) in
     if length p < MAX_CHARS then Some (if l = None then -1 else 1, r\<lparr>log_this := l\<rparr>) else None)"
  by (cases "log_this r") (auto simp: log_init_def log_path_eq Let_def)

end
