(* ===== verification/Modules.thy ===== *)
theory Modules
  imports Config Network Cpu_Memory Shutdown Console
begin

section \<open>The life of the four programs\<close>

text \<open>
  \<open>main.c\<close>, \<open>on_init\<close>, \<open>on_run\<close> and \<open>on_before_exit\<close> of the modules (\<open>memory/src/module/app.c\<close>,
  \<open>kernel/src/module/kernel.c\<close>, \<open>cpu/src/module/cpu.c\<close>, \<open>console/src/module/console.c\<close>), and the
  threads that connect them. A program that is left serving its clients does not end; the result
  of a \<open>main\<close> is \<open>Serves\<close> then, and \<open>Exits\<close> with its status otherwise. \<open>None\<close> is undefined
  behaviour, or a connection that is never made.
\<close>

datatype outcome = Exits int | Serves

text \<open>What the world is to a program: the libraries, the network, the answers to its attempts to
  connect, the directory it runs in, and the values of new memory.\<close>

record ('c, 'l, 'd) world =
  commons_of :: "('c, 'l, 'd) commons"
  net_of :: net_env
  answers_of :: "nat \<Rightarrow> int"
  cwd_of :: "string option"
  os_of :: os_env
  thread_junk :: "nat \<Rightarrow> pthread_t"

definition no_files :: "('c, 'l) runtime" where
  "no_files = \<lparr>config_this = None, log_this = None\<rparr>"

subsection \<open>Initialization\<close>

text \<open>The first half of \<open>on_init\<close>, the same in the memory, the kernel and the CPU.\<close>

definition open_files :: "('c, 'l, 'd) world \<Rightarrow> string \<Rightarrow> ('c, 'l) runtime \<Rightarrow> (int \<times> ('c, 'l) runtime) option" where
  "open_files w name r = do {
     (l, r) \<leftarrow> log_init (commons_of w) (cwd_of w) name r;
     if l = -1 then Some (-255, r)
     else do {
       (c, r) \<leftarrow> config_init (commons_of w) (cwd_of w) name r;
       Some (if c = -1 then (-254, log_close r) else (0, r)) } }"

definition memory_config :: "('c, 'l, 'd) commons \<Rightarrow> ('c, 'l) runtime \<Rightarrow> mem_cfg option" where
  "memory_config lib r = do {
     tam_m \<leftarrow> config_tam_memoria lib r;
     tam_p \<leftarrow> config_tam_pagina lib r;
     entradas \<leftarrow> config_entradas_por_tabla lib r;
     marcos \<leftarrow> config_marcos_por_proceso lib r;
     algoritmo \<leftarrow> config_algoritmo_reemplazo lib r;
     Some \<lparr>tam_memoria = word_of_int tam_m, tam_pagina = word_of_int tam_p,
           entradas_por_tabla = word_of_int entradas, marcos_por_proceso = word_of_int marcos,
           algoritmo_reemplazo = algoritmo\<rparr> }"

definition memory_on_init ::
    "('c, 'l, 'd) world \<Rightarrow> ('c, 'l) runtime \<Rightarrow> (int \<times> ('c, 'l) runtime \<times> (servidor_t \<times> memory) option) option" where
  "memory_on_init w r = do {
     (status, r) \<leftarrow> open_files w ''memory'' r;
     if status \<noteq> 0 then Some (status, r, None)
     else do {
       ip \<leftarrow> config_ip (commons_of w) r;
       port \<leftarrow> config_puerto_escucha (commons_of w) r;
       config \<leftarrow> memory_config (commons_of w) r;
       m \<leftarrow> on_init_memory config (os_of w);
       Some (0, r, Some (servidor_create (net_of w) ip port, m)) } }"

text \<open>The kernel: its server, its thread manager, that of its scheduler with the thread of the I/O
  unit, and the state of the schedulers.\<close>

record 'm kernel_module =
  km_server :: servidor_t
  km_tm :: thread_manager_t
  km_scheduler_tm :: thread_manager_t
  km_kernel :: "'m kernel"

definition scheduler_start :: "(nat \<Rightarrow> pthread_t) \<Rightarrow> pthread_t \<Rightarrow> thread_manager_t \<Rightarrow> thread_manager_t option" where
  "scheduler_start junk io_thread tm = thread_manager_launch junk tm io_thread"

definition kernel_on_init ::
    "('c, 'l, 'd) world \<Rightarrow> pthread_t \<Rightarrow> conexion_t \<Rightarrow> conexion_t \<Rightarrow> conexion_t \<Rightarrow> 'm \<Rightarrow> ('c, 'l) runtime \<Rightarrow>
      (int \<times> ('c, 'l) runtime \<times> 'm kernel_module option) option" where
  "kernel_on_init w io_thread memory dispatch interrupts m r = do {
     (status, r) \<leftarrow> open_files w ''kernel'' r;
     if status \<noteq> 0 then Some (status, r, None)
     else do {
       ip \<leftarrow> config_ip (commons_of w) r;
       port \<leftarrow> config_puerto_escucha (commons_of w) r;
       grado \<leftarrow> config_grado_multiprogramacion (commons_of w) r;
       algoritmo \<leftarrow> config_algoritmo_planificacion (commons_of w) r;
       _ \<leftarrow> config_tiempo_maximo_bloqueado (commons_of w) r;
       if grado < 0 then None
       else do {
         tm \<leftarrow> scheduler_start (thread_junk w) io_thread new_thread_manager;
         Some (0, r, Some \<lparr>km_server = servidor_create (net_of w) ip port, km_tm = new_thread_manager,
           km_scheduler_tm = tm,
           km_kernel = on_init_kernel (nat grado) algoritmo memory dispatch interrupts m\<rparr>) } } }"

record cpu_module =
  cm_dispatch :: servidor_t
  cm_interrupt :: servidor_t
  cm_tm :: thread_manager_t
  cm_cpu :: cpu_t

definition cpu_on_init ::
    "('c, 'l, 'd) world \<Rightarrow> cpu_t \<Rightarrow> ('c, 'l) runtime \<Rightarrow> (int \<times> ('c, 'l) runtime \<times> cpu_module option) option" where
  "cpu_on_init w cpu r = do {
     (status, r) \<leftarrow> open_files w ''cpu'' r;
     if status \<noteq> 0 then Some (status, r, None)
     else do {
       ip \<leftarrow> config_ip (commons_of w) r;
       dispatch_port \<leftarrow> config_puerto_escucha_dispatch (commons_of w) r;
       interrupt_port \<leftarrow> config_puerto_escucha_interrupt (commons_of w) r;
       Some (0, r, Some \<lparr>cm_dispatch = servidor_create (net_of w) ip dispatch_port,
         cm_interrupt = servidor_create (net_of w) ip interrupt_port, cm_tm = new_thread_manager,
         cm_cpu = on_cpu_init cpu\<rparr>) } }"

text \<open>The console returns \<open>ERROR\<close> in both cases.\<close>

definition console_on_init :: "('c, 'l, 'd) world \<Rightarrow> ('c, 'l) runtime \<Rightarrow> (int \<times> ('c, 'l) runtime) option" where
  "console_on_init w r = do {
     (l, r) \<leftarrow> log_init (commons_of w) (cwd_of w) ''console'' r;
     if l = -1 then Some (-1, r)
     else do {
       (c, r) \<leftarrow> config_init (commons_of w) (cwd_of w) ''console'' r;
       if c = -1 then Some (-1, log_close r)
       else do { _ \<leftarrow> config_ip (commons_of w) r; Some (0, r) } } }"

subsection \<open>Connections of the clients\<close>

definition connect_to :: "('c, 'l, 'd) world \<Rightarrow> string \<Rightarrow> string \<Rightarrow> endpoint_t option" where
  "connect_to w ip port = do {
     this \<leftarrow> conexion_cliente_create (net_of w) ip port;
     (_, this) \<leftarrow> on_module_connect (answers_of w) False this;
     Some this }"

text \<open>The bytes of a connection, once it is made.\<close>

definition conexion_of :: "endpoint_t \<Rightarrow> conexion_t" where
  "conexion_of e = \<lparr>sock = \<lparr>incoming = [], recv_error = False, outgoing = [], send_error = False\<rparr>,
     conectado = connected e\<rparr>"

definition on_connect_memory :: "('c, 'l, 'd) world \<Rightarrow> ('c, 'l) runtime \<Rightarrow> 'm kernel \<Rightarrow> 'm kernel option" where
  "on_connect_memory w r k = do {
     port \<leftarrow> config_puerto_memoria (commons_of w) r;
     ip \<leftarrow> config_ip_memoria (commons_of w) r;
     e \<leftarrow> connect_to w ip port;
     Some (k\<lparr>conexion_memory := conexion_of e\<rparr>) }"

definition on_connect_dispatch :: "('c, 'l, 'd) world \<Rightarrow> ('c, 'l) runtime \<Rightarrow> 'm kernel \<Rightarrow> 'm kernel option" where
  "on_connect_dispatch w r k = do {
     port \<leftarrow> config_puerto_cpu_dispatch (commons_of w) r;
     ip \<leftarrow> config_ip_cpu (commons_of w) r;
     e \<leftarrow> connect_to w ip port;
     Some (k\<lparr>conexion_dispatch := conexion_of e\<rparr>) }"

definition on_connect_interrupt :: "('c, 'l, 'd) world \<Rightarrow> ('c, 'l) runtime \<Rightarrow> 'm kernel \<Rightarrow> 'm kernel option" where
  "on_connect_interrupt w r k = do {
     port \<leftarrow> config_puerto_cpu_interrupt (commons_of w) r;
     ip \<leftarrow> config_ip_cpu (commons_of w) r;
     e \<leftarrow> connect_to w ip port;
     Some (k\<lparr>conexion_interrupt := conexion_of e\<rparr>) }"

definition conexion_init :: "('c, 'l, 'd) world \<Rightarrow> ('c, 'l) runtime \<Rightarrow> cpu_t \<Rightarrow> cpu_t option" where
  "conexion_init w r cpu = do {
     port \<leftarrow> config_puerto_memoria (commons_of w) r;
     ip \<leftarrow> config_ip_memoria (commons_of w) r;
     e \<leftarrow> connect_to w ip port;
     Some (cpu\<lparr>conexion := conexion_of e\<rparr>) }"

definition tlb_config_of :: "('c, 'l, 'd) commons \<Rightarrow> ('c, 'l) runtime \<Rightarrow> tlb_cfg option" where
  "tlb_config_of lib r = do {
     entries \<leftarrow> config_entradas_tlb lib r;
     algorithm \<leftarrow> config_reemplazo_tlb lib r;
     Some \<lparr>entradas_tlb = word_of_int entries, reemplazo_tlb = algorithm\<rparr> }"

definition routine_conexion_memoria ::
    "('c, 'l, 'd) world \<Rightarrow> ('c, 'l) runtime \<Rightarrow> 'm server \<Rightarrow> (nat \<Rightarrow> byte) \<Rightarrow> cpu_t \<Rightarrow> 'm \<Rightarrow> (cpu_t \<times> 'm) option" where
  "routine_conexion_memoria w r serve junk cpu m = do {
     cpu \<leftarrow> conexion_init w r cpu;
     c \<leftarrow> tlb_config_of (commons_of w) r;
     t \<leftarrow> tlb_init c;
     handshake serve junk (cpu\<lparr>tlb := t, tlb_config := c\<rparr>) m }"

definition console_on_connect :: "('c, 'l, 'd) world \<Rightarrow> ('c, 'l) runtime \<Rightarrow> conexion_t option" where
  "console_on_connect w r = do {
     port \<leftarrow> config_puerto_kernel (commons_of w) r;
     ip \<leftarrow> config_ip_kernel (commons_of w) r;
     e \<leftarrow> connect_to w ip port;
     Some (conexion_of e) }"

subsection \<open>Running\<close>

text \<open>\<open>serve\<close> of the memory: \<open>SERVER_RUNTIME_ERROR\<close>, or \<open>None\<close> when it accepts clients from then on.
  \<open>on_run\<close> does not look at the error.\<close>

definition serve_clients :: "net_env \<Rightarrow> servidor_t \<Rightarrow> int option" where
  "serve_clients net server = (if fst (servidor_escuchar net server) = -1 then Some (-253) else None)"

definition memory_on_run :: "net_env \<Rightarrow> servidor_t \<Rightarrow> int option" where
  "memory_on_run net server = (case serve_clients net server of Some _ \<Rightarrow> Some 0 | None \<Rightarrow> None)"

text \<open>\<open>on_delete_memory\<close> and \<open>on_before_exit\<close>; the module's own thread manager launches nothing. The
  lists of a module that was not initialized are NULL.\<close>

definition memory_on_before_exit :: "(servidor_t \<times> memory) option \<Rightarrow> int \<Rightarrow> outcome option" where
  "memory_on_before_exit module exit_code = do {
     (server, m) \<leftarrow> module;
     (closed, cancelled, server) \<leftarrow> servidor_destroy server;
     Some (Exits exit_code) }"

definition memory_main :: "('c, 'l, 'd) world \<Rightarrow> outcome option" where
  "memory_main w = do {
     (status, r, module) \<leftarrow> memory_on_init w no_files;
     if status = 0
     then do {
       (server, m) \<leftarrow> module;
       (case memory_on_run (net_of w) server of
          Some status \<Rightarrow> memory_on_before_exit module status
        | None \<Rightarrow> Some Serves) }
     else memory_on_before_exit module status }"

text \<open>The kernel's five threads: memory, dispatch, interrupt, long term and short term.\<close>

definition handle_memory :: "(nat \<Rightarrow> pthread_t) \<Rightarrow> pthread_t \<Rightarrow> thread_manager_t \<Rightarrow> thread_manager_t option" where
  "handle_memory junk memory_thread tm = thread_manager_launch junk tm memory_thread"

definition handle_cpu ::
    "(nat \<Rightarrow> pthread_t) \<Rightarrow> pthread_t \<Rightarrow> pthread_t \<Rightarrow> thread_manager_t \<Rightarrow> thread_manager_t option" where
  "handle_cpu junk dispatch_thread interrupt_thread tm = do {
     tm \<leftarrow> thread_manager_launch junk tm dispatch_thread;
     thread_manager_launch junk tm interrupt_thread }"

definition schedule_kernel ::
    "(nat \<Rightarrow> pthread_t) \<Rightarrow> pthread_t \<Rightarrow> pthread_t \<Rightarrow> thread_manager_t \<Rightarrow> thread_manager_t option" where
  "schedule_kernel junk lts_thread sts_thread tm = do {
     tm \<leftarrow> thread_manager_launch junk tm lts_thread;
     thread_manager_launch junk tm sts_thread }"

text \<open>\<open>handle_consoles\<close> returns when the server cannot listen; otherwise it accepts consoles from then on.\<close>

definition handle_consoles :: "net_env \<Rightarrow> servidor_t \<Rightarrow> bool \<times> servidor_t" where
  "handle_consoles net server =
     (let (listening, server) = servidor_escuchar net server in (listening = -1, server))"

text \<open>The status that \<open>on_run\<close> returns when the server cannot listen, or \<open>None\<close>.\<close>

definition kernel_on_run ::
    "('c, 'l, 'd) world \<Rightarrow> pthread_t list \<Rightarrow> 'm kernel_module \<Rightarrow> (int option \<times> 'm kernel_module) option" where
  "kernel_on_run w ts km = do {
     t0 \<leftarrow> arr_get ts 0; t1 \<leftarrow> arr_get ts 1; t2 \<leftarrow> arr_get ts 2; t3 \<leftarrow> arr_get ts 3; t4 \<leftarrow> arr_get ts 4;
     tm \<leftarrow> handle_memory (thread_junk w) t0 (km_tm km);
     tm \<leftarrow> handle_cpu (thread_junk w) t1 t2 tm;
     tm \<leftarrow> schedule_kernel (thread_junk w) t3 t4 tm;
     let (returns, server) = handle_consoles (net_of w) (km_server km);
     Some (if returns then Some 0 else None, km\<lparr>km_tm := tm, km_server := server\<rparr>) }"

text \<open>\<open>on_delete_kernel\<close>: the descriptors of its server that are closed, the threads that are cancelled, and
  the kernel without its PCBs. The queues of a kernel that was not initialized are NULL.\<close>

definition on_delete_kernel :: "'m kernel_module \<Rightarrow> (int list \<times> pthread_t list \<times> 'm kernel_module) option" where
  "on_delete_kernel km = do {
     (cancelled, tm) \<leftarrow> thread_manager_destroy (km_tm km);
     (cancelled', k) \<leftarrow> delete_processes (km_scheduler_tm km) (km_kernel km);
     (closed, cancelled'', server) \<leftarrow> servidor_destroy (km_server km);
     Some (closed, cancelled @ cancelled' @ cancelled'',
       km\<lparr>km_tm := tm, km_kernel := k, km_server := server\<rparr>) }"

definition kernel_on_before_exit :: "'m kernel_module option \<Rightarrow> int \<Rightarrow> outcome option" where
  "kernel_on_before_exit module exit_code = do {
     km \<leftarrow> module;
     _ \<leftarrow> on_delete_kernel km;
     Some (Exits exit_code) }"

definition kernel_main ::
    "('c, 'l, 'd) world \<Rightarrow> pthread_t \<Rightarrow> pthread_t list \<Rightarrow> conexion_t \<Rightarrow> conexion_t \<Rightarrow> conexion_t \<Rightarrow> 'm \<Rightarrow> outcome option" where
  "kernel_main w io_thread ts memory dispatch interrupts m = do {
     (status, r, module) \<leftarrow> kernel_on_init w io_thread memory dispatch interrupts m no_files;
     if status = 0
     then do {
       km \<leftarrow> module;
       (returned, km) \<leftarrow> kernel_on_run w ts km;
       (case returned of Some status \<Rightarrow> kernel_on_before_exit (Some km) status | None \<Rightarrow> Some Serves) }
     else kernel_on_before_exit module status }"

text \<open>The CPU: the two threads that serve the kernel, then the memory; then the loop on the PCBs.\<close>

definition serve_kernel ::
    "(nat \<Rightarrow> pthread_t) \<Rightarrow> pthread_t \<Rightarrow> pthread_t \<Rightarrow> thread_manager_t \<Rightarrow> thread_manager_t option" where
  "serve_kernel junk dispatch_thread interrupt_thread tm = do {
     tm \<leftarrow> thread_manager_launch junk tm dispatch_thread;
     thread_manager_launch junk tm interrupt_thread }"

definition cpu_on_run ::
    "('c, 'l, 'd) world \<Rightarrow> ('c, 'l) runtime \<Rightarrow> 'm server \<Rightarrow> (nat \<Rightarrow> byte) \<Rightarrow> pthread_t \<Rightarrow> pthread_t \<Rightarrow>
      cpu_module \<Rightarrow> 'm \<Rightarrow> (cpu_module \<times> 'm) option" where
  "cpu_on_run w r serve_m junk t0 t1 cm m = do {
     tm \<leftarrow> serve_kernel (thread_junk w) t0 t1 (cm_tm cm);
     (cpu, m) \<leftarrow> routine_conexion_memoria w r serve_m junk (cm_cpu cm) m;
     Some (cm\<lparr>cm_tm := tm, cm_cpu := cpu\<rparr>, m) }"

text \<open>\<open>on_cpu_destroy\<close> and \<open>on_before_exit\<close>, which the handler of SIGINT calls: the descriptors that are
  closed, the threads that are cancelled, and the status.\<close>

definition on_cpu_destroy :: "cpu_module \<Rightarrow> (int list \<times> pthread_t list) option" where
  "on_cpu_destroy cm = do {
     (closed, cancelled, _) \<leftarrow> servidor_destroy (cm_dispatch cm);
     (closed', cancelled', _) \<leftarrow> servidor_destroy (cm_interrupt cm);
     (cancelled'', _) \<leftarrow> thread_manager_destroy (cm_tm cm);
     Some (closed @ closed', cancelled @ cancelled' @ cancelled'') }"

definition cpu_on_before_exit :: "cpu_module \<Rightarrow> int option" where
  "cpu_on_before_exit cm = do { _ \<leftarrow> on_cpu_destroy cm; Some 0 }"

text \<open>The two servers of the CPU, each in its thread: \<open>SERVER_RUNTIME_ERROR\<close>, or \<open>None\<close> when it accepts
  clients from then on. The thread ends when its server cannot listen; nobody looks at the error.\<close>

definition on_run_server :: "net_env \<Rightarrow> servidor_t \<Rightarrow> int option" where
  "on_run_server net server = (if fst (servidor_escuchar net server) = -1 then Some (-253) else None)"

definition dispatch_server_routine :: "net_env \<Rightarrow> cpu_module \<Rightarrow> unit option" where
  "dispatch_server_routine net cm = map_option (\<lambda>_. ()) (on_run_server net (cm_dispatch cm))"

definition interrupt_server_routine :: "net_env \<Rightarrow> cpu_module \<Rightarrow> unit option" where
  "interrupt_server_routine net cm = map_option (\<lambda>_. ()) (on_run_server net (cm_interrupt cm))"

definition cpu_main ::
    "('c, 'l, 'd) world \<Rightarrow> 'm server \<Rightarrow> (nat \<Rightarrow> byte) \<Rightarrow> pthread_t \<Rightarrow> pthread_t \<Rightarrow> cpu_t \<Rightarrow> 'm \<Rightarrow> outcome option" where
  "cpu_main w serve_m junk t0 t1 cpu m = do {
     (status, r, module) \<leftarrow> cpu_on_init w cpu no_files;
     if status = 0
     then do {
       cm \<leftarrow> module;
       _ \<leftarrow> cpu_on_run w r serve_m junk t0 t1 cm m;
       Some Serves }
     else Some (Exits status) }"

text \<open>The console connects when the text has no errors; \<open>main\<close> does not look at the status of \<open>on_run\<close>.\<close>

definition console_on_run ::
    "('c, 'l, 'd) world \<Rightarrow> ('c, 'l) runtime \<Rightarrow> string option \<Rightarrow> u32 \<Rightarrow> (int \<times> conexion_t) option" where
  "console_on_run w r txt sz = do {
     (accepted, l, lexerrs) \<leftarrow> parse txt;
     c \<leftarrow> (if accepted \<and> lexerrs = 0 then console_on_connect w r
           else Some (conexion_of \<lparr>info_server = [], fd = 0, connected = False\<rparr>));
     on_run_console txt sz c }"

definition console_on_before_exit :: "int \<Rightarrow> int" where
  "console_on_before_exit signal = (if signal = 2 then 2 else 0)"

definition console_main :: "('c, 'l, 'd) world \<Rightarrow> (string \<Rightarrow> string option) \<Rightarrow> string list \<Rightarrow> outcome option" where
  "console_main w files argv = do {
     context \<leftarrow> context_evaluate argv;
     if context_status context = 0
     then do {
       (st, r) \<leftarrow> console_on_init w no_files;
       if st \<noteq> -1
       then do {
         file_name \<leftarrow> input_file_name context;
         _ \<leftarrow> console_on_run w r (files file_name) (word_of_int (process_size context));
         Some (Exits (console_on_before_exit 0)) }
       else Some (Exits 1) }
     else Some (Exits (context_status context)) }"

subsection \<open>Signals\<close>

text \<open>The numbers of the signals, and those that \<open>signals_init\<close> gives a handler (\<open>signals.c\<close> of the memory
  and of the kernel; that of the CPU is not called). Only \<open>SIGINT\<close> does more than a line of the log: it
  ends the module with its number as status. A handler that returns is \<open>Serves\<close>.\<close>

definition SIGINT :: int where "SIGINT = 2"

definition SIGUSR1 :: int where "SIGUSR1 = 10"

definition SIGUSR2 :: int where "SIGUSR2 = 12"

definition signals_init :: "int list" where
  "signals_init = [SIGINT, SIGUSR1, SIGUSR2]"

definition memory_handler :: "int \<Rightarrow> servidor_t \<times> memory \<Rightarrow> outcome option" where
  "memory_handler sig module =
     (if sig = SIGINT then memory_on_before_exit (Some module) SIGINT else Some Serves)"

definition kernel_handler :: "int \<Rightarrow> 'm kernel_module \<Rightarrow> outcome option" where
  "kernel_handler sig module =
     (if sig = SIGINT then kernel_on_before_exit (Some module) SIGINT else Some Serves)"

text \<open>The handlers of the CPU and of the console.\<close>

definition handle_sigint :: "int \<Rightarrow> cpu_module \<Rightarrow> outcome option" where
  "handle_sigint sig cm =
     (if sig = SIGINT then do { _ \<leftarrow> cpu_on_before_exit cm; Some (Exits SIGINT) } else Some Serves)"

definition cierre_forzoso :: "int \<Rightarrow> outcome" where
  "cierre_forzoso sig = (if sig = SIGINT then (let _ = console_on_before_exit sig in Exits SIGINT) else Serves)"

text \<open>An interrupted kernel whose PCBs have one owner frees each once and ends.\<close>

lemma kernel_handler_ends:
  assumes "owned (km_kernel km)" and "tm_wf n (km_tm km)" and "tm_wf n (km_scheduler_tm km)"
    and "tm_wf n (srv_tm (km_server km))"
  shows "kernel_handler sig km = Some (if sig = SIGINT then Exits SIGINT else Serves)"
  using delete_processes_frees [OF assms(1,3)] destroy_cancels_tracked [OF assms(2)]
    destroy_cancels_tracked [OF assms(4)]
  by (auto simp: kernel_handler_def kernel_on_before_exit_def on_delete_kernel_def servidor_destroy_def Let_def)

subsection \<open>How a program starts\<close>

definition paths_fit :: "('c, 'l, 'd) world \<Rightarrow> string \<Rightarrow> bool" where
  "paths_fit w name \<longleftrightarrow> length (file_of ''config'' ''.cfg'' (cwd_of w) name) < MAX_CHARS \<and>
     length (file_of ''log'' ''.log'' (cwd_of w) name) < MAX_CHARS"

text \<open>The log and the configuration that open, and the status without them.\<close>

definition log_of :: "('c, 'l, 'd) world \<Rightarrow> string \<Rightarrow> 'l option" where
  "log_of w name = log_create (commons_of w) (file_of ''log'' ''.log'' (cwd_of w) name) name"

definition config_of :: "('c, 'l, 'd) world \<Rightarrow> string \<Rightarrow> 'c option" where
  "config_of w name = config_create (commons_of w) (file_of ''config'' ''.cfg'' (cwd_of w) name)"

definition start_status :: "('c, 'l, 'd) world \<Rightarrow> string \<Rightarrow> int" where
  "start_status w name =
     (if log_of w name = None then -255 else if config_of w name = None then -254 else 0)"

lemma open_files_eq:
  assumes "paths_fit w name"
  shows "open_files w name no_files = Some (start_status w name,
    if start_status w name = 0 then \<lparr>config_this = config_of w name, log_this = log_of w name\<rparr> else no_files)"
  using assms
  by (auto simp: open_files_def log_init_eq config_init_eq paths_fit_def no_files_def start_status_def
      log_of_def config_of_def log_close_def Let_def)

lemma failed_init:
  assumes "paths_fit w name" and "start_status w name \<noteq> 0"
  shows "name = ''memory'' \<Longrightarrow> memory_on_init w no_files = Some (start_status w name, no_files, None)"
    and "name = ''kernel'' \<Longrightarrow> kernel_on_init w t memory dispatch interrupts m no_files =
      Some (start_status w name, no_files, None)"
    and "name = ''cpu'' \<Longrightarrow> cpu_on_init w cpu no_files = Some (start_status w name, no_files, None)"
    and "name = ''console'' \<Longrightarrow> console_on_init w no_files = Some (-1, no_files)"
proof -
  note files = open_files_eq [OF assms(1)]
  show "name = ''memory'' \<Longrightarrow> memory_on_init w no_files = Some (start_status w name, no_files, None)"
    using files assms(2) by (simp add: memory_on_init_def)
  show "name = ''kernel'' \<Longrightarrow> kernel_on_init w t memory dispatch interrupts m no_files =
      Some (start_status w name, no_files, None)"
    using files assms(2) by (simp add: kernel_on_init_def)
  show "name = ''cpu'' \<Longrightarrow> cpu_on_init w cpu no_files = Some (start_status w name, no_files, None)"
    using files assms(2) by (simp add: cpu_on_init_def)
  show "name = ''console'' \<Longrightarrow> console_on_init w no_files = Some (-1, no_files)"
    using assms
    by (auto simp: console_on_init_def log_init_eq config_init_eq paths_fit_def no_files_def
        start_status_def log_of_def config_of_def log_close_def Let_def split: if_splits)
qed

text \<open>Destroying a new server is defined, so a memory module that cannot listen ends, with status 0.\<close>

lemma memory_main_started:
  assumes "memory_on_init w no_files = Some (0, r, Some (server, m))"
  shows "memory_main w =
    Some (if listen_socket (net_of w) (fd (srv_conexion server)) = -1 then Exits 0 else Serves)"
proof -
  have "srv_tm server = new_thread_manager"
    using assms
    by (auto simp: memory_on_init_def servidor_create_def bind_eq_Some_conv split: prod.splits if_splits)
  then have "\<exists>c ts s. servidor_destroy server = Some (c, ts, s)"
    using destroy_cancels_tracked [OF new_thread_manager_wf(1)] by (auto simp: servidor_destroy_def Let_def)
  then show ?thesis
    using assms
    by (auto simp: memory_main_def memory_on_run_def serve_clients_def servidor_escuchar_def
        conexion_escuchar_def memory_on_before_exit_def Let_def)
qed

subsection \<open>The CPU joins the memory\<close>

lemma connect_to_eq:
  assumes "getaddrinfo (net_of w) ip port = Some (info # infos)"
  shows "connect_to w ip port =
    (if \<exists>k. answers_of w k \<noteq> -1
     then Some \<lparr>info_server = info # infos, fd = open_socket (net_of w) info, connected = True\<rparr>
     else None)"
  using assms by (simp add: connect_to_def conexion_cliente_create_def address_def on_module_connect_eq)

end
