(* ===== verification/Errors.thy ===== *)
theory Errors
  imports Prelude
begin

section \<open>Errors with a message\<close>

text \<open>
  \<open>lib/src/common/merror.c\<close>: a code and a message that the error owns, a block of \<open>malloc\<close>. The
  blocks are those of the characters; a pointer to one is its number, and \<open>NULL\<close> is \<open>None\<close>. Using a
  block that is not allocated, or writing past its end, is \<open>None\<close>. No module calls these functions.
\<close>

subsection \<open>Blocks of characters\<close>

record char_blocks =
  block :: "nat \<Rightarrow> string option"
  next_block :: nat

definition malloc_chars :: "(nat \<Rightarrow> char) \<Rightarrow> nat \<Rightarrow> char_blocks \<Rightarrow> nat \<times> char_blocks" where
  "malloc_chars fresh n h =
     (next_block h, h\<lparr>block := (block h)(next_block h \<mapsto> map fresh [0..<n]), next_block := next_block h + 1\<rparr>)"

definition free_chars :: "nat \<Rightarrow> char_blocks \<Rightarrow> char_blocks option" where
  "free_chars p h = (if block h p = None then None else Some (h\<lparr>block := (block h)(p := None)\<rparr>))"

text \<open>The string at a pointer, up to its NUL.\<close>

definition read_chars :: "nat \<Rightarrow> char_blocks \<Rightarrow> string option" where
  "read_chars p h = do {
     cs \<leftarrow> block h p;
     if CHR 0x00 \<in> set cs then Some (takeWhile (\<lambda>c. c \<noteq> CHR 0x00) cs) else None }"

definition strcpy :: "nat \<Rightarrow> nat \<Rightarrow> char_blocks \<Rightarrow> char_blocks option" where
  "strcpy dest src h = do {
     s \<leftarrow> read_chars src h;
     cs \<leftarrow> block h dest;
     if length cs < length s + 1 then None
     else Some (h\<lparr>block := (block h)(dest \<mapsto> s @ [CHR 0x00] @ drop (length s + 1) cs)\<rparr>) }"

subsection \<open>The error\<close>

record error_t =
  error_message :: "nat option"
  error_code :: int

text \<open>\<open>sizeof('\0')\<close> is the size of an \<open>int\<close>.\<close>

definition null_byte_size :: nat where
  "null_byte_size = 4"

definition error_create :: error_t where
  "error_create = \<lparr>error_message = None, error_code = 0\<rparr>"

definition error_erase :: "error_t option \<Rightarrow> char_blocks \<Rightarrow> (error_t option \<times> char_blocks) option" where
  "error_erase error h =
     (case error of
        None \<Rightarrow> Some (None, h)
      | Some e \<Rightarrow> do {
          h \<leftarrow> (case error_message e of None \<Rightarrow> Some h | Some p \<Rightarrow> free_chars p h);
          Some (Some (e\<lparr>error_message := None, error_code := 0\<rparr>), h) })"

definition error_set :: "(nat \<Rightarrow> char) \<Rightarrow> error_t option \<Rightarrow> int \<Rightarrow> nat \<Rightarrow> u32 \<Rightarrow> char_blocks \<Rightarrow>
    (error_t option \<times> char_blocks) option" where
  "error_set fresh error code message message_size h = do {
     (error, h) \<leftarrow> error_erase error h;
     e \<leftarrow> error;
     let (p, h) = malloc_chars fresh (unat message_size + null_byte_size) h;
     h \<leftarrow> strcpy p message h;
     Some (Some (e\<lparr>error_message := Some p, error_code := code\<rparr>), h) }"

subsection \<open>What an error owns\<close>

text \<open>The blocks beyond the next one are free, and an error has no message or one of the blocks.\<close>

definition owns :: "error_t \<Rightarrow> char_blocks \<Rightarrow> bool" where
  "owns e h \<longleftrightarrow> (\<forall>p \<ge> next_block h. block h p = None) \<and>
     (case error_message e of None \<Rightarrow> True | Some p \<Rightarrow> block h p \<noteq> None)"

lemma create_owns: "(\<forall>p \<ge> next_block h. block h p = None) \<Longrightarrow> owns error_create h"
  by (simp add: owns_def error_create_def)

text \<open>Erasing gives the message back, whatever it was, and erasing again changes nothing.\<close>

lemma erase_frees:
  assumes "owns e h"
  obtains h' where "error_erase (Some e) h = Some (Some error_create, h')" "owns error_create h'"
    "block h' = (block h) |` (- set_option (error_message e))" "next_block h' = next_block h"
proof (cases "error_message e")
  case None
  then have "e\<lparr>error_message := None, error_code := 0\<rparr> = error_create" by (simp add: error_create_def)
  then show ?thesis using that [of h] None assms
    by (simp add: error_erase_def owns_def error_create_def restrict_map_def fun_eq_iff)
next
  case (Some p)
  let ?h = "h\<lparr>block := (block h)(p := None)\<rparr>"
  have "e\<lparr>error_message := None, error_code := 0\<rparr> = error_create" by (simp add: error_create_def)
  then have "error_erase (Some e) h = Some (Some error_create, ?h)"
    using Some assms by (simp add: error_erase_def free_chars_def owns_def)
  moreover have "owns error_create ?h" using Some assms by (auto simp: owns_def error_create_def)
  moreover have "block ?h = (block h) |` (- set_option (error_message e))"
    using Some by (auto simp: restrict_map_def)
  ultimately show ?thesis using that [of ?h] by simp
qed

theorem erase_twice:
  assumes "owns e h" and "error_erase (Some e) h = Some (e', h')"
  shows "e' = Some error_create \<and> error_erase e' h' = Some (e', h')"
proof -
  obtain h2 where "error_erase (Some e) h = Some (Some error_create, h2)" by (rule erase_frees [OF assms(1)])
  then have "e' = Some error_create" using assms(2) by simp
  moreover have "error_erase (Some error_create) h' = Some (Some error_create, h')"
    by (simp add: error_erase_def error_create_def)
  ultimately show ?thesis by simp
qed

lemma read_strcpy:
  "read_chars src h = Some s \<Longrightarrow> block h dest = Some cs \<Longrightarrow> length s < length cs \<Longrightarrow>
   strcpy dest src h = Some (h\<lparr>block := (block h)(dest \<mapsto> s @ [CHR 0x00] @ drop (length s + 1) cs)\<rparr>)"
  by (simp add: strcpy_def)

lemma read_no_NUL: "read_chars p h = Some s \<Longrightarrow> CHR 0x00 \<notin> set s"
  by (auto simp: read_chars_def bind_eq_Some_conv split: if_splits dest: set_takeWhileD)

lemma stop_at_NUL: "CHR 0x00 \<notin> set s \<Longrightarrow> takeWhile (\<lambda>c. c \<noteq> CHR 0x00) (s @ CHR 0x00 # r) = s"
  by (induction s) auto

text \<open>Setting an error: it has the code and a copy of the message in a block of its own, the block of the
  old message is free, and no other block has changed. The message may be up to three characters longer
  than the size says, and it must not be the error's own.\<close>

theorem error_set_copies:
  assumes own: "owns e h" and msg: "read_chars message h = Some s" and new: "error_message e \<noteq> Some message"
    and fits: "length s < unat message_size + 4"
  obtains e' h' where "error_set fresh (Some e) code message message_size h = Some (Some e', h')"
    "error_code e' = code" "error_message e' = Some (next_block h)" "read_chars (next_block h) h' = Some s"
    "owns e' h'" "\<forall>p. p \<noteq> next_block h \<longrightarrow> block h' p = (if error_message e = Some p then None else block h p)"
proof -
  obtain h1 where h1: "error_erase (Some e) h = Some (Some error_create, h1)" "owns error_create h1"
    "block h1 = (block h) |` (- set_option (error_message e))" "next_block h1 = next_block h"
    by (rule erase_frees [OF own])
  let ?p = "next_block h"
  obtain cs where cs: "block h message = Some cs" using msg by (auto simp: read_chars_def bind_eq_Some_conv)
  then have "message < ?p" using own unfolding owns_def by (metis not_less option.distinct(1))
  define h2 where "h2 = h1\<lparr>block := (block h1)(?p \<mapsto> map fresh [0..<unat message_size + 4]), next_block := ?p + 1\<rparr>"
  have mal: "malloc_chars fresh (unat message_size + null_byte_size) h1 = (?p, h2)"
    by (simp add: malloc_chars_def null_byte_size_def h2_def h1(4))
  have "block h2 message = block h message"
    using \<open>message < ?p\<close> new h1(3) by (auto simp: h2_def restrict_map_def)
  then have r2: "read_chars message h2 = Some s" using msg by (simp add: read_chars_def)
  let ?c = "s @ [CHR 0x00] @ drop (length s + 1) (map fresh [0..<unat message_size + 4])"
  define h' where "h' = h2\<lparr>block := (block h2)(?p \<mapsto> ?c)\<rparr>"
  have cp: "strcpy ?p message h2 = Some h'"
    unfolding h'_def by (rule read_strcpy [OF r2]) (use fits in \<open>simp_all add: h2_def\<close>)
  have set: "error_set fresh (Some e) code message message_size h =
      Some (Some (error_create\<lparr>error_message := Some ?p, error_code := code\<rparr>), h')"
    using h1(1) mal cp by (simp add: error_set_def)
  have rd: "read_chars ?p h' = Some s"
    using stop_at_NUL [OF read_no_NUL [OF msg]] by (simp add: read_chars_def h'_def)
  have blocks: "\<forall>p. p \<noteq> ?p \<longrightarrow> block h' p = (if error_message e = Some p then None else block h p)"
    using h1(3) by (auto simp: h'_def h2_def restrict_map_def)
  have "owns (error_create\<lparr>error_message := Some ?p, error_code := code\<rparr>) h'"
    using own h1 by (auto simp: owns_def h'_def h2_def restrict_map_def)
  then show ?thesis by (rule that [OF set _ _ rd _ blocks, rotated 2]) simp_all
qed

text \<open>With its own message the error is read after it was freed, and a message that is longer overruns
  its block: neither is defined.\<close>

theorem error_set_own_message:
  assumes "owns e h" and "error_message e = Some message"
  shows "error_set fresh (Some e) code message message_size h = None"
proof -
  obtain h1 where h1: "error_erase (Some e) h = Some (Some error_create, h1)"
    "block h1 = (block h) |` (- set_option (error_message e))" "next_block h1 = next_block h"
    by (rule erase_frees [OF assms(1)])
  have "message < next_block h"
    using assms by (force simp: owns_def not_less [symmetric])
  then show ?thesis using h1 assms(2)
    by (simp add: error_set_def malloc_chars_def strcpy_def read_chars_def restrict_map_def)
qed

theorem error_set_overrun:
  assumes own: "owns e h" and msg: "read_chars message h = Some s" and "unat message_size + 4 \<le> length s"
  shows "error_set fresh (Some e) code message message_size h = None"
proof (cases "error_message e = Some message")
  case True
  then show ?thesis using own by (rule_tac error_set_own_message)
next
  case False
  obtain h1 where h1: "error_erase (Some e) h = Some (Some error_create, h1)"
    "block h1 = (block h) |` (- set_option (error_message e))" "next_block h1 = next_block h"
    by (rule erase_frees [OF own])
  obtain cs where cs: "block h message = Some cs" using msg by (auto simp: read_chars_def bind_eq_Some_conv)
  then have "message < next_block h" using own unfolding owns_def by (metis not_less option.distinct(1))
  then have "read_chars message (snd (malloc_chars fresh (unat message_size + 4) h1)) = Some s"
    using msg False h1(2,3) by (auto simp: read_chars_def malloc_chars_def restrict_map_def)
  then show ?thesis using h1(1) assms(3)
    by (simp add: error_set_def malloc_chars_def strcpy_def null_byte_size_def)
qed

end
