(* ===== verification/Uncalled.thy ===== *)
theory Uncalled
  imports Memory_Kernel Scheduler
begin

section \<open>Operations without a caller\<close>

text \<open>
  The functions of \<open>memory/\<close> of the kernel's \<open>swap_controller.c\<close> and of the console that the modules
  declare and do not call: swapping a whole process (\<open>swap_pcb\<close>), reading a PCB back from its file
  (\<open>retrieve_swapped_pcb\<close>) and some helpers of the handlers.
\<close>

subsection \<open>Files\<close>

definition file_exists :: "memory \<Rightarrow> u32 \<Rightarrow> bool" where
  "file_exists m pid = (swap_files m pid \<noteq> None)"

definition delete_file :: "memory \<Rightarrow> u32 \<Rightarrow> memory" where
  "delete_file m pid = (if file_exists m pid then m\<lparr>swap_files := (swap_files m)(pid := None)\<rparr> else m)"

lemma delete_swap_file_deletes: "delete_swap_file m pid = delete_file m pid"
proof (cases "swap_files m pid")
  case None
  then have "(swap_files m)(pid := None) = swap_files m" by (rule fun_upd_idem)
  then show ?thesis using None by (simp add: delete_file_def file_exists_def delete_swap_file_def)
next
  case (Some f)
  then show ?thesis by (simp add: delete_file_def file_exists_def delete_swap_file_def)
qed

subsection \<open>Swapping a process\<close>

definition swap_pcb :: "pcb_junk \<Rightarrow> memory \<Rightarrow> byte list \<Rightarrow> memory option" where
  "swap_pcb junk m pcb_ref = do {
     pcb \<leftarrow> pcb_from_stream junk pcb_ref;
     (case open_file m (pcb_id pcb) of
        None \<Rightarrow> Some m
      | Some (m, file) \<Rightarrow> do {
          used \<leftarrow> get_frames_used_size m (page_table pcb);
          let swap_size = max (unat (pcb_size pcb)) (unat used);
          let file = truncate_file swap_size file;
          let m = set_file m (pcb_id pcb) file;
          if \<not> can_map m (pcb_id pcb) swap_size then Some m
          else do {
            offset \<leftarrow> get_offset_for_pcb m (pcb_id pcb);
            big_table \<leftarrow> create_big_table m (page_table pcb);
            (mapping, _) \<leftarrow> foldM (\<lambda>i (mapping, offset). do {
                bt \<leftarrow> big_table;
                row \<leftarrow> bt_read bt m i;
                if frame row \<noteq> INVALID_FRAME \<and> present row
                then swap_frame m (frame row) mapping offset
                else Some (mapping, offset) })
              [0..<unat (max_rows m * max_rows m)] (map_file m swap_size file, offset);
            let m = set_file m (pcb_id pcb) (unmap_file mapping file);
            r \<leftarrow> get_swap_data_for_pcb m (pcb_id pcb);
            k \<leftarrow> r;
            d \<leftarrow> deref_swap_data m k;
            l \<leftarrow> safe_list_replace (swap_data m) (int k) (Some (d\<lparr>sd_size := word_of_nat swap_size\<rparr>));
            Some (m\<lparr>swap_data := l\<rparr>) } }) }"

text \<open>The inner option is NULL. A file that cannot be mapped is copied from \<open>MAP_FAILED\<close>.\<close>

definition retrieve_swapped_pcb :: "pcb_junk \<Rightarrow> memory \<Rightarrow> u32 \<Rightarrow> pcb_t option option" where
  "retrieve_swapped_pcb junk m pid =
     (case swap_files m pid of
        None \<Rightarrow> Some None
      | Some file \<Rightarrow>
          if \<not> open_ok (os m) pid then Some None
          else if \<not> can_map m pid (length file) then None
          else do {
            pcb_stream \<leftarrow> read_bytes (map_file m (length file) file) 0 (length file);
            pcb \<leftarrow> pcb_from_stream junk pcb_stream;
            Some (Some pcb) })"

text \<open>A PCB that the kernel sent to be swapped is read back from its file.\<close>

lemma swapped_pcb_retrieved:
  assumes "length (instructions pcb) < 2 ^ 32"
    and os: "os_page (os m) \<noteq> 0" "open_ok (os m) (pcb_id pcb)" "mmap_ok (os m) (pcb_id pcb)"
  shows "\<exists>m' sz. swap_pcb_stream junk m (pcb_to_stream pcb) = Some (m', True) \<and>
    retrieve_swapped_pcb junk m' (pcb_id pcb) =
      Some (Some (pcb\<lparr>pcb_size := sz, io := junk_io junk, real_time := junk_real junk\<rparr>)) \<and>
    (ucast sz :: u32) = ucast (pcb_size pcb)"
proof -
  let ?stream = "pcb_to_stream pcb" and ?pid = "pcb_id pcb"
  let ?m = "set_file m ?pid ?stream"
  obtain s where parse: "pcb_from_stream junk ?stream =
      Some (pcb\<lparr>pcb_size := s, io := junk_io junk, real_time := junk_real junk\<rparr>)"
    and low: "(ucast s :: u32) = ucast (pcb_size pcb)"
    using pcb_roundtrip [OF assms(1), of junk "[]"] by auto
  have "swap_pcb_stream junk m ?stream = Some (?m, True)"
    using swap_pcb_stream_eq [OF assms(1) os(1), of junk] os by simp
  moreover have "read_bytes (map_file ?m (length ?stream) ?stream) 0 (length ?stream) = Some ?stream"
    using map_file_take [of ?m ?stream "length ?stream"] os(1) by (simp add: read_bytes_def set_file_def)
  then have "retrieve_swapped_pcb junk ?m ?pid =
      Some (Some (pcb\<lparr>pcb_size := s, io := junk_io junk, real_time := junk_real junk\<rparr>))"
    using parse os pcb_to_stream_not_empty [of pcb]
    by (simp add: retrieve_swapped_pcb_def can_map_def set_file_def)
  ultimately show ?thesis using low by blast
qed

subsection \<open>Helpers of the handlers\<close>

definition receive_physical_address :: "(nat \<Rightarrow> byte) \<Rightarrow> socket \<Rightarrow> (u32 \<times> socket) option" where
  "receive_physical_address junk s =
     (let (r, s) = servidor_recibir_stream junk s in
      do {
        (stream, _) \<leftarrow> r;
        memory_position \<leftarrow> read_u32 stream 0;
        Some (memory_position, s) })"

definition frame_exist :: "memory \<Rightarrow> u32 \<Rightarrow> u32 option" where
  "frame_exist m f = get_table_lvl2_number m f"

definition frame_is_present :: "memory \<Rightarrow> u32 \<Rightarrow> u32 \<Rightarrow> bool option" where
  "frame_is_present m table_number f =
     (let table = safe_list_get (tables_lvl_2 m) (sint table_number) in
      do {
        found \<leftarrow> findM (\<lambda>i. do { t \<leftarrow> table; row \<leftarrow> arr_get t i; Some (frame row = f) }) [0..<rows_of m];
        (case found of
           None \<Rightarrow> Some False
         | Some i \<Rightarrow> do { t \<leftarrow> table; row \<leftarrow> arr_get t i; Some (present row) }) })"

definition get_page_table :: "memory \<Rightarrow> (memory \<times> u32) option" where
  "get_page_table m = create_new_process m"

definition swap_controller_request_pcb ::
    "'m kernel_env \<Rightarrow> 'm kernel \<Rightarrow> u32 \<Rightarrow> (int \<times> 'm kernel) option" where
  "swap_controller_request_pcb env k pid = send_memory env k RETRIEVE_SWAPPED_PCB (le32 pid)"

definition swap_controller_receive_pcb ::
    "(nat \<Rightarrow> byte) \<Rightarrow> 'm kernel \<Rightarrow> 'm kernel" where
  "swap_controller_receive_pcb junk k =
     (let (stream, s) = conexion_recibir_stream junk (sock (conexion_memory k)) in
      k\<lparr>conexion_memory := (conexion_memory k)\<lparr>sock := s\<rparr>\<rparr>)"

subsection \<open>Sending one instruction\<close>

definition instruction_send :: "conexion_t \<Rightarrow> instruction_t \<Rightarrow> (int \<times> conexion_t) option" where
  "instruction_send c i = conexion_enviar_stream c (opcode_num CMD) (instruction_to_stream i) 12"

text \<open>The instruction is freed after it was sent; \<open>None\<close> is NULL.\<close>

definition on_send_instruction :: "conexion_t \<Rightarrow> instruction_t option \<Rightarrow> (int \<times> conexion_t) option" where
  "on_send_instruction c inst =
     (case inst of
        None \<Rightarrow> Some (-1, c)
      | Some i \<Rightarrow> do { (n, c) \<leftarrow> instruction_send c i; Some (if 0 < n then 1 else -1, c) })"

text \<open>It would not be understood: the kernel reads a \<open>CMD\<close> as a list with its length in front, and so
  takes the code of the instruction for that length.\<close>

lemma sent_instruction_misread:
  assumes "icode i = 0"
  shows "instruction_list_from (instruction_to_stream i) = Some []"
  using assms
  by (simp add: instruction_list_from_def instruction_to_stream_def read_u32_append(2))

end
