(* ===== verification/Module_Properties.thy ===== *)
theory Module_Properties
  imports Modules Samples
begin

section \<open>Properties of the start of the programs, their connections and their threads\<close>

text \<open>A world of two-page tables in which the third attempt to connect succeeds.\<close>

definition sample_commons :: "(unit, unit, unit) commons" where
  "sample_commons = \<lparr>config_create = (\<lambda>_. Some ()), config_get_string_value = (\<lambda>_ k. Some k),
     config_get_int_value = (\<lambda>_ _. Some 2), config_get_double_value = (\<lambda>_ _. Some ()),
     log_create = (\<lambda>_ _. Some ())\<rparr>"

definition sample_net :: net_env where
  "sample_net = \<lparr>getaddrinfo = (\<lambda>_ _. Some [1]), open_socket = (\<lambda>_. 3), bind_socket = (\<lambda>_ _. 0),
     listen_socket = (\<lambda>_. 0)\<rparr>"

definition sample_world :: "(unit, unit, unit) world" where
  "sample_world = \<lparr>commons_of = sample_commons, net_of = sample_net,
     answers_of = (\<lambda>i. if i = 2 then 0 else -1), cwd_of = Some ''/home/so'', os_of = sample_env,
     thread_junk = (\<lambda>_. 0)\<rparr>"

definition sample_files :: "(unit, unit) runtime" where
  "sample_files = \<lparr>config_this = Some (), log_this = Some ()\<rparr>"

text \<open>C21. The CPU joins the memory: when its configuration gives an address that resolves and a
  buffer with entries, the CPU keeps trying until it is connected, and then it has a buffer of
  empty entries and the page size and number of entries of the memory's configuration, with the memory as it was;
  if no attempt ever succeeds it never returns.\<close>

theorem cpu_joins_memory:
  assumes "config_puerto_memoria (commons_of w) r = Some port" "config_ip_memoria (commons_of w) r = Some ip"
    and "getaddrinfo (net_of w) ip port = Some (info # infos)"
    and "tlb_config_of (commons_of w) r = Some c" "tlb_init c = Some t"
  shows "routine_conexion_memoria w r (serve_memory junk pj) junk' cpu m =
    (if \<exists>k. answers_of w k \<noteq> -1
     then Some (cpu\<lparr>conexion := \<lparr>sock = idle_socket, conectado = True\<rparr>, tlb := t, tlb_config := c,
       page_size := tam_pagina (cfg m), page_amount_entries := entradas_por_tabla (cfg m)\<rparr>, m)
     else None) \<and>
   tlb_wf t \<and> set (tlb_pairs t) = {(INVALID_FRAME, INVALID_FRAME)}"
proof -
  have "tlb_wf t \<and> set (tlb_pairs t) = {(INVALID_FRAME, INVALID_FRAME)}"
    using tlb_init_wf [OF assms(5)] by blast
  moreover have "conn_ok \<lparr>sock = idle_socket, conectado = True\<rparr>" by (simp add: conn_ok_def idle_socket_def)
  ultimately show ?thesis
    using assms connect_to_eq [OF assms(3)]
      handshake_eq [of "cpu\<lparr>conexion := \<lparr>sock = idle_socket, conectado = True\<rparr>, tlb := t, tlb_config := c\<rparr>"]
    by (auto simp: routine_conexion_memoria_def conexion_init_def conexion_of_def idle_socket_def)
qed

lemma cpu_joins_memory_witness:
  "map_option (\<lambda>(c, m). page_size c) (routine_conexion_memoria sample_world sample_files
     (serve_memory (\<lambda>_. 0) sample_junk) (\<lambda>_. 0) sample_cpu sample_memory) = Some 16"
proof -
  have c: "config_puerto_memoria (commons_of sample_world) sample_files = Some ''PUERTO_MEMORIA''"
    "config_ip_memoria (commons_of sample_world) sample_files = Some ''IP_MEMORIA''"
    "getaddrinfo (net_of sample_world) ''IP_MEMORIA'' ''PUERTO_MEMORIA'' = Some [1]"
    "tlb_config_of (commons_of sample_world) sample_files = Some \<lparr>entradas_tlb = 2, reemplazo_tlb = ''REEMPLAZO_TLB''\<rparr>"
    by (simp_all add: sample_world_def sample_commons_def sample_files_def sample_net_def config_string_def
        config_puerto_memoria_def config_ip_memoria_def tlb_config_of_def config_entradas_tlb_def
        config_reemplazo_tlb_def config_int_def)
  obtain t where t: "tlb_init \<lparr>entradas_tlb = 2, reemplazo_tlb = ''REEMPLAZO_TLB''\<rparr> = Some t"
    by (simp add: tlb_init_def)
  have "\<exists>k. answers_of sample_world k \<noteq> -1" by (auto simp: sample_world_def)
  moreover have "tam_pagina (cfg sample_memory) = 16" by code_simp
  ultimately show ?thesis
    using cpu_joins_memory [OF c t, of "\<lambda>_. 0" sample_junk "\<lambda>_. 0" sample_cpu sample_memory] by simp
qed

text \<open>C22. A server keeps track of exactly the threads of the clients it serves, whatever clients come
  and go (up to two to the power of 30 events), within the array of its manager; \<open>client\<close> is the last one
  that was accepted. At the end the threads are cancelled, but of the clients' sockets only that of the
  last one is closed.\<close>

theorem server_tracks_clients:
  assumes "length es \<le> 2 ^ 30"
  shows "\<exists>s. foldM (server_step junk) es (servidor_create net ip port) = Some s \<and>
    tracked (srv_tm s) = foldl live_step {#} es \<and>
    0 \<le> tm_size (srv_tm s) \<and> tm_size (srv_tm s) \<le> int (length (threads (srv_tm s))) \<and>
    srv_client s = foldl client_step (-1) es \<and>
    (\<exists>closed cancelled s'. servidor_destroy s = Some (closed, cancelled, s') \<and>
      mset cancelled = foldl live_step {#} es \<and>
      closed = fd (conexion_servidor_create net ip port) # (if 0 < srv_client s then [srv_client s] else []))"
proof -
  let ?s = "servidor_create net ip port"
  have init: "tm_wf 0 (srv_tm ?s)" "tracked (srv_tm ?s) = {#}" "srv_client ?s = -1"
    "srv_conexion ?s = conexion_servidor_create net ip port"
    by (simp_all add: servidor_create_def new_thread_manager_wf)
  obtain s where s: "foldM (server_step junk) es ?s = Some s" "tm_wf (length es) (srv_tm s)"
    "tracked (srv_tm s) = foldl live_step {#} es" "srv_client s = foldl client_step (-1) es"
    "srv_conexion s = conexion_servidor_create net ip port"
    using server_run_tracks [OF init(1), of es junk] assms init(2-) by auto
  show ?thesis
    using s destroy_cancels_tracked [OF s(2)]
    by (auto simp: tm_wf_def servidor_destroy_def conexion_destroy_def conexion_desconectar_def Let_def)
qed

lemma server_tracks_clients_witness:
  "\<exists>s. foldM (server_step (\<lambda>_. 0)) [Accepts 4 10, Accepts (-1) 11, Accepts 5 12, Ends 10]
      (servidor_create sample_net ''ip'' ''port'') = Some s \<and>
    tracked (srv_tm s) = {#12#} \<and> srv_client s = 5"
  using server_tracks_clients [of "[Accepts 4 10, Accepts (-1) 11, Accepts 5 12, Ends 10]" "\<lambda>_. 0"
      sample_net "''ip''" "''port''"]
  by auto

text \<open>C23. What the programs do when their log or their configuration does not open. \<open>on_init\<close> returns
  the status of the error and leaves no file open; the CPU ends with that status and the console
  with \<open>EXIT_FAILURE\<close>; the memory and the kernel, whose \<open>main\<close> cleans up all the same, follow the
  NULL pointers of a state that was not made. And a memory that was initialized serves its
  clients, but ends with status 0 when its server cannot listen.\<close>

theorem start_up_errors:
  assumes "paths_fit w name" and "start_status w name \<noteq> 0"
  shows "(name = ''memory'' \<longrightarrow>
      memory_on_init w no_files = Some (start_status w name, no_files, None) \<and> memory_main w = None) \<and>
    (name = ''kernel'' \<longrightarrow>
      kernel_on_init w t memory dispatch interrupts k no_files = Some (start_status w name, no_files, None) \<and>
      kernel_main w t ts memory dispatch interrupts k = None) \<and>
    (name = ''cpu'' \<longrightarrow> cpu_main w serve_m junk t0 t1 cpu m = Some (Exits (start_status w name))) \<and>
    (name = ''console'' \<and> atoi sz \<noteq> None \<longrightarrow> console_main w files [prog, file, sz] = Some (Exits 1)) \<and>
    (memory_on_init v no_files = Some (0, r, Some (server, n)) \<longrightarrow> memory_main v =
      Some (if listen_socket (net_of v) (fd (srv_conexion server)) = -1 then Exits 0 else Serves))"
proof -
  note failed = failed_init [OF assms]
  have mm: "memory_main w = None" if "name = ''memory''"
    using failed(1) [OF that] assms(2) by (simp add: memory_main_def memory_on_before_exit_def)
  have km: "kernel_main w t ts memory dispatch interrupts k = None" if "name = ''kernel''"
    using assms(2) by (simp add: failed(2) [OF that] kernel_main_def kernel_on_before_exit_def)
  have cm: "cpu_main w serve_m junk t0 t1 cpu m = Some (Exits (start_status w name))" if "name = ''cpu''"
    using failed(3) [OF that] assms(2) by (simp add: cpu_main_def)
  have co: "console_main w files [prog, file, sz] = Some (Exits 1)"
    if "name = ''console''" "atoi sz \<noteq> None"
    using failed(4) [OF that(1)] that(2) by (auto simp: console_main_def context_evaluate_def arr_get_def)
  show ?thesis
    by (intro conjI impI; (elim conjE)?; (rule failed(1) mm failed(2) km cm co memory_main_started; assumption))
qed

lemma start_up_errors_witness:
  "memory_main (sample_world\<lparr>commons_of := sample_commons\<lparr>config_create := (\<lambda>_. None)\<rparr>\<rparr>) = None"
proof -
  let ?w = "sample_world\<lparr>commons_of := sample_commons\<lparr>config_create := (\<lambda>_. None)\<rparr>\<rparr>"
  have "paths_fit ?w ''memory''"
    by (simp add: paths_fit_def sample_world_def file_of_def)
  moreover have "start_status ?w ''memory'' \<noteq> 0"
    by (simp add: start_status_def log_of_def config_of_def sample_world_def sample_commons_def)
  ultimately show ?thesis using start_up_errors [of ?w "''memory''", THEN conjunct1] by blast
qed

end
