(* ===== verification/Kernel_Properties.thy ===== *)
theory Kernel_Properties
  imports Kernel_Memory Cpu_Kernel Shutdown
begin

section \<open>Properties of the kernel\<close>

text \<open>
  The properties of the schedulers, over the states that the steps of the kernel's threads
  reach from its start (\<open>kernel_reachable\<close>), each with an instance on the sample runs of
  \<open>Kernel_Runs\<close> (a kernel without a memory) and of \<open>Kernel_Memory\<close> (on the memory module).
\<close>

text \<open>The sample state is reached with a line to the CPU that starts idle.\<close>

lemma sample_reached:
  "kernel_reachable half_env (on_init_kernel 1 ''SRT'' offline online offline ()) arrived_kernel"
  "sorts_lists (list_sort half_env)" "idle_line online"
  using arrives_run(2) sort_by_sorts
  by (simp_all add: small_kernel_def half_env_fields idle_line_def online_def quiet_def)

lemma arrived_fields:
  "q_new arrived_kernel = []" "q_ready arrived_kernel = [0]" "q_ready_sus arrived_kernel = []"
  "q_blocked arrived_kernel = []" "q_blocked_sus arrived_kernel = []" "pcbs arrived_kernel = []"
  "io_unit arrived_kernel = Io_waiting" "sts arrived_kernel = Sts_waiting" "lts arrived_kernel = Lts_waiting"
  "dom_sem arrived_kernel = 0" "execute_sem arrived_kernel = 1"
  "get_next_fn arrived_kernel = Get_next_fifo" "conexion_memory arrived_kernel = offline"
  "pcb_heap arrived_kernel = [0 \<mapsto> (new_pcb 0 64 10)\<lparr>instructions := io_program, status := 1\<rparr>]"
  by (simp_all add: arrived_kernel_def small_kernel_fields)

text \<open>C24. In every state that the threads of the kernel reach, as long as no process has two
  trackers waiting, the free slots of the degree of multiprogramming and the processes that
  are ready, running or blocked but not suspended add up to the configured degree.\<close>

theorem multiprogramming_degree:
  assumes "kernel_reachable env (on_init_kernel grado algorithm memory dispatch interrupts m) k"
    and "sorts_lists (list_sort env)" and "idle_line dispatch"
  shows "dom_sem k + using_slot k = grado"
  using reachable_wf [OF assms] by (simp add: kernel_wf_def counted_def)

lemma multiprogramming_degree_witness: "dom_sem arrived_kernel + using_slot arrived_kernel = 1"
  by (rule multiprogramming_degree [OF sample_reached])

text \<open>C25. In every such state each PCB in memory is in exactly one place (it waits for its
  program, is in one queue or is in the I/O unit), no place holds a PCB that was freed, no
  two PCBs have one identifier, and the process the CPU has is none of them. So a kernel that is
  shut down then frees no PCB twice, and leaves none but that of the I/O unit.\<close>

theorem pcbs_have_one_owner:
  assumes "kernel_reachable env (on_init_kernel grado algorithm memory dispatch interrupts m) k"
    and "sorts_lists (list_sort env)" and "idle_line dispatch"
  shows "distinct (places k) \<and> set (places k) = dom (pcb_heap k) \<and>
    inj_on (pid_at k) (set (places k)) \<and> (\<forall>pid. on_cpu k pid \<longrightarrow> pid \<notin> pid_at k ` set (places k)) \<and>
    (\<forall>n tm. tm_wf n tm \<longrightarrow> (\<exists>ts k'. delete_processes tm k = Some (ts, k') \<and>
       mset ts = tracked tm \<and> dom (pcb_heap k') = set (in_io k)))"
proof -
  have wf: "kernel_wf grado k" using reachable_wf [OF assms] by simp
  then have own: "owned k" by (simp add: kernel_wf_def)
  from wf show ?thesis using delete_processes_frees [OF own]
    unfolding kernel_wf_def owned_def identified_def by blast
qed

lemma pcbs_have_one_owner_witness:
  "distinct (places arrived_kernel) \<and> set (places arrived_kernel) = dom (pcb_heap arrived_kernel) \<and>
   (\<exists>k'. delete_processes new_thread_manager arrived_kernel = Some ([], k'))"
  using pcbs_have_one_owner [OF sample_reached] new_thread_manager_wf by fastforce

text \<open>C26. A thread that a semaphore woke finds the process it was woken for: the long-term
  scheduler with a request has a new or a suspended process to admit, the I/O thread with a
  request retrieves a blocked PCB, and there is a signal for every ready process.\<close>

theorem woken_threads_find_work:
  assumes "kernel_reachable env (on_init_kernel grado algorithm memory dispatch interrupts m) k"
    and "sorts_lists (list_sort env)" and "idle_line dispatch"
  shows "(lts k = Lts_request \<longrightarrow> q_new k \<noteq> [] \<or> q_ready_sus k \<noteq> []) \<and>
    (io_unit k = Io_waiting \<and> 0 < io_request k \<longrightarrow> fst (retrieve_pcb k) \<noteq> None) \<and>
    length (q_ready k) \<le> execute_sem k"
proof (intro conjI impI)
  have wf: "kernel_wf grado k" using reachable_wf [OF assms] by simp
  then have count: "counted grado k" by (simp add: kernel_wf_def)
  then show "length (q_ready k) \<le> execute_sem k" by (simp add: counted_def)
  show "q_new k \<noteq> [] \<or> q_ready_sus k \<noteq> []" if "lts k = Lts_request"
    using count that by (auto simp: counted_def)
  show "fst (retrieve_pcb k) \<noteq> None" if "io_unit k = Io_waiting \<and> 0 < io_request k"
    using io_begin_defined [OF wf] that by auto
qed

lemma woken_threads_find_work_witness:
  "length (q_ready arrived_kernel) \<le> execute_sem arrived_kernel"
  using woken_threads_find_work [OF sample_reached] by blast

text \<open>The start of the kernel on the memory module.\<close>

lemma module_reached:
  "kernel_reachable memory_env (on_init_kernel 1 ''SRT'' online online offline sample_start) queued_kernel"
  "kernel_reachable memory_env (on_init_kernel 1 ''SRT'' online online offline sample_start) module_waits_kernel"
  "sorts_lists (list_sort memory_env)" "idle_line online"
  using queued_run(2) module_waits_reached sort_by_sorts
  by (simp_all add: module_kernel_def memory_env_fields idle_line_def online_def quiet_def)

text \<open>C27. The schedulers do not deadlock. The kernel is connected to the memory module, whose
  directories are well-formed and have room for one more process, whose list of swap metadata holds
  no \<open>NULL\<close> and whose system has pages of four bytes or more; the line to the CPU is up and the CPU
  has no process. Then, as long as a process is in a queue or in the I/O unit, some thread can take
  a step that moves a process.\<close>

theorem schedulers_do_not_deadlock:
  assumes "kernel_reachable env (on_init_kernel grado algorithm memory dispatch interrupts m) k"
    and "sorts_lists (list_sort env)" and "idle_line dispatch" and "0 < grado"
    and "mem_server env = serve_memory junk pj" and "conn_ok (conexion_memory k)"
    and "mem_wf (memory_side k)" and "has_room (memory_side k)" and "swap_ready (memory_side k)"
    and "cpu_link_ok k" and "sts k = Sts_waiting" and "processes_pending k"
  shows "\<exists>e k'. scheduler_moves k e \<and> kernel_step env k e k'"
proof -
  have wf: "kernel_wf grado k" using reachable_wf [OF assms(1-3)] by simp
  then have "\<forall>a \<in> set (q_new k). pcb_heap k a \<noteq> None"
    by (auto simp: kernel_wf_def owned_def places_def)
  note served = module_serves_admission [OF assms(5-9) this]
  have "dispatch_served env k" using assms(10) by (simp add: dispatch_served_def)
  from pending_moves [OF served this wf assms(2,4,11,12)] show ?thesis .
qed

lemma schedulers_do_not_deadlock_witness:
  "\<exists>e k'. scheduler_moves queued_kernel e \<and> kernel_step memory_env queued_kernel e k'"
  by (rule schedulers_do_not_deadlock [OF module_reached(1,3,4), of "\<lambda>_. 0" sample_junk])
    (simp_all add: queued_kernel_def module_kernel_fields memory_env_fields online_ok sample_start_ready
      conn_ok_def cpu_link_ok_def online_def quiet_def processes_pending_def)

text \<open>C28. In every state that the threads of the kernel reach, as long as no process has two trackers
  waiting, a tracker that fires works on a PCB that is still in memory: with the memory module at the
  other end of a good connection, its step is defined. The list of swap metadata holds no \<open>NULL\<close>, the
  system's pages have four bytes or more, and the PCBs fit in a message.\<close>

theorem timely_trackers_are_safe:
  assumes "kernel_reachable env (on_init_kernel grado algorithm memory dispatch interrupts m) k"
    and "sorts_lists (list_sort env)" and "idle_line dispatch"
    and "mem_server env = serve_memory junk pj" and "conn_ok (conexion_memory k)"
    and "swap_ready (memory_side k)" and "\<forall>a p. pcb_heap k a = Some p \<longrightarrow> pcb_bytes_size p < 2 ^ 32"
    and "i < length (trackers k)"
  shows "\<exists>k'. kernel_step env k (Tracker_fires i) k'"
proof -
  have "track_time env (k\<lparr>trackers := drop_nth i (trackers k)\<rparr>) (trackers k ! i) \<noteq> None"
    by (rule track_time_defined [OF module_serves_suspension [OF assms(4-7)]
        conjunct1 [OF reachable_wf [OF assms(1-3)]] assms(8)])
  then show ?thesis using fires [OF assms(8)] by blast
qed

lemma timely_trackers_are_safe_witness:
  "\<exists>k'. kernel_step memory_env module_waits_kernel (Tracker_fires 0) k'"
proof (rule timely_trackers_are_safe [OF module_reached(2-4), of "\<lambda>_. 0" sample_junk])
  show "swap_ready (memory_side module_waits_kernel)"
    using started_ready by (simp add: module_waits_kernel_def admitted_kernel_def)
  show "\<forall>a p. pcb_heap module_waits_kernel a = Some p \<longrightarrow> pcb_bytes_size p < 2 ^ 32"
    by (auto simp: module_waits_kernel_def blocked_answer_def pcb_bytes_size_def io_program_def)
qed (simp_all add: module_waits_kernel_def admitted_kernel_def queued_kernel_def module_kernel_fields
    memory_env_fields online_ok)

text \<open>C29. A tracker whose PCB was freed follows the freed pointer. Say that a step of any state that
  the threads reach frees the PCB at \<open>a\<close>, as \<open>execute\<close> does when the process gets the CPU, and
  any steps follow. The address stays free (here \<open>malloc\<close> returns no address twice). When a tracker with the pointer \<open>a\<close> then fires
  while its process is in the I/O unit and not in the queue of blocked processes, its step is
  undefined, and what is missing is the PCB: with one at \<open>a\<close> the tracker would suspend it.\<close>

theorem late_tracker_uses_freed_pcb:
  assumes "kernel_reachable env (on_init_kernel grado algorithm memory dispatch interrupts m) k0"
    and "sorts_lists (list_sort env)" and "idle_line dispatch"
    and "kernel_step env k0 e k" and "pcb_heap k0 a \<noteq> None" and "pcb_heap k a = None"
    and "kernel_steps env k es k'"
    and "i < length (trackers k')" and "trackers k' ! i = (a, pid)" and "only_in_io k' pid"
  shows "pcb_heap k' a = None \<and> (\<nexists>k2. kernel_step env k' (Tracker_fires i) k2) \<and>
    (\<forall>p. let k1 = k'\<lparr>trackers := drop_nth i (trackers k'), pcb_heap := (pcb_heap k')(a \<mapsto> p)\<rparr> in
      track_time env k1 (a, pid) = suspend env k1 a)"
proof -
  have "owned k0" using reachable_wf [OF assms(1-3)] by (simp add: kernel_wf_def)
  then have "a < brk k0" using assms(5) by (auto simp: owned_def)
  then have below: "a < brk k" using step_revives_none [OF assms(4)] by (simp add: no_revival_def)
  note freed = freed_tracker_undefined [OF assms(7,6) below assms(10)]
  have "\<nexists>k2. kernel_step env k' (Tracker_fires i) k2"
    using freed(2) assms(9) by (auto elim: kernel_stepE)
  then show ?thesis using freed(1,3) by (simp add: Let_def)
qed

lemma late_tracker_uses_freed_pcb_witness:
  "kernel_run half_env small_kernel (arrives @ blocks_twice @ [Begin_io]) = Some second_io_kernel \<and>
   (\<nexists>k. kernel_step half_env second_io_kernel (Tracker_fires 0) k)"
proof
  show "kernel_run half_env small_kernel (arrives @ blocks_twice @ [Begin_io]) = Some second_io_kernel"
    by (simp add: kernel_run_append arrives_run blocks_twice_run second_io_run del: kernel_do.simps)
  have "kernel_steps half_env running_again_kernel [Cpu_returns, Io_begins] second_io_kernel"
    using kernel_do_step [OF blocks_again_run(4)] kernel_do_step [OF second_io_run]
    by (auto intro: kernel_steps.intros)
  then show "\<nexists>k. kernel_step half_env second_io_kernel (Tracker_fires 0) k"
    using late_tracker_uses_freed_pcb [OF ready_again_reached [unfolded small_kernel_def] sample_reached(2,3)
        kernel_do_step [OF blocks_again_run(3)], of 1 "[Cpu_returns, Io_begins]" second_io_kernel 0 0]
    by (simp add: ready_again_kernel_def running_again_kernel_def second_io_kernel_def blocked_kernel_def
        only_in_io_def)
qed

text \<open>C30. A second suspension frees a second slot. In any state where a tracker's process is in the
  I/O unit, is not in the queue of blocked processes and is suspended already, the tracker that fires
  suspends it again (the memory takes its PCB): there is one free slot more and no process less
  that uses one, so with slots that added up to the degree of multiprogramming they now add up to
  one more.\<close>

theorem two_suspensions_free_two_slots:
  assumes "i < length (trackers k)" and "trackers k ! i = (a, pid)"
    and "io_unit k = Io_busy a" and "only_in_io k pid"
    and "pcb_heap k a = Some p" and "status p = status_num PCB_SUSPENDED_BLOCKED"
    and "send_memory env k SWAP_PCB (pcb_to_stream p) \<noteq> None"
  shows "\<exists>k'. kernel_step env k (Tracker_fires i) k' \<and>
    dom_sem k' + using_slot k' = Suc (dom_sem k + using_slot k)"
  using second_suspension [OF assms] by auto

lemma two_suspensions_free_two_slots_witness:
  "kernel_run half_env small_kernel (arrives @ blocks_twice @ [Fire 0, Begin_io]) = Some suspended_io_kernel \<and>
   (\<exists>k. kernel_step half_env suspended_io_kernel (Tracker_fires 0) k \<and> dom_sem k + using_slot k = 2)"
proof -
  have fields: "trackers suspended_io_kernel = [(2, 0)]" "io_unit suspended_io_kernel = Io_busy 2"
    "only_in_io suspended_io_kernel 0" "dom_sem suspended_io_kernel + using_slot suspended_io_kernel = 1"
    "pcb_heap suspended_io_kernel 2 = Some ((blocked_answer 4)\<lparr>io := 9, real_time := 3, status := 5\<rparr>)"
    by (simp_all add: suspended_io_kernel_def second_io_kernel_def blocked_kernel_def arrived_kernel_def
        small_kernel_fields only_in_io_def using_slot_def in_io_def status_at_def)
  have sent: "send_memory half_env suspended_io_kernel SWAP_PCB bytes \<noteq> None" for bytes
    by (simp add: send_memory_def conexion_enviar_stream_def deliver_def suspended_io_kernel_def
        second_io_kernel_def blocked_kernel_def arrived_kernel_def small_kernel_fields offline_def quiet_def)
  from two_suspensions_free_two_slots [of 0 suspended_io_kernel 2 0, OF _ _ fields(2,3,5) _ sent] fields(1,4)
  show ?thesis using suspended_io_run by (simp add: numeral_2_eq_2)
qed

text \<open>C31. With \<open>get_next_fifo\<close> nobody is overtaken: in a run with at most as many dispatches as
  there are processes before a ready process, it is still ready, with that many processes
  fewer before it; the next dispatch after those is its own.\<close>

theorem ready_process_keeps_its_turn:
  assumes "kernel_steps env k es k'" and "get_next_fn k = Get_next_fifo" and "q_ready k = us @ a # vs"
    and "length (filter (\<lambda>e. e = Sts_dispatches) es) \<le> length us"
  shows "\<exists>ws. q_ready k' = drop (length (filter (\<lambda>e. e = Sts_dispatches) es)) us @ a # ws"
  by (rule steps_in_order [OF assms])

definition two_ready :: "unit kernel" where
  "two_ready = arrived_kernel\<lparr>q_ready := [0, 1], execute_sem := 2, brk := 2,
     pcb_heap := (pcb_heap arrived_kernel)(1 \<mapsto> (new_pcb 1 64 10)\<lparr>status := 1\<rparr>)\<rparr>"

lemma ready_process_keeps_its_turn_witness:
  "\<exists>k' ws. kernel_steps half_env two_ready [Sts_dispatches] k' \<and> q_ready k' = 1 # ws"
proof -
  obtain k' where "kernel_do half_env two_ready Dispatch = Some k'"
    by (simp add: two_ready_def arrived_fields get_next_def get_next_fifo_def execute_sent
        arrived_kernel_def small_kernel_fields online_def quiet_def)
  from kernel_do_step [OF this] have "kernel_steps half_env two_ready [Sts_dispatches] k'"
    by (auto intro: kernel_steps.intros)
  then show ?thesis
    using ready_process_keeps_its_turn [of half_env two_ready "[Sts_dispatches]" k' "[0]" 1 "[]"]
    by (auto simp: two_ready_def arrived_fields)
qed

text \<open>C32. What the configured algorithm selects: with \<open>FIFO\<close> the short-term scheduler takes a ready
  process with the shortest estimation, and with any other name (\<open>SRT\<close>) the one that has
  waited the longest. The two functions are the other way round in \<open>new_scheduler\<close>.\<close>

theorem selected_process:
  assumes "kernel_reachable env (on_init_kernel grado algorithm memory dispatch interrupts m) k"
    and "sorts_lists (list_sort env)" and "get_next env k = Some (Some a, k')"
  shows "if algorithm = ''FIFO''
    then a \<in> set (q_ready k) \<and>
      (\<forall>b \<in> set (q_ready k). estimation (the (pcb_heap k a)) \<le> estimation (the (pcb_heap k b)))
    else q_ready k = a # q_ready k'"
proof -
  have fn: "get_next_fn k = (if algorithm \<noteq> ''FIFO'' then Get_next_fifo else Get_next_srt)"
    using reachable_algorithm [OF assms(1)] by (simp add: on_init_kernel_def new_scheduler_def)
  show ?thesis
  proof (cases "algorithm = ''FIFO''")
    case True
    then have "get_next_srt env k = Some (Some a, k')" using assms(3) fn by (simp add: get_next_def)
    from get_next_srt_shortest [OF assms(2) this] show ?thesis by (simp add: True)
  next
    case False
    then show ?thesis
      using assms(3) fn by (auto simp: get_next_def get_next_fifo_def safe_queue_pop_def split: list.splits)
  qed
qed

lemma selected_process_witness: "q_ready arrived_kernel = [0]"
  using selected_process [OF sample_reached(1,2), of 0 "arrived_kernel\<lparr>q_ready := []\<rparr>"]
  by (simp add: arrived_fields get_next_def get_next_fifo_def)

text \<open>C33. The two ends of the dispatch connection fit: when the CPU module, idle, gets the bytes the
  kernel has written, receives the PCB and runs it to the end of its quantum, what it writes
  back is an answer that the kernel's model expects, with the same process in it.\<close>

theorem cpu_module_refines_answers:
  assumes "outgoing (sock c) = message PCB stream" and "length stream + 4 < 2 ^ 32"
    and "cpu_pcb cpu = None"
    and "incoming fd = outgoing (sock c)" "\<not> recv_error fd" "\<not> send_error fd" "outgoing fd = []"
    and "request_handler junk pj cpu fd = Some (cpu1, fd1, stays)"
    and "run_pcb n serve junk (cpu1\<lparr>dispatch_client := Some fd1\<rparr>) m = Some (cpu2, m2, True)"
  shows "\<exists>p t fd2. dispatch_client cpu2 = Some fd2 \<and>
    cpu_answers pj c p t (c\<lparr>sock := (sock c)\<lparr>outgoing := [], incoming := outgoing fd2\<rparr>\<rparr>)"
  by (rule cpu_module_answers [OF assms])

definition exit_pcb :: pcb_t where
  "exit_pcb = (new_pcb 3 64 4)\<lparr>instructions := [instruction_create (instcode_num C_REQUEST_EXIT) 0 0]\<rparr>"

definition resting_cpu :: cpu_t where
  "resting_cpu = sample_cpu\<lparr>cpu_pcb := None, dispatch_client := None, cpu_in_use := 1\<rparr>"

definition exit_socket :: socket where
  "exit_socket = idle_socket\<lparr>incoming := message PCB (pcb_to_stream exit_pcb)\<rparr>"

definition no_server :: "unit server" where
  "no_server m bytes = None"

definition exit_handled :: cpu_t where
  "exit_handled = resting_cpu\<lparr>cpu_pcb := Some (received sample_junk exit_pcb), cpu_in_use := 0,
     pcb_received := 1\<rparr>"

lemma exit_handling:
  "request_handler (\<lambda>_. 0) sample_junk resting_cpu exit_socket = Some (exit_handled, idle_socket, True)"
proof -
  let ?stream = "pcb_to_stream exit_pcb"
  let ?s = "idle_socket\<lparr>incoming := le32 (word_of_nat (length ?stream)) @ ?stream\<rparr>"
  have len: "length ?stream < 2 ^ 32"
    by (simp add: length_pcb_to_stream exit_pcb_def pcb_bytes_size_def)
  have op: "servidor_recibir_operacion (\<lambda>_. 0) exit_socket = (7, ?s)"
    using recibir_operacion_message [of exit_socket PCB ?stream "[]" "\<lambda>_. 0"]
    by (simp add: exit_socket_def idle_socket_def)
  have "servidor_recibir_stream (\<lambda>_. 0) ?s = (Some (?stream, int (length ?stream)), idle_socket)"
    using recibir_buffer_message [of ?s ?stream "[]" "\<lambda>_. 0"] len by (simp add: idle_socket_def)
  moreover have "pcb_from_stream sample_junk ?stream = Some (received sample_junk exit_pcb)"
    using pcb_roundtrip_fields [of exit_pcb sample_junk "[]"] by (simp add: received_def exit_pcb_def)
  moreover have "opcode_of 7 = Some PCB" by (simp add: opcode_of_def opcodes_def)
  ultimately show ?thesis
    unfolding request_handler_def op
    by (simp add: can_receive_pcb_def resting_cpu_def receive_pcb_def exit_handled_def sample_cpu_def)
qed

lemma exit_ends:
  assumes p: "cpu_pcb cpu = Some p" "pc p = 0" "instructions p = [instruction_create (instcode_num C_REQUEST_EXIT) 0 0]"
    and "\<not> has_interruption cpu" and fd: "dispatch_client cpu = Some fd"
    and reset: "\<And>t. tlb_reset (tlb_config cpu) t = Some t0"
    and send: "\<And>p t. \<exists>n s. servidor_enviar_stream INOUT fd (pcb_to_stream p @ le32 t) (pcb_bytes_size p + 4) = Some (n, s)"
  shows "\<exists>cpu'. run_pcb 2 serve junk cpu m = Some (cpu', m, True)"
proof -
  let ?i = "instruction_create (instcode_num C_REQUEST_EXIT) 0 0"
  let ?p = "p\<lparr>pc := 1\<rparr>"
  let ?q = "?p\<lparr>status := status_num PCB_TERMINATED\<rparr>"
  let ?c = "cpu\<lparr>cpu_pcb := Some ?p\<rparr>"
  obtain n s where sent: "servidor_enviar_stream INOUT fd (pcb_to_stream ?q @ le32 0) (pcb_bytes_size ?q + 4) = Some (n, s)"
    using send by blast
  have fetch: "instruction_fetch cpu = Some (Some 0, ?c)"
    by (simp add: instruction_fetch_def p)
  have "param0 ?i = 0" "\<not> decode ?i" "instcode_of (icode ?i) = Some C_REQUEST_EXIT"
    by (simp_all add: instruction_create_def decode_def instcode_of_def)
  moreover from this have "execute_EXIT ?i ?c = Some (cpu\<lparr>cpu_pcb := None, tlb := t0, dispatch_client := Some s,
      cpu_in_use := cpu_in_use cpu + 1\<rparr>)"
    using sent by (simp add: execute_EXIT_def cpu_tlb_reset_def reset return_pcb_def fd)
  ultimately have "cycle serve junk cpu m = Some (cpu\<lparr>cpu_pcb := None, tlb := t0, dispatch_client := Some s,
      cpu_in_use := cpu_in_use cpu + 1\<rparr>, m)"
    using assms(4) fetch by (simp add: cycle_def arr_get_def p instruction_execute_def)
  then show ?thesis by (simp add: numeral_2_eq_2 p)
qed

lemma exit_runs:
  "\<exists>cpu. run_pcb 2 no_server (\<lambda>_. 0) (exit_handled\<lparr>dispatch_client := Some idle_socket\<rparr>) () = Some (cpu, (), True)"
proof -
  have "\<exists>t0. \<forall>t. tlb_reset sample_tlb_cfg t = Some t0"
    by (simp add: tlb_reset_def tlb_init_def sample_tlb_cfg_def)
  then obtain t0 where reset: "tlb_reset sample_tlb_cfg t = Some t0" for t by blast
  have send: "\<exists>n s. servidor_enviar_stream INOUT idle_socket (pcb_to_stream p @ le32 t) (pcb_bytes_size p + 4)
      = Some (n, s)" for p t
    using servidor_enviar_stream_message [of idle_socket "pcb_bytes_size p + 4" "pcb_to_stream p @ le32 t" INOUT]
    by (simp add: idle_socket_def length_pcb_to_stream)
  show ?thesis
    by (rule exit_ends [where p = "received sample_junk exit_pcb" and fd = idle_socket and ?t0.0 = t0])
      (simp_all add: exit_handled_def resting_cpu_def sample_cpu_def exit_pcb_def new_pcb_def reset send received_def)
qed

lemma cpu_module_refines_answers_witness: "\<exists>p t c. cpu_answers sample_junk (cpu_has exit_pcb) p t c"
proof -
  obtain cpu where run: "run_pcb 2 no_server (\<lambda>_. 0) (exit_handled\<lparr>dispatch_client := Some idle_socket\<rparr>) ()
      = Some (cpu, (), True)" using exit_runs by blast
  have "outgoing (sock (cpu_has exit_pcb)) = message PCB (pcb_to_stream exit_pcb)"
    "length (pcb_to_stream exit_pcb) + 4 < 2 ^ 32" "cpu_pcb resting_cpu = None"
    "incoming exit_socket = outgoing (sock (cpu_has exit_pcb))" "\<not> recv_error exit_socket"
    "\<not> send_error exit_socket" "outgoing exit_socket = []"
    by (simp_all add: cpu_has_def online_def quiet_def exit_socket_def idle_socket_def resting_cpu_def
        length_pcb_to_stream exit_pcb_def pcb_bytes_size_def)
  from cpu_module_refines_answers [OF this exit_handling run] show ?thesis by blast
qed

text \<open>C34. What the short-term scheduler does with the answer of the CPU: the PCB is a new block with
  the fields that were sent; a blocked process gets its I/O time and a new estimation, goes to
  the blocked queue and gets a tracker and a request of the I/O unit; a preempted one gets the
  distance of its estimation and its real time, which does not wrap around, and goes to the
  end of the ready queue; the CPU is free and the scheduler is woken again.\<close>

theorem kernel_takes_the_answer:
  assumes "incoming (sock (conexion_dispatch k)) = message INOUT (pcb_to_stream p @ le32 t)"
    and "\<not> recv_error (sock (conexion_dispatch k))" and "pcb_bytes_size p + 4 < 2 ^ 32"
  shows "let q = (received (heap_junk env) p)\<lparr>real_time := u\<rparr>; a = brk k;
      k1 = k\<lparr>conexion_dispatch := (conexion_dispatch k)\<lparr>sock := (sock (conexion_dispatch k))\<lparr>incoming := []\<rparr>\<rparr>,
        brk := Suc a, current_estimation := 0, execute_sem := Suc (execute_sem k), sts := Sts_waiting\<rparr> in
    (status p = status_num PCB_BLOCKED \<longrightarrow> execute_return env k u = Some (k1\<lparr>
      pcb_heap := (pcb_heap k)(a \<mapsto> q\<lparr>io := t,
        estimation := alfa_part env u + rest_part env (estimation p)\<rparr>),
      q_blocked := q_blocked k @ [a], trackers := trackers k @ [(a, pcb_id p)],
      io_request := Suc (io_request k)\<rparr>)) \<and>
    (status p = status_num PCB_READY \<longrightarrow> execute_return env k u = Some (k1\<lparr>
      pcb_heap := (pcb_heap k)(a \<mapsto> q\<lparr>estimation :=
        word_of_int \<bar>uint u - uint (estimation p)\<bar>\<rparr>), q_ready := q_ready k @ [a]\<rparr>))"
proof -
  have dist: "word_of_int \<bar>uint u - uint (estimation p)\<bar> =
      (if u < estimation p then estimation p - u else u - estimation p)"
    by (auto simp: word_less_def abs_if)
  show ?thesis
    unfolding Let_def
    by (cases "u < estimation p"; intro conjI impI)
      (use execute_return_answer [OF assms, of env u] in
        \<open>simp_all add: Let_def block_effect pre_empt_effect dist\<close>)
qed

lemma kernel_takes_the_answer_witness:
  "\<exists>k'. execute_return half_env (small_kernel\<lparr>conexion_dispatch := online\<lparr>sock :=
     quiet (message INOUT (pcb_to_stream (blocked_answer 10) @ le32 7))\<rparr>\<rparr>) 3 = Some k' \<and> q_blocked k' = [0]"
  using kernel_takes_the_answer [of "small_kernel\<lparr>conexion_dispatch := online\<lparr>sock :=
     quiet (message INOUT (pcb_to_stream (blocked_answer 10) @ le32 7))\<rparr>\<rparr>" "blocked_answer 10" 7 3 half_env]
  by (simp add: quiet_def online_def small_kernel_fields blocked_answer_def io_program_def pcb_bytes_size_def Let_def)

text \<open>C35. An admission on the memory module, whose directories are well-formed with room for one more
  process. A process that was suspended comes first, and the memory is asked for nothing. Without
  one, a new process gets the page table that the module makes for it: its slot was unused, its
  pages have no frames, and the pages of every other process and the frames stay as they were.
  Either becomes ready, the last of its queue, and with an algorithm that interrupts (\<open>SRT\<close>) an
  \<open>INT\<close> is sent to the CPU when its estimation is shorter than that of the current process.\<close>

theorem admission_on_memory:
  assumes "mem_server env = serve_memory junk pj" and "conn_ok (conexion_memory k)"
    and "mem_wf (memory_side k)" and "has_room (memory_side k)" and "swap_ready (memory_side k)"
    and "q_ready_sus k @ q_new k = a # qs" and "pcb_heap k a = Some p"
  shows "let line = (if interrupt k \<and> estimation p < current_estimation k
        then snd (connection_send_value (conexion_interrupt k) (le32 (opcode_num INT_op)))
        else conexion_interrupt k) in
    if q_ready_sus k \<noteq> []
    then admit env k = Some (k\<lparr>q_ready_sus := tl (q_ready_sus k),
      pcb_heap := (pcb_heap k)(a \<mapsto> p\<lparr>status := status_num PCB_READY\<rparr>),
      conexion_interrupt := line, q_ready := q_ready k @ [a], execute_sem := Suc (execute_sem k)\<rparr>)
    else \<exists>m t. admit env k = Some (k\<lparr>q_new := qs, memory_side := m,
        pcb_heap := (pcb_heap k)(a \<mapsto> p\<lparr>page_table := t, status := status_num PCB_READY\<rparr>),
        conexion_interrupt := line, q_ready := q_ready k @ [a], execute_sem := Suc (execute_sem k)\<rparr>) \<and>
      mem_wf m \<and> safe_list_get (tables_lvl_1 (memory_side k)) (sint t) = None \<and>
      process_rows m t = Some (replicate (rows_of (memory_side k) * rows_of (memory_side k)) free_row) \<and>
      (\<forall>tj rs. tj \<noteq> t \<longrightarrow> process_rows (memory_side k) tj = Some rs \<longrightarrow> process_rows m tj = Some rs) \<and>
      frames m = frames (memory_side k)"
proof (cases "q_ready_sus k")
  case (Cons b ss)
  then have "b = a" using assms(6) by simp
  with Cons admit_resumes_eq [of k a ss p env] assms(7) show ?thesis
    by (simp add: Let_def signalled_def del: opcode_num.simps)
next
  case Nil
  then have q: "q_new k = a # qs" using assms(6) by simp
  from start_process_effect [OF assms(3-5), of "pcb_id p" "ucast (pcb_size p)"] obtain m t where
    start: "start_process (memory_side k) (pcb_id p) (ucast (pcb_size p)) = Some (m, t)"
    and rest: "mem_wf m" "safe_list_get (tables_lvl_1 (memory_side k)) (sint t) = None"
    "process_rows m t = Some (replicate (rows_of (memory_side k) * rows_of (memory_side k)) free_row)"
    "\<forall>tj rs. tj \<noteq> t \<longrightarrow> process_rows (memory_side k) tj = Some rs \<longrightarrow> process_rows m tj = Some rs"
    "frames m = frames (memory_side k)"
    by blast
  from admit_new_eq [OF assms(1,2) Nil q assms(7) start] rest show ?thesis
    unfolding Let_def signalled_def using Nil by auto
qed

lemma admission_on_memory_witness:
  "\<exists>k' t. admit memory_env queued_kernel = Some k' \<and> q_ready k' = [0] \<and>
     process_rows (memory_side k') t = Some (replicate 4 free_row)"
proof -
  have rows: "rows_of sample_start = 2" by code_simp
  show ?thesis
    using admission_on_memory [of memory_env "\<lambda>_. 0" sample_junk queued_kernel 0 "[]"]
    by (auto simp: queued_kernel_def module_kernel_fields memory_env_fields online_ok sample_start_ready
        rows Let_def)
qed



end
