(* ===== verification/Console_Properties.thy ===== *)
theory Console_Properties
  imports Console_Kernel Front_End
begin

section \<open>Properties of the console and of its way into the kernel\<close>










text \<open>C39. Identifiers are not given twice: \<open>get_pid_libre\<close> gives the least identifier that is not
  taken and takes it, or \<open>UNDEFINED\<close> when all \<open>PIDS\<close> are taken, and then it changes nothing.\<close>

theorem identifiers_are_fresh:
  assumes "length ps = PIDS" and "get_pid_libre ps = (w, ps')"
  shows "if w = UNDEFINED then ps' = ps \<and> (\<forall>v. unat v < PIDS \<longleftrightarrow> v \<in> taken ps)
    else w \<notin> taken ps \<and> taken ps' = insert w (taken ps) \<and> {v. v < w} \<subseteq> taken ps"
  using get_pid_libre_some [OF assms] get_pid_libre_none [OF assms(1)] assms
  by (auto simp: taken_def)

lemma identifiers_are_fresh_witness: "0 \<notin> taken new_pids \<and> taken (new_pids[0 := True]) = insert 0 (taken new_pids)"
  using identifiers_are_fresh [OF _ first_pid] by (simp add: new_pids_def)

text \<open>C40. The scanner that Flex generated is the rules: a file in which no run of white space or of the
  characters of a constant has 8191 characters is scanned to its end, from a buffer of any contents,
  by lines or by blocks, after any other file, and never outside the buffer; its tokens and lexical
  errors are those of the rules of \<open>console.l\<close> on the whole text, longest match first, and the line
  is that of the end of the text.\<close>

theorem file_is_scanned:
  assumes "longest is_space 0 (yyin g) < 8191" and "longest odd_char 0 (yyin g) < 8191"
  shows "\<exists>st. scan_file fresh g = Some (scan_text (yyin g), st) \<and>
    yylineno st = yylineno g + newlines (yyin g)"
  using assms by (intro file_scanned) (simp add: short_runs_def)

lemma file_is_scanned_witness:
  "\<exists>st. scan_file (\<lambda>i. CHR ''x'') (new_scanner False (''Copy 3 4x'' @ [CHR 0x0A] @ ''reap'' @ [NUL] @ ''Exit'')) =
     Some ([Tok COPY, Tok (CONSTANT ''3''), Lex_error, Lex_error, Lex_error, Lex_error, Lex_error, Lex_error,
       Tok EXIT], st) \<and> yylineno st = 2"
proof -
  define s where "s = ''Copy 3 4x'' @ [CHR 0x0A] @ ''reap'' @ [NUL] @ ''Exit''"
  have "scan_text s = [Tok COPY, Tok (CONSTANT ''3''), Lex_error, Lex_error, Lex_error, Lex_error, Lex_error,
    Lex_error, Tok EXIT]" "longest is_space 0 s = 1" "longest odd_char 0 s = 4" "newlines s = 1"
    unfolding s_def by code_simp+
  then show ?thesis
    using file_is_scanned [of "new_scanner False s" "\<lambda>i. CHR ''x''"] unfolding s_def [symmetric] by (simp add: numeral_2_eq_2)
qed

text \<open>With the whole text at hand the automaton may be as long as \<open>YYLMAX\<close>.\<close>

theorem scanner_is_rules:
  assumes "length inp \<le> n" and "length inp < 8192"
  shows "yylex n inp = Some (scan_text inp)"
  using assms by (rule yylex_scan)

end
