(* ===== verification/Spec2Isabelle.thy ===== *)
theory Spec2Isabelle
  imports Prelude Safe_List Page_Table Clock Bytes Os_Memory Swap Wire Pcb Memory_Cpu
    Memory_Kernel Memory_Invariant Memory_Reachable Page_Fault Tlb Mmu Cpu Memory_Service
    Cpu_Memory Samples Safe_Queue Pids Scheduler Kernel Kernel_Invariant Kernel_Steps Kernel_Runs
    Kernel_Progress Late_Trackers Cpu_Kernel Process_Service Kernel_Memory Console Scanner Scanner_Buffer Scanner_File
    Scanner_Stack Syntax_Error Parser_Machine Front_End Console_Kernel Thread_Manager Network Shutdown Config Modules Errors
    Uncalled Module_Properties Kernel_Properties Console_Properties
begin

text \<open>
  OS-SSKI is a small distributed operating system: a console sends a program to the kernel, the
  kernel schedules its process, a CPU runs it, and a memory module keeps its pages. The modules
  are programs that talk over sockets. This library models the C code of the four modules and of
  the library they share, and states what makes them correct.

  \<^bold>\<open>Parts.\<close> Each theory begins with a description of its own.
  \<^item> \<open>Prelude\<close>: words, arrays with undefined accesses (\<open>arr_get\<close>, \<open>arr_set\<close>), \<open>findM\<close>.
  \<^item> \<open>lib/\<close>: \<open>Safe_List\<close> and \<open>Safe_Queue\<close> (\<open>util/\<close>), \<open>Bytes\<close> (little-endian words in streams),
    \<open>Wire\<close> (\<open>connection/\<close>: packages and sockets), \<open>Pcb\<close> (\<open>instruction/\<close>, \<open>modules/pcb.c\<close>).
  \<^item> \<open>memory/\<close>: \<open>Page_Table\<close>, \<open>Clock\<close> (\<open>algorithms.c\<close>), \<open>Os_Memory\<close>, \<open>Swap\<close> (\<open>swap.c\<close>, \<open>fs.c\<close>),
    \<open>Memory_Cpu\<close> and \<open>Memory_Kernel\<close> (\<open>server/\<close>); \<open>Memory_Invariant\<close>, \<open>Memory_Reachable\<close> (the
    directories stay well-formed), \<open>Page_Fault\<close>, \<open>Memory_Service\<close> (the contract with the CPU).
  \<^item> \<open>cpu/\<close>: \<open>Tlb\<close>, \<open>Mmu\<close> (address translation and handshake), \<open>Cpu\<close> (servers and cycle);
    \<open>Cpu_Memory\<close> puts the CPU on the memory module.
  \<^item> \<open>kernel/\<close>: \<open>Pids\<close>, \<open>Scheduler\<close> (state and operations of the schedulers), \<open>Kernel\<close> (console
    threads and the step relation of the threads); \<open>Kernel_Invariant\<close>, \<open>Kernel_Steps\<close>,
    \<open>Kernel_Progress\<close> (invariant and progress), \<open>Kernel_Runs\<close> (messages and a sample run),
    \<open>Late_Trackers\<close> (trackers that outlive their PCB), \<open>Cpu_Kernel\<close> and \<open>Process_Service\<close> (the CPU
    and the memory as the kernel expects them, and what the requests of the kernel do to the memory),
    \<open>Kernel_Memory\<close> (the schedulers on the memory module, and a sample run on it).
  \<^item> \<open>console/\<close>: \<open>Console\<close> (scanner, parser, \<open>on_run\<close>), \<open>Scanner\<close> (the scanner that Flex
    generated, with its tables, against the rules of the scanner), \<open>Scanner_Buffer\<close> and
    \<open>Scanner_File\<close> (the same scanner on its buffer, which it refills from the file: a file is scanned
    as its text), \<open>Scanner_Stack\<close> (its stacks, which the console does not use), \<open>Syntax_Error\<close> and
    \<open>Parser_Machine\<close> (the parser that Bison generated on its stacks, with its messages, against its
    automaton), \<open>Front_End\<close> (the parser that calls
    the scanner, and \<open>on_run\<close> on a file), \<open>Console_Kernel\<close> (the way of a program into the kernel).
  \<^item> The programs: \<open>Thread_Manager\<close> and \<open>Network\<close> (\<open>util/thread_manager.c\<close>, \<open>connection/server.c\<close>, the
    creation of connections), \<open>Shutdown\<close> (what the kernel frees at its end), \<open>Config\<close> (\<open>common/cfg.c\<close>, \<open>log.c\<close>), \<open>Modules\<close> (\<open>main\<close>, \<open>on_init\<close>,
    \<open>on_run\<close> and \<open>on_before_exit\<close> of the four, and their handlers of signals). \<open>Errors\<close> (\<open>common/merror.c\<close>) and \<open>Uncalled\<close>:
    operations without a caller.
  \<^item> Properties: C1 to C20 here, those of the programs' start, connections and threads in
    \<open>Module_Properties\<close>, those of the kernel in \<open>Kernel_Properties\<close>, those of the console in
    \<open>Console_Properties\<close>; \<open>Samples\<close> holds the concrete states of their instances.

  \<^bold>\<open>How the state is modelled.\<close> A struct is a record, an enum a datatype with its numbers
  (\<open>opcode_num\<close>, \<open>status_num\<close>), a \<open>uint32_t\<close> a 32-bit word, a file or a socket a list of bytes. The
  memory module's state is the record \<open>memory\<close>, the CPU's \<open>cpu_t\<close>, the kernel's \<open>kernel\<close>. The kernel's
  threads share PCBs by pointer, so its PCBs are in a heap (\<open>pcb_heap\<close>), and a freed PCB is an
  address that holds none. A result \<open>None\<close> is undefined behaviour of the C code: an access out of
  bounds, through NULL or to freed memory. Uninitialised bytes are parameters (\<open>junk\<close>,
  \<open>pcb_junk\<close>, \<open>garbage\<close>).

  \<^bold>\<open>How the parts interact.\<close> A \<open>server\<close> takes its state and the bytes it is sent to its next state
  and its answer. The CPU and the kernel are defined over any such server; the locales of
  \<open>Memory_Service\<close> and \<open>Process_Service\<close> say what they rely on, and their interpretations put the
  memory module's own handlers in its place. The kernel's step \<open>returns\<close> relies on \<open>cpu_answers\<close>,
  which \<open>Cpu_Kernel\<close> shows of the CPU module. Messages are written and read by the functions of
  \<open>Wire\<close> in all of them.

  \<^bold>\<open>What the lemmas show.\<close> For the memory: the invariant of its directories over all sequences of
  requests, the effect of creation, deletion and page faults, both replacement algorithms against
  a reference, swapping. For the CPU: both replacements of its TLB, the translation of addresses
  against the page walk, reads after writes. For the kernel: the invariant of its queues,
  semaphores and PCBs over all interleavings of its threads' steps, freedom from deadlock and
  from use of freed PCBs while trackers are timely and the memory module answers, what happens when
  they are late, and what an admission, an end and a suspension do on both sides. For the
  console: its automata are its rules and its grammar, and a program becomes a process with its
  instructions. For the programs: a client keeps trying until it is connected, a server tracks
  exactly the threads of its clients (the locale \<open>registry\<close> is the contract of their manager), and
  what happens when a log, a configuration or a socket does not open.

  \<^bold>\<open>Bounds and fuel.\<close> \<open>run_pcb\<close> and \<open>routine\<close> have fuel for loops that may not end, and say whether
  they ended; \<open>yyparse\<close> has fuel that is enough for every text (\<open>parse_tokens_eq\<close>),
  and \<open>yylex\<close> for every text of fewer than \<open>YYLMAX\<close> characters (\<open>yylex_scan\<close>). \<open>connect_loop\<close>,
  \<open>yy_trans\<close>, \<open>yy_grow\<close>, \<open>yy_next\<close>, \<open>yylex_tokens\<close>, \<open>yylex_call\<close>, \<open>yyrun\<close> and \<open>destroy_loop\<close> are partial
  functions, and not ending is their value \<open>None\<close>; that the scanner ends on a file, with its 16384
  characters of buffer never too small, is part of C40, and that the parser ends on its calls, with its
  200 places of each stack never too few, is \<open>parser_runs\<close>. The other recursions end by themselves.

  \<^bold>\<open>Assumptions.\<close> A request of a client of the memory, and a step of a kernel thread from one wait
  to the next, is atomic. \<open>malloc\<close> returns an address that was not used before. A tracker reads its
  identifier when it is launched. The commons library's \<open>list_sort\<close> permutes and sorts
  (\<open>sorts_lists\<close>).

  The answers of the operating system's network calls and of the commons library (the parsing of
  a configuration file) are parameters; \<open>pthread_create\<close> succeeds.

  \<^bold>\<open>Not modelled.\<close> The contents of the log, what \<open>free\<close> releases, and a few functions that nothing calls
  (the manifest lists them by part). Memory that \<open>malloc\<close> is asked for is given, and reads of a file
  that is open do not fail.
\<close>

section \<open>The memory module\<close>

text \<open>C1. After any number of requests of its clients, in any order, the directories of the
  memory module are well-formed and no frame has two owners, as long as the tables that the
  requests may have created can be indexed by an \<open>int\<close>.\<close>

theorem memory_invariant_reachable:
  assumes "serves config env n m"
    and "unat (entradas_por_tabla config) * unat (entradas_por_tabla config) < 2 ^ 32"
    and "n + 1 < 2 ^ 31" and "(n + 1) * unat (entradas_por_tabla config) < 2 ^ 31"
  shows "tables_wf m \<and> frames_wf m \<and> max_rows m = entradas_por_tabla config"
  using serves_wf [OF assms] by (simp add: mem_wf_def)

definition sample_request :: socket where
  "sample_request = \<lparr>incoming = message MEMORY_INIT (le32 9 @ le32 8), recv_error = False,
     outgoing = [], send_error = False\<rparr>"

definition sample_served :: memory where
  "sample_served = fst (the (routine_step (\<lambda>_. 0) sample_junk sample_start sample_request))"

lemma memory_invariant_reachable_witness:
  "tables_wf sample_served \<and> frames_wf sample_served \<and> max_rows sample_served = 2"
proof -
  have step: "routine_step (\<lambda>_. 0) sample_junk sample_start sample_request =
      Some (sample_served, snd (the (routine_step (\<lambda>_. 0) sample_junk sample_start sample_request)))"
  proof -
    have "routine_step (\<lambda>_. 0) sample_junk sample_start sample_request \<noteq> None" by code_simp
    then show ?thesis by (auto simp: sample_served_def)
  qed
  have "on_init_memory sample_cfg sample_env = Some sample_start"
  proof -
    have "on_init_memory sample_cfg sample_env \<noteq> None" by code_simp
    then show ?thesis by (auto simp: sample_start_def)
  qed
  from serves.start [OF this] have "serves sample_cfg sample_env 1 sample_served"
    using serves.request [of sample_cfg sample_env 0 sample_start] step
    by (metis One_nat_def surjective_pairing)
  from memory_invariant_reachable [OF this] show ?thesis
    by (simp add: sample_cfg_def)
qed

text \<open>C2. A process is created with \<open>max_rows * max_rows\<close> free rows in tables of its own: the
  index it gets was unused, and the pages of every other process, the frames, the memory and
  the swap stay as they were.\<close>

theorem new_process_isolated:
  assumes "tables_wf m" and "has_room m"
  shows "\<exists>m' ti. create_new_process m = Some (m', ti) \<and> tables_wf m' \<and>
    safe_list_get (tables_lvl_1 m) (sint ti) = None \<and>
    process_rows m' ti = Some (replicate (rows_of m * rows_of m) free_row) \<and>
    (\<forall>tj rs. tj \<noteq> ti \<longrightarrow> process_rows m tj = Some rs \<longrightarrow> process_rows m' tj = Some rs) \<and>
    m'\<lparr>tables_lvl_1 := tables_lvl_1 m, tables_lvl_2 := tables_lvl_2 m\<rparr> = m"
proof -
  obtain m' ti where run: "create_new_process m = Some (m', ti)"
    using create_new_process_eq [OF assms] by metis
  note fresh = create_new_process_fresh [OF assms run]
  show ?thesis
    using run create_new_process_wf [OF assms run] fresh(1,2,4) fresh(3) by blast
qed

lemma new_process_isolated_witness:
  "\<exists>m' ti. create_new_process sample_memory = Some (m', ti) \<and>
    process_rows m' ti = Some (replicate 4 free_row)"
  using new_process_isolated [of sample_memory] sample_memory_values
  by (auto simp: mem_wf_def)


text \<open>C3. Deleting a process empties its slot and leaves the pages of every other process and the
  invariant; of the frames it owned exactly those in the first \<open>min max_rows max_frames\<close> rows
  of each table are given back.\<close>

theorem delete_process_effect:
  assumes "mem_wf m" and "safe_list_get (tables_lvl_1 m) (sint ti) = Some t"
  shows "\<exists>m'. delete_process m ti = Some m' \<and> mem_wf m' \<and>
    safe_list_get (tables_lvl_1 m') (sint ti) = None \<and>
    (\<forall>tj rs. tj \<noteq> ti \<longrightarrow> process_rows m tj = Some rs \<longrightarrow> process_rows m' tj = Some rs) \<and>
    (\<forall>s j f. s \<in> set (process_ids m ti) \<longrightarrow> frame_at m (sint s, j) = f \<longrightarrow> f \<noteq> INVALID_FRAME \<longrightarrow>
      arr_get (frames m') (unat f) = Some (min (rows_of m) (unat (max_frames m)) \<le> j))"
proof -
  have wf: "tables_wf m" "frames_wf m" using assms(1) by (simp_all add: mem_wf_def)
  note eq = delete_process_eq [OF wf assms(2)]
  then obtain m' where run: "delete_process m ti = Some m'" by blast
  then have "safe_list_get (tables_lvl_1 m') (sint ti) = None"
    using eq by (auto simp: safe_list_get_def)
  with run show ?thesis
    using delete_process_mem_wf [OF assms(1) run] delete_process_other [OF wf assms(2) run]
      delete_process_frees [OF wf assms(2) run] unfolding freed_rows_def by blast
qed

lemma delete_process_effect_witness:
  "\<exists>m'. delete_process sample_narrow 1 = Some m' \<and> arr_get (frames m') 0 = Some False \<and>
    arr_get (frames m') 1 = Some True"
proof -
  have h: "mem_wf sample_narrow"
    "safe_list_get (tables_lvl_1 sample_narrow) (sint (1 :: u32)) =
      Some [\<lparr>second_page = 2\<rparr>, \<lparr>second_page = 3\<rparr>]"
    "(2 :: u32) \<in> set (process_ids sample_narrow 1)"
    "frame_at sample_narrow (sint (2 :: u32), 0) = 0" "frame_at sample_narrow (sint (2 :: u32), 1) = 1"
    "rows_of sample_narrow = 2" "max_frames sample_narrow = 1"
    by code_simp+
  from delete_process_effect [OF h(1,2)] obtain m' where m': "delete_process sample_narrow 1 = Some m'"
    and f: "\<And>s j f. s \<in> set (process_ids sample_narrow 1) \<Longrightarrow> frame_at sample_narrow (sint s, j) = f \<Longrightarrow>
      f \<noteq> INVALID_FRAME \<Longrightarrow> arr_get (frames m') (unat f) =
        Some (min (rows_of sample_narrow) (unat (max_frames sample_narrow)) \<le> j)"
    by blast
  show ?thesis
    using m' f [OF h(3,4)] f [OF h(3,5)] h(6,7) by simp
qed


text \<open>C4. CLOCK returns the frame of the first page, in the cyclic order from the hand, that is
  present and not in use, and when there is none the frame in the row under the hand, whatever
  that row holds. After a match, and without one when the page under the hand is present, the hand
  is on the row after the one that was taken, which is row 0 after the last; without a match
  and with an absent page under it, the hand goes to row 0 from wherever it is. Nothing else
  changes but use bits of the process.\<close>

theorem clock_replacement:
  assumes "tables_wf m" and "process_rows m ti = Some rs" and "unat (clock m) < length rs"
  shows "\<exists>m'. clock_selector m ti = Some (m', frame (rs ! clock_victim rs (unat (clock m)))) \<and>
    clock m' = (case clock_hit rs (unat (clock m)) of
        Some j \<Rightarrow> next_hand (length rs) j
      | None \<Rightarrow> if present (rs ! unat (clock m)) then next_hand (length rs) (unat (clock m)) else 0) \<and>
    only_use_bits ti m m' \<and> tables_wf m'"
  using clock_selector_correct [OF assms] only_use_bits_wf [OF _ assms(1)]
  unfolding clock_hand_after_def by blast

lemma clock_replacement_witness:
  "\<exists>m'. clock_selector sample_memory 1 = Some (m', 0) \<and> clock m' = 1"
proof -
  have "clock_victim sample_rows 0 = 0" "clock_hit sample_rows 0 = None" "present (sample_rows ! 0)"
    "next_hand (length sample_rows) 0 = 1" "frame (sample_rows ! 0) = 0"
    by code_simp+
  then show ?thesis
    using clock_replacement [of sample_memory 1 sample_rows] sample_memory_values
    by (auto simp: mem_wf_def sample_rows_def)
qed


text \<open>C5. CLOCK improved searches the rows in the cyclic order from the hand at most three times: for a
  present page with (U=0, M=0), for one with (U=0, M=1) while it clears the use bits of the pages
  it passes, and for (U=0, M=0) again. The second search comes back to the row under the hand,
  whose use bit it has cleared, and takes its page if that is present and modified. The search for
  (U=0, M=1) is not repeated: the result is the invalid frame, and the hand stays where it is,
  exactly when the page under the hand is absent and every page that is present is in use and
  modified. Otherwise the frame of the page found is returned and the hand is on the next row.
  Nothing else changes but use bits of the process.\<close>

theorem improved_clock_replacement:
  assumes "tables_wf m" and "process_rows m ti = Some rs"
    and "unat (clock_improved m) < length rs"
  shows "(\<exists>m'. improved_clock_selector m ti =
      Some (m', case improved_clock_victim rs (unat (clock_improved m)) of
                  Some j \<Rightarrow> frame (rs ! j) | None \<Rightarrow> INVALID_FRAME) \<and>
    clock_improved m' = (case improved_clock_victim rs (unat (clock_improved m)) of
                  Some j \<Rightarrow> next_hand (length rs) j | None \<Rightarrow> clock_improved m) \<and>
    only_use_bits ti m m' \<and> tables_wf m') \<and>
    (improved_clock_victim rs (unat (clock_improved m)) = None \<longleftrightarrow>
      \<not> present (rs ! unat (clock_improved m)) \<and>
      list_all (\<lambda>r. present r \<longrightarrow> use r \<and> modified r) rs)"
proof -
  have hand: "improved_clock_hand_after rs (unat (clock_improved m)) =
      (case improved_clock_victim rs (unat (clock_improved m)) of
         Some j \<Rightarrow> next_hand (length rs) j | None \<Rightarrow> clock_improved m)"
    by (simp add: improved_clock_hand_after_def split: option.split)
  show ?thesis
    using improved_clock_selector_correct [OF assms] only_use_bits_wf [OF _ assms(1)]
      improved_clock_victim_None [OF assms(3)] unfolding hand by blast
qed

lemma improved_clock_replacement_witness:
  "\<exists>m'. improved_clock_selector sample_memory 1 = Some (m', 0) \<and> clock_improved m' = 1"
proof -
  have "improved_clock_victim sample_rows 0 = Some 0" "next_hand (length sample_rows) 0 = 1"
    "frame (sample_rows ! 0) = 0"
    by code_simp+
  then show ?thesis
    using improved_clock_replacement [of sample_memory 1 sample_rows] sample_memory_values
    by (auto simp: mem_wf_def sample_rows_def)
qed


text \<open>C6. A page fault of a process that has fewer present pages than it may have, while some frame is
  free: no page is replaced and the number returned is that of the least free frame. When the row
  asked for never had a frame, that frame is taken and written into the first row of the level II
  table that has none, which need not be the row that was asked for. When the row has a frame, its
  page was swapped out: the bitmap stays as it was, the page is brought back to the frame of its
  row with \<open>unswap_frame_for_pcb\<close>, and the number returned is still that of the free frame.\<close>

theorem page_fault_below_limit:
  assumes "mem_wf m" and "safe_list_get (tables_lvl_1 m) (sint ti) = Some t"
    and "s \<in> set (map second_page t)" and "process_rows m ti = Some rs"
    and "present_pages rs < unat (marcos_por_proceso (cfg m))"
    and "unat idx < rows_of m"
    and "\<And>row. deref_row m (sint s, unat idx) = Some row \<Longrightarrow> \<not> present row"
    and "find (\<lambda>i. \<not> frames m ! i) [0..<length (frames m)] = Some k"
  shows "if frame_at m (sint s, unat idx) = INVALID_FRAME
    then \<exists>m' j. obtain_frame m s idx pid = Some (m', word_of_nat k) \<and>
      first_empty_row m s = Some j \<and>
      update_row (m\<lparr>frames := (frames m)[k := True]\<rparr>) (sint s, j)
        (\<lambda>row. row\<lparr>present := True, frame := word_of_nat k, use := True\<rparr>) = Some m'
    else obtain_frame m s idx pid = do {
      m1 \<leftarrow> unswap_frame_for_pcb m pid (frame_at m (sint s, unat idx));
      m2 \<leftarrow> update_row m1 (sint s, unat idx) (\<lambda>row. row\<lparr>use := True\<rparr>);
      Some (m2, word_of_nat k) }"
  using page_fault_free [OF assms(1-6) _ assms(7,8)] page_fault_swapped [OF assms(1-6) _ assms(7,8)]
  by simp

lemma page_fault_below_limit_witness:
  "\<exists>m'. obtain_frame sample_two 2 1 9 = Some (m', 0) \<and>
    update_row (sample_two\<lparr>frames := (frames sample_two)[0 := True]\<rparr>) (2, 0)
      (\<lambda>row. row\<lparr>present := True, frame := 0, use := True\<rparr>) = Some m'"
proof -
  let ?t = "[\<lparr>second_page = 2\<rparr>, \<lparr>second_page = 3\<rparr>]" and ?rs = "[free_row, free_row, free_row, free_row]"
  have h: "mem_wf sample_two" "safe_list_get (tables_lvl_1 sample_two) (sint (1 :: u32)) = Some ?t"
    "(2 :: u32) \<in> set (map second_page ?t)" "process_rows sample_two 1 = Some ?rs"
    "present_pages ?rs < unat (marcos_por_proceso (cfg sample_two))"
    "unat (1 :: u32) < rows_of sample_two" "frame_at sample_two (sint (2 :: u32), unat (1 :: u32)) = INVALID_FRAME"
    "deref_row sample_two (sint (2 :: u32), unat (1 :: u32)) = Some free_row"
    "find (\<lambda>i. \<not> frames sample_two ! i) [0..<length (frames sample_two)] = Some 0"
    "first_empty_row sample_two 2 = Some 0"
    by code_simp+
  from page_fault_below_limit [OF h(1-6) _ h(9), of 9] h(7,8,10) show ?thesis by simp
qed


text \<open>C7. A page is replaced exactly when the process of the table has as many present pages as
  the configuration allows.\<close>

theorem replacement_policy:
  assumes "tables_wf m" and "safe_list_get (tables_lvl_1 m) (sint ti) = Some t"
    and "s \<in> set (map second_page t)" and "process_rows m ti = Some rs"
  shows "should_replace_frame m s =
    Some (unat (marcos_por_proceso (cfg m)) \<le> length (filter present rs))"
  using should_replace_frame_eq [OF assms] by (simp add: present_pages_def)

lemma replacement_policy_witness: "should_replace_frame sample_memory 2 = Some True"
proof -
  let ?t = "[\<lparr>second_page = 2\<rparr>, \<lparr>second_page = 3\<rparr>]"
  have h: "safe_list_get (tables_lvl_1 sample_memory) (sint (1 :: u32)) = Some ?t"
    "unat (marcos_por_proceso (cfg sample_memory)) \<le> length (filter present sample_rows)"
    by code_simp+
  show ?thesis
    using replacement_policy [OF _ h(1), of 2 sample_rows] h(2) sample_memory_values
    by (simp add: mem_wf_def)
qed


text \<open>C8. A frame that is swapped out at an offset of the file and restored from there gets only
  its first eight bytes back; the rest of the page is what the buffer of the restoring code
  happened to hold.\<close>

theorem swap_out_and_back:
  assumes "8 \<le> page_bytes m" and "get_frame_address m f = page_bytes m * unat f"
    and "page_bytes m * unat f + page_bytes m \<le> length (main_memory m)"
    and "unat off + 4 + page_bytes m \<le> length mapping"
    and "length (main_memory m') = length (main_memory m)" and "cfg m' = cfg m"
  shows "\<exists>mapping' m''. swap_frame m f mapping off =
      Some (mapping', off + word_of_nat (4 + page_bytes m)) \<and>
    restore_page m' mapping' (unat off) f = Some m'' \<and>
    read_bytes (main_memory m'') (page_bytes m * unat f) (page_bytes m) =
      Some (take 8 (drop (get_frame_address m f) (main_memory m)) @
            map (garbage (os m')) [8..<page_bytes m])"
  using assms by (rule swap_roundtrip)

lemma swap_out_and_back_witness:
  "\<exists>mapping' m''. swap_frame sample_memory 1 (replicate 20 0) 0 = Some (mapping', 20) \<and>
    restore_page sample_memory mapping' 0 1 = Some m''"
proof -
  have h: "page_bytes sample_memory = 16" "get_frame_address sample_memory 1 = 16"
    "length (main_memory sample_memory) = 64"
    by code_simp+
  show ?thesis
    using swap_out_and_back [of sample_memory 1 0 "replicate 20 0" sample_memory] h by auto
qed

text \<open>C9. The loop that serves one client ends: with more fuel than there are bytes to receive the
  run, if no access is undefined, stops because the client is gone.\<close>

theorem server_loop_ends:
  assumes "length (incoming s) < fuel" and "routine fuel junk pj m s = Some (m', s', go_on)"
  shows "\<not> go_on"
  using assms by (rule routine_ends)

lemma server_loop_ends_witness:
  "\<not> snd (snd (the (routine 5 (\<lambda>_. 0) sample_junk sample_memory
      (idle_socket\<lparr>incoming := le32 (opcode_num SZ)\<rparr>))))"
proof -
  let ?r = "routine 5 (\<lambda>_. 0) sample_junk sample_memory (idle_socket\<lparr>incoming := le32 (opcode_num SZ)\<rparr>)"
  have h: "?r \<noteq> None" "length (incoming (idle_socket\<lparr>incoming := le32 (opcode_num SZ)\<rparr>)) < 5"
    by code_simp+
  then obtain m' s' b where "?r = Some (m', s', b)" by auto
  with server_loop_ends [OF h(2) this] show ?thesis by simp
qed

section \<open>The CPU and the memory together\<close>

text \<open>C10. Over a good connection a translation of the CPU is the walk of its buffer and of the two
  levels of tables of the memory module: the requests and answers on the socket are exactly the
  computations of the module's handlers.\<close>

theorem translation_on_memory:
  assumes "conn_ok (conexion cpu)"
  shows "req_physical_address (serve_memory junk pj) junk' cpu m la =
    translate second_page_number obtain_frame cpu m la"
  using assms by (rule mem_srv.req_physical_address_eq)

lemma translation_on_memory_witness:
  "map_option fst (req_physical_address (serve_memory (\<lambda>_. 0) sample_junk) (\<lambda>_. 0)
     sample_cpu sample_memory 20) = Some 20"
proof -
  have h: "conn_ok (conexion sample_cpu)"
    "map_option fst (translate second_page_number obtain_frame sample_cpu sample_memory 20) = Some 20"
    by code_simp+
  show ?thesis using translation_on_memory [OF h(1)] h(2) by simp
qed

text \<open>C11. A CPU that writes a value to a logical address and then reads the address gets the value,
  through its buffer, the sockets and the module's handlers, and the tables and the owners of the
  frames do not change. On a miss in the buffer the page has to be in memory. On a hit the tables
  are not asked: the pair may be stale and name a frame that another page has got since, and the
  value still comes back, from that page's frame. The frame of the pair has to be some page's (C13
  says what happens otherwise), the word to lie inside the page, and the LRU counters, which a miss
  ages, not to wrap around all at once.\<close>

theorem write_then_read_logical:
  assumes "conn_ok (conexion cpu)" and "mem_wf m" and "mem_sized m"
    and "cpu_matches cpu m" and "tlb_ready (tlb cpu) (fifo_index cpu)"
    and "leads_to cpu m la f"
    and "unat (la mod page_size cpu) + 4 \<le> unat (page_size cpu)"
  shows "\<exists>cpu1 m1 cpu2 m2.
    execute_WRITE (serve_memory junk pj) junk' cpu m la v = Some (cpu1, m1) \<and>
    execute_READ (serve_memory junk pj) junk' cpu1 m1 la = Some (v, cpu2, m2) \<and> keeps m m2"
  using assms by (rule write_then_read)

text \<open>The page of address 20 is in the frame 1, and a stale pair says that it is in the frame 0.\<close>

definition stale_cpu :: cpu_t where
  "stale_cpu = sample_cpu\<lparr>tlb := \<lparr>entradas = [\<lparr>pagina = 1, marco = 0, tiempo_ult_acceso = 3\<rparr>, empty_entry],
     tlb_size = 2, replace = Replace_fifo\<rparr>\<rparr>"

lemma write_then_read_logical_witness:
  "(\<exists>cpu1 m1 cpu2 m2.
    execute_WRITE (serve_memory (\<lambda>_. 0) sample_junk) (\<lambda>_. 0) sample_cpu sample_memory 20 77 =
      Some (cpu1, m1) \<and>
    execute_READ (serve_memory (\<lambda>_. 0) sample_junk) (\<lambda>_. 0) cpu1 m1 20 = Some (77, cpu2, m2)) \<and>
   (\<exists>cpu1 m1 cpu2 m2.
    execute_WRITE (serve_memory (\<lambda>_. 0) sample_junk) (\<lambda>_. 0) stale_cpu sample_memory 20 77 =
      Some (cpu1, m1) \<and>
    execute_READ (serve_memory (\<lambda>_. 0) sample_junk) (\<lambda>_. 0) cpu1 m1 20 = Some (77, cpu2, m2))"
proof -
  have m: "mem_sized sample_memory" by code_simp
  have h: "conn_ok (conexion sample_cpu)" "cpu_matches sample_cpu sample_memory"
    "tlb_ready (tlb sample_cpu) (fifo_index sample_cpu)" "leads_to sample_cpu sample_memory 20 1"
    "unat ((20 :: u32) mod page_size sample_cpu) + 4 \<le> unat (page_size sample_cpu)"
    by code_simp+
  have h': "conn_ok (conexion stale_cpu)" "cpu_matches stale_cpu sample_memory"
    "tlb_ready (tlb stale_cpu) (fifo_index stale_cpu)" "leads_to stale_cpu sample_memory 20 0"
    "unat ((20 :: u32) mod page_size stale_cpu) + 4 \<le> unat (page_size stale_cpu)"
    by code_simp+
  show ?thesis
    using write_then_read_logical [OF h(1) sample_memory_values(1) m h(2-5), of "\<lambda>_. 0" sample_junk "\<lambda>_. 0" 77]
      write_then_read_logical [OF h'(1) sample_memory_values(1) m h'(2-5), of "\<lambda>_. 0" sample_junk "\<lambda>_. 0" 77]
    by blast
qed

text \<open>C12. A load after a store, on the physical addresses: the value at the address of the store,
  and at every other one (four bytes away or more) what the memory held before.\<close>

theorem store_then_load_physical:
  assumes "mem_wf m" and "mem_sized m" and "frame_at m q = f" and "f \<noteq> INVALID_FRAME"
    and "unat off + 4 \<le> unat (tam_pagina (cfg m))" and "pa = f * tam_pagina (cfg m) + off"
  shows "\<exists>m1 m2.
    cpu_controller_write junk m (served (le32 12 @ le32 pid @ operandos_to_stream \<lparr>op1 = pa, op2 = v\<rparr>)) =
      Some (m1, served []) \<and>
    cpu_controller_read junk m1 (served (le32 12 @ le32 pid @ operandos_to_stream \<lparr>op1 = pa, op2 = x\<rparr>)) =
      Some (m2, (served [])\<lparr>outgoing := message RD (le32 v)\<rparr>) \<and>
    (\<forall>k. k + 4 \<le> unat pa \<or> unat pa + 4 \<le> k \<longrightarrow>
      read_u32 (main_memory m2) k = read_u32 (main_memory m) k)"
  using store_then_load [OF assms, of v]
  by (auto simp: cpu_controller_write_served cpu_controller_read_served)

lemma store_then_load_physical_witness:
  "\<exists>m1. cpu_controller_write (\<lambda>_. 0) sample_memory
      (served (le32 12 @ le32 9 @ operandos_to_stream \<lparr>op1 = 20, op2 = 77\<rparr>)) = Some (m1, served []) \<and>
    cpu_controller_read (\<lambda>_. 0) m1
      (served (le32 12 @ le32 9 @ operandos_to_stream \<lparr>op1 = 20, op2 = 0\<rparr>)) \<noteq> None"
proof -
  have h: "mem_sized sample_memory" "frame_at sample_memory (2, 1) = 1" "(1 :: u32) \<noteq> INVALID_FRAME"
    "unat (4 :: u32) + 4 \<le> unat (tam_pagina (cfg sample_memory))"
    "(20 :: u32) = 1 * tam_pagina (cfg sample_memory) + 4"
    by code_simp+
  from store_then_load_physical [OF sample_memory_values(1) h, of "\<lambda>_. 0" 9 77 0]
  show ?thesis by blast
qed

text \<open>C13. An access to a frame that no page owns changes nothing: the write is dropped and the read
  answers \<open>UINT32_MAX\<close>.\<close>

theorem access_to_unowned_frame:
  assumes "mem_wf m" and "get_frame m pa = Some f" and "\<And>q. frame_at m q \<noteq> f"
    and "f \<noteq> INVALID_FRAME"
  shows "cpu_controller_write junk m (served (le32 12 @ le32 pid @ operandos_to_stream \<lparr>op1 = pa, op2 = v\<rparr>)) =
      Some (m, served []) \<and>
    cpu_controller_read junk m (served (le32 12 @ le32 pid @ operandos_to_stream \<lparr>op1 = pa, op2 = x\<rparr>)) =
      Some (m, (served [])\<lparr>outgoing := message RD (le32 UINT32_MAX)\<rparr>)"
  using access_unowned [OF assms] by (simp add: cpu_controller_write_served cpu_controller_read_served)

lemma access_to_unowned_frame_witness:
  "cpu_controller_write (\<lambda>_. 0) sample_memory
     (served (le32 12 @ le32 9 @ operandos_to_stream \<lparr>op1 = 40, op2 = 77\<rparr>)) =
   Some (sample_memory, served [])"
proof -
  have h: "get_frame sample_memory 40 = Some 2" "(2 :: u32) \<noteq> INVALID_FRAME"
    "\<not> list_ex (\<lambda>q. frame_at sample_memory q = 2) (all_refs sample_memory)"
    by code_simp+
  have "frame_at sample_memory q \<noteq> 2" for q
    using h(2,3) set_all_refs [of q sample_memory]
    by (cases "deref_row sample_memory q") (auto simp: list_ex_iff frame_at_def)
  from access_to_unowned_frame [OF sample_memory_values(1) h(1) this h(2)] show ?thesis by blast
qed

text \<open>The handshake gives the CPU the page size and the number of entries of the memory's
  configuration and leaves the memory as it was.\<close>

theorem handshake_result:
  assumes "conn_ok (conexion cpu)"
  shows "handshake (serve_memory junk pj) junk' cpu m =
    Some (cpu\<lparr>page_size := tam_pagina (cfg m),
              page_amount_entries := entradas_por_tabla (cfg m)\<rparr>, m)"
  using assms by (rule handshake_eq)

lemma handshake_result_witness:
  "map_option (\<lambda>(c, m). page_size c) (handshake (serve_memory (\<lambda>_. 0) sample_junk) (\<lambda>_. 0)
     sample_cpu sample_memory) = Some 16"
proof -
  have h: "conn_ok (conexion sample_cpu)" "tam_pagina (cfg sample_memory) = 16" by code_simp+
  show ?thesis using handshake_result [OF h(1)] h(2) by simp
qed

section \<open>The CPU\<close>

text \<open>C14. The page and the offset of a logical address, and the two entries of its page, name that
  address and no other, with the offset inside the page and the second entry inside the table.\<close>

theorem logical_address_decomposition:
  assumes "p \<noteq> 0" and "e \<noteq> 0"
  shows "\<exists>n off l1 l2. get_page_number a p = Some n \<and> get_offset a p = Some off \<and>
    get_entry_lvl_1 n e = Some l1 \<and> get_entry_lvl_2 a p e = Some l2 \<and>
    unat off < unat p \<and> unat l2 < unat e \<and>
    unat a = (unat l1 * unat e + unat l2) * unat p + unat off"
  using assms by (rule address_decomposition)

lemma logical_address_decomposition_witness:
  "\<exists>n off. get_page_number 100 16 = Some n \<and> get_offset 100 16 = Some off \<and> unat off < 16"
  using logical_address_decomposition [of 16 2 100] by auto

text \<open>C15. A look-up in the buffer finds what the list of its pairs maps the page to, and keeps the
  pairs.\<close>

theorem tlb_lookup:
  assumes "tlb_wf self"
  shows "\<exists>self'. page_in_TLB self p = Some (self', map_of (tlb_pairs self) p) \<and>
    tlb_pairs self' = tlb_pairs self \<and> tlb_wf self' \<and> replace self' = replace self"
  using assms by (rule page_in_TLB_eq)

definition sample_tlb :: tlb_t where
  "sample_tlb = \<lparr>entradas = [\<lparr>pagina = 3, marco = 7, tiempo_ult_acceso = 2\<rparr>,
      \<lparr>pagina = 5, marco = 1, tiempo_ult_acceso = 4\<rparr>], tlb_size = 2, replace = Replace_lru\<rparr>"

lemma tlb_lookup_witness: "\<exists>self'. page_in_TLB sample_tlb 5 = Some (self', Some 1)"
proof -
  have h: "tlb_wf sample_tlb" "map_of (tlb_pairs sample_tlb) 5 = Some 1" by code_simp+
  show ?thesis using tlb_lookup [OF h(1), of 5] h(2) by auto
qed

text \<open>C16. The FIFO replacement is a queue: it drops the pair that was put in first and adds the new
  one at the end.\<close>

theorem tlb_fifo_is_queue:
  assumes "tlb_wf self" and "i < length (entradas self)"
  shows "\<exists>self' i'. replace_fifo i self p f = Some (self', i') \<and> tlb_wf self' \<and>
    i' < length (entradas self') \<and> tlb_pairs self' = (tlb_pairs self)[i := (p, f)] \<and>
    replace self' = replace self \<and>
    fifo_queue self' i' = tl (fifo_queue self i) @ [(p, f)]"
  using assms by (rule replace_fifo_queue)

lemma tlb_fifo_is_queue_witness:
  "\<exists>self' i'. replace_fifo 1 sample_tlb 9 4 = Some (self', i') \<and> fifo_queue self' i' = [(3, 7), (9, 4)]"
proof -
  have h: "tlb_wf sample_tlb" "1 < length (entradas sample_tlb)"
    "tl (fifo_queue sample_tlb 1) = [(3, 7)]"
    by code_simp+
  show ?thesis using tlb_fifo_is_queue [OF h(1,2), of 9 4] h(3) by auto
qed

text \<open>C17. What the LRU replacement does to the buffer. When an entry is empty, the pair goes into the
  first empty one with its counter at 0; the entries before it age by one, the ones behind it do
  not. When none is empty, every counter ages by one and the pair goes, with its counter at 0, into
  the first of the entries with the greatest counter. The counters wrap around: when all of them do
  so at once none is greater than 0, and the code writes through an index it never set. The entry
  with the greatest counter need not be the one that was used least recently, since a hit does not
  age the entries behind the one it finds.\<close>

theorem tlb_lru_victim:
  assumes "tlb_wf self"
  shows "case find (\<lambda>j. pagina (entradas self ! j) = PAGINA_VACIA) [0..<length (entradas self)] of
      Some j \<Rightarrow> replace_lru self p f = Some (self\<lparr>entradas := map aged (take j (entradas self)) @
        \<lparr>pagina = p, marco = f, tiempo_ult_acceso = 0\<rparr> # drop (Suc j) (entradas self)\<rparr>)
    | None \<Rightarrow>
        if list_all (\<lambda>e. tiempo_ult_acceso e = UINT32_MAX) (entradas self) then replace_lru self p f = None
        else \<exists>k. oldest_entry (self\<lparr>entradas := map aged (entradas self)\<rparr>) k \<and>
          replace_lru self p f = Some (self\<lparr>entradas := (map aged (entradas self))
            [k := \<lparr>pagina = p, marco = f, tiempo_ult_acceso = 0\<rparr>]\<rparr>)"
  by (rule replace_lru_eq [OF assms])

lemma tlb_lru_victim_witness:
  "replace_lru sample_tlb 9 4 = Some (sample_tlb\<lparr>entradas := [\<lparr>pagina = 3, marco = 7, tiempo_ult_acceso = 3\<rparr>,
     \<lparr>pagina = 9, marco = 4, tiempo_ult_acceso = 0\<rparr>]\<rparr>)"
proof -
  have h: "tlb_wf sample_tlb"
    "find (\<lambda>j. pagina (entradas sample_tlb ! j) = PAGINA_VACIA) [0..<length (entradas sample_tlb)] = None"
    "\<not> list_all (\<lambda>e. tiempo_ult_acceso e = UINT32_MAX) (entradas sample_tlb)"
    "\<not> oldest_entry (sample_tlb\<lparr>entradas := map aged (entradas sample_tlb)\<rparr>) 0"
    by code_simp+
  then obtain k where k: "oldest_entry (sample_tlb\<lparr>entradas := map aged (entradas sample_tlb)\<rparr>) k"
    "replace_lru sample_tlb 9 4 = Some (sample_tlb\<lparr>entradas := (map aged (entradas sample_tlb))
      [k := \<lparr>pagina = 9, marco = 4, tiempo_ult_acceso = 0\<rparr>]\<rparr>)"
    using tlb_lru_victim [OF h(1), of 9 4] by auto
  have "k < 2" using k(1) by (simp add: oldest_entry_def sample_tlb_def)
  moreover have "k \<noteq> 0" using k(1) h(4) by (intro notI) simp
  ultimately have "k = 1" by simp
  with k(2) show ?thesis by (simp add: sample_tlb_def aged_def)
qed

text \<open>C18. A hit in the buffer decides the translation alone: whatever the server and the tables of
  the memory say, the frame of the pair is used, and the memory is not asked.\<close>

theorem tlb_hit_decides:
  assumes "tlb_wf (tlb cpu)" and "page_size cpu \<noteq> 0"
    and "map_of (tlb_pairs (tlb cpu)) (la div page_size cpu) = Some f"
  shows "\<exists>t. req_physical_address serve junk cpu m la =
      Some (f * page_size cpu + la mod page_size cpu, cpu\<lparr>tlb := t\<rparr>, m) \<and>
    tlb_pairs t = tlb_pairs (tlb cpu)"
  using page_in_TLB_hit [OF assms(1,3)] assms(2)
  by (auto simp: req_physical_address_def unat_page_parts)

lemma tlb_hit_decides_witness:
  "\<exists>t. req_physical_address (\<lambda>_ _. None) (\<lambda>_. 0) (sample_cpu\<lparr>tlb := sample_tlb\<rparr>) () 50 =
    Some (114, sample_cpu\<lparr>tlb := t\<rparr>, ())"
proof -
  have h: "tlb_wf (tlb (sample_cpu\<lparr>tlb := sample_tlb\<rparr>))"
    "page_size (sample_cpu\<lparr>tlb := sample_tlb\<rparr>) \<noteq> 0"
    "map_of (tlb_pairs (tlb (sample_cpu\<lparr>tlb := sample_tlb\<rparr>)))
      (50 div page_size (sample_cpu\<lparr>tlb := sample_tlb\<rparr>)) = Some 7"
    "page_size (sample_cpu\<lparr>tlb := sample_tlb\<rparr>) = 16"
    by code_simp+
  from tlb_hit_decides [OF h(1-3), of "\<lambda>_ _. None" "\<lambda>_. 0" "()"] h(4) show ?thesis by auto
qed

section \<open>Messages\<close>

text \<open>C19. A receiver that reads an operation code and a stream in turn takes the messages apart as
  they were sent, whatever their contents.\<close>

theorem messages_framing:
  assumes "\<not> recv_error s" and "list_all (\<lambda>(c, data). length data < 2 ^ 32) ms"
    and "incoming s = concat (map (\<lambda>(c, data). message c data) ms) @ rest"
  shows "receive_messages junk (length ms) s = map (\<lambda>(c, data). (sint (opcode_num c), data)) ms"
  using assms by (rule receive_messages_sent)

lemma messages_framing_witness:
  "receive_messages (\<lambda>_. 0) (length [(RD, [1, 2 :: byte]), (FRAME, [])])
      (idle_socket\<lparr>incoming := message RD [1, 2] @ message FRAME []\<rparr>) =
    [(sint (opcode_num RD), [1, 2]), (sint (opcode_num FRAME), [])]"
proof -
  have "length [1, 2 :: byte] < 2 ^ 32" "length ([] :: byte list) < 2 ^ 32" by code_simp+
  then show ?thesis
    using messages_framing [of "idle_socket\<lparr>incoming := message RD [1, 2] @ message FRAME []\<rparr>"
        "[(RD, [1, 2]), (FRAME, [])]" "[]" "\<lambda>_. 0"]
    by (simp add: idle_socket_def del: opcode_num.simps receive_messages.simps list.size)
qed

text \<open>What \<open>enviar_stream\<close> writes is one message, and the receiver reads its code and its bytes
  back.\<close>

theorem stream_sent_and_received:
  assumes "\<not> send_error s" and "outgoing s = []" and "length data < 2 ^ 32"
    and "\<not> recv_error r" and "incoming r = []"
  shows "\<exists>s' r'. servidor_enviar_stream c s data (length data) = Some (int (length data) + 8, s') \<and>
    servidor_recibir_operacion junk (r\<lparr>incoming := outgoing s'\<rparr>) = (sint (opcode_num c), r') \<and>
    servidor_recibir_stream junk r' = (Some (data, int (length data)), r)"
  using servidor_enviar_stream_message [of s "length data" data c] assms
    recibir_operacion_message [of "r\<lparr>incoming := message c data\<rparr>" c data "[]" junk]
    recibir_buffer_message [of "r\<lparr>incoming := le32 (word_of_nat (length data)) @ data\<rparr>" data "[]" junk]
  by (simp del: opcode_num.simps)

lemma stream_sent_and_received_witness:
  "\<exists>s'. servidor_enviar_stream RD idle_socket [1, 2, 3] (length [1, 2, 3 :: byte]) = Some (11, s')"
  using stream_sent_and_received [of idle_socket "[1, 2, 3]" idle_socket RD]
  by (auto simp: idle_socket_def)

text \<open>C20. A PCB that goes through a stream comes back with its identifier, state, page table,
  estimation, program counter and instructions and with the lower half of its size. The upper half
  of the size and the I/O and CPU times are not sent: they are what the new block of memory
  happened to hold, so the size is the one that was sent exactly when those four bytes are the
  upper half of it.\<close>

theorem pcb_stream_roundtrip:
  assumes "length (instructions pcb) < 2 ^ 32"
  shows "\<exists>sz. pcb_from_stream junk (pcb_to_stream pcb @ rest) =
      Some (pcb\<lparr>pcb_size := sz, io := junk_io junk, real_time := junk_real junk\<rparr>) \<and>
    (ucast sz :: u32) = ucast (pcb_size pcb) \<and> ucast (drop_bit 32 sz) = size_hi junk \<and>
    (sz = pcb_size pcb \<longleftrightarrow> ucast (drop_bit 32 (pcb_size pcb)) = size_hi junk)"
  using assms by (rule pcb_roundtrip)

lemma pcb_stream_roundtrip_witness:
  "pcb_from_stream sample_junk (pcb_to_stream sample_pcb @ []) = Some sample_pcb \<and>
   (\<exists>sz. pcb_from_stream (sample_junk\<lparr>size_hi := 1\<rparr>) (pcb_to_stream sample_pcb @ []) =
      Some (sample_pcb\<lparr>pcb_size := sz\<rparr>) \<and> sz \<noteq> pcb_size sample_pcb)"
proof -
  have h: "length (instructions sample_pcb) < 2 ^ 32"
    "(ucast (drop_bit 32 (pcb_size sample_pcb)) :: u32) = 0" "size_hi sample_junk = 0"
    "sample_pcb\<lparr>io := junk_io sample_junk, real_time := junk_real sample_junk\<rparr> = sample_pcb"
    by code_simp+
  have update: "p\<lparr>pcb_size := sz, io := x, real_time := y\<rparr> = (p\<lparr>io := x, real_time := y\<rparr>)\<lparr>pcb_size := sz\<rparr>"
    for p :: pcb_t and sz x y by simp
  show ?thesis
    using pcb_stream_roundtrip [OF h(1), of sample_junk "[]"]
      pcb_stream_roundtrip [OF h(1), of "sample_junk\<lparr>size_hi := 1\<rparr>" "[]"] h(2-4)
    by (auto simp: update simp del: pcb_t.update_convs)
qed

text \<open>The instructions of a program go through a stream in order, whatever follows them.\<close>

theorem program_stream_roundtrip:
  assumes "length is < 2 ^ 32"
  shows "instruction_list_from (instructions_fold is @ rest) = Some is"
  using instruction_list_roundtrip [OF assms, of rest] by (simp add: instructions_fold_eq)

lemma program_stream_roundtrip_witness:
  "instruction_list_from (instructions_fold (instructions sample_pcb) @ [0]) =
    Some (instructions sample_pcb)"
  using program_stream_roundtrip [of "instructions sample_pcb" "[0]"]
  by (simp add: sample_pcb_def)

end
